(* ===== verification/Prelude.thy ===== *)
theory Prelude
  imports Main "HOL-Library.Word"
begin

text \<open>
  Shared vocabulary of the development: the machine types of the Windows code, wide strings,
  results that carry a thrown exception, and the generic lemmas the components use.

  \<^item> \<open>DWORD\<close>, \<open>UINT\<close>, \<open>uint32_t\<close> and \<open>HRESULT\<close> are 32-bit words; a \<open>LONG\<close> is read with
    \<open>sint\<close>.  Handles and pointers are \<open>nat\<close> with 0 as \<open>nullptr\<close>.
  \<^item> \<open>char\<close> strings (UTF-8 bytes) are \<open>string\<close>; \<open>wchar_t\<close> strings are lists of 16-bit words.
  \<^item> A function that may throw returns \<open>exn + 'a\<close>.  A \<open>noexcept\<close> function out of which an
    exception would escape calls \<open>std::terminate\<close>: its result is an option and \<open>None\<close> is
    the terminated process.
\<close>

unbundle bit_operations_syntax

named_theorems res_simps \<open>unfolding rules of the result combinators\<close>

section \<open>Machine types\<close>

type_synonym dword = "32 word"
type_synonym hresult = "32 word"
type_synonym handle = nat
type_synonym wstr = "16 word list"

definition widen :: "string \<Rightarrow> wstr" where
  "widen s = map (\<lambda>c. of_nat (of_char c)) s"

lemma widen_Nil [simp]: "widen [] = []"
  by (simp add: widen_def)

lemma widen_Cons [simp]: "widen (c # s) = of_nat (of_char c) # widen s"
  by (simp add: widen_def)

lemma length_widen [simp]: "length (widen s) = length s"
  by (simp add: widen_def)

section \<open>Results of functions that may throw\<close>

definition rbind :: "'e + 'a \<Rightarrow> ('a \<Rightarrow> 'e + 'b) \<Rightarrow> 'e + 'b" where
  "rbind m f = (case m of Inl e \<Rightarrow> Inl e | Inr x \<Rightarrow> f x)"

lemma rbind_Inl [simp, res_simps]: "rbind (Inl e) f = Inl e"
  by (simp add: rbind_def)

lemma rbind_Inr [simp, res_simps]: "rbind (Inr x) f = f x"
  by (simp add: rbind_def)

lemma rbind_eq_Inr [res_simps]:
  "rbind m f = Inr y \<longleftrightarrow> (\<exists>x. m = Inr x \<and> f x = Inr y)"
  by (cases m) auto

lemma rbind_eq_Inl [res_simps]:
  "rbind m f = Inl e \<longleftrightarrow> m = Inl e \<or> (\<exists>x. m = Inr x \<and> f x = Inl e)"
  by (cases m) auto

lemma rbind_assoc: "rbind (rbind m f) g = rbind m (\<lambda>x. rbind (f x) g)"
  by (cases m) auto

definition noexcept :: "'e + 'a \<Rightarrow> 'a option" where
  "noexcept m = (case m of Inl e \<Rightarrow> None | Inr x \<Rightarrow> Some x)"

lemma noexcept_simps [simp, res_simps]:
  "noexcept (Inl e) = None"
  "noexcept (Inr x) = Some x"
  by (simp_all add: noexcept_def)

lemma noexcept_eq_Some [res_simps]: "noexcept m = Some x \<longleftrightarrow> m = Inr x"
  by (cases m) auto

section \<open>Lists\<close>

lemma removeAll_eq_self_iff: "removeAll x xs = xs \<longleftrightarrow> x \<notin> set xs"
proof
  assume "removeAll x xs = xs"
  then have "set xs = set xs - {x}" by (metis set_removeAll)
  then show "x \<notin> set xs" by blast
qed (rule removeAll_id)

lemma length_removeAll_eq_iff:
  "length (removeAll x xs) = length xs \<longleftrightarrow> x \<notin> set xs"
proof (induction xs)
  case (Cons y ys)
  have "length (removeAll x ys) \<le> length ys"
    by (rule length_removeAll_less_eq)
  with Cons show ?case by (auto simp del: length_removeAll_less_eq)
qed simp

section \<open>Words and iteration\<close>

lemma unat_drop: "unat (drop_bit k x) = unat x div 2 ^ k"
  by (subst unat_drop_bit_eq) (rule drop_bit_eq_div)

lemma unat_min: "unat (min a b) = min (unat a) (unat b)" for a b :: "'a::len word"
  by (simp add: min_def word_le_nat_alt)

lemma xor_push_eq_0: "x XOR push_bit k x = 0 \<longleftrightarrow> x = 0" if "0 < k" for x :: "'a::len word"
proof
  assume "x XOR push_bit k x = 0"
  then have eq: "push_bit k x = x" by (metis xor_self_eq bit.xor_left_self xor.right_neutral)
  have "\<not> bit x n" for n
  proof (induction n rule: less_induct)
    case (less n)
    have "bit x n \<longleftrightarrow> bit (push_bit k x) n" using eq by simp
    then show ?case using less that by (auto simp: bit_simps)
  qed
  then show "x = 0" by (simp add: bit_eq_iff)
qed simp

lemma xor_drop_eq_0: "x XOR drop_bit k x = 0 \<longleftrightarrow> x = 0" if "0 < k" for x :: "'a::len word"
proof
  assume "x XOR drop_bit k x = 0"
  then have eq: "drop_bit k x = x" by (metis xor_self_eq bit.xor_left_self xor.right_neutral)
  have "\<not> bit x n" for n
  proof (induction "LENGTH('a) - n" arbitrary: n rule: less_induct)
    case less
    have "bit x n \<longleftrightarrow> bit x (k + n)" using arg_cong [OF eq, of "\<lambda>y. bit y n"] by (simp add: bit_simps)
    moreover have "bit x n \<Longrightarrow> n < LENGTH('a)" by (rule bit_imp_le_length)
    ultimately show ?case using less [of "k + n"] that by (metis diff_less_mono2 less_add_same_cancel2)
  qed
  then show "x = 0" by (simp add: bit_eq_iff)
qed simp

lemma xor_eq_0: "x XOR y = 0 \<longleftrightarrow> x = y" for x y :: "'a::len word"
  by (auto simp: bit_eq_iff bit_simps)

lemma xor_push_inj: "x XOR push_bit k x = y XOR push_bit k y \<longleftrightarrow> x = y" if "0 < k" for x y :: "'a::len word"
proof
  assume eq: "x XOR push_bit k x = y XOR push_bit k y"
  have "(x XOR y) XOR push_bit k (x XOR y) = (x XOR push_bit k x) XOR (y XOR push_bit k y)"
    by (simp only: push_bit_xor ac_simps)
  also have "\<dots> = 0" unfolding eq by (rule xor_self_eq)
  finally show "x = y" using xor_push_eq_0 [OF that, of "x XOR y"] xor_eq_0 [of x y] by simp
qed simp

lemma xor_drop_inj: "x XOR drop_bit k x = y XOR drop_bit k y \<longleftrightarrow> x = y" if "0 < k" for x y :: "'a::len word"
proof
  assume eq: "x XOR drop_bit k x = y XOR drop_bit k y"
  have "(x XOR y) XOR drop_bit k (x XOR y) = (x XOR drop_bit k x) XOR (y XOR drop_bit k y)"
    by (simp only: drop_bit_xor ac_simps)
  also have "\<dots> = 0" unfolding eq by (rule xor_self_eq)
  finally show "x = y" using xor_drop_eq_0 [OF that, of "x XOR y"] xor_eq_0 [of x y] by simp
qed simp

lemma mult_odd_inj: "x * c = y * c \<longleftrightarrow> x = y" if "c * i = 1" for x y c i :: "'a::len word"
  using that by (metis mult.assoc mult.right_neutral)

lemma xor_left_inj: "a XOR c = b XOR c \<longleftrightarrow> a = b" for a b c :: "'a::len word"
  by (metis xor.assoc xor.right_neutral xor_self_eq)

lemma iterate_inj:
  fixes f :: "'a \<Rightarrow> 'a"
  assumes "\<And>x y. f x = f y \<longleftrightarrow> x = y"
  shows "(f ^^ n) x = (f ^^ n) y \<longleftrightarrow> x = y"
  by (induction n) (simp_all add: assms)

lemma iterate_fix: "f z = z \<Longrightarrow> (f ^^ n) z = z"
  by (induction n) simp_all

end
