(* ===== verification/Float32.thy ===== *)
theory Float32
  imports Complex_Main Prelude "HOL-Library.Log_Nat"
begin

text \<open>
  The C++ \<open>float\<close> of the program: IEEE 754 binary32 as its 32 bits, so that the bitwise operators of
  the vector classes act on it as they do on an SSE register.  \<open>f32_val\<close> is the value of a finite
  pattern, \<open>f32_round\<close> rounds a rational to nearest, ties to even, and every arithmetic operation
  is the rounded exact result (the IEEE definition, in the default rounding mode the program runs
  in).  NaN results are the default quiet NaN.
\<close>

type_synonym f32 = "32 word"

section \<open>Rounding to nearest even\<close>

definition rne :: "rat \<Rightarrow> int" where
  "rne x = (let n = \<lfloor>x\<rfloor>; d = x - of_int n in
     if d < 1 / 2 then n else if 1 / 2 < d then n + 1 else if even n then n else n + 1)"

lemma rne_of_int [simp]: "rne (of_int n) = n"
  by (simp add: rne_def)

lemma rne_numeral [simp]: "rne 0 = 0" "rne 1 = 1" "rne (numeral k) = numeral k" "rne (of_nat n) = int n"
  using rne_of_int [of 0] rne_of_int [of 1] rne_of_int [of "numeral k"] rne_of_int [of "int n"]
  by simp_all

lemma rne_floor: "\<lfloor>x\<rfloor> \<le> rne x" "rne x \<le> \<lfloor>x\<rfloor> + 1"
  by (simp_all add: rne_def Let_def)

lemma rne_mono:
  assumes "x \<le> y"
  shows "rne x \<le> rne y"
proof (cases "\<lfloor>x\<rfloor> = \<lfloor>y\<rfloor>")
  case True
  then show ?thesis using assms by (auto simp: rne_def Let_def)
next
  case False
  then have "\<lfloor>x\<rfloor> + 1 \<le> \<lfloor>y\<rfloor>" using floor_mono [OF assms] by linarith
  then show ?thesis using rne_floor(2) [of x] rne_floor(1) [of y] by linarith
qed

lemma rne_add_even:
  assumes "even n"
  shows "rne (x + of_int n) = rne x + n"
  using assms by (auto simp: rne_def Let_def)

lemma rne_bounds_int: "of_int a \<le> x \<Longrightarrow> a \<le> rne x" "x \<le> of_int b \<Longrightarrow> rne x \<le> b"
  using rne_mono [of "of_int a" x] rne_mono [of x "of_int b"] by simp_all

lemma rne_error: "\<bar>of_int (rne x) - x\<bar> \<le> 1 / 2"
proof -
  have "of_int \<lfloor>x\<rfloor> \<le> x" "x < of_int \<lfloor>x\<rfloor> + 1" by linarith+
  then show ?thesis by (auto simp: rne_def Let_def)
qed

section \<open>The exponent of a positive rational\<close>

abbreviation two_to :: "int \<Rightarrow> rat" where "two_to e \<equiv> 2 powi e"

definition expo :: "rat \<Rightarrow> int" where
  "expo x = (let (p, q) = quotient_of x;
                 e = int (floorlog 2 (nat p)) - int (floorlog 2 (nat q)) in
             if two_to e \<le> x then e else e - 1)"

lemma two_to_pos [simp]: "0 < two_to e"
  by simp

lemma two_to_mono: "e \<le> e' \<Longrightarrow> two_to e \<le> two_to e'"
  by (rule power_int_increasing) simp_all

lemma two_to_strict: "e < e' \<Longrightarrow> two_to e < two_to e'"
  by (rule power_int_strict_increasing) simp_all

lemma two_to_add: "two_to (a + b) = two_to a * two_to b"
  by (simp add: power_int_add)

lemma floorlog2_nat:
  assumes "0 < n"
  shows "two_to (int (floorlog 2 n) - 1) \<le> of_nat n" "of_nat n < two_to (int (floorlog 2 n))"
proof -
  have *: "2 ^ (floorlog 2 n - 1) \<le> n" "n < 2 ^ floorlog 2 n" "0 < floorlog 2 n"
    using floorlog_bounds [of n 2] assms by (auto simp: floorlog_def)
  have "(2::rat) ^ (floorlog 2 n - 1) \<le> of_nat n" "of_nat n < (2::rat) ^ floorlog 2 n"
    using of_nat_mono [OF *(1), where 'a = rat] of_nat_less_iff [where 'a = rat, THEN iffD2, OF *(2)]
    by (simp_all only: of_nat_power of_nat_numeral)
  moreover have "two_to (int (floorlog 2 n) - 1) = 2 ^ (floorlog 2 n - 1)"
    using *(3) by (simp add: power_int_def nat_diff_distrib)
  ultimately show "two_to (int (floorlog 2 n) - 1) \<le> of_nat n" "of_nat n < two_to (int (floorlog 2 n))"
    by simp_all
qed

lemma expo_bounds:
  assumes "0 < x"
  shows "two_to (expo x) \<le> x" "x < two_to (expo x + 1)"
proof -
  obtain p q where pq: "quotient_of x = (p, q)" by (cases "quotient_of x")
  have q: "0 < q" using quotient_of_denom_pos [OF pq] .
  have x: "x = of_int p / of_int q" using quotient_of_div [OF pq] .
  have p: "0 < p" using assms q x by (simp add: zero_less_divide_iff)
  define lp lq where "lp = int (floorlog 2 (nat p))" and "lq = int (floorlog 2 (nat q))"
  have P: "two_to (lp - 1) \<le> of_int p" "of_int p < two_to lp"
    using floorlog2_nat [of "nat p"] p by (simp_all add: lp_def)
  have Q: "two_to (lq - 1) \<le> of_int q" "of_int q < two_to lq"
    using floorlog2_nat [of "nat q"] q by (simp_all add: lq_def)
  have "x * two_to (lq - 1) \<le> x * of_int q"
    using Q(1) assms by simp
  also have "\<dots> = of_int p" using x q by simp
  also have "of_int p < two_to (lp - lq + 1) * two_to (lq - 1)"
    using P(2) by (simp flip: two_to_add)
  finally have up: "x < two_to (lp - lq + 1)" by simp
  have "two_to (lp - lq - 1) * of_int q \<le> two_to (lp - lq - 1) * two_to lq"
    using Q(2) by simp
  also have "\<dots> = two_to (lp - 1)" by (simp flip: two_to_add)
  also have "\<dots> \<le> of_int p" using P(1) .
  also have "of_int p = x * of_int q" using x q by simp
  finally have low: "two_to (lp - lq - 1) \<le> x"
    using q mult_le_cancel_right_pos [of "of_int q" "two_to (lp - lq - 1)" x] by simp
  have "expo x = (if two_to (lp - lq) \<le> x then lp - lq else lp - lq - 1)"
    by (simp add: expo_def pq lp_def lq_def)
  then show "two_to (expo x) \<le> x" "x < two_to (expo x + 1)" using low up by auto
qed

lemma expo_unique:
  assumes "two_to e \<le> x" "x < two_to (e + 1)"
  shows "expo x = e"
proof -
  have "0 < x" using assms(1) two_to_pos [of e] by linarith
  note b = expo_bounds [OF this]
  have "\<not> expo x < e"
    using b(2) assms(1) two_to_mono [of "expo x + 1" e] by force
  moreover have "\<not> e < expo x"
    using b(1) assms(2) two_to_mono [of "e + 1" "expo x"] by force
  ultimately show ?thesis by linarith
qed

lemma expo_mono:
  assumes "0 < x" "x \<le> y"
  shows "expo x \<le> expo y"
proof (rule ccontr)
  assume "\<not> expo x \<le> expo y"
  then have "two_to (expo y + 1) \<le> two_to (expo x)" by (intro two_to_mono) simp
  then show False using expo_bounds [of x] expo_bounds [of y] assms by force
qed


section \<open>Magnitudes: the low 31 bits\<close>

text \<open>A finite magnitude below \<open>255 * 2 ^ 23\<close> is read as subnormal (exponent field 0) or normal; the
  rounding of a positive rational counts its units in the last place, saturating at infinity.\<close>

definition inf_mag :: nat where "inf_mag = 255 * 2 ^ 23"

definition mag_val :: "nat \<Rightarrow> rat" where
  "mag_val m = (let e = m div 2 ^ 23; f = m mod 2 ^ 23 in
     if e = 0 then of_nat f * two_to (- 149)
     else of_nat (2 ^ 23 + f) * two_to (int e - 150))"

definition ulp_exp :: "rat \<Rightarrow> int" where
  "ulp_exp x = max (expo x - 23) (- 149)"

definition round_mag :: "rat \<Rightarrow> nat" where
  "round_mag x = (if x \<le> 0 then 0
     else let q = ulp_exp x in
       min inf_mag (nat (q + 149) * 2 ^ 23 + nat (rne (x / two_to q))))"

lemma ulp_exp_mono: "0 < x \<Longrightarrow> x \<le> y \<Longrightarrow> ulp_exp x \<le> ulp_exp y"
  using expo_mono [of x y] by (simp add: ulp_exp_def)

lemma two_to_powers: "two_to 23 = 8388608" "two_to 24 = 16777216"
  by simp_all

lemma scaled_bounds:
  assumes "0 < x"
  shows "0 < x / two_to (ulp_exp x)" "x / two_to (ulp_exp x) < 2 ^ 24"
    and "ulp_exp x \<noteq> - 149 \<Longrightarrow> 2 ^ 23 \<le> x / two_to (ulp_exp x)"
proof -
  note b = expo_bounds [OF assms]
  show "0 < x / two_to (ulp_exp x)" using assms by simp
  have "x < two_to (24 + ulp_exp x)"
    using b(2) two_to_mono [of "expo x + 1" "24 + ulp_exp x"] by (force simp: ulp_exp_def)
  then show "x / two_to (ulp_exp x) < 2 ^ 24"
    by (simp add: two_to_add divide_less_eq)
  assume "ulp_exp x \<noteq> - 149"
  then have "expo x = 23 + ulp_exp x" by (simp add: ulp_exp_def max_def split: if_splits)
  then show "2 ^ 23 \<le> x / two_to (ulp_exp x)"
    using b(1) by (simp add: two_to_add le_divide_eq)
qed

lemma rne_scaled_bounds:
  assumes "0 < x"
  shows "0 \<le> rne (x / two_to (ulp_exp x))" "rne (x / two_to (ulp_exp x)) \<le> 2 ^ 24"
    and "ulp_exp x \<noteq> - 149 \<Longrightarrow> 2 ^ 23 \<le> rne (x / two_to (ulp_exp x))"
  using scaled_bounds [OF assms] rne_bounds_int(1) [of 0 "x / two_to (ulp_exp x)"]
    rne_bounds_int(2) [of "x / two_to (ulp_exp x)" "2 ^ 24"]
    rne_bounds_int(1) [of "2 ^ 23" "x / two_to (ulp_exp x)"]
  by simp_all

lemma round_mag_le_inf [simp]: "round_mag x \<le> inf_mag"
  by (simp add: round_mag_def Let_def)

lemma round_mag_0 [simp]: "round_mag 0 = 0"
  by (simp add: round_mag_def)

lemma round_mag_mono:
  assumes "x \<le> y"
  shows "round_mag x \<le> round_mag y"
proof (cases "0 < x")
  case False
  then show ?thesis by (simp add: round_mag_def)
next
  case x: True
  then have y: "0 < y" using assms by simp
  define qx qy where "qx = ulp_exp x" and "qy = ulp_exp y"
  have q: "- 149 \<le> qx" "qx \<le> qy"
    using ulp_exp_mono [OF x assms] by (simp_all add: qx_def qy_def ulp_exp_def)
  have "nat (qx + 149) * 2 ^ 23 + nat (rne (x / two_to qx))
      \<le> nat (qy + 149) * 2 ^ 23 + nat (rne (y / two_to qy))"
  proof (cases "qx = qy")
    case True
    then show ?thesis
      using assms rne_mono [of "x / two_to qx" "y / two_to qx"] by (simp add: divide_right_mono)
  next
    case False
    then have lt: "qx < qy" using q by simp
    have rx: "nat (rne (x / two_to qx)) \<le> 2 ^ 24"
      using rne_scaled_bounds(2) [OF x] by (simp add: qx_def)
    have ry: "2 ^ 23 \<le> nat (rne (y / two_to qy))"
      using rne_scaled_bounds(3) [OF y] lt q by (simp add: qy_def)
    have "nat (qx + 149) + 1 \<le> nat (qy + 149)" using lt q by linarith
    then have "(nat (qx + 149) + 1) * 2 ^ 23 \<le> nat (qy + 149) * 2 ^ 23"
      by (rule mult_right_mono) simp
    then show ?thesis using rx ry by simp
  qed
  then show ?thesis using x y unfolding round_mag_def Let_def qx_def qy_def by simp
qed

text \<open>Every finite magnitude is the rounding of its own value.\<close>

lemma mag_val_pos: "0 < m \<Longrightarrow> 0 < mag_val m"
  by (auto simp: mag_val_def Let_def intro!: mult_pos_pos simp flip: of_nat_0_less_iff)

lemma mag_val_0 [simp]: "mag_val 0 = 0"
  by (simp add: mag_val_def)

lemma mag_val_nonneg [simp]: "0 \<le> mag_val m"
  by (cases m) (simp_all add: mag_val_pos less_imp_le)

lemma ulp_exp_unique:
  assumes "of_nat n * two_to q = x" "2 ^ 23 \<le> n" "n < 2 ^ 24" "- 149 \<le> q"
  shows "ulp_exp x = q"
proof -
  have "two_to (23 + q) \<le> x"
    using assms(1,2) of_nat_mono [of "2 ^ 23" n, where 'a = rat] by (auto simp: two_to_add)
  moreover have "x < two_to (23 + q + 1)"
  proof -
    have "two_to (23 + q + 1) = 16777216 * two_to q"
      by (simp add: two_to_add)
    then show ?thesis
      using assms(1,3) of_nat_less_iff [of n "2 ^ 24", where 'a = rat] by auto
  qed
  ultimately have "expo x = 23 + q" by (rule expo_unique)
  then show ?thesis using assms(4) by (simp add: ulp_exp_def)
qed

lemma ulp_exp_small:
  assumes "0 < x" "x < two_to (- 126)"
  shows "ulp_exp x = - 149"
proof -
  have "expo x < - 126"
    using expo_bounds(1) [OF assms(1)] assms(2) two_to_mono [of "- 126" "expo x"] by force
  then show ?thesis by (simp add: ulp_exp_def)
qed

lemma round_mag_mag_val:
  assumes "m < inf_mag"
  shows "round_mag (mag_val m) = m"
proof (cases "m = 0")
  case False
  then have pos: "0 < mag_val m" by (simp add: mag_val_pos)
  define e f where "e = m div 2 ^ 23" and "f = m mod 2 ^ 23"
  have m: "m = e * 2 ^ 23 + f" "f < 2 ^ 23" by (simp_all add: e_def f_def)
  show ?thesis
  proof (cases "e = 0")
    case True
    then have v: "mag_val m = of_nat f * two_to (- 149)"
      by (simp add: mag_val_def e_def f_def)
    have "of_nat f < (2::rat) ^ 23" using m(2) of_nat_less_iff [of f "2 ^ 23", where 'a = rat] by simp
    then have "mag_val m < 2 ^ 23 * two_to (- 149)" unfolding v by simp
    also have "\<dots> = two_to (23 + - 149)" by (simp only: two_to_add) simp
    finally have "ulp_exp (mag_val m) = - 149" using ulp_exp_small pos by simp
    then show ?thesis
      using pos assms True m v by (simp add: round_mag_def Let_def)
  next
    case e: False
    then have v: "mag_val m = of_nat (2 ^ 23 + f) * two_to (int e - 150)"
      by (simp add: mag_val_def e_def f_def)
    have "ulp_exp (mag_val m) = int e - 150"
      using ulp_exp_unique [of "2 ^ 23 + f" "int e - 150"] v m(2) e by simp
    moreover have "rne (mag_val m / two_to (int e - 150)) = int (2 ^ 23 + f)"
    proof -
      have "mag_val m / two_to (int e - 150) = of_nat (2 ^ 23 + f)" unfolding v by simp
      then show ?thesis by (simp only: rne_numeral(4))
    qed
    moreover have "nat (int e - 150 + 149) * 2 ^ 23 + (2 ^ 23 + f) = m"
    proof -
      obtain k where k: "e = Suc k" using e by (cases e) simp_all
      show ?thesis unfolding m(1) k by simp
    qed
    ultimately show ?thesis
      using pos assms by (simp add: round_mag_def Let_def)
  qed
qed simp


lemma mag_val_enc:
  assumes "- 149 \<le> u" "k \<le> 2 ^ 24" "u \<noteq> - 149 \<Longrightarrow> 2 ^ 23 \<le> k"
  shows "mag_val (nat (u + 149) * 2 ^ 23 + k) = of_nat k * two_to u"
proof -
  define E where "E = nat (u + 149)"
  have u: "u = int E - 149" using assms(1) by (simp add: E_def)
  consider "k < 2 ^ 23" | "2 ^ 23 \<le> k" "k < 2 ^ 24" | "k = 2 ^ 24"
    using assms(2) by linarith
  then show ?thesis
  proof cases
    case 1
    then have "E = 0" using assms(3) u by force
    then show ?thesis using 1 u by (simp add: mag_val_def)
  next
    case 2
    then obtain f where f: "k = 2 ^ 23 + f" "f < 2 ^ 23"
      using le_Suc_ex [of "2 ^ 23" k] by auto
    then have "(E * 2 ^ 23 + k) div 2 ^ 23 = Suc E" "(E * 2 ^ 23 + k) mod 2 ^ 23 = f" by simp_all
    then show ?thesis
      unfolding E_def [symmetric] u by (simp add: mag_val_def f(1) del: mult_numeral_1)
  next
    case 3
    then have "(E * 2 ^ 23 + k) div 2 ^ 23 = Suc (Suc E)" "(E * 2 ^ 23 + k) mod 2 ^ 23 = 0"
      by simp_all
    moreover have "two_to (int (Suc (Suc E)) - 150) = 2 * two_to (int E - 149)"
      using two_to_add [of 1 "int E - 149"] by (simp add: algebra_simps)
    ultimately show ?thesis
      unfolding E_def [symmetric] u by (simp add: mag_val_def 3)
  qed
qed

lemma mag_val_round_mag:
  assumes "0 < x" "round_mag x < inf_mag"
  shows "mag_val (round_mag x) = of_int (rne (x / two_to (ulp_exp x))) * two_to (ulp_exp x)"
proof -
  let ?u = "ulp_exp x" and ?k = "nat (rne (x / two_to (ulp_exp x)))"
  have k: "0 \<le> rne (x / two_to ?u)" "?k \<le> 2 ^ 24" "?u \<noteq> - 149 \<Longrightarrow> 2 ^ 23 \<le> ?k"
    using rne_scaled_bounds [OF assms(1)] by auto
  have "round_mag x = nat (?u + 149) * 2 ^ 23 + ?k"
    using assms by (simp add: round_mag_def Let_def min_def split: if_splits)
  then have "mag_val (round_mag x) = of_nat ?k * two_to ?u"
    using mag_val_enc [OF _ k(2,3)] by (simp add: ulp_exp_def)
  then show ?thesis using k(1) by simp
qed

lemma round_mag_exact:
  assumes "x = of_nat n * two_to q" "n < 2 ^ 24" "- 149 \<le> q" "round_mag x < inf_mag"
  shows "mag_val (round_mag x) = x"
proof (cases "n = 0")
  case False
  then have pos: "0 < x" using assms(1) by simp
  have "x < two_to (24 + q)"
    using assms(1,2) of_nat_less_iff [of n "2 ^ 24", where 'a = rat] by (simp add: two_to_add)
  then have "expo x < 24 + q"
    using expo_bounds(1) [OF pos] two_to_mono [of "24 + q" "expo x"] by force
  then have le: "ulp_exp x \<le> q" using assms(3) by (simp add: ulp_exp_def)
  define u where "u = ulp_exp x"
  define c :: int where "c = int n * 2 ^ nat (q - u)"
  have "two_to q = 2 ^ nat (q - u) * two_to u"
    using le two_to_add [of "q - u" u] by (simp add: power_int_nonneg_exp u_def)
  then have x: "x = of_int c * two_to u"
    unfolding assms(1) c_def by simp
  then have "x / two_to u = of_int c" by simp
  then have "rne (x / two_to u) = c" by (simp only: rne_of_int)
  then show ?thesis
    using mag_val_round_mag [OF pos assms(4)] x unfolding u_def by simp
qed (use assms in simp)

lemma round_mag_finite:
  assumes "x < two_to 127"
  shows "round_mag x < inf_mag"
proof (cases "0 < x")
  case True
  have "expo x < 127"
    using expo_bounds(1) [OF True] assms two_to_mono [of 127 "expo x"] by force
  then have "ulp_exp x \<le> 103" by (simp add: ulp_exp_def)
  then have "nat (ulp_exp x + 149) * 2 ^ 23 \<le> 252 * 2 ^ 23"
    by (intro mult_right_mono) simp_all
  moreover have "nat (rne (x / two_to (ulp_exp x))) \<le> 2 ^ 24"
    using rne_scaled_bounds(2) [OF True] by simp
  ultimately show ?thesis
    unfolding round_mag_def Let_def inf_mag_def min_def by simp
qed (simp add: round_mag_def inf_mag_def)

lemma round_mag_of_nat:
  assumes "n \<le> 2 ^ 24"
  shows "round_mag (of_nat n) < inf_mag" "mag_val (round_mag (of_nat n)) = of_nat n"
proof -
  have "of_nat n \<le> (2::rat) ^ 24" using of_nat_mono [OF assms, where 'a = rat] by simp
  also have "\<dots> < two_to 127" by simp
  finally show fin: "round_mag (of_nat n) < inf_mag" by (rule round_mag_finite)
  show "mag_val (round_mag (of_nat n)) = of_nat n"
  proof (cases "n = 2 ^ 24")
    case True
    then show ?thesis using round_mag_exact [of "of_nat n" "2 ^ 23" 1] fin by simp
  next
    case False
    then show ?thesis using round_mag_exact [of "of_nat n" n 0] fin assms by simp
  qed
qed


lemma mag_val_less:
  assumes "m' < inf_mag" "m < m'"
  shows "mag_val m < mag_val m'"
proof (rule ccontr)
  assume "\<not> mag_val m < mag_val m'"
  then have "round_mag (mag_val m') \<le> round_mag (mag_val m)"
    by (intro round_mag_mono) simp
  then have "m' \<le> m"
    using assms round_mag_mag_val [of m] round_mag_mag_val [of m'] by simp
  then show False using assms(2) by simp
qed

lemma mag_val_less_iff:
  assumes "m < inf_mag" "m' < inf_mag"
  shows "mag_val m < mag_val m' \<longleftrightarrow> m < m'"
  using mag_val_less [OF assms(2), of m] mag_val_less [OF assms(1), of m']
  by (cases m m' rule: linorder_cases) auto

lemma mag_val_mono:
  assumes "m \<le> m'" "m' \<le> inf_mag"
  shows "mag_val m \<le> mag_val m'"
proof (cases "m = m' \<or> m' < inf_mag")
  case True
  then show ?thesis using assms(1) mag_val_less [of m' m] by (cases "m = m'") auto
next
  case False
  then have m: "m' = inf_mag" "m \<le> inf_mag - 1" using assms by auto
  have "mag_val m \<le> mag_val (inf_mag - 1)"
    using m(2) mag_val_less [of "inf_mag - 1" m]
    by (cases "m = inf_mag - 1") (auto simp: inf_mag_def)
  also have "\<dots> \<le> mag_val inf_mag"
    by (simp add: mag_val_def inf_mag_def)
  finally show ?thesis using m(1) by simp
qed

section \<open>The 32 bits\<close>

definition f32_sign :: "f32 \<Rightarrow> bool" where "f32_sign w = bit w 31"
definition f32_mag :: "f32 \<Rightarrow> nat" where "f32_mag w = unat (w AND 0x7FFFFFFF)"

definition f32_of :: "bool \<Rightarrow> nat \<Rightarrow> f32" where
  "f32_of s m = (if s then 0x80000000 OR of_nat m else of_nat m)"

definition f32_nan :: "f32 \<Rightarrow> bool" where "f32_nan w \<longleftrightarrow> inf_mag < f32_mag w"
definition f32_inf :: "f32 \<Rightarrow> bool" where "f32_inf w \<longleftrightarrow> f32_mag w = inf_mag"
definition f32_finite :: "f32 \<Rightarrow> bool" where "f32_finite w \<longleftrightarrow> f32_mag w < inf_mag"

definition f32_val :: "f32 \<Rightarrow> rat" where
  "f32_val w = (if f32_sign w then - mag_val (f32_mag w) else mag_val (f32_mag w))"

definition f32_round :: "bool \<Rightarrow> rat \<Rightarrow> f32" where
  "f32_round s x = f32_of (x < 0 \<or> x = 0 \<and> s) (round_mag \<bar>x\<bar>)"

lemma f32_of_fields:
  assumes "m < 2 ^ 31"
  shows "f32_mag (f32_of s m) = m" "f32_sign (f32_of s m) = s"
proof -
  have "take_bit 31 (of_nat m :: f32) = of_nat m"
    using assms by (simp add: take_bit_of_nat take_bit_nat_eq_self)
  then have and_m: "(of_nat m :: f32) AND 0x7FFFFFFF = of_nat m"
    by (simp add: take_bit_eq_mask mask_numeral)
  have um: "unat (of_nat m :: f32) = m"
    using assms by (simp add: unat_of_nat take_bit_nat_eq_self)
  have no31: "\<not> bit (of_nat m :: f32) 31"
    using assms by (simp add: bit_simps bit_iff_odd [where a = m])
  have hi: "(0x80000000 OR x) AND 0x7FFFFFFF = x AND (0x7FFFFFFF :: f32)" for x
    by (simp add: bit.conj_disj_distrib2)
  show "f32_mag (f32_of s m) = m"
    by (simp add: f32_mag_def f32_of_def hi and_m um)
  show "f32_sign (f32_of s m) = s"
    using no31 by (simp add: f32_sign_def f32_of_def bit_simps)
qed

lemma inf_mag_bound: "inf_mag < 2 ^ 31"
  by (simp add: inf_mag_def)

lemma f32_of_mag [simp]:
  "m \<le> inf_mag \<Longrightarrow> f32_mag (f32_of s m) = m" "m \<le> inf_mag \<Longrightarrow> f32_sign (f32_of s m) = s"
  using f32_of_fields inf_mag_bound by (meson order_le_less_trans)+

lemma f32_finite_round:
  assumes "\<bar>x\<bar> < two_to 127"
  shows "f32_finite (f32_round s x)"
  using round_mag_finite [OF assms] by (simp add: f32_round_def f32_finite_def)

lemma f32_finite_not_nan [simp]: "f32_finite w \<Longrightarrow> \<not> f32_nan w" "f32_finite w \<Longrightarrow> \<not> f32_inf w"
  by (simp_all add: f32_finite_def f32_nan_def f32_inf_def)

lemma f32_val_round:
  "f32_val (f32_round s x) = (if x < 0 then - mag_val (round_mag (- x)) else mag_val (round_mag x))"
  by (auto simp: f32_val_def f32_round_def)

lemma f32_val_round_mono:
  assumes "x \<le> y"
  shows "f32_val (f32_round s x) \<le> f32_val (f32_round s' y)"
proof -
  have mono: "mag_val (round_mag a) \<le> mag_val (round_mag b)" if "a \<le> b" for a b
    using mag_val_mono [OF round_mag_mono [OF that]] by simp
  consider "x < 0" "y < 0" | "x < 0" "0 \<le> y" | "0 \<le> x" "0 \<le> y"
    using assms by linarith
  then show ?thesis
  proof cases
    case 2
    have "- mag_val (round_mag (- x)) \<le> mag_val (round_mag y)"
      using mag_val_nonneg [of "round_mag (- x)"] mag_val_nonneg [of "round_mag y"] by linarith
    then show ?thesis using 2 by (simp add: f32_val_round)
  qed (use assms mono in \<open>simp_all add: f32_val_round\<close>)
qed


lemma f32_val_round_nat:
  assumes "n \<le> 2 ^ 24"
  shows "f32_val (f32_round s (of_nat n)) = of_nat n"
  using round_mag_of_nat [OF assms] by (simp add: f32_val_round)

lemma f32_val_round_int:
  assumes "\<bar>i\<bar> \<le> 2 ^ 24"
  shows "f32_val (f32_round s (of_int i)) = of_int i" "f32_finite (f32_round s (of_int i))"
proof -
  have n: "of_nat (nat i) = (of_int i :: rat)" if "0 \<le> i" using that by simp
  have m: "of_nat (nat (- i)) = (- of_int i :: rat)" if "i < 0" using that by simp
  show "f32_val (f32_round s (of_int i)) = of_int i"
    using round_mag_of_nat(2) [of "nat i"] round_mag_of_nat(2) [of "nat (- i)"] assms n m
    by (cases "i < 0") (simp_all add: f32_val_round)
  have "(of_int \<bar>i\<bar> :: rat) \<le> of_int (2 ^ 24)" using assms by (simp only: of_int_le_iff)
  also have "\<dots> < two_to 127" by simp
  finally show "f32_finite (f32_round s (of_int i))"
    by (intro f32_finite_round) simp
qed

section \<open>The operations of the program\<close>

text \<open>SSE returns the first NaN operand with its quiet bit set, and the indefinite NaN for an
  invalid operation.\<close>

definition f32_indefinite :: f32 where "f32_indefinite = 0xFFC00000"
definition f32_nan_of :: "f32 \<Rightarrow> f32 \<Rightarrow> f32" where
  "f32_nan_of a b = (if f32_nan a then a OR 0x400000 else b OR 0x400000)"

definition f32_neg :: "f32 \<Rightarrow> f32" where "f32_neg a = a XOR 0x80000000"

definition f32_add :: "f32 \<Rightarrow> f32 \<Rightarrow> f32" where
  "f32_add a b =
     (if f32_nan a \<or> f32_nan b then f32_nan_of a b
      else if f32_inf a then
        (if f32_inf b \<and> f32_sign a \<noteq> f32_sign b then f32_indefinite else a)
      else if f32_inf b then b
      else f32_round (f32_sign a \<and> f32_sign b) (f32_val a + f32_val b))"

definition f32_sub :: "f32 \<Rightarrow> f32 \<Rightarrow> f32" where
  "f32_sub a b =
     (if f32_nan a \<or> f32_nan b then f32_nan_of a b else f32_add a (f32_neg b))"

definition f32_mul :: "f32 \<Rightarrow> f32 \<Rightarrow> f32" where
  "f32_mul a b =
     (let s = (f32_sign a \<noteq> f32_sign b) in
      if f32_nan a \<or> f32_nan b then f32_nan_of a b
      else if f32_inf a \<or> f32_inf b then
        (if f32_mag a = 0 \<or> f32_mag b = 0 then f32_indefinite else f32_of s inf_mag)
      else f32_round s (f32_val a * f32_val b))"

definition f32_div :: "f32 \<Rightarrow> f32 \<Rightarrow> f32" where
  "f32_div a b =
     (let s = (f32_sign a \<noteq> f32_sign b) in
      if f32_nan a \<or> f32_nan b then f32_nan_of a b
      else if f32_inf a then (if f32_inf b then f32_indefinite else f32_of s inf_mag)
      else if f32_inf b then f32_of s 0
      else if f32_mag b = 0 then
        (if f32_mag a = 0 then f32_indefinite else f32_of s inf_mag)
      else f32_round s (f32_val a / f32_val b))"

definition f32_key :: "f32 \<Rightarrow> int" where
  "f32_key a = (if f32_sign a then - int (f32_mag a) else int (f32_mag a))"

definition f32_lt :: "f32 \<Rightarrow> f32 \<Rightarrow> bool" where
  "f32_lt a b \<longleftrightarrow> \<not> f32_nan a \<and> \<not> f32_nan b \<and> f32_key a < f32_key b"

definition f32_eq :: "f32 \<Rightarrow> f32 \<Rightarrow> bool" where
  "f32_eq a b \<longleftrightarrow> \<not> f32_nan a \<and> \<not> f32_nan b \<and> f32_key a = f32_key b"

definition f32_of_int :: "int \<Rightarrow> f32" where
  "f32_of_int i = f32_round False (of_int i)"

definition f32_to_integral :: "(rat \<Rightarrow> int) \<Rightarrow> f32 \<Rightarrow> f32" where
  "f32_to_integral r a =
     (if f32_nan a then a OR 0x400000
      else if f32_inf a then a
      else f32_round (f32_sign a) (of_int (r (f32_val a))))"

definition rtrunc :: "rat \<Rightarrow> int" where
  "rtrunc x = (if 0 \<le> x then \<lfloor>x\<rfloor> else \<lceil>x\<rceil>)"

abbreviation "f32_ceil \<equiv> f32_to_integral ceiling"
abbreviation "f32_floor \<equiv> f32_to_integral floor"
abbreviation "f32_rint \<equiv> f32_to_integral rne"
abbreviation "f32_trunc \<equiv> f32_to_integral rtrunc"

text \<open>\<open>cvtps2dq\<close> and \<open>cvttps2dq\<close>: an unrepresentable result is the integer indefinite.\<close>

definition f32_to_i32 :: "(rat \<Rightarrow> int) \<Rightarrow> f32 \<Rightarrow> 32 word" where
  "f32_to_i32 r a =
     (if f32_finite a \<and> - (2 ^ 31) \<le> r (f32_val a) \<and> r (f32_val a) < 2 ^ 31
      then of_int (r (f32_val a)) else 0x80000000)"

definition f32_isfinite :: "f32 \<Rightarrow> bool" where "f32_isfinite a \<longleftrightarrow> f32_finite a"

section \<open>Arithmetic on finite operands\<close>

named_theorems f32_ops \<open>values of the operations on finite operands\<close>

lemma f32_neg_fields [simp]:
  "f32_mag (f32_neg a) = f32_mag a" "f32_sign (f32_neg a) \<longleftrightarrow> \<not> f32_sign a"
proof -
  have "(a XOR 0x80000000) AND 0x7FFFFFFF = (a AND 0x7FFFFFFF :: f32)"
    by (simp add: bit.conj_xor_distrib2)
  then show "f32_mag (f32_neg a) = f32_mag a" by (simp add: f32_mag_def f32_neg_def)
  show "f32_sign (f32_neg a) \<longleftrightarrow> \<not> f32_sign a"
    by (simp add: f32_sign_def f32_neg_def bit_simps)
qed

lemma f32_neg_val [simp]: "f32_val (f32_neg a) = - f32_val a"
  by (simp add: f32_val_def)

lemma f32_neg_finite [simp]: "f32_finite (f32_neg a) = f32_finite a"
  by (simp add: f32_finite_def)

lemma f32_add_finite [f32_ops]:
  "f32_finite a \<Longrightarrow> f32_finite b \<Longrightarrow>
   f32_add a b = f32_round (f32_sign a \<and> f32_sign b) (f32_val a + f32_val b)"
  by (simp add: f32_add_def)

lemma f32_sub_finite [f32_ops]:
  "f32_finite a \<Longrightarrow> f32_finite b \<Longrightarrow>
   f32_sub a b = f32_round (f32_sign a \<and> \<not> f32_sign b) (f32_val a - f32_val b)"
  by (simp add: f32_sub_def f32_add_finite)

lemma f32_mul_finite [f32_ops]:
  "f32_finite a \<Longrightarrow> f32_finite b \<Longrightarrow>
   f32_mul a b = f32_round (f32_sign a \<noteq> f32_sign b) (f32_val a * f32_val b)"
  by (simp add: f32_mul_def)

lemma f32_to_integral_finite [f32_ops]:
  "f32_finite a \<Longrightarrow>
   f32_to_integral r a = f32_round (f32_sign a) (of_int (r (f32_val a)))"
  by (simp add: f32_to_integral_def)

lemma f32_val_key:
  assumes "f32_finite a" "f32_finite b"
  shows "f32_val a < f32_val b \<longleftrightarrow> f32_key a < f32_key b"
proof -
  have z: "f32_mag c = 0 \<and> mag_val (f32_mag c) = 0 \<or> 0 < f32_mag c \<and> 0 < mag_val (f32_mag c)" for c
    using mag_val_pos [of "f32_mag c"] by (cases "f32_mag c") auto
  have "mag_val (f32_mag b) < mag_val (f32_mag a) \<longleftrightarrow> f32_mag b < f32_mag a"
    "mag_val (f32_mag a) < mag_val (f32_mag b) \<longleftrightarrow> f32_mag a < f32_mag b"
    using mag_val_less_iff assms by (simp_all add: f32_finite_def)
  then show ?thesis
    using z [of a] z [of b]
    by (cases "f32_sign a"; cases "f32_sign b") (auto simp: f32_val_def f32_key_def)
qed

lemma f32_lt_finite [f32_ops]:
  "f32_finite a \<Longrightarrow> f32_finite b \<Longrightarrow> f32_lt a b \<longleftrightarrow> f32_val a < f32_val b"
  by (simp add: f32_lt_def f32_val_key)

lemma f32_eq_finite [f32_ops]:
  "f32_finite a \<Longrightarrow> f32_finite b \<Longrightarrow> f32_eq a b \<longleftrightarrow> f32_val a = f32_val b"
  using f32_val_key [of a b] f32_val_key [of b a]
  by (cases "f32_val a" "f32_val b" rule: linorder_cases) (auto simp: f32_eq_def)

lemma f32_round_val_eq:
  assumes "f32_finite a"
  shows "f32_val (f32_round s (f32_val a)) = f32_val a"
proof -
  have "round_mag (mag_val (f32_mag a)) = f32_mag a"
    using assms by (simp add: f32_finite_def round_mag_mag_val)
  then show ?thesis
    using mag_val_pos [of "f32_mag a"]
    by (cases "f32_mag a = 0") (simp_all add: f32_val_round f32_val_def [of a])
qed

end
