(* ===== verification/Hresult.thy ===== *)
theory Hresult
  imports Prelude
begin

text \<open>
  \<open>win32/hresult.h\<close> and the HRESULT macros the code uses on every call.  The conversion
  \<open>winrt::impl::hresult_from_win32\<close> belongs to C++/WinRT: it is the field \<open>hr_of\<close> of the
  platform record \<open>sys\<close>, and \<open>hr_law\<close> states its documented behaviour
  (the SDK's \<open>HRESULT_FROM_WIN32\<close>).  Every record of platform calls of the development
  extends \<open>sys\<close>.
\<close>

record sys =
  hr_of :: "dword \<Rightarrow> hresult"

abbreviation (input) S_OK :: hresult where "S_OK \<equiv> 0"
abbreviation (input) S_FALSE :: hresult where "S_FALSE \<equiv> 1"
abbreviation (input) E_PENDING :: hresult where "E_PENDING \<equiv> 0x8000000A"
abbreviation (input) E_FAIL :: hresult where "E_FAIL \<equiv> 0x80004005"
abbreviation (input) E_UNEXPECTED :: hresult where "E_UNEXPECTED \<equiv> 0x8000FFFF"
abbreviation (input) E_OUTOFMEMORY :: hresult where "E_OUTOFMEMORY \<equiv> 0x8007000E"
abbreviation (input) E_INVALIDARG :: hresult where "E_INVALIDARG \<equiv> 0x80070057"

definition FAILED :: "hresult \<Rightarrow> bool" where
  "FAILED hr \<longleftrightarrow> sint hr < 0"

abbreviation SUCCEEDED :: "hresult \<Rightarrow> bool" where
  "SUCCEEDED hr \<equiv> \<not> FAILED hr"

lemma FAILED_simps [simp]:
  "\<not> FAILED 0" "\<not> FAILED 1"
  "FAILED E_PENDING" "FAILED E_FAIL" "FAILED E_UNEXPECTED"
  "FAILED E_OUTOFMEMORY" "FAILED E_INVALIDARG"
  by (simp_all add: FAILED_def)

section \<open>Win32 error codes and their HRESULT forms\<close>

abbreviation (input) ERROR_SUCCESS :: dword where "ERROR_SUCCESS \<equiv> 0"
abbreviation (input) ERROR_FILE_NOT_FOUND :: dword where "ERROR_FILE_NOT_FOUND \<equiv> 2"
abbreviation (input) ERROR_ACCESS_DENIED :: dword where "ERROR_ACCESS_DENIED \<equiv> 5"
abbreviation (input) ERROR_NOT_ENOUGH_MEMORY :: dword where "ERROR_NOT_ENOUGH_MEMORY \<equiv> 8"
abbreviation (input) ERROR_SHARING_VIOLATION :: dword where "ERROR_SHARING_VIOLATION \<equiv> 32"
abbreviation (input) ERROR_INVALID_PARAMETER :: dword where "ERROR_INVALID_PARAMETER \<equiv> 87"
abbreviation (input) ERROR_INSUFFICIENT_BUFFER :: dword where "ERROR_INSUFFICIENT_BUFFER \<equiv> 122"
abbreviation (input) ERROR_ALREADY_EXISTS :: dword where "ERROR_ALREADY_EXISTS \<equiv> 183"
abbreviation (input) ERROR_TOO_MANY_THREADS :: dword where "ERROR_TOO_MANY_THREADS \<equiv> 565"
abbreviation (input) ERROR_OPERATION_ABORTED :: dword where "ERROR_OPERATION_ABORTED \<equiv> 995"
abbreviation (input) ERROR_CAN_NOT_COMPLETE :: dword where "ERROR_CAN_NOT_COMPLETE \<equiv> 1003"
abbreviation (input) ERROR_NO_UNICODE_TRANSLATION :: dword where "ERROR_NO_UNICODE_TRANSLATION \<equiv> 1113"
abbreviation (input) ERROR_POSSIBLE_DEADLOCK :: dword where "ERROR_POSSIBLE_DEADLOCK \<equiv> 1131"
abbreviation (input) ERROR_INVALID_HOOK_HANDLE :: dword where "ERROR_INVALID_HOOK_HANDLE \<equiv> 1404"
abbreviation (input) ERROR_TIMEOUT :: dword where "ERROR_TIMEOUT \<equiv> 1460"
abbreviation (input) ERROR_INVALID_MONITOR_HANDLE :: dword where "ERROR_INVALID_MONITOR_HANDLE \<equiv> 1461"
abbreviation (input) ERROR_FUNCTION_FAILED :: dword where "ERROR_FUNCTION_FAILED \<equiv> 1627"
abbreviation (input) ERROR_NOT_ENOUGH_QUOTA :: dword where "ERROR_NOT_ENOUGH_QUOTA \<equiv> 1816"
abbreviation (input) ERROR_INVALID_OPERATION :: dword where "ERROR_INVALID_OPERATION \<equiv> 4317"

(* @ app/win32/hresult.h:18-20 HResultFromWin32 *)
definition HResultFromWin32 :: "'a sys_scheme \<Rightarrow> dword \<Rightarrow> hresult" where
  "HResultFromWin32 A val = hr_of A val"

(* @ app/win32/hresult.h:5-5 kErrorFileNotFound *)
definition kErrorFileNotFound :: "'a sys_scheme \<Rightarrow> hresult" where
  "kErrorFileNotFound A = hr_of A ERROR_FILE_NOT_FOUND"

(* @ app/win32/hresult.h:6-6 kErrorAccessDenied *)
definition kErrorAccessDenied :: "'a sys_scheme \<Rightarrow> hresult" where
  "kErrorAccessDenied A = hr_of A ERROR_ACCESS_DENIED"

(* @ app/win32/hresult.h:7-7 kErrorNotEnoughMemory *)
definition kErrorNotEnoughMemory :: "'a sys_scheme \<Rightarrow> hresult" where
  "kErrorNotEnoughMemory A = hr_of A ERROR_NOT_ENOUGH_MEMORY"

(* @ app/win32/hresult.h:8-8 kErrorSharingViolation *)
definition kErrorSharingViolation :: "'a sys_scheme \<Rightarrow> hresult" where
  "kErrorSharingViolation A = hr_of A ERROR_SHARING_VIOLATION"

(* @ app/win32/hresult.h:9-9 kErrorAlreadyExists *)
definition kErrorAlreadyExists :: "'a sys_scheme \<Rightarrow> hresult" where
  "kErrorAlreadyExists A = hr_of A ERROR_ALREADY_EXISTS"

(* @ app/win32/hresult.h:11-11 kErrorNoUnicodeTranslation *)
definition kErrorNoUnicodeTranslation :: "'a sys_scheme \<Rightarrow> hresult" where
  "kErrorNoUnicodeTranslation A = hr_of A ERROR_NO_UNICODE_TRANSLATION"

(* @ app/win32/hresult.h:12-12 kErrorTimeout *)
definition kErrorTimeout :: "'a sys_scheme \<Rightarrow> hresult" where
  "kErrorTimeout A = hr_of A ERROR_TIMEOUT"

(* @ app/win32/hresult.h:13-13 kErrorInvalidMonitorHandle *)
definition kErrorInvalidMonitorHandle :: "'a sys_scheme \<Rightarrow> hresult" where
  "kErrorInvalidMonitorHandle A = hr_of A ERROR_INVALID_MONITOR_HANDLE"

(* @ app/win32/hresult.h:15-15 kErrorNotEnoughQuota *)
definition kErrorNotEnoughQuota :: "'a sys_scheme \<Rightarrow> hresult" where
  "kErrorNotEnoughQuota A = hr_of A ERROR_NOT_ENOUGH_QUOTA"

(* @ app/win32/hresult.h:16-16 kErrorInvalidOperation *)
definition kErrorInvalidOperation :: "'a sys_scheme \<Rightarrow> hresult" where
  "kErrorInvalidOperation A = hr_of A ERROR_INVALID_OPERATION"

lemmas kError_defs =
  HResultFromWin32_def kErrorFileNotFound_def kErrorAccessDenied_def kErrorNotEnoughMemory_def
  kErrorSharingViolation_def kErrorAlreadyExists_def kErrorNoUnicodeTranslation_def
  kErrorTimeout_def kErrorInvalidMonitorHandle_def kErrorNotEnoughQuota_def
  kErrorInvalidOperation_def

text \<open>\<open>HRESULT_FACILITY\<close> and \<open>HRESULT_CODE\<close> of the SDK, as the code applies them.\<close>

definition HRESULT_FACILITY :: "hresult \<Rightarrow> dword" where
  "HRESULT_FACILITY hr = drop_bit 16 hr AND 0x1FFF"

definition HRESULT_CODE :: "hresult \<Rightarrow> dword" where
  "HRESULT_CODE hr = hr AND 0xFFFF"

(* @ app/win32/hresult.h:26-32 HResultToWin32 *)
definition HResultToWin32 :: "hresult \<Rightarrow> dword \<Rightarrow> dword" where
  "HResultToWin32 hr defaultLastError =
     (if HRESULT_FACILITY hr = 7 then HRESULT_CODE hr else defaultLastError)"

section \<open>The documented conversion\<close>

definition win32_hr :: "dword \<Rightarrow> hresult" where
  "win32_hr e = (if sint e \<le> 0 then e else (e AND 0xFFFF) OR 0x80070000)"

definition hr_law :: "'a sys_scheme \<Rightarrow> bool" where
  "hr_law A \<longleftrightarrow> hr_of A = win32_hr"

lemma bit31_FAILED: "FAILED hr \<longleftrightarrow> bit hr 31"
  by (simp add: FAILED_def bit_last_iff [symmetric])

lemma win32_hr_0 [simp]: "win32_hr 0 = 0"
  by (simp add: win32_hr_def)

lemma win32_hr_failed_iff [simp]: "FAILED (win32_hr e) \<longleftrightarrow> e \<noteq> 0"
proof (cases "sint e \<le> 0")
  case True
  then show ?thesis
    by (auto simp: win32_hr_def FAILED_def order_le_less signed_eq_0_iff)
next
  case False
  then have "e \<noteq> 0" by auto
  moreover have "bit (win32_hr e) 31"
    using False by (simp add: win32_hr_def bit_simps)
  ultimately show ?thesis by (simp add: bit31_FAILED)
qed

lemma hr_law_simps:
  assumes "hr_law A"
  shows "hr_of A 0 = 0" "FAILED (hr_of A e) \<longleftrightarrow> e \<noteq> 0"
  using assms by (simp_all add: hr_law_def)

end
