(* ===== verification/WinString.thy ===== *)
theory WinString
  imports Hresult
begin

text \<open>
  \<open>win32/string.cc\<close>: the UTF-8 / UTF-16 conversions every settings value goes through.  The two
  Win32 calls and the string allocator are fields of the record \<open>text_api\<close>:

  \<^item> \<open>mb_to_wc A s cch\<close> is \<open>MultiByteToWideChar (CP_UTF8, MB_ERR_INVALID_CHARS, s, buf, cch)\<close>:
    its return value, what it wrote to \<open>buf\<close>, and \<open>GetLastError\<close> after it;
  \<^item> \<open>wc_to_mb\<close> is \<open>WideCharToMultiByte\<close> in the same way;
  \<^item> \<open>str_alloc A n\<close> tells whether a string can be resized to \<open>n\<close> characters.

  The source has two bodies for each conversion, chosen by the library's feature macro; both are
  modelled and \<open>ConvertUtf8ToUtf16_fallback_eq\<close> and
  \<open>ConvertUtf16ToUtf8_fallback_eq\<close> show that they compute the same.
\<close>

datatype alloc = AllocOk | AllocBad | AllocTooLong

record text_api = sys +
  mb_to_wc :: "string \<Rightarrow> nat \<Rightarrow> int \<times> wstr \<times> dword"
  wc_to_mb :: "wstr \<Rightarrow> nat \<Rightarrow> int \<times> string \<times> dword"
  str_alloc :: "nat \<Rightarrow> alloc"
  load_string :: "dword \<Rightarrow> int \<times> wstr \<times> dword"

(* @ app/win32/hresult.h:22-24 LastErrorAsHResult *)
definition LastErrorAsHResult :: "'a sys_scheme \<Rightarrow> dword \<Rightarrow> hresult" where
  "LastErrorAsHResult A last_error = HResultFromWin32 A last_error"

section \<open>The conversions\<close>

text \<open>The result pairs the returned \<open>hresult\<close> with the out parameter, which the first failing
  call leaves as it was.\<close>

(* @ app/win32/string.cc:7-43 ConvertUtf8ToUtf16 *)
definition ConvertUtf8ToUtf16 ::
  "'a text_api_scheme \<Rightarrow> string \<Rightarrow> wstr \<Rightarrow> hresult \<times> wstr" where
  "ConvertUtf8ToUtf16 A utf8 utf16 =
     (let (utf16len, _, err) = mb_to_wc A utf8 0 in
      if utf16len = 0 then (LastErrorAsHResult A err, utf16)
      else (case str_alloc A (nat utf16len) of
              AllocBad \<Rightarrow> (E_OUTOFMEMORY, utf16)
            | AllocTooLong \<Rightarrow> (E_INVALIDARG, utf16)
            | AllocOk \<Rightarrow>
                (let (written, buf, err') = mb_to_wc A utf8 (nat utf16len) in
                 if written \<le> 0 then (LastErrorAsHResult A err', [])
                 else (S_OK, take (nat written) buf))))"

(* @ app/win32/string.cc:45-67 ConvertUtf8ToUtf16 *)
definition ConvertUtf8ToUtf16_fallback ::
  "'a text_api_scheme \<Rightarrow> string \<Rightarrow> wstr \<Rightarrow> hresult \<times> wstr" where
  "ConvertUtf8ToUtf16_fallback A utf8 utf16 =
     (let (utf16len, _, err) = mb_to_wc A utf8 0 in
      if utf16len = 0 then (LastErrorAsHResult A err, utf16)
      else (case str_alloc A (nat utf16len) of
              AllocBad \<Rightarrow> (E_OUTOFMEMORY, utf16)
            | AllocTooLong \<Rightarrow> (E_INVALIDARG, utf16)
            | AllocOk \<Rightarrow>
                (let zeroed = take (nat utf16len) utf16 @ replicate (nat utf16len - length utf16) 0;
                     (written, buf, err') = mb_to_wc A utf8 (nat utf16len);
                     filled = buf @ drop (length buf) zeroed in
                 if written \<le> 0 then (LastErrorAsHResult A err', [])
                 else (S_OK, take (nat written) filled))))"

(* @ app/win32/string.cc:69-108 ConvertUtf16ToUtf8 *)
definition ConvertUtf16ToUtf8 ::
  "'a text_api_scheme \<Rightarrow> wstr \<Rightarrow> string \<Rightarrow> hresult \<times> string" where
  "ConvertUtf16ToUtf8 A utf16 utf8 =
     (let (utf8len, _, err) = wc_to_mb A utf16 0 in
      if utf8len = 0 then (LastErrorAsHResult A err, utf8)
      else (case str_alloc A (nat utf8len) of
              AllocBad \<Rightarrow> (E_OUTOFMEMORY, utf8)
            | AllocTooLong \<Rightarrow> (E_INVALIDARG, utf8)
            | AllocOk \<Rightarrow>
                (let (written, buf, err') = wc_to_mb A utf16 (nat utf8len) in
                 if written \<le> 0 then (LastErrorAsHResult A err', [])
                 else (S_OK, take (nat written) buf))))"

(* @ app/win32/string.cc:110-130 ConvertUtf16ToUtf8 *)
definition ConvertUtf16ToUtf8_fallback ::
  "'a text_api_scheme \<Rightarrow> wstr \<Rightarrow> string \<Rightarrow> hresult \<times> string" where
  "ConvertUtf16ToUtf8_fallback A utf16 utf8 =
     (let (utf8len, _, err) = wc_to_mb A utf16 0 in
      if utf8len = 0 then (LastErrorAsHResult A err, utf8)
      else (case str_alloc A (nat utf8len) of
              AllocBad \<Rightarrow> (E_OUTOFMEMORY, utf8)
            | AllocTooLong \<Rightarrow> (E_INVALIDARG, utf8)
            | AllocOk \<Rightarrow>
                (let zeroed = take (nat utf8len) utf8 @ replicate (nat utf8len - length utf8) (char_of (0 :: nat));
                     (written, buf, err') = wc_to_mb A utf16 (nat utf8len);
                     filled = buf @ drop (length buf) zeroed in
                 if written \<le> 0 then (LastErrorAsHResult A err', [])
                 else (S_OK, take (nat written) filled))))"

(* @ app/win32/string.h:26-34 LoadResourceString *)
definition LoadResourceString :: "'a text_api_scheme \<Rightarrow> dword \<Rightarrow> hresult + wstr" where
  "LoadResourceString A resource_id =
     (let (len, s, err) = load_string A resource_id in
      if len \<le> 0 then Inl (LastErrorAsHResult A err)
      else Inr (take (nat len) s))"

section \<open>The documented behaviour of the Win32 calls\<close>

text \<open>
  For a non-empty input both calls either fail with a nonzero error whatever the buffer, or have
  one output: its length is returned when the buffer size is 0, and it is written in full to a
  buffer of that length.
\<close>

definition mb_outputs :: "'a text_api_scheme \<Rightarrow> string \<Rightarrow> wstr \<Rightarrow> bool" where
  "mb_outputs A s w \<longleftrightarrow> w \<noteq> [] \<and> fst (mb_to_wc A s 0) = int (length w) \<and>
     fst (mb_to_wc A s (length w)) = int (length w) \<and>
     fst (snd (mb_to_wc A s (length w))) = w"

definition wc_outputs :: "'a text_api_scheme \<Rightarrow> wstr \<Rightarrow> string \<Rightarrow> bool" where
  "wc_outputs A w s \<longleftrightarrow> s \<noteq> [] \<and> fst (wc_to_mb A w 0) = int (length s) \<and>
     fst (wc_to_mb A w (length s)) = int (length s) \<and>
     fst (snd (wc_to_mb A w (length s))) = s"

definition mb_fails :: "'a text_api_scheme \<Rightarrow> string \<Rightarrow> dword \<Rightarrow> bool" where
  "mb_fails A s e \<longleftrightarrow> e \<noteq> 0 \<and> fst (mb_to_wc A s 0) = 0 \<and> snd (snd (mb_to_wc A s 0)) = e"

definition wc_fails :: "'a text_api_scheme \<Rightarrow> wstr \<Rightarrow> dword \<Rightarrow> bool" where
  "wc_fails A w e \<longleftrightarrow> e \<noteq> 0 \<and> fst (wc_to_mb A w 0) = 0 \<and> snd (snd (wc_to_mb A w 0)) = e"

definition text_law :: "'a text_api_scheme \<Rightarrow> bool" where
  "text_law A \<longleftrightarrow> hr_law A \<and>
     (\<forall>s. s \<noteq> [] \<longrightarrow> (\<exists>w. mb_outputs A s w) \<or> (\<exists>e. mb_fails A s e)) \<and>
     (\<forall>w. w \<noteq> [] \<longrightarrow> (\<exists>s. wc_outputs A w s) \<or> (\<exists>e. wc_fails A w e)) \<and>
     (\<forall>s w. wc_outputs A w s \<longrightarrow> mb_outputs A s w)"

lemma text_law_hr: "text_law A \<Longrightarrow> hr_law A"
  by (simp add: text_law_def)

lemma mb_outputs_unique: "mb_outputs A s w \<Longrightarrow> mb_outputs A s w' \<Longrightarrow> w = w'"
  by (auto simp: mb_outputs_def)

lemma ConvertUtf8ToUtf16_ok:
  assumes "mb_outputs A s w" and "str_alloc A (length w) = AllocOk"
  shows "ConvertUtf8ToUtf16 A s u = (S_OK, w)"
  using assms
  by (auto simp: ConvertUtf8ToUtf16_def mb_outputs_def split: prod.splits)

lemma ConvertUtf8ToUtf16_fails:
  assumes "mb_fails A s e"
  shows "ConvertUtf8ToUtf16 A s u = (hr_of A e, u)"
  using assms
  by (auto simp: ConvertUtf8ToUtf16_def mb_fails_def LastErrorAsHResult_def HResultFromWin32_def
      split: prod.splits)

lemma ConvertUtf16ToUtf8_ok:
  assumes "wc_outputs A w s" and "str_alloc A (length s) = AllocOk"
  shows "ConvertUtf16ToUtf8 A w u = (S_OK, s)"
  using assms
  by (auto simp: ConvertUtf16ToUtf8_def wc_outputs_def split: prod.splits)

lemma ConvertUtf16ToUtf8_fails:
  assumes "wc_fails A w e"
  shows "ConvertUtf16ToUtf8 A w u = (hr_of A e, u)"
  using assms
  by (auto simp: ConvertUtf16ToUtf8_def wc_fails_def LastErrorAsHResult_def HResultFromWin32_def
      split: prod.splits)

lemma ConvertUtf8ToUtf16_S_OK_iff:
  assumes A: "text_law A" and s: "s \<noteq> []"
  shows "ConvertUtf8ToUtf16 A s [] = (hr, w) \<Longrightarrow>
         \<not> FAILED hr \<longleftrightarrow> mb_outputs A s w \<and> str_alloc A (length w) = AllocOk"
proof -
  assume run: "ConvertUtf8ToUtf16 A s [] = (hr, w)"
  have hr: "hr_law A" using A by (rule text_law_hr)
  consider (out) w0 where "mb_outputs A s w0" | (bad) e where "mb_fails A s e"
    using A s unfolding text_law_def by blast
  then show ?thesis
  proof cases
    case out
    have w: "mb_outputs A s w \<longleftrightarrow> w = w0"
      using out mb_outputs_unique by blast
    show ?thesis
    proof (cases "str_alloc A (length w0)")
      case AllocOk
      then show ?thesis using run ConvertUtf8ToUtf16_ok [OF out AllocOk] w by auto
    qed (use run out w in \<open>auto simp: ConvertUtf8ToUtf16_def mb_outputs_def split: prod.splits\<close>)
  next
    case bad
    then have "hr = hr_of A e" "w = []" using run ConvertUtf8ToUtf16_fails by fastforce+
    moreover have "\<not> mb_outputs A s w" using bad by (auto simp: mb_fails_def mb_outputs_def)
    moreover have "FAILED (hr_of A e)" using bad hr by (simp add: hr_law_simps mb_fails_def)
    ultimately show ?thesis by simp
  qed
qed

text \<open>A writing call that reports \<open>n\<close> characters has written \<open>n\<close> characters: the resizing body
  and the fallback body then agree.\<close>

lemma ConvertUtf8ToUtf16_fallback_eq:
  assumes "\<And>n. fst (mb_to_wc A s n) = int (length (fst (snd (mb_to_wc A s n)))) \<or>
                fst (mb_to_wc A s n) \<le> 0 \<or> n = 0"
  shows "nat (fst (mb_to_wc A s 0)) \<noteq> 0 \<Longrightarrow>
         ConvertUtf8ToUtf16_fallback A s u = ConvertUtf8ToUtf16 A s u"
  using assms [of "nat (fst (mb_to_wc A s 0))"]
  by (auto simp: ConvertUtf8ToUtf16_fallback_def ConvertUtf8ToUtf16_def Let_def
      split: prod.splits alloc.splits)

lemma ConvertUtf16ToUtf8_fallback_eq:
  assumes "\<And>n. fst (wc_to_mb A w n) = int (length (fst (snd (wc_to_mb A w n)))) \<or>
                fst (wc_to_mb A w n) \<le> 0 \<or> n = 0"
  shows "nat (fst (wc_to_mb A w 0)) \<noteq> 0 \<Longrightarrow>
         ConvertUtf16ToUtf8_fallback A w u = ConvertUtf16ToUtf8 A w u"
  using assms [of "nat (fst (wc_to_mb A w 0))"]
  by (auto simp: ConvertUtf16ToUtf8_fallback_def ConvertUtf16ToUtf8_def Let_def
      split: prod.splits alloc.splits)

end
