(* ===== verification/Errors.thy ===== *)
theory Errors
  imports Float32 WinString
begin

text \<open>
  The data of \<open>settings/ParseError.h\<close>, \<open>settings/String.h\<close> and \<open>settings/constants.h\<close>, and the
  exceptions of the program.  \<open>HrError hr\<close> is the exception that \<open>winrt::throw_hresult hr\<close> raises.
\<close>

section \<open>settings/ParseError.h\<close>

(* @ app/settings/ParseError.h:5-14 ParseErrorReason *)
datatype ParseErrorReason =
    kMissingRequiredKey | kExpectedString | kExpectedNumber | kExpectedMap | kExpectedSequence
  | kInvalidString | kInvalidNumber | kNumberOutOfRange

(* @ app/settings/ParseError.h:16-35 KeyId *)
datatype KeyId =
    KeyNone | KeyRule | KeyName | KeyWhen | KeyWhere | KeyThen
  | KeyProcessImageName | KeyWindowClass | KeyWindowTitle
  | KeyActionType | KeyPositionX | KeyPositionY | KeyWidth | KeyHeight
  | KeyMonitorId | KeyMonitorName

text \<open>The underlying \<open>uint8_t\<close> values; \<open>ParseError\<close> stores them in bit fields of 3 and 5 bits.\<close>

(* @ app/settings/ParseError.h:5-14 ParseErrorReason *)
fun reason_code :: "ParseErrorReason \<Rightarrow> nat" where
  "reason_code kMissingRequiredKey = 0"
| "reason_code kExpectedString = 1"
| "reason_code kExpectedNumber = 2"
| "reason_code kExpectedMap = 3"
| "reason_code kExpectedSequence = 4"
| "reason_code kInvalidString = 5"
| "reason_code kInvalidNumber = 6"
| "reason_code kNumberOutOfRange = 7"

(* @ app/settings/ParseError.h:16-35 KeyId *)
fun key_code :: "KeyId \<Rightarrow> nat" where
  "key_code KeyNone = 0"
| "key_code KeyRule = 1"
| "key_code KeyName = 2"
| "key_code KeyWhen = 3"
| "key_code KeyWhere = 4"
| "key_code KeyThen = 5"
| "key_code KeyProcessImageName = 11"
| "key_code KeyWindowClass = 12"
| "key_code KeyWindowTitle = 13"
| "key_code KeyActionType = 21"
| "key_code KeyPositionX = 22"
| "key_code KeyPositionY = 23"
| "key_code KeyWidth = 24"
| "key_code KeyHeight = 25"
| "key_code KeyMonitorId = 26"
| "key_code KeyMonitorName = 27"

lemma reason_code_inj: "reason_code r = reason_code r' \<longleftrightarrow> r = r'"
  by (cases r; cases r') simp_all

lemma key_code_inj: "key_code k = key_code k' \<longleftrightarrow> k = k'"
  by (cases k; cases k') simp_all

(* @ app/settings/ParseError.h:37-40 ParseError *)
record ParseError =
  reason :: ParseErrorReason
  key_id :: KeyId
  err_content :: string

definition mkParseError :: "ParseErrorReason \<Rightarrow> KeyId \<Rightarrow> ParseError" where
  "mkParseError r k = \<lparr>reason = r, key_id = k, err_content = []\<rparr>"

lemma mkParseError_sel [simp]:
  "reason (mkParseError r k) = r" "key_id (mkParseError r k) = k" "err_content (mkParseError r k) = []"
  by (simp_all add: mkParseError_def)

text \<open>\<open>std::to_chars\<close> on an integer, and into the 14 free characters of \<open>content\<close>.\<close>

fun nat_dec :: "nat \<Rightarrow> string" where
  "nat_dec n = (if n < 10 then [char_of (48 + n)] else nat_dec (n div 10) @ [char_of (48 + n mod 10)])"

declare nat_dec.simps [simp del]

definition int_dec :: "int \<Rightarrow> string" where
  "int_dec i = (if i < 0 then CHR ''-'' # nat_dec (nat (- i)) else nat_dec (nat i))"

definition to_chars :: "nat \<Rightarrow> string \<Rightarrow> string option" where
  "to_chars room s = (if length s \<le> room then Some s else None)"

(* @ app/settings/ParseError.h:58-66 ParseError::finalizeContent *)
definition finalizeContent :: "ParseError \<Rightarrow> string option \<Rightarrow> ParseError" where
  "finalizeContent err result =
     (case result of None \<Rightarrow> err\<lparr>err_content := []\<rparr> | Some s \<Rightarrow> err\<lparr>err_content := s\<rparr>)"

(* @ app/settings/ParseError.h:47-50 ParseError::setContent *)
definition setContent :: "ParseError \<Rightarrow> 32 word \<Rightarrow> ParseError" where
  "setContent err value = finalizeContent err (to_chars 14 (int_dec (sint value)))"

(* @ app/settings/ParseError.h:52-55 ParseError::setContent *)
definition setContentF :: "(f32 \<Rightarrow> string) \<Rightarrow> ParseError \<Rightarrow> f32 \<Rightarrow> ParseError" where
  "setContentF shortest err value = finalizeContent err (to_chars 14 (shortest value))"

lemma nat_dec_length:
  assumes "n < 10 ^ k" "0 < k"
  shows "length (nat_dec n) \<le> k"
  using assms
proof (induction n arbitrary: k rule: nat_dec.induct)
  case (1 n)
  show ?case
  proof (cases "n < 10")
    case True
    then show ?thesis using 1(3) by (subst nat_dec.simps) simp
  next
    case False
    then obtain j where j: "k = Suc j" "0 < j"
      using 1(2,3) by (cases k; cases "k = 1") auto
    have "n div 10 < 10 ^ j" using 1(2) j by (simp add: less_mult_imp_div_less mult.commute)
    then have "length (nat_dec (n div 10)) \<le> j" using 1(1) False j by simp
    then show ?thesis using False j by (subst nat_dec.simps) simp
  qed
qed

lemma int_dec_long_length: "length (int_dec (sint (w :: 32 word))) \<le> 11"
proof -
  have "- (2 ^ 31) \<le> sint w" "sint w < 2 ^ 31"
    using sint_ge [of w] sint_lt [of w] by simp_all
  then have "nat (- sint w) < 10 ^ 10" "nat (sint w) < 10 ^ 10" by simp_all
  then show ?thesis
    using nat_dec_length [of "nat (- sint w)" 10] nat_dec_length [of "nat (sint w)" 10]
    by (simp add: int_dec_def)
qed

lemma setContent_content [simp]: "err_content (setContent err w) = int_dec (sint w)"
  using int_dec_long_length [of w] by (simp add: setContent_def finalizeContent_def to_chars_def)

lemma setContent_other [simp]:
  "reason (setContent err w) = reason err" "key_id (setContent err w) = key_id err"
  "reason (setContentF f err v) = reason err" "key_id (setContentF f err v) = key_id err"
  by (simp_all add: setContent_def setContentF_def finalizeContent_def to_chars_def)

section \<open>settings/String.h\<close>

(* @ app/settings/String.h:5-10 StringMatchType *)
datatype StringMatchType = kContains | kStartsWith | kEndsWith | kEquals

(* @ app/settings/String.h:5-10 StringMatchType *)
fun match_code :: "StringMatchType \<Rightarrow> nat" where
  "match_code kContains = 0"
| "match_code kStartsWith = 1"
| "match_code kEndsWith = 2"
| "match_code kEquals = 3"

text \<open>\<open>magic_enum::bitwise_operators\<close> on the flag values.\<close>

fun match_or :: "StringMatchType \<Rightarrow> StringMatchType \<Rightarrow> StringMatchType" where
  "match_or kContains m = m"
| "match_or m kContains = m"
| "match_or kStartsWith kStartsWith = kStartsWith"
| "match_or kEndsWith kEndsWith = kEndsWith"
| "match_or _ _ = kEquals"

lemma match_or_code: "match_code (match_or a b) = match_code a OR match_code b"
  by (cases a; cases b) simp_all

(* @ app/settings/String.h:12-12 StringAndMatchType *)
type_synonym StringAndMatchType = "StringMatchType \<times> wstr"

section \<open>settings/constants.h\<close>

(* @ app/settings/constants.h:10-10 key::kRules *)
definition kRules :: string where "kRules = ''rules''"
(* @ app/settings/constants.h:13-13 key::kName *)
definition kName :: string where "kName = ''name''"
(* @ app/settings/constants.h:14-14 key::kWhen *)
definition kWhen :: string where "kWhen = ''when''"
(* @ app/settings/constants.h:15-15 key::kWhere *)
definition kWhere :: string where "kWhere = ''where''"
(* @ app/settings/constants.h:16-16 key::kThen *)
definition kThen :: string where "kThen = ''then''"
(* @ app/settings/constants.h:19-19 key::kProcessKey *)
definition kProcessKey :: string where "kProcessKey = ''process''"
(* @ app/settings/constants.h:20-20 key::kWindowClassKey *)
definition kWindowClassKey :: string where "kWindowClassKey = ''class''"
(* @ app/settings/constants.h:21-21 key::kWindowTitleKey *)
definition kWindowTitleKey :: string where "kWindowTitleKey = ''title''"
(* @ app/settings/constants.h:24-24 key::kType *)
definition kType :: string where "kType = ''type''"
(* @ app/settings/constants.h:25-25 key::kMonitorId *)
definition kMonitorId :: string where "kMonitorId = ''id''"
(* @ app/settings/constants.h:26-26 key::kMonitorName *)
definition kMonitorName :: string where "kMonitorName = ''name''"
(* @ app/settings/constants.h:27-27 key::kPosX *)
definition kPosX :: string where "kPosX = ''x''"
(* @ app/settings/constants.h:28-28 key::kPosY *)
definition kPosY :: string where "kPosY = ''y''"
(* @ app/settings/constants.h:29-29 key::kWidth *)
definition kWidth :: string where "kWidth = ''width''"
(* @ app/settings/constants.h:30-30 key::kHeight *)
definition kHeight :: string where "kHeight = ''height''"

lemmas key_defs = kRules_def kName_def kWhen_def kWhere_def kThen_def kProcessKey_def
  kWindowClassKey_def kWindowTitleKey_def kType_def kMonitorId_def kMonitorName_def kPosX_def
  kPosY_def kWidth_def kHeight_def

(* @ app/settings/constants.h:42-42 kAbsoluteCoordinateMin *)
definition kAbsoluteCoordinateMin :: "32 word" where "kAbsoluteCoordinateMin = - 0x4000"
(* @ app/settings/constants.h:43-43 kAbsoluteCoordinateMax *)
definition kAbsoluteCoordinateMax :: "32 word" where "kAbsoluteCoordinateMax = 0x4000"
(* @ app/settings/constants.h:44-44 kAbsoluteLengthMin *)
definition kAbsoluteLengthMin :: "32 word" where "kAbsoluteLengthMin = 0"
(* @ app/settings/constants.h:45-45 kAbsoluteLengthMax *)
definition kAbsoluteLengthMax :: "32 word" where "kAbsoluteLengthMax = 0x4000"
(* @ app/settings/constants.h:46-46 kRelativeMonitorIdUnset *)
definition kRelativeMonitorIdUnset :: "32 word" where "kRelativeMonitorIdUnset = 0"
(* @ app/settings/constants.h:47-47 kRelativeMonitorIdMin *)
definition kRelativeMonitorIdMin :: "32 word" where "kRelativeMonitorIdMin = 1"
(* @ app/settings/constants.h:48-48 kRelativeMonitorIdMax *)
definition kRelativeMonitorIdMax :: "32 word" where "kRelativeMonitorIdMax = 16"
(* @ app/settings/constants.h:49-49 kRelativeCoordinateMin *)
definition kRelativeCoordinateMin :: f32 where "kRelativeCoordinateMin = 0"
(* @ app/settings/constants.h:50-50 kRelativeCoordinateMax *)
definition kRelativeCoordinateMax :: f32 where "kRelativeCoordinateMax = 0x3F800000"

lemmas limit_defs = kAbsoluteCoordinateMin_def kAbsoluteCoordinateMax_def kAbsoluteLengthMin_def
  kAbsoluteLengthMax_def kRelativeMonitorIdUnset_def kRelativeMonitorIdMin_def
  kRelativeMonitorIdMax_def kRelativeCoordinateMin_def kRelativeCoordinateMax_def

section \<open>Exceptions\<close>

datatype exn = ParseErr ParseError | HrError hresult | BadAlloc | LengthError | StdExn

text \<open>\<open>winrt::throw_hresult\<close> throws \<open>std::bad_alloc\<close> for \<open>E_OUTOFMEMORY\<close>; \<open>winrt::check_hresult\<close>; and
  \<open>winrt::to_hresult\<close> in a handler (\<open>None\<close>: the exception is not one it translates and leaves the
  handler).\<close>

definition throw_hresult :: "hresult \<Rightarrow> exn" where
  "throw_hresult hr = (if hr = E_OUTOFMEMORY then BadAlloc else HrError hr)"

definition check_hresult :: "hresult \<Rightarrow> exn + unit" where
  "check_hresult hr = (if FAILED hr then Inl (throw_hresult hr) else Inr ())"

fun to_hresult :: "exn \<Rightarrow> hresult option" where
  "to_hresult (HrError hr) = Some hr"
| "to_hresult BadAlloc = Some E_OUTOFMEMORY"
| "to_hresult LengthError = Some E_FAIL"
| "to_hresult StdExn = Some E_FAIL"
| "to_hresult (ParseErr _) = None"

lemma check_hresult_simps [simp]:
  "FAILED hr \<Longrightarrow> check_hresult hr = Inl (throw_hresult hr)"
  "\<not> FAILED hr \<Longrightarrow> check_hresult hr = Inr ()"
  by (simp_all add: check_hresult_def)

end
