(* ===== verification/Process.thy ===== *)
theory Process
  imports Errors "HOL-Library.Monad_Syntax"
begin

text \<open>
  \<open>win32/process.cc\<close>: which process owns a window.  \<open>win_api\<close> is the record of the Win32 calls about
  windows, processes and monitors, over a world \<open>'w\<close> they observe; the calls that change the world
  return it.  A null handle is 0.  The sibling walk of \<open>GetCoreWindowFromParent\<close> ends only if the
  chain of siblings does: it is a partial function whose value \<open>None\<close> is a walk that does not end.
\<close>

record 'w win_api = text_api +
  QueryFullProcessImageName :: "handle \<Rightarrow> nat \<Rightarrow> 'w \<Rightarrow> bool \<times> wstr \<times> dword"
  OpenProcess :: "dword \<Rightarrow> 'w \<Rightarrow> handle \<times> dword"
  CloseProcess :: "handle \<Rightarrow> 'w \<Rightarrow> bool \<times> dword"
  GetWindowThreadProcessId :: "handle \<Rightarrow> 'w \<Rightarrow> dword \<times> dword \<times> dword"
  GetChildWindow :: "handle \<Rightarrow> 'w \<Rightarrow> handle"
  GetNextWindow :: "handle \<Rightarrow> 'w \<Rightarrow> handle"
  GetClassName :: "handle \<Rightarrow> nat \<Rightarrow> 'w \<Rightarrow> int \<times> wstr \<times> dword"
  sso_capacity :: nat
  grown_capacity :: "wstr \<Rightarrow> nat"
  CompareStringOrdinal_ci :: "wstr \<Rightarrow> wstr \<Rightarrow> bool"
  GetAncestorRoot :: "handle \<Rightarrow> 'w \<Rightarrow> handle"
  GetWindowRect :: "handle \<Rightarrow> 'w \<Rightarrow> bool \<times> (32 word \<times> 32 word \<times> 32 word \<times> 32 word) \<times> dword"
  DwmExtendedFrameBounds :: "handle \<Rightarrow> 'w \<Rightarrow> hresult \<times> (32 word \<times> 32 word \<times> 32 word \<times> 32 word)"
  MonitorFromWindow :: "handle \<Rightarrow> 'w \<Rightarrow> handle"
  PrimaryMonitor :: "'w \<Rightarrow> handle"
  GetWindowTextLength :: "handle \<Rightarrow> 'w \<Rightarrow> int \<times> dword"
  GetWindowText :: "handle \<Rightarrow> nat \<Rightarrow> 'w \<Rightarrow> int \<times> wstr"
  SetWindowPos :: "handle \<Rightarrow> 32 word \<Rightarrow> 32 word \<Rightarrow> 32 word \<Rightarrow> 32 word \<Rightarrow> 'w \<Rightarrow> bool \<times> dword \<times> 'w"

section \<open>The buffer sizes\<close>

text \<open>\<open>std::bit_width\<close> is \<open>floorlog 2\<close>.\<close>

(* @ app/win32/process.cc:11-19 align_down_4x128 *)
definition align_down_4x128 :: "nat \<Rightarrow> nat" where
  "align_down_4x128 x =
     (if x < 128 then 128
      else let width = floorlog 2 x;
               target_shift = (if width mod 2 = 0 then width - 1 else width - 2)
           in 2 ^ target_shift)"

lemma floorlog2_bounds:
  assumes "0 < x"
  shows "2 ^ (floorlog 2 x - 1) \<le> x" "x < 2 ^ floorlog 2 x" "0 < floorlog 2 x"
  using floorlog_bounds [of x 2] assms by (auto simp: floorlog_def)

lemma align_down_steps:
  assumes "128 \<le> x"
  shows "\<exists>k. align_down_4x128 x = 128 * 4 ^ k \<and> 128 * 4 ^ k \<le> x \<and> x < 128 * 4 ^ Suc k"
proof -
  define n where "n = floorlog 2 x"
  have n: "2 ^ (n - 1) \<le> x" "x < 2 ^ n" using floorlog2_bounds [of x] assms by (simp_all add: n_def)
  have "7 < n"
  proof (rule ccontr)
    assume "\<not> 7 < n"
    then have "(2::nat) ^ n \<le> 2 ^ 7" by (intro power_increasing) simp_all
    then show False using n(2) assms by simp
  qed
  define s where "s = (if n mod 2 = 0 then n - 1 else n - 2)"
  have "odd s" "7 \<le> s" "n - 2 \<le> s" "s \<le> n - 1"
    using \<open>7 < n\<close> by (auto simp: s_def) presburger+
  then obtain j where j: "s = 2 * j + 1" "3 \<le> j" by (elim oddE) simp
  define k where "k = j - 3"
  have s: "s = 7 + 2 * k" using j by (simp add: k_def)
  have p: "(2::nat) ^ s = 128 * 4 ^ k" by (simp add: s power_add power_mult)
  have low: "(2::nat) ^ s \<le> 2 ^ (n - 1)" and up: "(2::nat) ^ n \<le> 2 ^ (s + 2)"
    using \<open>s \<le> n - 1\<close> \<open>n - 2 \<le> s\<close> by (intro power_increasing; simp)+
  have "2 ^ s \<le> x" "x < 2 ^ s * 4"
    using order_trans [OF low n(1)] order.strict_trans2 [OF n(2) up] by (simp_all add: power_add)
  moreover have "align_down_4x128 x = 2 ^ s"
    using assms by (simp add: align_down_4x128_def s_def n_def Let_def)
  ultimately show ?thesis using p by (intro exI [of _ k]) simp
qed

lemma align_down_grows: "x < align_down_4x128 (4 * x)"
proof (cases "128 \<le> 4 * x")
  case True
  then show ?thesis using align_down_steps [OF True] by auto
qed (simp add: align_down_4x128_def)

section \<open>The image name of a process\<close>

text \<open>The result pairs the error with the string; a failed allocation is \<open>E_OUTOFMEMORY\<close> (sizes
  below 32768 are never too long).\<close>

(* @ app/win32/process.cc:23-49 GetProcessImageNameFromHANDLEWithBufferSize *)
definition GetProcessImageNameFromHANDLEWithBufferSize ::
  "('w, 'a) win_api_scheme \<Rightarrow> handle \<Rightarrow> nat \<Rightarrow> 'w \<Rightarrow> exn + dword \<times> wstr" where
  "GetProcessImageNameFromHANDLEWithBufferSize A hprocess buffer_size w =
     (if str_alloc A buffer_size \<noteq> AllocOk then Inl BadAlloc
      else let (rc, buf, err) = QueryFullProcessImageName A hprocess buffer_size w in
        if \<not> rc then Inr (err, []) else Inr (ERROR_SUCCESS, buf))"

(* @ app/win32/process.cc:53-64 GetProcessImageNameFromHANDLE *)
function image_name_loop ::
  "('w, 'a) win_api_scheme \<Rightarrow> handle \<Rightarrow> nat \<Rightarrow> dword \<times> wstr \<Rightarrow> 'w \<Rightarrow> exn + dword \<times> wstr" where
  "image_name_loop A hprocess buffer_size res w =
     (if buffer_size \<le> 32768 then
        (case GetProcessImageNameFromHANDLEWithBufferSize A hprocess (buffer_size - 1) w of
           Inl e \<Rightarrow> Inl e
         | Inr (lasterr, path) \<Rightarrow>
             if lasterr \<noteq> ERROR_INSUFFICIENT_BUFFER then Inr (lasterr, path)
             else image_name_loop A hprocess (align_down_4x128 (4 * buffer_size)) (lasterr, path) w)
      else Inr res)"
  by pat_completeness auto
termination
  by (relation "measure (\<lambda>(A, h, b, r, w). 32769 - b)") (auto simp: align_down_grows diff_less_mono2)

declare image_name_loop.simps [simp del]

(* @ app/win32/process.cc:51-68 GetProcessImageNameFromHANDLE *)
definition GetProcessImageNameFromHANDLE ::
  "('w, 'a) win_api_scheme \<Rightarrow> handle \<Rightarrow> nat \<Rightarrow> wstr \<Rightarrow> 'w \<Rightarrow> hresult \<times> wstr" where
  "GetProcessImageNameFromHANDLE A hprocess capacity filepath w =
     (let start = min (max capacity 128) 32768 in
      case image_name_loop A hprocess start (ERROR_SUCCESS, filepath) w of
        Inl _ \<Rightarrow> (E_OUTOFMEMORY, filepath)
      | Inr (lasterr, path) \<Rightarrow> (HResultFromWin32 A lasterr, path))"

(* @ app/win32/process.cc:70-82 GetProcessImageNameFromId *)
definition GetProcessImageNameFromId ::
  "('w, 'a) win_api_scheme \<Rightarrow> dword \<Rightarrow> nat \<Rightarrow> wstr \<Rightarrow> 'w \<Rightarrow> hresult \<times> wstr" where
  "GetProcessImageNameFromId A process_id capacity filepath w =
     (let (process, err) = OpenProcess A process_id w in
      if process = 0 then (LastErrorAsHResult A err, filepath)
      else let (hr, path) = GetProcessImageNameFromHANDLE A process capacity filepath w;
               (rc, err') = CloseProcess A process w
           in if \<not> rc \<and> hr = S_OK then (LastErrorAsHResult A err', path) else (hr, path))"

section \<open>The process of a window\<close>

(* @ app/win32/process.cc:7-7 kApplicationHostFilename *)
definition kApplicationHostFilename :: wstr where
  "kApplicationHostFilename =
     widen (CHR 0x5C # ''windows'' @ CHR 0x5C # ''system32'' @ CHR 0x5C # ''applicationframehost.exe'')"

(* @ app/win32/process.cc:8-8 kCoreWindowClass *)
definition kCoreWindowClass :: wstr where "kCoreWindowClass = widen ''Windows.UI.Core.CoreWindow''"

definition is_core_window :: "('w, 'a) win_api_scheme \<Rightarrow> handle \<Rightarrow> 'w \<Rightarrow> bool" where
  "is_core_window A child w =
     (let (n, class_name, _) = GetClassName A child 256 w in 0 < n \<and> class_name = kCoreWindowClass)"

(* @ app/win32/process.cc:91-99 GetCoreWindowFromParent *)
partial_function (option) core_window_walk ::
  "('w, 'a) win_api_scheme \<Rightarrow> 'w \<Rightarrow> handle \<Rightarrow> handle option" where
  "core_window_walk A w child =
     (if child = 0 then Some 0
      else if is_core_window A child w then Some child
      else core_window_walk A w (GetNextWindow A child w))"

(* @ app/win32/process.cc:84-100 GetCoreWindowFromParent *)
definition GetCoreWindowFromParent :: "('w, 'a) win_api_scheme \<Rightarrow> handle \<Rightarrow> 'w \<Rightarrow> handle option" where
  "GetCoreWindowFromParent A parent w =
     (if parent = 0 then Some 0 else core_window_walk A w (GetChildWindow A parent w))"

(* @ app/win32/process.cc:102-116 EndsWithOrdinalIgnoreCase *)
definition EndsWithOrdinalIgnoreCase :: "('w, 'a) win_api_scheme \<Rightarrow> wstr \<Rightarrow> wstr \<Rightarrow> bool" where
  "EndsWithOrdinalIgnoreCase A target suffix =
     (if length target < length suffix then False
      else CompareStringOrdinal_ci A (drop (length target - length suffix) target) suffix)"

(* @ app/win32/process.h:5-8 ProcessInfo *)
record ProcessInfo =
  proc_id :: dword
  proc_filepath :: wstr

text \<open>\<open>sso_capacity\<close> is the capacity of an empty string of the library, \<open>grown_capacity\<close> the one it has
  after the first query.\<close>

(* @ app/win32/process.cc:118-165 GetProcessInfoFromHWND *)
definition GetProcessInfoFromHWND ::
  "('w, 'a) win_api_scheme \<Rightarrow> handle \<Rightarrow> 'w \<Rightarrow> (hresult + ProcessInfo) option" where
  "GetProcessInfoFromHWND A hwnd w =
     (let (rc, process_id, err) = GetWindowThreadProcessId A hwnd w in
      if rc = 0 then Some (Inl (LastErrorAsHResult A err))
      else let (hr, filepath) = GetProcessImageNameFromId A process_id (sso_capacity A) [] w in
      if FAILED hr then Some (Inl hr)
      else let own = Some (Inr \<lparr>proc_id = process_id, proc_filepath = filepath\<rparr>) in
      if \<not> EndsWithOrdinalIgnoreCase A filepath kApplicationHostFilename then own
      else do {
        child \<leftarrow> GetCoreWindowFromParent A hwnd w;
        if child = 0 then own
        else let (rc', real_process_id, err') = GetWindowThreadProcessId A child w in
          if rc' = 0 then Some (Inl (LastErrorAsHResult A err'))
          else if real_process_id = 0 then own
          else let (hr', filepath') = GetProcessImageNameFromId A real_process_id (grown_capacity A filepath) filepath w in
            if FAILED hr' then Some (Inl hr')
            else Some (Inr \<lparr>proc_id = real_process_id, proc_filepath = filepath'\<rparr>)
      })"

section \<open>The walk over the siblings\<close>

text \<open>\<open>chain A w c cs\<close>: the siblings from \<open>c\<close> on are \<open>cs\<close>, and the chain ends.\<close>

fun chain :: "('w, 'a) win_api_scheme \<Rightarrow> 'w \<Rightarrow> handle \<Rightarrow> handle list \<Rightarrow> bool" where
  "chain A w c [] \<longleftrightarrow> c = 0"
| "chain A w c (d # ds) \<longleftrightarrow> c = d \<and> d \<noteq> 0 \<and> chain A w (GetNextWindow A d w) ds"

lemma core_window_walk_chain:
  "chain A w c cs \<Longrightarrow>
   core_window_walk A w c = Some (case filter (\<lambda>d. is_core_window A d w) cs of [] \<Rightarrow> 0 | d # _ \<Rightarrow> d)"
proof (induction cs arbitrary: c)
  case Nil
  then show ?case by (subst core_window_walk.simps) simp
next
  case (Cons d ds)
  then show ?case by (subst core_window_walk.simps) simp
qed

text \<open>Every buffer size tried is between 128 and 32768, and each is larger than the one before.\<close>

lemma image_name_result:
  assumes "image_name_loop A h b res w = Inr (e, path)" "b \<le> 32768"
  shows "e \<noteq> ERROR_INSUFFICIENT_BUFFER \<or>
    (\<exists>b' \<le> 32768. 8192 < b' \<and>
       GetProcessImageNameFromHANDLEWithBufferSize A h (b' - 1) w = Inr (ERROR_INSUFFICIENT_BUFFER, path))"
  using assms
proof (induction A h b res w rule: image_name_loop.induct)
  case (1 A h b res w)
  obtain e1 p1 where q: "GetProcessImageNameFromHANDLEWithBufferSize A h (b - 1) w = Inr (e1, p1)"
    using 1(2,3) by (subst (asm) (1) image_name_loop.simps) (auto split: sum.splits)
  show ?case
  proof (cases "e1 = ERROR_INSUFFICIENT_BUFFER")
    case False
    then show ?thesis
      using 1(2,3) q by (subst (asm) (1) image_name_loop.simps) simp
  next
    case True
    let ?b = "align_down_4x128 (4 * b)"
    have run: "image_name_loop A h ?b (e1, p1) w = Inr (e, path)"
      using 1(2,3) q True by (subst (asm) (1) image_name_loop.simps) simp
    show ?thesis
    proof (cases "?b \<le> 32768")
      case b: True
      then show ?thesis using 1(1) [OF 1(3) q] True run by simp
    next
      case False
      then have "e = e1" "path = p1"
        using run by (subst (asm) (1) image_name_loop.simps, simp)+
      moreover have "8192 < b"
      proof (rule ccontr)
        assume "\<not> 8192 < b"
        then have "4 * b \<le> 32768" by simp
        moreover have "?b \<le> max 128 (4 * b)"
          using align_down_steps [of "4 * b"] by (cases "128 \<le> 4 * b") (auto simp: align_down_4x128_def)
        ultimately show False using False by simp
      qed
      ultimately show ?thesis using q True 1(3) by auto
    qed
  qed
qed

end
