(* ===== verification/Numeric.thy ===== *)
theory Numeric
  imports Float32
begin

text \<open>
  \<open>numeric/\<close>: the fixed-size vectors.  \<open>common.h\<close> is the portable storage (an array), modelled as a
  list of its \<open>N\<close> elements; \<open>x86/int32x4_x86.h\<close> and \<open>x86/float32x4_x86.h\<close> are the SSE storages,
  modelled as four 32-bit lanes with the intrinsics written out.  Every compile-time feature test
  of the source is a field of \<open>simd_features\<close>, so that all instruction paths are definitions.
  \<open>storage_lanes\<close> relates the two: the first \<open>N\<close> lanes of a register are the array.
\<close>

section \<open>common.h: the portable storage\<close>

(* @ app/numeric/common.h:42-44 __alignup *)
definition alignup :: "64 word \<Rightarrow> 64 word \<Rightarrow> 64 word" where
  "alignup x a = (x + (a - 1)) AND NOT (a - 1)"

(* @ app/numeric/common.h:46-49 __storage_size *)
definition storage_size :: "nat \<Rightarrow> nat \<Rightarrow> nat \<Rightarrow> nat" where
  "storage_size storage_length element_length sizeof_T = storage_length div element_length * sizeof_T"

(* @ app/numeric/common.h:102-111 _vec_storage::at *)
definition g_at :: "'a list \<Rightarrow> nat \<Rightarrow> 'a" where "g_at v i = v ! i"

(* @ app/numeric/common.h:113-115 _vec_storage::xy *)
definition g_xy :: "'a list \<Rightarrow> 'a list" where "g_xy v = [v ! 0, v ! 1]"

(* @ app/numeric/common.h:116-118 _vec_storage::zw *)
definition g_zw :: "'a list \<Rightarrow> 'a list" where "g_zw v = [v ! 2, v ! 3]"

(* @ app/numeric/common.h:120-129 _vec_storage::setAt *)
definition g_setAt :: "'a list \<Rightarrow> nat \<Rightarrow> 'a \<Rightarrow> 'a list" where "g_setAt v i a = v[i := a]"

(* @ app/numeric/common.h:131-134 _vec_storage::setXY *)
definition g_setXY :: "'a list \<Rightarrow> 'a list \<Rightarrow> 'a list" where
  "g_setXY v r = v[0 := r ! 0, 1 := r ! 1]"

(* @ app/numeric/common.h:135-138 _vec_storage::setZW *)
definition g_setZW :: "'a list \<Rightarrow> 'a list \<Rightarrow> 'a list" where
  "g_setZW v r = v[2 := r ! 0, 3 := r ! 1]"

(* @ app/numeric/common.h:140-146 _vec_storage::splat *)
definition g_splat :: "nat \<Rightarrow> 'a \<Rightarrow> 'a list" where "g_splat N s = replicate N s"

(* @ app/numeric/common.h:147-158 _vec_storage::make *)
definition g_make :: "'a \<Rightarrow> 'a \<Rightarrow> 'a \<Rightarrow> 'a \<Rightarrow> 'a list" where "g_make x y z w = [x, y, z, w]"

(* @ app/numeric/common.h:159-161 _vec_storage::concat *)
definition g_concat :: "'a list \<Rightarrow> 'a list \<Rightarrow> 'a list" where
  "g_concat xy zw = [xy ! 0, xy ! 1, zw ! 0, zw ! 1]"

(* @ app/numeric/common.h:163-170 _vec_storage::operator== *)
fun g_eq :: "('a \<Rightarrow> 'a \<Rightarrow> bool) \<Rightarrow> 'a list \<Rightarrow> 'a list \<Rightarrow> bool" where
  "g_eq eq (a # as) (b # bs) = (if \<not> eq a b then False else g_eq eq as bs)"
| "g_eq eq _ _ = True"

(* @ app/numeric/common.h:171-178 _vec_storage::operator!= *)
fun g_ne :: "('a \<Rightarrow> 'a \<Rightarrow> bool) \<Rightarrow> 'a list \<Rightarrow> 'a list \<Rightarrow> bool" where
  "g_ne eq (a # as) (b # bs) = (if \<not> eq a b then True else g_ne eq as bs)"
| "g_ne eq _ _ = False"

text \<open>The loops over one or two arrays; the element operation is the one of the element type.\<close>

(* @ app/numeric/common.h:180-193 _vec_storage::operator- *)
definition g_map :: "('a \<Rightarrow> 'b) \<Rightarrow> 'a list \<Rightarrow> 'b list" where "g_map f v = List.map f v"

(* @ app/numeric/common.h:195-250 _vec_storage::operator+= *)
fun g_map2 :: "('a \<Rightarrow> 'b \<Rightarrow> 'a) \<Rightarrow> 'a list \<Rightarrow> 'b list \<Rightarrow> 'a list" where
  "g_map2 f (a # as) (b # bs) = f a b # g_map2 f as bs"
| "g_map2 f [] bs = []"
| "g_map2 f (a # as) [] = a # as"

(* @ app/numeric/common.h:252-279 _vec_storage::ceil *)
definition g_round :: "(rat \<Rightarrow> int) \<Rightarrow> f32 list \<Rightarrow> f32 list" where
  "g_round r v = g_map (f32_to_integral r) v"

(* @ app/numeric/common.h:281-316 _vec_storage::_lceil *)
definition g_lround :: "(rat \<Rightarrow> int) \<Rightarrow> f32 list \<Rightarrow> 32 word list" where
  "g_lround r v = g_map (f32_to_i32 r) v"

text \<open>\<open>std::lround\<close> rounds halves away from zero.\<close>

definition round_away :: "rat \<Rightarrow> int" where
  "round_away x = (if 0 \<le> x then \<lfloor>x + 1 / 2\<rfloor> else \<lceil>x - 1 / 2\<rceil>)"

lemma g_ne_eq: "g_ne eq a b \<longleftrightarrow> \<not> g_eq eq a b"
  by (induction eq a b rule: g_eq.induct) simp_all

lemma g_eq_iff:
  "length a = length b \<Longrightarrow> g_eq eq a b \<longleftrightarrow> (\<forall>i < length a. eq (a ! i) (b ! i))"
  by (induction eq a b rule: g_eq.induct) (auto simp: less_Suc_eq_0_disj)

lemma g_map2_Nil [simp]: "g_map2 f a [] = a"
  by (cases a) simp_all

lemma length_g_map2 [simp]: "length (g_map2 f a b) = length a"
  by (induction f a b rule: g_map2.induct) simp_all

lemma alignup_multiple:
  assumes "a = 2 ^ k" "k < 64"
  shows "take_bit k (alignup x a) = 0"
proof -
  have "a - 1 = mask k" using assms by (simp add: mask_eq_decr_exp)
  then have "alignup x a = (x + (a - 1)) AND NOT (mask k)" by (simp add: alignup_def)
  then show ?thesis by (simp add: take_bit_eq_mask and.assoc)
qed

section \<open>128-bit registers\<close>

datatype 'a m128 = M128 (lane0: 'a) (lane1: 'a) (lane2: 'a) (lane3: 'a)

type_synonym i32x4 = "32 word m128"
type_synonym f32x4 = "f32 m128"

fun lanes :: "'a m128 \<Rightarrow> 'a list" where "lanes (M128 a b c d) = [a, b, c, d]"

definition storage_lanes :: "nat \<Rightarrow> 'a m128 \<Rightarrow> 'a list" where
  "storage_lanes N v = take N (lanes v)"

fun lift1 :: "('a \<Rightarrow> 'b) \<Rightarrow> 'a m128 \<Rightarrow> 'b m128" where
  "lift1 f (M128 a b c d) = M128 (f a) (f b) (f c) (f d)"
fun lift2 :: "('a \<Rightarrow> 'b \<Rightarrow> 'c) \<Rightarrow> 'a m128 \<Rightarrow> 'b m128 \<Rightarrow> 'c m128" where
  "lift2 f (M128 a b c d) (M128 a' b' c' d') = M128 (f a a') (f b b') (f c c') (f d d')"

lemma lanes_lift1 [simp]: "lanes (lift1 f v) = List.map f (lanes v)"
  by (cases v) simp

lemma lanes_lift2 [simp]: "lanes (lift2 f u v) = g_map2 f (lanes u) (lanes v)"
  by (cases u; cases v) simp

lemma length_lanes [simp]: "length (lanes v) = 4"
  by (cases v) simp

lemma take_g_map2: "take n (g_map2 f a b) = g_map2 f (take n a) (take n b)"
proof (induction f a b arbitrary: n rule: g_map2.induct)
  case (1 f a as b bs)
  then show ?case by (cases n) simp_all
qed simp_all

text \<open>The intrinsics, lane by lane.\<close>

abbreviation all_ones :: "32 word" where "all_ones \<equiv> - 1"

definition truth :: "bool \<Rightarrow> 32 word" where "truth b = (if b then all_ones else 0)"

fun mm_set :: "'a \<Rightarrow> 'a \<Rightarrow> 'a \<Rightarrow> 'a \<Rightarrow> 'a m128" where "mm_set w z y x = M128 x y z w"
definition mm_set1 :: "'a \<Rightarrow> 'a m128" where "mm_set1 x = M128 x x x x"
definition mm_set_ss :: "32 word \<Rightarrow> 32 word m128" where "mm_set_ss x = M128 x 0 0 0"
definition mm_setzero :: "32 word m128" where "mm_setzero = M128 0 0 0 0"
fun mm_movelh :: "'a m128 \<Rightarrow> 'a m128 \<Rightarrow> 'a m128" where
  "mm_movelh (M128 a0 a1 a2 a3) (M128 b0 b1 b2 b3) = M128 a0 a1 b0 b1"
fun mm_movehl :: "'a m128 \<Rightarrow> 'a m128 \<Rightarrow> 'a m128" where
  "mm_movehl (M128 a0 a1 a2 a3) (M128 b0 b1 b2 b3) = M128 b2 b3 a2 a3"
abbreviation "mm_unpacklo_epi64 \<equiv> mm_movelh"
fun mm_unpackhi_epi64 :: "'a m128 \<Rightarrow> 'a m128 \<Rightarrow> 'a m128" where
  "mm_unpackhi_epi64 (M128 a0 a1 a2 a3) (M128 b0 b1 b2 b3) = M128 a2 a3 b2 b3"
fun mm_unpacklo_epi32 :: "'a m128 \<Rightarrow> 'a m128 \<Rightarrow> 'a m128" where
  "mm_unpacklo_epi32 (M128 a0 a1 a2 a3) (M128 b0 b1 b2 b3) = M128 a0 b0 a1 b1"

text \<open>\<open>_mm_shuffle_ps (a, b, _MM_SHUFFLE (i3, i2, i1, i0))\<close> takes two lanes of each operand;
  \<open>_mm_shuffle_epi32\<close> is the same with one operand.\<close>

definition mm_shuffle :: "'a m128 \<Rightarrow> 'a m128 \<Rightarrow> nat \<times> nat \<times> nat \<times> nat \<Rightarrow> 'a m128" where
  "mm_shuffle a b = (\<lambda>(i3, i2, i1, i0).
     M128 (lanes a ! i0) (lanes a ! i1) (lanes b ! i2) (lanes b ! i3))"

text \<open>A blend whose mask selects whole 32-bit lanes.\<close>

fun mm_blend :: "'a m128 \<Rightarrow> 'a m128 \<Rightarrow> bool \<times> bool \<times> bool \<times> bool \<Rightarrow> 'a m128" where
  "mm_blend (M128 a0 a1 a2 a3) (M128 b0 b1 b2 b3) (m3, m2, m1, m0) =
     M128 (if m0 then b0 else a0) (if m1 then b1 else a1) (if m2 then b2 else a2) (if m3 then b3 else a3)"

abbreviation mm_and :: "32 word m128 \<Rightarrow> 32 word m128 \<Rightarrow> 32 word m128" where "mm_and \<equiv> lift2 (AND)"
abbreviation mm_or :: "32 word m128 \<Rightarrow> 32 word m128 \<Rightarrow> 32 word m128" where "mm_or \<equiv> lift2 (OR)"
abbreviation mm_xor :: "32 word m128 \<Rightarrow> 32 word m128 \<Rightarrow> 32 word m128" where "mm_xor \<equiv> lift2 (XOR)"
abbreviation mm_andnot :: "32 word m128 \<Rightarrow> 32 word m128 \<Rightarrow> 32 word m128" where
  "mm_andnot \<equiv> lift2 (\<lambda>a b. NOT a AND b)"
abbreviation "mm_cmplt_ps \<equiv> lift2 (\<lambda>a b. truth (f32_lt a b))"
abbreviation "mm_cmpgt_ps \<equiv> lift2 (\<lambda>a b. truth (f32_lt b a))"
abbreviation "mm_cmpeq_ps \<equiv> lift2 (\<lambda>a b. truth (f32_eq a b))"
abbreviation mm_cmpeq_epi32 :: "32 word m128 \<Rightarrow> 32 word m128 \<Rightarrow> 32 word m128" where
  "mm_cmpeq_epi32 \<equiv> lift2 (\<lambda>a b. truth (a = b))"
definition mm_movemask_all :: "32 word m128 \<Rightarrow> bool" where
  "mm_movemask_all v \<longleftrightarrow> (\<forall>a \<in> set (lanes v). bit a 31)"
definition mm_testz :: "32 word m128 \<Rightarrow> 32 word m128 \<Rightarrow> bool" where
  "mm_testz a b \<longleftrightarrow> (\<forall>x \<in> set (lanes (mm_and a b)). x = 0)"

section \<open>The compile-time features\<close>

(* @ app/numeric/x86/base_x86.h:12-43 __simd_feature_tags *)
record simd_features =
  has_ssse3 :: bool
  has_sse4_1 :: bool
  has_avx :: bool
  has_avx2 :: bool

(* @ app/numeric/x86/base_x86.h:19-42 __simd_feature_tags *)
definition feature_tags :: "bool \<Rightarrow> bool \<Rightarrow> bool \<Rightarrow> bool \<Rightarrow> simd_features" where
  "feature_tags AVX AVX2 SSSE3 SSE4_1 =
     (if AVX then \<lparr>has_ssse3 = True, has_sse4_1 = True, has_avx = True, has_avx2 = AVX2\<rparr>
      else \<lparr>has_ssse3 = SSSE3, has_sse4_1 = SSSE3 \<and> SSE4_1, has_avx = False, has_avx2 = False\<rparr>)"

section \<open>x86/int32x4_x86.h\<close>

(* @ app/numeric/x86/int32x4_x86.h:8-40 _numeric128_i32_get *)
definition i4_at :: "i32x4 \<Rightarrow> nat \<Rightarrow> 32 word" where "i4_at v i = lanes v ! i"

(* @ app/numeric/x86/int32x4_x86.h:42-50 xy *)
definition i4_xy :: "bool \<Rightarrow> i32x4 \<Rightarrow> i32x4" where
  "i4_xy consteval v = (if consteval then M128 (lane0 v) (lane1 v) 0 0 else mm_unpacklo_epi64 v v)"

(* @ app/numeric/x86/int32x4_x86.h:51-59 zw *)
definition i4_zw :: "bool \<Rightarrow> i32x4 \<Rightarrow> i32x4" where
  "i4_zw consteval v = (if consteval then M128 (lane2 v) (lane3 v) 0 0 else mm_unpackhi_epi64 v v)"

(* @ app/numeric/x86/int32x4_x86.h:61-70 setAt *)
fun i4_setAt :: "i32x4 \<Rightarrow> nat \<Rightarrow> 32 word \<Rightarrow> i32x4" where
  "i4_setAt (M128 a b c d) i x =
     (if i = 0 then M128 x b c d else if i = 1 then M128 a x c d
      else if i = 2 then M128 a b x d else M128 a b c x)"

(* @ app/numeric/x86/int32x4_x86.h:72-78 setXY *)
definition i4_setXY :: "simd_features \<Rightarrow> i32x4 \<Rightarrow> i32x4 \<Rightarrow> i32x4" where
  "i4_setXY F val rhs =
     (if has_sse4_1 F then mm_blend val rhs (False, False, True, True)
      else mm_unpacklo_epi64 rhs (mm_unpackhi_epi64 val val))"

(* @ app/numeric/x86/int32x4_x86.h:79-85 setZW *)
definition i4_setZW :: "simd_features \<Rightarrow> i32x4 \<Rightarrow> i32x4 \<Rightarrow> i32x4" where
  "i4_setZW F val rhs =
     (if has_sse4_1 F then mm_blend val rhs (True, True, False, False)
      else mm_unpacklo_epi64 val rhs)"

(* @ app/numeric/x86/int32x4_x86.h:87-108 splat *)
definition i4_splat :: "simd_features \<Rightarrow> nat \<Rightarrow> 32 word \<Rightarrow> i32x4" where
  "i4_splat F N x =
     (if N = 1 then mm_set_ss x
      else if N = 2 then
        (if has_sse4_1 F then mm_blend mm_setzero (mm_set1 x) (False, False, True, True)
         else mm_shuffle (mm_set_ss x) (mm_set_ss x) (1, 1, 0, 0))
      else if N = 3 then
        (if has_sse4_1 F then mm_blend mm_setzero (mm_set1 x) (False, True, True, True)
         else let single = mm_set_ss x in
              mm_unpacklo_epi32 (mm_shuffle single single (1, 1, 0, 0)) single)
      else mm_set1 x)"

(* @ app/numeric/x86/int32x4_x86.h:109-132 make *)
definition i4_make :: "32 word \<Rightarrow> 32 word \<Rightarrow> 32 word \<Rightarrow> 32 word \<Rightarrow> i32x4" where
  "i4_make x y z w = mm_set w z y x"

(* @ app/numeric/x86/int32x4_x86.h:133-137 concat *)
definition i4_concat :: "i32x4 \<Rightarrow> i32x4 \<Rightarrow> i32x4" where
  "i4_concat xy zw = mm_unpacklo_epi64 xy zw"

(* @ app/numeric/x86/int32x4_x86.h:139-146 operator== *)
definition i4_eq :: "simd_features \<Rightarrow> i32x4 \<Rightarrow> i32x4 \<Rightarrow> bool" where
  "i4_eq F lhs rhs =
     (if has_sse4_1 F then let diff = mm_xor lhs rhs in mm_testz diff diff
      else mm_movemask_all (mm_cmpeq_epi32 lhs rhs))"

(* @ app/numeric/x86/int32x4_x86.h:147-154 operator!= *)
definition i4_ne :: "simd_features \<Rightarrow> i32x4 \<Rightarrow> i32x4 \<Rightarrow> bool" where
  "i4_ne F lhs rhs =
     (if has_sse4_1 F then let diff = mm_xor lhs rhs in \<not> mm_testz diff diff
      else \<not> mm_movemask_all (mm_cmpeq_epi32 lhs rhs))"

definition mm_sign_epi32 :: "i32x4 \<Rightarrow> i32x4 \<Rightarrow> i32x4" where
  "mm_sign_epi32 = lift2 (\<lambda>a s. if s = 0 then 0 else if s <s 0 then - a else a)"

(* @ app/numeric/x86/int32x4_x86.h:156-164 operator- *)
definition i4_neg :: "simd_features \<Rightarrow> i32x4 \<Rightarrow> i32x4" where
  "i4_neg F v = (if has_ssse3 F then mm_sign_epi32 v (mm_set1 (- 1)) else lift2 (-) mm_setzero v)"

(* @ app/numeric/x86/int32x4_x86.h:165-169 operator~ *)
definition i4_not :: "i32x4 \<Rightarrow> i32x4" where
  "i4_not v = mm_xor v (mm_cmpeq_epi32 v v)"

(* @ app/numeric/x86/int32x4_x86.h:171-174 operator+= *)
definition i4_add :: "i32x4 \<Rightarrow> i32x4 \<Rightarrow> i32x4" where "i4_add = lift2 (+)"
(* @ app/numeric/x86/int32x4_x86.h:175-178 operator-= *)
definition i4_sub :: "i32x4 \<Rightarrow> i32x4 \<Rightarrow> i32x4" where "i4_sub = lift2 (-)"
(* @ app/numeric/x86/int32x4_x86.h:179-182 operator*= *)
definition i4_mul :: "i32x4 \<Rightarrow> i32x4 \<Rightarrow> i32x4" where "i4_mul = lift2 (*)"
(* @ app/numeric/x86/int32x4_x86.h:184-187 operator&= *)
definition i4_and :: "i32x4 \<Rightarrow> i32x4 \<Rightarrow> i32x4" where "i4_and = lift2 (AND)"
(* @ app/numeric/x86/int32x4_x86.h:188-191 operator|= *)
definition i4_or :: "i32x4 \<Rightarrow> i32x4 \<Rightarrow> i32x4" where "i4_or = lift2 (OR)"
(* @ app/numeric/x86/int32x4_x86.h:192-195 operator^= *)
definition i4_xor :: "i32x4 \<Rightarrow> i32x4 \<Rightarrow> i32x4" where "i4_xor = lift2 (XOR)"

text \<open>The variable shifts: the AVX2 instructions read the count as unsigned and saturate; the C++
  operators of the loop are only defined for counts below 32, where both agree.\<close>

definition srav :: "32 word \<Rightarrow> 32 word \<Rightarrow> 32 word" where
  "srav a n = (if unat n < 32 then signed_drop_bit (unat n) a else signed_drop_bit 31 a)"
definition sllv :: "32 word \<Rightarrow> 32 word \<Rightarrow> 32 word" where
  "sllv a n = (if unat n < 32 then push_bit (unat n) a else 0)"

fun shift_loop :: "('a \<Rightarrow> 'a \<Rightarrow> 'a) \<Rightarrow> nat \<Rightarrow> 'a list \<Rightarrow> 'a list \<Rightarrow> 'a list" where
  "shift_loop f 0 v r = v"
| "shift_loop f (Suc n) (a # v) (b # r) = f a b # shift_loop f n v r"
| "shift_loop f (Suc n) v r = v"

(* @ app/numeric/x86/int32x4_x86.h:197-206 operator>>= *)
definition i4_shr :: "simd_features \<Rightarrow> nat \<Rightarrow> i32x4 \<Rightarrow> i32x4 \<Rightarrow> 32 word list" where
  "i4_shr F N v rhs =
     (if has_avx2 F then lanes (lift2 srav v rhs)
      else shift_loop (\<lambda>a n. signed_drop_bit (unat n) a) N (lanes v) (lanes rhs))"

(* @ app/numeric/x86/int32x4_x86.h:207-216 operator<<= *)
definition i4_shl :: "simd_features \<Rightarrow> nat \<Rightarrow> i32x4 \<Rightarrow> i32x4 \<Rightarrow> 32 word list" where
  "i4_shl F N v rhs =
     (if has_avx2 F then lanes (lift2 sllv v rhs)
      else shift_loop (\<lambda>a n. push_bit (unat n) a) N (lanes v) (lanes rhs))"

(* @ app/numeric/x86/int32x4_x86.h:218-224 operator _vec_storage<U, N, 16> *)
definition i4_to_f4 :: "i32x4 \<Rightarrow> f32x4" where
  "i4_to_f4 v = lift1 (\<lambda>a. f32_of_int (sint a)) v"

named_theorems i4_defs \<open>the integer register operations\<close>
lemmas [i4_defs] = i4_at_def i4_xy_def i4_zw_def i4_setXY_def i4_setZW_def i4_splat_def
  i4_make_def i4_concat_def i4_neg_def i4_not_def i4_add_def i4_sub_def i4_mul_def i4_and_def
  i4_or_def i4_xor_def mm_set_ss_def mm_set1_def mm_setzero_def mm_shuffle_def mm_sign_epi32_def

lemma xor_eq_0_iff [simp]: "(a :: 32 word) XOR b = 0 \<longleftrightarrow> a = b"
  by (simp add: bit_eq_iff bit_xor_iff)

lemma all_lanes_xor_0:
  "mm_testz (mm_xor u v) (mm_xor u v) \<longleftrightarrow> u = v"
  by (cases u; cases v) (auto simp: mm_testz_def)

lemma bit31_truth [simp]: "bit (truth b) 31 = b"
  by (simp add: truth_def)

text \<open>The two instruction sequences for \<open>==\<close> decide the same relation.\<close>

lemma i4_eq_iff: "i4_eq F u v \<longleftrightarrow> u = v"
  by (cases u; cases v) (auto simp: i4_eq_def Let_def mm_testz_def mm_movemask_all_def)

lemma i4_ne_iff: "i4_ne F u v \<longleftrightarrow> u \<noteq> v"
  by (cases u; cases v) (auto simp: i4_ne_def Let_def mm_testz_def mm_movemask_all_def)

lemma i4_neg_paths: "i4_neg F v = lift1 uminus v"
  by (cases v) (simp add: i4_defs word_sless_alt)

lemma i4_not_lanes: "i4_not v = lift1 (NOT) v"
  by (cases v) (simp add: i4_defs truth_def bit.xor_cancel_left)

section \<open>x86/float32x4_x86.h\<close>

abbreviation neg_zero :: f32 where "neg_zero \<equiv> 0x80000000"
abbreviation f32_one :: f32 where "f32_one \<equiv> 0x3F800000"
abbreviation f32_half :: f32 where "f32_half \<equiv> 0x3F000000"
abbreviation f32_2p23 :: f32 where "f32_2p23 \<equiv> 0x4B000000"

abbreviation "mm_add_ps \<equiv> lift2 f32_add"
abbreviation "mm_sub_ps \<equiv> lift2 f32_sub"
abbreviation "mm_mul_ps \<equiv> lift2 f32_mul"
abbreviation "mm_div_ps \<equiv> lift2 f32_div"

(* @ app/numeric/x86/float32x4_x86.h:22-28 _numeric128_rint_ps *)
definition numeric128_rint_ps :: "f32x4 \<Rightarrow> f32x4" where
  "numeric128_rint_ps v =
     (let magic = mm_set1 f32_2p23;
          signed_magic = mm_or magic (mm_and v (mm_set1 neg_zero));
          mask = mm_cmplt_ps (mm_andnot (mm_set1 neg_zero) v) magic;
          rounded = mm_sub_ps (mm_add_ps v signed_magic) signed_magic
      in mm_or (mm_and mask rounded) (mm_andnot mask v))"

(* @ app/numeric/x86/float32x4_x86.h:8-20 _numeric128_f32_get *)
definition f4_at :: "f32x4 \<Rightarrow> nat \<Rightarrow> f32" where "f4_at v i = lanes v ! i"

(* @ app/numeric/x86/float32x4_x86.h:49-57 xy *)
definition f4_xy :: "bool \<Rightarrow> f32x4 \<Rightarrow> f32x4" where
  "f4_xy consteval v = (if consteval then M128 (lane0 v) (lane1 v) 0 0 else mm_movelh v v)"

(* @ app/numeric/x86/float32x4_x86.h:58-66 zw *)
definition f4_zw :: "bool \<Rightarrow> f32x4 \<Rightarrow> f32x4" where
  "f4_zw consteval v = (if consteval then M128 (lane2 v) (lane3 v) 0 0 else mm_movehl v v)"

(* @ app/numeric/x86/float32x4_x86.h:68-77 setAt *)
fun f4_setAt :: "f32x4 \<Rightarrow> nat \<Rightarrow> f32 \<Rightarrow> f32x4" where
  "f4_setAt (M128 a b c d) i x =
     (if i = 0 then M128 x b c d else if i = 1 then M128 a x c d
      else if i = 2 then M128 a b x d else M128 a b c x)"

(* @ app/numeric/x86/float32x4_x86.h:79-81 setXY *)
definition f4_setXY :: "f32x4 \<Rightarrow> f32x4 \<Rightarrow> f32x4" where
  "f4_setXY val rhs = mm_shuffle rhs val (3, 2, 1, 0)"

(* @ app/numeric/x86/float32x4_x86.h:82-84 setZW *)
definition f4_setZW :: "f32x4 \<Rightarrow> f32x4 \<Rightarrow> f32x4" where
  "f4_setZW val rhs = mm_movelh val rhs"

(* @ app/numeric/x86/float32x4_x86.h:86-108 splat *)
definition f4_splat :: "simd_features \<Rightarrow> nat \<Rightarrow> f32 \<Rightarrow> f32x4" where
  "f4_splat F N x =
     (if N = 1 then mm_set_ss x
      else if N = 2 then
        (if has_sse4_1 F then mm_blend mm_setzero (mm_set1 x) (False, False, True, True)
         else let single = mm_set1 x in mm_shuffle single single (1, 1, 0, 0))
      else if N = 3 then
        (if has_sse4_1 F then mm_blend mm_setzero (mm_set1 x) (False, True, True, True)
         else let single = mm_set1 x in mm_shuffle single single (1, 0, 0, 0))
      else mm_set1 x)"

(* @ app/numeric/x86/float32x4_x86.h:109-132 make *)
definition f4_make :: "f32 \<Rightarrow> f32 \<Rightarrow> f32 \<Rightarrow> f32 \<Rightarrow> f32x4" where
  "f4_make x y z w = mm_set w z y x"

(* @ app/numeric/x86/float32x4_x86.h:133-137 concat *)
definition f4_concat :: "f32x4 \<Rightarrow> f32x4 \<Rightarrow> f32x4" where
  "f4_concat xy zw = mm_movelh xy zw"

(* @ app/numeric/x86/float32x4_x86.h:139-141 operator== *)
definition f4_eq :: "f32x4 \<Rightarrow> f32x4 \<Rightarrow> bool" where
  "f4_eq lhs rhs \<longleftrightarrow> mm_movemask_all (mm_cmpeq_ps lhs rhs)"

(* @ app/numeric/x86/float32x4_x86.h:142-144 operator!= *)
definition f4_ne :: "f32x4 \<Rightarrow> f32x4 \<Rightarrow> bool" where
  "f4_ne lhs rhs \<longleftrightarrow> \<not> mm_movemask_all (mm_cmpeq_ps lhs rhs)"

(* @ app/numeric/x86/float32x4_x86.h:146-150 operator- *)
definition f4_neg :: "f32x4 \<Rightarrow> f32x4" where
  "f4_neg v = mm_xor v (mm_set1 neg_zero)"

(* @ app/numeric/x86/float32x4_x86.h:151-156 operator~ *)
definition f4_not :: "f32x4 \<Rightarrow> f32x4" where
  "f4_not v = mm_xor v (mm_cmpeq_epi32 v v)"

(* @ app/numeric/x86/float32x4_x86.h:158-161 operator+= *)
definition f4_add :: "f32x4 \<Rightarrow> f32x4 \<Rightarrow> f32x4" where "f4_add = mm_add_ps"
(* @ app/numeric/x86/float32x4_x86.h:162-165 operator-= *)
definition f4_sub :: "f32x4 \<Rightarrow> f32x4 \<Rightarrow> f32x4" where "f4_sub = mm_sub_ps"
(* @ app/numeric/x86/float32x4_x86.h:166-169 operator*= *)
definition f4_mul :: "f32x4 \<Rightarrow> f32x4 \<Rightarrow> f32x4" where "f4_mul = mm_mul_ps"
(* @ app/numeric/x86/float32x4_x86.h:170-173 operator/= *)
definition f4_div :: "f32x4 \<Rightarrow> f32x4 \<Rightarrow> f32x4" where "f4_div = mm_div_ps"

(* @ app/numeric/x86/float32x4_x86.h:175-184 operator*= *)
definition f4_mul_int :: "simd_features \<Rightarrow> f32x4 \<Rightarrow> 32 word \<Rightarrow> f32x4" where
  "f4_mul_int F val rhs =
     (if has_avx F then mm_mul_ps val (mm_set1 (lane0 (mm_set_ss (f32_of_int (sint rhs)))))
      else mm_mul_ps val (i4_to_f4 (mm_set1 rhs)))"

(* @ app/numeric/x86/float32x4_x86.h:185-190 operator*= *)
definition f4_mul_ints :: "f32x4 \<Rightarrow> i32x4 \<Rightarrow> f32x4" where
  "f4_mul_ints val rhs = mm_mul_ps val (i4_to_f4 rhs)"

(* @ app/numeric/x86/float32x4_x86.h:192-195 operator&= *)
definition f4_and :: "f32x4 \<Rightarrow> f32x4 \<Rightarrow> f32x4" where "f4_and = lift2 (AND)"
(* @ app/numeric/x86/float32x4_x86.h:196-199 operator|= *)
definition f4_or :: "f32x4 \<Rightarrow> f32x4 \<Rightarrow> f32x4" where "f4_or = lift2 (OR)"
(* @ app/numeric/x86/float32x4_x86.h:200-203 operator^= *)
definition f4_xor :: "f32x4 \<Rightarrow> f32x4 \<Rightarrow> f32x4" where "f4_xor = lift2 (XOR)"

(* @ app/numeric/x86/float32x4_x86.h:205-216 ceil *)
definition f4_ceil :: "simd_features \<Rightarrow> f32x4 \<Rightarrow> f32x4" where
  "f4_ceil F val =
     (if has_sse4_1 F then lift1 f32_ceil val
      else let rint_val = numeric128_rint_ps val;
               mask = mm_cmplt_ps rint_val val;
               adjustment = mm_and mask (mm_set1 f32_one)
           in mm_add_ps rint_val adjustment)"

(* @ app/numeric/x86/float32x4_x86.h:217-228 floor *)
definition f4_floor :: "simd_features \<Rightarrow> f32x4 \<Rightarrow> f32x4" where
  "f4_floor F val =
     (if has_sse4_1 F then lift1 f32_floor val
      else let rint_val = numeric128_rint_ps val;
               mask = mm_cmpgt_ps rint_val val;
               adjustment = mm_and mask (mm_set1 f32_one)
           in mm_sub_ps rint_val adjustment)"

(* @ app/numeric/x86/float32x4_x86.h:229-237 rint *)
definition f4_rint :: "simd_features \<Rightarrow> f32x4 \<Rightarrow> f32x4" where
  "f4_rint F val = (if has_sse4_1 F then lift1 f32_rint val else numeric128_rint_ps val)"

(* @ app/numeric/x86/float32x4_x86.h:238-254 trunc *)
definition f4_trunc :: "simd_features \<Rightarrow> f32x4 \<Rightarrow> f32x4" where
  "f4_trunc F val =
     (if has_sse4_1 F then lift1 f32_trunc val
      else let rint_val = numeric128_rint_ps val;
               abs_val = mm_andnot (mm_set1 neg_zero) val;
               abs_rint = mm_andnot (mm_set1 neg_zero) rint_val;
               mask = mm_cmpgt_ps abs_rint abs_val;
               sign = mm_and val (mm_set1 neg_zero);
               unit = mm_or (mm_set1 f32_one) sign;
               adjustment = mm_and mask unit
           in mm_sub_ps rint_val adjustment)"

(* @ app/numeric/x86/float32x4_x86.h:257-266 _lceil *)
definition f4_lceil :: "simd_features \<Rightarrow> f32x4 \<Rightarrow> i32x4" where
  "f4_lceil F val =
     (if has_sse4_1 F then lift1 (f32_to_i32 rtrunc) (lift1 f32_ceil val)
      else lift1 (f32_to_i32 ceiling) val)"

(* @ app/numeric/x86/float32x4_x86.h:267-276 _lfloor *)
definition f4_lfloor :: "simd_features \<Rightarrow> f32x4 \<Rightarrow> i32x4" where
  "f4_lfloor F val =
     (if has_sse4_1 F then lift1 (f32_to_i32 rtrunc) (lift1 f32_floor val)
      else lift1 (f32_to_i32 floor) val)"

(* @ app/numeric/x86/float32x4_x86.h:277-286 _lrint *)
definition f4_lrint :: "simd_features \<Rightarrow> f32x4 \<Rightarrow> i32x4" where
  "f4_lrint F val =
     (if has_sse4_1 F then lift1 (f32_to_i32 rtrunc) (lift1 f32_rint val)
      else lift1 (f32_to_i32 rne) val)"

(* @ app/numeric/x86/float32x4_x86.h:287-295 _lround *)
definition f4_lround :: "f32x4 \<Rightarrow> i32x4" where
  "f4_lround val =
     (let sign_mask = mm_and val (mm_set1 neg_zero);
          bias = mm_or (mm_set1 f32_half) sign_mask
      in lift1 (f32_to_i32 rtrunc) (mm_add_ps val bias))"

(* @ app/numeric/x86/float32x4_x86.h:296-300 _ltrunc *)
definition f4_ltrunc :: "f32x4 \<Rightarrow> i32x4" where
  "f4_ltrunc val = lift1 (f32_to_i32 rtrunc) val"

(* @ app/numeric/x86/float32x4_x86.h:302-308 operator _vec_storage<U, N, 16> *)
definition f4_to_i4 :: "f32x4 \<Rightarrow> i32x4" where
  "f4_to_i4 val = lift1 (f32_to_i32 rtrunc) val"

section \<open>The SSE2 rounding sequences\<close>

text \<open>One lane of \<open>_numeric128_rint_ps\<close>.\<close>

definition f32_abs :: "f32 \<Rightarrow> f32" where "f32_abs v = NOT neg_zero AND v"

definition rint1 :: "f32 \<Rightarrow> f32" where
  "rint1 v = (let sm = f32_2p23 OR (v AND neg_zero) in
     if f32_lt (f32_abs v) f32_2p23 then f32_sub (f32_add v sm) sm else v)"

lemma truth_select: "(truth b AND x) OR (NOT (truth b) AND y) = (if b then x else y)"
  by (simp add: truth_def)

lemma rint_lanes: "numeric128_rint_ps v = lift1 rint1 v"
  by (cases v)
    (simp only: numeric128_rint_ps_def Let_def mm_set1_def truth_select rint1_def f32_abs_def
      lift1.simps lift2.simps)

lemma rne_minus: "rne (- x) = - rne x"
proof (cases "x = of_int \<lfloor>x\<rfloor>")
  case True
  then obtain n where "x = of_int n" by blast
  then show ?thesis using rne_of_int [of "- n"] by simp
next
  case False
  then have "\<lfloor>- x\<rfloor> = - \<lfloor>x\<rfloor> - 1"
    by linarith
  then show ?thesis by (auto simp: rne_def Let_def)
qed

lemma f32_val_round_minus: "f32_val (f32_round s (- x)) = - f32_val (f32_round s' x)"
  by (cases "x = 0") (auto simp: f32_val_round not_less)

lemma f32_val_round_unit:
  assumes "2 ^ 23 \<le> x" "x < 2 ^ 24"
  shows "f32_val (f32_round s x) = of_int (rne x)"
proof -
  have "expo x = 23" using assms by (intro expo_unique) simp_all
  then have u: "ulp_exp x = 0" by (simp add: ulp_exp_def)
  have "x < two_to 127"
    using assms(2) two_to_mono [of 24 127] by (simp add: order_less_le_trans)
  then have "round_mag x < inf_mag" by (rule round_mag_finite)
  then have "mag_val (round_mag x) = of_int (rne x)"
    using mag_val_round_mag [of x] assms u by simp
  then show ?thesis using assms by (simp add: f32_val_round)
qed

lemma f32_consts:
  "f32_mag f32_2p23 = 150 * 2 ^ 23" "\<not> f32_sign f32_2p23" "f32_val f32_2p23 = 2 ^ 23"
  "f32_mag f32_one = 127 * 2 ^ 23" "\<not> f32_sign f32_one" "f32_val f32_one = 1"
  "f32_mag f32_half = 126 * 2 ^ 23" "\<not> f32_sign f32_half" "f32_val f32_half = 1 / 2"
  "f32_mag 0 = 0" "\<not> f32_sign 0" "f32_val 0 = 0"
  by (simp_all add: f32_mag_def f32_sign_def f32_val_def mag_val_def power_int_def power_one_over)

lemma f32_consts_finite:
  "f32_finite f32_2p23" "f32_finite f32_one" "f32_finite f32_half" "f32_finite 0"
  by (simp_all add: f32_finite_def f32_consts inf_mag_def)

lemma f32_abs_fields [simp]:
  "f32_mag (f32_abs v) = f32_mag v" "\<not> f32_sign (f32_abs v)"
proof -
  have "(NOT neg_zero AND v) AND 0x7FFFFFFF = v AND (NOT neg_zero AND 0x7FFFFFFF)"
    by (simp only: ac_simps)
  also have "\<dots> = v AND 0x7FFFFFFF" by simp
  finally show "f32_mag (f32_abs v) = f32_mag v" by (simp only: f32_mag_def f32_abs_def)
  show "\<not> f32_sign (f32_abs v)" by (simp add: f32_sign_def f32_abs_def bit_simps)
qed

lemma f32_abs_val [simp]: "f32_val (f32_abs v) = \<bar>f32_val v\<bar>"
  using mag_val_nonneg [of "f32_mag v"] by (simp add: f32_val_def)

lemma f32_abs_finite [simp]: "f32_finite (f32_abs v) = f32_finite v"
  by (simp add: f32_finite_def)

lemma sign_bit_and: "v AND neg_zero = (if f32_sign v then neg_zero else 0)"
proof (rule bit_word_eqI)
  fix n assume "n < LENGTH(32)"
  have "bit neg_zero n \<longleftrightarrow> n = 31"
    using bit_push_bit_iff [of 31 "1 :: 32 word" n] \<open>n < LENGTH(32)\<close>
    by (auto simp: bit_simps)
  then show "bit (v AND neg_zero) n = bit (if f32_sign v then neg_zero else 0) n"
    by (auto simp: f32_sign_def bit_and_iff)
qed

definition signed_magic :: "bool \<Rightarrow> f32" where
  "signed_magic s = (if s then 0xCB000000 else f32_2p23)"

lemma signed_magic_eq: "f32_2p23 OR (v AND neg_zero) = signed_magic (f32_sign v)"
  unfolding sign_bit_and by (simp add: signed_magic_def)

lemma signed_magic_val:
  "f32_finite (signed_magic s)" "f32_val (signed_magic s) = (if s then - (2 ^ 23) else 2 ^ 23)"
  by (simp_all add: signed_magic_def f32_finite_def f32_mag_def f32_sign_def f32_val_def mag_val_def
      inf_mag_def power_int_def)

text \<open>Magnitudes from \<open>2 ^ 23\<close> on are integers.\<close>

lemma f32_large_integral:
  assumes "f32_finite v" "2 ^ 23 \<le> \<bar>f32_val v\<bar>"
  shows "\<exists>i. f32_val v = of_int i"
proof -
  define m where "m = f32_mag v"
  define e f where "e = m div 2 ^ 23" and "f = m mod 2 ^ 23"
  have m: "m < inf_mag" using assms(1) by (simp add: f32_finite_def m_def)
  have absv: "\<bar>f32_val v\<bar> = mag_val m"
    using mag_val_nonneg [of m] by (simp add: f32_val_def m_def)
  have "mag_val (150 * 2 ^ 23) = 2 ^ 23" using f32_consts(1-3) by (simp add: f32_val_def)
  then have "\<not> m < 150 * 2 ^ 23"
    using mag_val_less [of "150 * 2 ^ 23" m] assms(2) absv by (auto simp: inf_mag_def)
  then have e: "150 \<le> e" unfolding e_def by (simp add: div_le_mono [of "150 * 2 ^ 23", simplified])
  have "mag_val m = of_nat (2 ^ 23 + f) * two_to (int e - 150)"
    using e by (simp add: mag_val_def e_def f_def)
  also have "two_to (int e - 150) = of_int (2 ^ (e - 150))"
    using e by (simp add: power_int_nonneg_exp nat_diff_distrib)
  finally have "mag_val m = of_int (int (2 ^ 23 + f) * 2 ^ (e - 150))" by simp
  then show ?thesis
    by (metis f32_val_def m_def of_int_minus)
qed

lemma rint1_small:
  assumes fin: "f32_finite v" and small: "\<bar>f32_val v\<bar> < 2 ^ 23"
  shows "f32_finite (rint1 v)" "f32_val (rint1 v) = of_int (rne (f32_val v))"
proof -
  define s x where "s = f32_sign v" and "x = f32_val v"
  define M where "M = (if s then - (2 ^ 23) else 2 ^ 23 :: int)"
  have sgn: "if s then x \<le> 0 else 0 \<le> x"
    using mag_val_nonneg [of "f32_mag v"] by (simp add: s_def x_def f32_val_def)
  define a where "a = f32_add v (signed_magic s)"
  have a: "a = f32_round (s \<and> f32_sign (signed_magic s)) (x + of_int M)"
    using fin signed_magic_val [of s] by (simp add: a_def f32_add_finite s_def x_def M_def)
  have va: "f32_val a = of_int (rne x + M)"
  proof (cases s)
    case False
    have "rne (x + of_int M) = rne x + M" by (rule rne_add_even) (simp add: M_def False)
    then show ?thesis
      using f32_val_round_unit [of "x + of_int M"] sgn small False
      unfolding a by (simp add: M_def x_def)
  next
    case True
    have "rne (- x + of_int (- M)) = - rne x - M"
      using rne_add_even [of "- M" "- x"] True by (simp add: M_def rne_minus)
    moreover have "f32_val (f32_round False (- (x + of_int M))) = of_int (rne (- x + of_int (- M)))"
      using f32_val_round_unit [of "- x + of_int (- M)"] sgn small True
      by (simp add: M_def x_def)
    ultimately show ?thesis
      using f32_val_round_minus [of _ "- (x + of_int M)" False] unfolding a
      by (simp add: add.commute)
  qed
  have "- (2 ^ 23) \<le> x" "x \<le> 2 ^ 23" using small by (simp_all add: x_def abs_less_iff)
  then have R: "\<bar>rne x\<bar> \<le> 2 ^ 23"
    using rne_bounds_int(1) [of "- (2 ^ 23)" x] rne_bounds_int(2) [of x "2 ^ 23"]
    by (simp add: abs_le_iff)
  have "f32_finite a"
    unfolding a using sgn small two_to_mono [of 24 127]
    by (intro f32_finite_round) (auto simp: M_def x_def split: if_splits)
  then have "rint1 v = f32_round (f32_sign a \<and> \<not> f32_sign (signed_magic s)) (of_int (rne x))"
    using fin small signed_magic_val [of s] va
    by (simp add: rint1_def signed_magic_eq f32_lt_finite f32_consts f32_consts_finite Let_def
        f32_sub_finite M_def s_def [symmetric] a_def [symmetric])
  then show "f32_finite (rint1 v)" "f32_val (rint1 v) = of_int (rne (f32_val v))"
    using R f32_val_round_int [of "rne x"] by (simp_all add: x_def)
qed

lemma rint1_large:
  assumes "f32_finite v" "\<not> \<bar>f32_val v\<bar> < 2 ^ 23"
  shows "rint1 v = v"
  using assms by (simp add: rint1_def f32_lt_finite f32_consts f32_consts_finite Let_def)

lemma rint1_val:
  assumes "f32_finite v"
  shows "f32_finite (rint1 v)" "f32_val (rint1 v) = of_int (rne (f32_val v))"
proof -
  have "f32_finite (rint1 v) \<and> f32_val (rint1 v) = of_int (rne (f32_val v))"
  proof (cases "\<bar>f32_val v\<bar> < 2 ^ 23")
    case False
    then obtain i where "f32_val v = of_int i" using f32_large_integral assms by force
    then show ?thesis using assms False by (simp add: rint1_large)
  qed (use rint1_small assms in blast)
  then show "f32_finite (rint1 v)" "f32_val (rint1 v) = of_int (rne (f32_val v))" by simp_all
qed

lemma rne_floor_ceiling: "rne x = \<lfloor>x\<rfloor> \<or> rne x = \<lceil>x\<rceil>"
proof (cases "x = of_int \<lfloor>x\<rfloor>")
  case True
  then have "rne x = \<lfloor>x\<rfloor>" using rne_of_int [of "\<lfloor>x\<rfloor>"] by simp
  then show ?thesis by simp
next
  case False
  then have "\<lceil>x\<rceil> = \<lfloor>x\<rfloor> + 1" by linarith
  then show ?thesis by (auto simp: rne_def Let_def)
qed

lemma ceiling_from_rne: "\<lceil>x\<rceil> = (if of_int (rne x) < x then rne x + 1 else rne x)"
  using rne_floor_ceiling [of x] by (auto simp: not_less) linarith+

lemma floor_from_rne: "\<lfloor>x\<rfloor> = (if x < of_int (rne x) then rne x - 1 else rne x)"
  using rne_floor_ceiling [of x] by (auto simp: not_less) linarith+

lemma rtrunc_from_rne:
  "rtrunc x = (if \<bar>x\<bar> < \<bar>of_int (rne x)\<bar> then rne x - (if x < 0 then - 1 else 1) else rne x)"
proof -
  have "0 \<le> x \<Longrightarrow> 0 \<le> rne x" "x < 0 \<Longrightarrow> rne x \<le> 0"
    using rne_bounds_int(1) [of 0 x] rne_bounds_int(2) [of x 0] by simp_all
  then show ?thesis
    using ceiling_from_rne [of x] floor_from_rne [of x] by (auto simp: rtrunc_def)
qed

definition rounding :: "(rat \<Rightarrow> int) \<Rightarrow> bool" where
  "rounding r \<longleftrightarrow> (\<forall>x. r x = \<lfloor>x\<rfloor> \<or> r x = \<lceil>x\<rceil>)"

lemma roundings [simp]: "rounding floor" "rounding ceiling" "rounding rne" "rounding rtrunc"
  using rne_floor_ceiling by (auto simp: rounding_def rtrunc_def)

lemma rounding_int: "rounding r \<Longrightarrow> r (of_int i) = i"
  unfolding rounding_def by (metis ceiling_of_int floor_of_int)

lemma rounding_round_exact:
  assumes "rounding r" "f32_finite v" "of_int i = f32_val v \<or> \<bar>i\<bar> \<le> 2 ^ 24"
  shows "f32_val (f32_round s (of_int i)) = of_int i" "f32_finite (f32_round s (of_int i))"
proof -
  have "f32_val (f32_round s (of_int i)) = of_int i \<and> f32_finite (f32_round s (of_int i))"
    using assms(3)
  proof
    assume i: "of_int i = f32_val v"
    have m: "mag_val (f32_mag v) = \<bar>f32_val v\<bar>"
      using mag_val_nonneg [of "f32_mag v"] by (simp add: f32_val_def)
    have "round_mag \<bar>f32_val v\<bar> = f32_mag v"
      unfolding m [symmetric] using assms(2) by (intro round_mag_mag_val) (simp add: f32_finite_def)
    then have "f32_finite (f32_round s (f32_val v))"
      using assms(2) by (simp add: f32_round_def f32_finite_def)
    then show ?thesis using f32_round_val_eq [OF assms(2)] i by simp
  qed (use f32_val_round_int in blast)
  then show "f32_val (f32_round s (of_int i)) = of_int i" "f32_finite (f32_round s (of_int i))"
    by simp_all
qed

text \<open>Rounding to integers is exact: a small operand has a small result, a large one is integral.\<close>

lemma rounding_result:
  assumes "rounding r" "f32_finite v"
  shows "of_int (r (f32_val v)) = f32_val v \<or> \<bar>r (f32_val v)\<bar> \<le> 2 ^ 23"
proof (cases "\<bar>f32_val v\<bar> < 2 ^ 23")
  case True
  then have "- (2 ^ 23) \<le> \<lfloor>f32_val v\<rfloor>" "\<lceil>f32_val v\<rceil> \<le> 2 ^ 23" "\<lfloor>f32_val v\<rfloor> \<le> \<lceil>f32_val v\<rceil>"
    by (simp_all add: le_floor_iff ceiling_le_iff floor_le_ceiling abs_less_iff)
  then show ?thesis using assms(1) unfolding rounding_def by (smt (verit))
next
  case False
  then obtain i where "f32_val v = of_int i" using f32_large_integral assms(2) by force
  then show ?thesis using rounding_int [OF assms(1)] by simp
qed

lemma f32_to_integral_val:
  assumes "rounding r" "f32_finite v"
  shows "f32_val (f32_to_integral r v) = of_int (r (f32_val v))" "f32_finite (f32_to_integral r v)"
  using rounding_round_exact [OF assms, of "r (f32_val v)"] rounding_result [OF assms] assms(2)
  by (auto simp: f32_to_integral_finite)

text \<open>One lane of each SSE2 sequence, for finite operands: the adjusted \<open>rint\<close> is the rounding.\<close>

lemma adjusted_rint:
  assumes fin: "f32_finite v" and r: "rounding r"
    and adj: "f32_finite d" "f32_val d = of_int (r (f32_val v) - rne (f32_val v))"
  shows "f32_val (f32_add (rint1 v) d) = of_int (r (f32_val v))" "f32_finite (f32_add (rint1 v) d)"
proof -
  have "f32_add (rint1 v) d = f32_round (f32_sign (rint1 v) \<and> f32_sign d) (of_int (r (f32_val v)))"
    using rint1_val [OF fin] adj by (simp add: f32_add_finite)
  moreover have "of_int (r (f32_val v)) = f32_val v \<or> \<bar>r (f32_val v)\<bar> \<le> 2 ^ 24"
    using rounding_result [OF r fin] by auto
  ultimately show "f32_val (f32_add (rint1 v) d) = of_int (r (f32_val v))"
    "f32_finite (f32_add (rint1 v) d)"
    using rounding_round_exact [OF r fin] by simp_all
qed

lemma adjusted_rint_sub:
  assumes fin: "f32_finite v" and r: "rounding r"
    and adj: "f32_finite d" "f32_val d = of_int (rne (f32_val v) - r (f32_val v))"
  shows "f32_val (f32_sub (rint1 v) d) = of_int (r (f32_val v))" "f32_finite (f32_sub (rint1 v) d)"
proof -
  have "f32_sub (rint1 v) d = f32_add (rint1 v) (f32_neg d)"
    using rint1_val [OF fin] adj(1) by (simp add: f32_sub_def)
  then show "f32_val (f32_sub (rint1 v) d) = of_int (r (f32_val v))"
    "f32_finite (f32_sub (rint1 v) d)"
    using adjusted_rint [OF fin r, of "f32_neg d"] adj by simp_all
qed

lemma truth_and: "truth b AND x = (if b then x else 0)"
  by (simp add: truth_def)

lemma f4_ceil_lane:
  "f4_ceil F v = lift1 (\<lambda>a. if has_sse4_1 F then f32_ceil a
     else f32_add (rint1 a) (if f32_lt (rint1 a) a then f32_one else 0)) v"
  by (cases v) (simp add: f4_ceil_def Let_def rint_lanes mm_set1_def truth_and)

lemma f4_floor_lane:
  "f4_floor F v = lift1 (\<lambda>a. if has_sse4_1 F then f32_floor a
     else f32_sub (rint1 a) (if f32_lt a (rint1 a) then f32_one else 0)) v"
  by (cases v) (simp add: f4_floor_def Let_def rint_lanes mm_set1_def truth_and)

lemma f4_rint_lane: "f4_rint F v = lift1 (\<lambda>a. if has_sse4_1 F then f32_rint a else rint1 a) v"
  by (cases v) (simp add: f4_rint_def rint_lanes)

lemma f4_trunc_lane:
  "f4_trunc F v = lift1 (\<lambda>a. if has_sse4_1 F then f32_trunc a
     else f32_sub (rint1 a) (if f32_lt (f32_abs a) (f32_abs (rint1 a))
                             then (f32_one OR (a AND neg_zero)) else 0)) v"
  by (cases v) (simp add: f4_trunc_def Let_def rint_lanes mm_set1_def truth_and f32_abs_def)

lemma signed_unit:
  "f32_finite (f32_one OR (v AND neg_zero))"
  "f32_val (f32_one OR (v AND neg_zero)) = (if f32_sign v then - 1 else 1)"
  unfolding sign_bit_and
  by (simp_all add: f32_finite_def f32_mag_def f32_sign_def f32_val_def mag_val_def
      inf_mag_def power_int_def power_one_over)

definition rounded_to :: "(rat \<Rightarrow> int) \<Rightarrow> f32 \<Rightarrow> f32 \<Rightarrow> bool" where
  "rounded_to r v w \<longleftrightarrow> f32_finite w \<and> f32_val w = of_int (r (f32_val v))"

lemma ceil_lane_ok:
  "f32_finite a \<Longrightarrow> rounded_to ceiling a (if has_sse4_1 F then f32_ceil a
     else f32_add (rint1 a) (if f32_lt (rint1 a) a then f32_one else 0))"
  unfolding rounded_to_def
  using f32_to_integral_val [of ceiling a] rint1_val [of a] ceiling_from_rne [of "f32_val a"]
    adjusted_rint [of a ceiling "if f32_lt (rint1 a) a then f32_one else 0"]
  by (simp add: f32_lt_finite f32_consts f32_consts_finite split: if_splits)

lemma floor_lane_ok:
  "f32_finite a \<Longrightarrow> rounded_to floor a (if has_sse4_1 F then f32_floor a
     else f32_sub (rint1 a) (if f32_lt a (rint1 a) then f32_one else 0))"
  unfolding rounded_to_def
  using f32_to_integral_val [of floor a] rint1_val [of a] floor_from_rne [of "f32_val a"]
    adjusted_rint_sub [of a floor "if f32_lt a (rint1 a) then f32_one else 0"]
  by (simp add: f32_lt_finite f32_consts f32_consts_finite split: if_splits)

lemma rint_lane_ok:
  "f32_finite a \<Longrightarrow> rounded_to rne a (if has_sse4_1 F then f32_rint a else rint1 a)"
  unfolding rounded_to_def using f32_to_integral_val [of rne a] rint1_val [of a] by simp

lemma trunc_lane_ok:
  assumes "f32_finite a"
  shows "rounded_to rtrunc a (if has_sse4_1 F then f32_trunc a
     else f32_sub (rint1 a) (if f32_lt (f32_abs a) (f32_abs (rint1 a))
                             then (f32_one OR (a AND neg_zero)) else 0))"
proof -
  let ?d = "if f32_lt (f32_abs a) (f32_abs (rint1 a)) then (f32_one OR (a AND neg_zero)) else 0"
  note r = rint1_val [OF assms]
  have lt: "f32_lt (f32_abs a) (f32_abs (rint1 a)) \<longleftrightarrow>
      \<bar>f32_val a\<bar> < \<bar>of_int (rne (f32_val a))\<bar>"
    using assms r by (simp add: f32_lt_finite)
  have s: "f32_val a \<noteq> 0 \<Longrightarrow> f32_sign a \<longleftrightarrow> f32_val a < 0"
    using mag_val_nonneg [of "f32_mag a"]
    by (cases "f32_sign a") (simp_all add: f32_val_def less_le del: mag_val_nonneg)
  have "f32_finite ?d \<and> f32_val ?d = of_int (rne (f32_val a) - rtrunc (f32_val a))"
  proof (cases "\<bar>f32_val a\<bar> < \<bar>of_int (rne (f32_val a))\<bar>")
    case True
    then have "f32_val a \<noteq> 0" by auto
    then show ?thesis
      using True s lt rtrunc_from_rne [of "f32_val a"] signed_unit [of a] by simp
  next
    case False
    then show ?thesis
      using lt rtrunc_from_rne [of "f32_val a"] by (simp add: f32_consts f32_consts_finite)
  qed
  then show ?thesis
    unfolding rounded_to_def
    using f32_to_integral_val [of rtrunc a] adjusted_rint_sub [of a rtrunc ?d] assms by simp
qed

section \<open>The operations on whole vectors\<close>

lemma list_all2_lift1: "list_all2 P (lanes v) (lanes (lift1 f v)) \<longleftrightarrow> (\<forall>a \<in> set (lanes v). P a (f a))"
  by (cases v) simp

text \<open>C5: ceil, floor, rint and trunc of a float vector give, in every lane and on every instruction set
  the code is compiled for, the mathematical rounding of that lane, for all finite floats: the SSE2
  sequences compute what the SSE4.1 instructions compute.\<close>

theorem rounding_on_every_instruction_set:
  assumes "\<forall>a \<in> set (lanes v). f32_finite a"
  shows "list_all2 (rounded_to ceiling) (lanes v) (lanes (f4_ceil F v))
    \<and> list_all2 (rounded_to floor) (lanes v) (lanes (f4_floor F v))
    \<and> list_all2 (rounded_to rne) (lanes v) (lanes (f4_rint F v))
    \<and> list_all2 (rounded_to rtrunc) (lanes v) (lanes (f4_trunc F v))"
  unfolding f4_ceil_lane f4_floor_lane f4_rint_lane f4_trunc_lane list_all2_lift1
  using assms ceil_lane_ok floor_lane_ok rint_lane_ok trunc_lane_ok by blast

theorem rounding_on_every_instruction_set_witness:
  "list_all2 (rounded_to floor) (lanes (M128 f32_one f32_half f32_2p23 0))
     (lanes (f4_floor (feature_tags False False False False) (M128 f32_one f32_half f32_2p23 0)))"
  using rounding_on_every_instruction_set [of "M128 f32_one f32_half f32_2p23 0"] f32_consts_finite by simp

text \<open>The conversions to integers: the two paths of each agree bit for bit.\<close>

lemma rounding_idem: "rounding r \<Longrightarrow> rounding q \<Longrightarrow> q (of_int (r x)) = r x"
  by (rule rounding_int)

lemma to_i32_after_round:
  assumes "rounding r"
  shows "f32_to_i32 rtrunc (f32_to_integral r a) = f32_to_i32 r a"
proof (cases "f32_finite a")
  case True
  then show ?thesis
    using f32_to_integral_val [OF assms True] rounding_int [of rtrunc "r (f32_val a)"]
    by (simp add: f32_to_i32_def)
next
  case False
  then consider "f32_nan a" | "f32_inf a"
    unfolding f32_finite_def f32_nan_def f32_inf_def using linorder_neqE_nat by blast
  then have "\<not> f32_finite (f32_to_integral r a)"
  proof cases
    case 1
    have "(a OR 0x400000) AND 0x7FFFFFFF = (a AND 0x7FFFFFFF) OR (0x400000 :: f32)"
      by (simp add: bit.conj_disj_distrib2)
    then have "f32_mag (a OR 0x400000) = unat ((a AND 0x7FFFFFFF) OR (0x400000 :: f32))"
      by (simp add: f32_mag_def)
    moreover have "unat x \<le> unat (x OR y)" for x y :: f32
      using le_word_or2 [of x y] by (simp add: word_le_nat_alt)
    ultimately have "f32_mag a \<le> f32_mag (a OR 0x400000)" by (simp add: f32_mag_def)
    then show ?thesis using 1 by (simp add: f32_to_integral_def f32_finite_def f32_nan_def)
  qed (auto simp: f32_to_integral_def f32_finite_def f32_inf_def f32_nan_def)
  then show ?thesis using False by (simp add: f32_to_i32_def)
qed

text \<open>lceil, lfloor and lrint return the same integers, bit for bit, from the SSE4.1 path, which
  rounds and then truncates, and from the SSE2 path, which converts under a changed rounding mode, for
  every float including the infinities, the NaNs and the values out of range.\<close>

lemma integer_conversions_agree:
  "f4_lceil F v = f4_lceil F' v \<and> f4_lfloor F v = f4_lfloor F' v \<and> f4_lrint F v = f4_lrint F' v"
proof -
  have "lift1 (f32_to_i32 rtrunc) (lift1 (f32_to_integral r) v) = lift1 (f32_to_i32 r) v" if "rounding r" for r
    using to_i32_after_round [OF that] by (cases v) simp
  then show ?thesis by (simp add: f4_lceil_def f4_lfloor_def f4_lrint_def)
qed

text \<open>lround is not the rounding of \<open>std::lround\<close>: the largest float below one half goes to 1,
  because the half that is added first is rounded up.\<close>

lemma lround_below_half:
  "f32_val 0x3EFFFFFF < 1 / 2 \<and> round_away (f32_val 0x3EFFFFFF) = 0
    \<and> f4_lround (M128 0x3EFFFFFF 0 0 0) = M128 1 0 0 0"
proof -
  have v: "f32_finite 0x3EFFFFFF" "f32_val 0x3EFFFFFF = 16777215 / 33554432" "\<not> f32_sign 0x3EFFFFFF"
    by (simp_all add: f32_finite_def f32_mag_def f32_sign_def f32_val_def mag_val_def
        inf_mag_def power_int_def power_one_over)
  have h: "f32_finite f32_half" "f32_val f32_half = 1 / 2" "\<not> f32_sign f32_half"
    by (simp_all add: f32_consts f32_consts_finite)
  have e: "expo (33554431 / 33554432) = - 1"
    by (rule expo_unique) (simp_all add: power_int_def)
  have "33554431 / 33554432 / two_to (- 24) = 33554431 / 2" by (simp add: power_int_def power_one_over)
  then have "rne (33554431 / 33554432 / two_to (- 24)) = 16777216"
    using floor_eq_iff [of "33554431 / 2 :: rat" 16777215] by (simp add: rne_def Let_def)
  then have "round_mag (33554431 / 33554432) = 127 * 2 ^ 23"
    by (simp add: round_mag_def ulp_exp_def e inf_mag_def)
  then have "f32_add 0x3EFFFFFF f32_half = f32_one"
    unfolding f32_add_finite [OF v(1) h(1)] v(2) h(2) by (simp add: f32_round_def f32_of_def v(3))
  moreover have "f32_to_i32 rtrunc f32_one = 1"
    using f32_consts f32_consts_finite by (simp add: f32_to_i32_def rtrunc_def)
  moreover have "f32_to_i32 rtrunc (f32_add 0 f32_half) = 0"
  proof -
    have "f32_add 0 f32_half = f32_round False (f32_val 0 + f32_val f32_half)"
      by (rule trans [OF f32_add_finite]) (simp_all add: f32_consts f32_consts_finite)
    then have a: "f32_add 0 f32_half = f32_round False (1 / 2)" by (simp add: f32_consts)
    have r: "f32_val (f32_round False (1 / 2)) = 1 / 2"
      using f32_round_val_eq [OF h(1), of False] unfolding h(2) .
    have "f32_finite (f32_round False (1 / 2))" by (rule f32_finite_round) simp
    then show ?thesis
      unfolding a f32_to_i32_def rtrunc_def r using floor_eq_iff [of "1 / 2 :: rat" 0] by simp
  qed
  ultimately have "f4_lround (M128 0x3EFFFFFF 0 0 0) = M128 1 0 0 0"
    by (simp add: f4_lround_def mm_set1_def Let_def)
  then show ?thesis
    unfolding v(2) round_away_def using floor_eq_iff [of "33554431 / 33554432 :: rat" 0] by simp
qed

end
