(* ===== verification/Vec.thy ===== *)
theory Vec
  imports Numeric
begin

text \<open>
  \<open>numeric/numeric.h\<close>: the class template \<open>vec<T, N, Align>\<close>.  Its template argument
  \<open>_vec_storage<T, N, Align>\<close> is a record of the storage's operations, and the element type's
  arithmetic is a record too.  Each operator has two bodies, a loop for constant evaluation and
  the storage's operator at run time (\<open>NUMERIC_IF_CONSTEVAL_\<close>); both are modelled.  The locale
  \<open>vec_contract\<close> states what the template expects of a storage, proves once that the two bodies
  agree on the first \<open>N\<close> elements, and is interpreted on the three storages of the program.
\<close>

record 'a elem_ops =
  e_add :: "'a \<Rightarrow> 'a \<Rightarrow> 'a"
  e_sub :: "'a \<Rightarrow> 'a \<Rightarrow> 'a"
  e_mul :: "'a \<Rightarrow> 'a \<Rightarrow> 'a"
  e_and :: "'a \<Rightarrow> 'a \<Rightarrow> 'a"
  e_or :: "'a \<Rightarrow> 'a \<Rightarrow> 'a"
  e_xor :: "'a \<Rightarrow> 'a \<Rightarrow> 'a"
  e_eq :: "'a \<Rightarrow> 'a \<Rightarrow> bool"

record ('s, 'a) storage_ops =
  s_at :: "'s \<Rightarrow> nat \<Rightarrow> 'a"
  s_setAt :: "'s \<Rightarrow> nat \<Rightarrow> 'a \<Rightarrow> 's"
  s_splat :: "'a \<Rightarrow> 's"
  s_add :: "'s \<Rightarrow> 's \<Rightarrow> 's"
  s_sub :: "'s \<Rightarrow> 's \<Rightarrow> 's"
  s_mul :: "'s \<Rightarrow> 's \<Rightarrow> 's"
  s_and :: "'s \<Rightarrow> 's \<Rightarrow> 's"
  s_or :: "'s \<Rightarrow> 's \<Rightarrow> 's"
  s_xor :: "'s \<Rightarrow> 's \<Rightarrow> 's"
  s_eq :: "'s \<Rightarrow> 's \<Rightarrow> bool"

text \<open>The loop \<open>for (i = 0; i < N; ++i) storage.setAt (i, op (storage.at (i), rhs.storage.at (i)))\<close>.\<close>

fun vec_loop :: "('s, 'a) storage_ops \<Rightarrow> ('a \<Rightarrow> 'a \<Rightarrow> 'a) \<Rightarrow> nat \<Rightarrow> 's \<Rightarrow> 's \<Rightarrow> 's" where
  "vec_loop S f 0 lhs rhs = lhs"
| "vec_loop S f (Suc i) lhs rhs =
     (let l = vec_loop S f i lhs rhs in s_setAt S l i (f (s_at S l i) (s_at S rhs i)))"

(* @ app/numeric/numeric.h:138-148 vec::operator+= *)
definition vec_add where
  "vec_add consteval S E N lhs rhs =
     (if consteval then vec_loop S (e_add E) N lhs rhs else s_add S lhs rhs)"

(* @ app/numeric/numeric.h:159-169 vec::operator-= *)
definition vec_sub where
  "vec_sub consteval S E N lhs rhs =
     (if consteval then vec_loop S (e_sub E) N lhs rhs else s_sub S lhs rhs)"

(* @ app/numeric/numeric.h:177-187 vec::operator*= *)
definition vec_mul where
  "vec_mul consteval S E N lhs rhs =
     (if consteval then vec_loop S (e_mul E) N lhs rhs else s_mul S lhs rhs)"

(* @ app/numeric/numeric.h:272-282 vec::operator&= *)
definition vec_and where
  "vec_and consteval S E N lhs rhs =
     (if consteval then vec_loop S (e_and E) N lhs rhs else s_and S lhs rhs)"

(* @ app/numeric/numeric.h:293-303 vec::operator|= *)
definition vec_or where
  "vec_or consteval S E N lhs rhs =
     (if consteval then vec_loop S (e_or E) N lhs rhs else s_or S lhs rhs)"

(* @ app/numeric/numeric.h:314-324 vec::operator^= *)
definition vec_xor where
  "vec_xor consteval S E N lhs rhs =
     (if consteval then vec_loop S (e_xor E) N lhs rhs else s_xor S lhs rhs)"

(* @ app/numeric/numeric.h:87-98 vec::operator== *)
definition vec_eq where
  "vec_eq consteval S E N lhs rhs =
     (if consteval then list_all (\<lambda>i. e_eq E (s_at S lhs i) (s_at S rhs i)) [0..<N]
      else s_eq S lhs rhs)"

(* @ app/numeric/numeric.h:99-110 vec::operator!= *)
definition vec_ne where
  "vec_ne consteval S E N lhs rhs =
     (if consteval then list_ex (\<lambda>i. \<not> e_eq E (s_at S lhs i) (s_at S rhs i)) [0..<N]
      else \<not> s_eq S lhs rhs)"

section \<open>The contract of a storage\<close>

locale vec_contract =
  fixes S :: "('s, 'a) storage_ops" and E :: "'a elem_ops" and N :: nat
    and ok :: "'s \<Rightarrow> bool" and elems :: "'s \<Rightarrow> 'a list"
  assumes len: "ok s \<Longrightarrow> length (elems s) = N"
    and at: "ok s \<Longrightarrow> i < N \<Longrightarrow> s_at S s i = elems s ! i"
    and setAt: "ok s \<Longrightarrow> i < N \<Longrightarrow> ok (s_setAt S s i x) \<and> elems (s_setAt S s i x) = (elems s)[i := x]"
    and add: "ok s \<Longrightarrow> ok r \<Longrightarrow> ok (s_add S s r) \<and> elems (s_add S s r) = map2 (e_add E) (elems s) (elems r)"
    and sub: "ok s \<Longrightarrow> ok r \<Longrightarrow> ok (s_sub S s r) \<and> elems (s_sub S s r) = map2 (e_sub E) (elems s) (elems r)"
    and mul: "ok s \<Longrightarrow> ok r \<Longrightarrow> ok (s_mul S s r) \<and> elems (s_mul S s r) = map2 (e_mul E) (elems s) (elems r)"
    and "and": "ok s \<Longrightarrow> ok r \<Longrightarrow> ok (s_and S s r) \<and> elems (s_and S s r) = map2 (e_and E) (elems s) (elems r)"
    and "or": "ok s \<Longrightarrow> ok r \<Longrightarrow> ok (s_or S s r) \<and> elems (s_or S s r) = map2 (e_or E) (elems s) (elems r)"
    and xor: "ok s \<Longrightarrow> ok r \<Longrightarrow> ok (s_xor S s r) \<and> elems (s_xor S s r) = map2 (e_xor E) (elems s) (elems r)"
begin

lemma loop_elems:
  assumes "ok s" "ok r" "n \<le> N"
  shows "ok (vec_loop S f n s r) \<and>
    elems (vec_loop S f n s r) = map2 f (take n (elems s)) (take n (elems r)) @ drop n (elems s)"
  using assms(3)
proof (induction n)
  case 0
  then show ?case using assms by simp
next
  case (Suc n)
  let ?l = "vec_loop S f n s r"
  have l: "ok ?l" "elems ?l = map2 f (take n (elems s)) (take n (elems r)) @ drop n (elems s)"
    using Suc by auto
  have n: "n < length (elems s)" "n < length (elems r)" using Suc.prems len assms by simp_all
  have d: "drop n (elems s) = elems s ! n # drop (Suc n) (elems s)"
    using n by (simp add: Cons_nth_drop_Suc)
  have "elems ?l ! n = elems s ! n"
    using l(2) n by (simp add: nth_append min_def)
  then have "s_at S ?l n = elems s ! n" "s_at S r n = elems r ! n"
    using at l(1) assms Suc.prems by simp_all
  then show ?case
    using setAt [OF l(1), of n] l(2) n Suc.prems d
    by (simp add: Let_def take_Suc_conv_app_nth list_update_append min_def)
qed

lemma loop_full:
  assumes "ok s" "ok r"
  shows "ok (vec_loop S f N s r)" "elems (vec_loop S f N s r) = map2 f (elems s) (elems r)"
  using loop_elems [OF assms order_refl, of f] len assms by simp_all

text \<open>Each body of an operator applies it element by element.\<close>

lemma op_elems:
  assumes "ok s" "ok r"
  shows "elems (vec_add c S E N s r) = map2 (e_add E) (elems s) (elems r)"
    and "elems (vec_sub c S E N s r) = map2 (e_sub E) (elems s) (elems r)"
    and "elems (vec_mul c S E N s r) = map2 (e_mul E) (elems s) (elems r)"
    and "elems (vec_and c S E N s r) = map2 (e_and E) (elems s) (elems r)"
    and "elems (vec_or c S E N s r) = map2 (e_or E) (elems s) (elems r)"
    and "elems (vec_xor c S E N s r) = map2 (e_xor E) (elems s) (elems r)"
  using assms loop_full add sub mul "and" "or" xor
  by (simp_all add: vec_add_def vec_sub_def vec_mul_def vec_and_def vec_or_def vec_xor_def)

theorem eq_consteval:
  assumes "ok s" "ok r"
  shows "vec_eq True S E N s r \<longleftrightarrow> list_all2 (e_eq E) (elems s) (elems r)"
  using assms len at by (auto simp: vec_eq_def list_all_iff list_all2_conv_all_nth)

end

section \<open>The three storages\<close>

definition i32_elem :: "32 word elem_ops" where
  "i32_elem = \<lparr>e_add = (+), e_sub = (-), e_mul = (*), e_and = (AND), e_or = (OR), e_xor = (XOR),
     e_eq = (=)\<rparr>"

definition f32_elem :: "f32 elem_ops" where
  "f32_elem = \<lparr>e_add = f32_add, e_sub = f32_sub, e_mul = f32_mul, e_and = (AND), e_or = (OR),
     e_xor = (XOR), e_eq = f32_eq\<rparr>"

(* @ app/numeric/common.h:89-129 _vec_storage *)
definition array_storage :: "'a elem_ops \<Rightarrow> nat \<Rightarrow> ('a list, 'a) storage_ops" where
  "array_storage E N = \<lparr>s_at = g_at, s_setAt = g_setAt, s_splat = g_splat N,
     s_add = g_map2 (e_add E), s_sub = g_map2 (e_sub E), s_mul = g_map2 (e_mul E),
     s_and = g_map2 (e_and E), s_or = g_map2 (e_or E), s_xor = g_map2 (e_xor E),
     s_eq = g_eq (e_eq E)\<rparr>"

(* @ app/numeric/x86/int32x4_x86.h:25-29 _vec_storage *)
definition sse_i32_storage :: "simd_features \<Rightarrow> nat \<Rightarrow> (i32x4, 32 word) storage_ops" where
  "sse_i32_storage F N = \<lparr>s_at = i4_at, s_setAt = i4_setAt, s_splat = i4_splat F N,
     s_add = i4_add, s_sub = i4_sub, s_mul = i4_mul, s_and = i4_and, s_or = i4_or,
     s_xor = i4_xor, s_eq = i4_eq F\<rparr>"

(* @ app/numeric/x86/float32x4_x86.h:32-36 _vec_storage *)
definition sse_f32_storage :: "simd_features \<Rightarrow> nat \<Rightarrow> (f32x4, f32) storage_ops" where
  "sse_f32_storage F N = \<lparr>s_at = f4_at, s_setAt = f4_setAt, s_splat = f4_splat F N,
     s_add = f4_add, s_sub = f4_sub, s_mul = f4_mul, s_and = f4_and, s_or = f4_or,
     s_xor = f4_xor, s_eq = f4_eq\<rparr>"

lemma g_map2_map2: "length a = length b \<Longrightarrow> g_map2 f a b = map2 f a b"
  by (induction f a b rule: g_map2.induct) simp_all

interpretation array_vec: vec_contract "array_storage E N" E N "\<lambda>s. length s = N" "\<lambda>s. s" for E N
  by unfold_locales
    (simp_all add: array_storage_def g_at_def g_setAt_def g_map2_map2)

lemma storage_lanes_lift2:
  "storage_lanes N (lift2 f u v) = map2 f (storage_lanes N u) (storage_lanes N v)"
proof -
  have "lanes (lift2 f u v) = map2 f (lanes u) (lanes v)" by (cases u; cases v) simp
  then show ?thesis by (simp only: storage_lanes_def take_map take_zip)
qed

lemma setAt_lanes: "i < 4 \<Longrightarrow> lanes (i4_setAt v i x) = (lanes v)[i := x]"
  "i < 4 \<Longrightarrow> lanes (f4_setAt v i x) = (lanes v)[i := x]"
  by (cases v; auto simp: less_Suc_eq numeral_nat)+

lemma sse_contract:
  assumes "1 \<le> N" "N \<le> 4"
  shows "vec_contract (sse_i32_storage F N) i32_elem N (\<lambda>_. True) (storage_lanes N)"
    and "vec_contract (sse_f32_storage F N) f32_elem N (\<lambda>_. True) (storage_lanes N)"
  using assms
  by (unfold_locales; simp add: sse_i32_storage_def sse_f32_storage_def i32_elem_def f32_elem_def
      i4_add_def i4_sub_def i4_mul_def i4_and_def i4_or_def i4_xor_def f4_add_def f4_sub_def
      f4_mul_def f4_and_def f4_or_def f4_xor_def storage_lanes_lift2 i4_at_def f4_at_def
      setAt_lanes take_update_swap; simp add: storage_lanes_def setAt_lanes take_update_swap)+

interpretation int4_vec: vec_contract "sse_i32_storage F 4" i32_elem 4 "\<lambda>_. True" "storage_lanes 4" for F
  by (rule sse_contract) simp_all

interpretation float4_vec: vec_contract "sse_f32_storage F 4" f32_elem 4 "\<lambda>_. True" "storage_lanes 4" for F
  by (rule sse_contract) simp_all

interpretation float2_vec: vec_contract "sse_f32_storage F 2" f32_elem 2 "\<lambda>_. True" "storage_lanes 2" for F
  by (rule sse_contract) simp_all

section \<open>Unused lanes\<close>

text \<open>A two-element integer vector depends on its unused lanes: the run-time comparison of
  \<open>v.xy()\<close> with an equal \<open>make(x, y)\<close> is false, where the compile-time one is true, and \<open>setZW\<close> of
  \<open>make(x, y)\<close> stores zeros on SSE4.1 and the two elements on SSE2.\<close>

lemma two_element_padding:
  "vec_eq True (sse_i32_storage F 2) i32_elem 2 (i4_xy False (M128 1 2 3 4)) (i4_make 1 2 0 0)
   \<and> \<not> vec_eq False (sse_i32_storage F 2) i32_elem 2 (i4_xy False (M128 1 2 3 4)) (i4_make 1 2 0 0)
   \<and> i4_setZW (feature_tags False False True True) (M128 1 2 3 4) (i4_make 5 6 0 0) = M128 1 2 0 0
   \<and> i4_setZW (feature_tags False False False False) (M128 1 2 3 4) (i4_make 5 6 0 0) = M128 1 2 5 6"
  by (simp add: vec_eq_def sse_i32_storage_def i32_elem_def i4_eq_iff i4_defs feature_tags_def
      upt_conv_Cons)

end
