(* ===== verification/Registry.thy ===== *)
theory Registry
  imports Errors
begin

text \<open>
  \<open>utility/ListenerHost\<close> and \<open>utility/CallbackHost\<close>: the bounded registration lists every component
  notifies through.  \<open>boost::container::static_vector<T, 3>\<close> is a list of at most 3 elements whose
  \<open>stable_emplace_back\<close> fails when it is full.  Both hosts satisfy one contract, the locale
  \<open>registry\<close>, from which the lemmas about sequences of registrations follow once.
\<close>

section \<open>boost::container::static_vector\<close>

definition stable_emplace_back :: "nat \<Rightarrow> 'a list \<Rightarrow> 'a \<Rightarrow> bool \<times> 'a list" where
  "stable_emplace_back cap xs x = (if length xs < cap then (True, xs @ [x]) else (False, xs))"

section \<open>ListenerHost\<close>

(* @ app/utility/ListenerHost.h:8-9 ContainerType *)
definition listener_capacity :: nat where "listener_capacity = 3"

(* @ app/utility/ListenerHost.cc:6-10 ListenerHostBase::addListener *)
definition addListener :: "'l \<Rightarrow> 'l list \<Rightarrow> hresult \<times> 'l list" where
  "addListener listener ls =
     (let (ok, ls') = stable_emplace_back listener_capacity ls listener in
      (if ok then S_OK else E_UNEXPECTED, ls'))"

text \<open>\<open>std::remove\<close> shifts the kept elements to the front; \<open>it\<close> is the new end.\<close>

(* @ app/utility/ListenerHost.cc:12-22 ListenerHostBase::removeListener *)
definition removeListener :: "'l \<Rightarrow> 'l list \<Rightarrow> hresult \<times> 'l list" where
  "removeListener listener ls =
     (let kept = removeAll listener ls in
      if length kept = length ls then (S_FALSE, ls) else (S_OK, kept))"

text \<open>\<open>notify\<close> calls each listener in registration order; the effect of a call is a function on the
  state \<open>'w\<close> of the program.\<close>

(* @ app/utility/ListenerHost.h:27-42 ListenerHost::notify *)
fun notify :: "('l \<Rightarrow> 'w \<Rightarrow> 'w) \<Rightarrow> 'l list \<Rightarrow> 'w \<Rightarrow> 'w" where
  "notify call [] w = w"
| "notify call (l # ls) w = notify call ls (call l w)"

section \<open>CallbackHost\<close>

(* @ app/utility/CallbackHost.h:16-19 RawContainerType *)
definition callback_capacity :: nat where "callback_capacity = 3"

(* @ app/utility/CallbackHost.cc:6-12 CallbackHostBase::addCallback *)
definition addCallback :: "'f \<Rightarrow> 'c \<Rightarrow> ('f \<times> 'c) list \<Rightarrow> hresult \<times> ('f \<times> 'c) list" where
  "addCallback callback context cbs =
     (let (ok, cbs') = stable_emplace_back callback_capacity cbs (callback, context) in
      (if ok then S_OK else E_UNEXPECTED, cbs'))"

(* @ app/utility/CallbackHost.cc:14-29 CallbackHostBase::removeCallback *)
definition removeCallback :: "'f \<Rightarrow> 'c \<Rightarrow> ('f \<times> 'c) list \<Rightarrow> hresult \<times> ('f \<times> 'c) list" where
  "removeCallback callback context cbs =
     (let kept = removeAll (callback, context) cbs in
      if length kept = length cbs then (S_FALSE, cbs) else (S_OK, kept))"

(* @ app/utility/CallbackHost.h:64-71 CallbackHost::invoke *)
fun invoke :: "('f \<Rightarrow> 'c \<Rightarrow> 'w \<Rightarrow> 'w) \<Rightarrow> ('f \<times> 'c) list \<Rightarrow> 'w \<Rightarrow> 'w" where
  "invoke call [] w = w"
| "invoke call ((f, c) # cbs) w = invoke call cbs (call f c w)"

section \<open>The contract\<close>

datatype 'k reg_op = RegAdd 'k | RegRemove 'k

locale registry =
  fixes add remove :: "'k \<Rightarrow> 'k list \<Rightarrow> hresult \<times> 'k list" and cap :: nat
  assumes add_room: "length r < cap \<Longrightarrow> add k r = (0, r @ [k])"
    and add_full: "cap \<le> length r \<Longrightarrow> add k r = (E_UNEXPECTED, r)"
    and remove_absent: "k \<notin> set r \<Longrightarrow> remove k r = (1, r)"
    and remove_present: "k \<in> set r \<Longrightarrow> remove k r = (0, removeAll k r)"
begin

definition step :: "'k reg_op \<Rightarrow> 'k list \<Rightarrow> 'k list" where
  "step op r = (case op of RegAdd k \<Rightarrow> snd (add k r) | RegRemove k \<Rightarrow> snd (remove k r))"

lemma step_bounded: "length r \<le> cap \<Longrightarrow> length (step op r) \<le> cap"
proof (cases op)
  case (RegAdd k)
  then show "length r \<le> cap \<Longrightarrow> ?thesis"
    by (cases "length r < cap") (simp_all add: step_def add_room add_full)
next
  case (RegRemove k)
  have "length r \<le> cap \<Longrightarrow> length (removeAll k r) \<le> cap"
    using length_removeAll_less_eq [of k r] by (rule order_trans)
  then show "length r \<le> cap \<Longrightarrow> ?thesis"
    using RegRemove by (cases "k \<in> set r") (simp_all add: step_def remove_absent remove_present)
qed

lemma run_bounded: "length (fold step ops []) \<le> cap"
proof -
  have "length r \<le> cap \<Longrightarrow> length (fold step ops r) \<le> cap" for r
    by (induction ops arbitrary: r) (simp_all add: step_bounded)
  then show ?thesis by simp
qed

lemma add_succeeds_iff: "fst (add k r) = 0 \<longleftrightarrow> length r < cap"
  by (cases "length r < cap") (simp_all add: add_room add_full)

lemma removed: "k \<notin> set (snd (remove k r))"
  by (cases "k \<in> set r") (simp_all add: remove_absent remove_present)

lemma remove_others: "filter (\<lambda>x. x \<noteq> k) (snd (remove k r)) = filter (\<lambda>x. x \<noteq> k) r"
  by (cases "k \<in> set r")
    (auto simp: remove_absent remove_present removeAll_filter_not_eq intro!: filter_cong)

lemma add_then_remove: "k \<notin> set r \<Longrightarrow> length r < cap \<Longrightarrow> snd (remove k (snd (add k r))) = r"
  by (simp add: add_room remove_present)

end

interpretation listeners: registry addListener removeListener listener_capacity
  by unfold_locales
    (auto simp: addListener_def removeListener_def stable_emplace_back_def Let_def
      length_removeAll_eq_iff)

interpretation callbacks: registry "\<lambda>(f, c). addCallback f c" "\<lambda>(f, c). removeCallback f c" callback_capacity
  by unfold_locales
    (auto simp: addCallback_def removeCallback_def stable_emplace_back_def Let_def
      length_removeAll_eq_iff)

lemma notify_append: "notify call (xs @ ys) w = notify call ys (notify call xs w)"
  by (induction xs arbitrary: w) simp_all

lemma notify_fold: "notify call ls = fold call ls"
  by (induction ls) (simp_all add: fun_eq_iff)

section \<open>The hosts\<close>

definition listener_step :: "'l reg_op \<Rightarrow> 'l list \<Rightarrow> 'l list" where
  "listener_step op ls = (case op of RegAdd l \<Rightarrow> snd (addListener l ls) | RegRemove l \<Rightarrow> snd (removeListener l ls))"

definition callback_step :: "('f \<times> 'c) reg_op \<Rightarrow> ('f \<times> 'c) list \<Rightarrow> ('f \<times> 'c) list" where
  "callback_step op cbs = (case op of RegAdd (f, c) \<Rightarrow> snd (addCallback f c cbs)
     | RegRemove (f, c) \<Rightarrow> snd (removeCallback f c cbs))"

lemma steps_are_registry: "listener_step = listeners.step" "callback_step = callbacks.step"
  by (auto simp: fun_eq_iff listener_step_def listeners.step_def callback_step_def callbacks.step_def
      split: reg_op.split)

text \<open>C34: After any sequence of registrations and removals a listener host and a callback host hold at
  most three entries.  Of each: a further registration succeeds exactly when there is room, and puts the
  entry behind the others; after a removal the entry is not registered, the others being kept in order.\<close>

theorem registrations_bounded:
  "length (fold listener_step ops []) \<le> 3
   \<and> (addListener l (fold listener_step ops []) =
       (if length (fold listener_step ops []) < 3 then (S_OK, fold listener_step ops [] @ [l])
        else (E_UNEXPECTED, fold listener_step ops [])))
   \<and> l \<notin> set (snd (removeListener l ls))
   \<and> filter (\<lambda>x. x \<noteq> l) (snd (removeListener l ls)) = filter (\<lambda>x. x \<noteq> l) ls
   \<and> length (fold callback_step cops []) \<le> 3
   \<and> (addCallback f c (fold callback_step cops []) =
       (if length (fold callback_step cops []) < 3 then (S_OK, fold callback_step cops [] @ [(f, c)])
        else (E_UNEXPECTED, fold callback_step cops [])))
   \<and> (f, c) \<notin> set (snd (removeCallback f c cbs))
   \<and> filter (\<lambda>x. x \<noteq> (f, c)) (snd (removeCallback f c cbs)) = filter (\<lambda>x. x \<noteq> (f, c)) cbs"
proof -
  let ?ls = "fold listener_step ops []" and ?cbs = "fold callback_step cops []"
  have "addListener l ?ls = (if length ?ls < 3 then (S_OK, ?ls @ [l]) else (E_UNEXPECTED, ?ls))"
    using listeners.add_room [of ?ls l] listeners.add_full [of ?ls l] by (simp add: listener_capacity_def)
  moreover have "addCallback f c ?cbs = (if length ?cbs < 3 then (S_OK, ?cbs @ [(f, c)]) else (E_UNEXPECTED, ?cbs))"
    using callbacks.add_room [of ?cbs "(f, c)"] callbacks.add_full [of ?cbs "(f, c)"] by (simp add: callback_capacity_def)
  ultimately show ?thesis
    using listeners.run_bounded [of ops] callbacks.run_bounded [of cops]
      listeners.removed [of l ls] listeners.remove_others [of l ls]
      callbacks.removed [of "(f, c)" cbs] callbacks.remove_others [of "(f, c)" cbs]
    unfolding steps_are_registry listener_capacity_def callback_capacity_def case_prod_conv by blast
qed

end
