(* ===== verification/ValueCache.thy ===== *)
theory ValueCache
  imports Prelude
begin

text \<open>
  \<open>utility/ValueCache.h\<close>: values by key over a hash map of the boost library.  The container is the
  list of its pairs in iteration order, with distinct keys; \<open>find\<close>, \<open>try_emplace\<close> and \<open>erase\<close> are
  the documented operations of such a map.  The C++ functions return a pointer into the container:
  here they return the value, and \<open>cache_put\<close> is a write through the pointer.  The locale
  \<open>value_cache\<close> is what the window and monitor caches rely on.
\<close>

type_synonym ('k, 'v) ValueCache = "('k \<times> 'v) list"

definition cache_ok :: "('k, 'v) ValueCache \<Rightarrow> bool" where "cache_ok c \<longleftrightarrow> distinct (map fst c)"

(* @ app/utility/ValueCache.h:55-71 ValueCache::get *)
definition cache_get :: "('k, 'v) ValueCache \<Rightarrow> 'k \<Rightarrow> 'v option" where
  "cache_get storage key = map_of storage key"

definition try_emplace :: "('k, 'v) ValueCache \<Rightarrow> 'k \<Rightarrow> 'v \<Rightarrow> ('k, 'v) ValueCache" where
  "try_emplace storage key v = (if map_of storage key = None then storage @ [(key, v)] else storage)"

text \<open>\<open>construct key\<close> is the value's \<open>noexcept\<close> constructor (\<open>None\<close>: an allocation in it failed, which
  ends the process); \<open>room\<close> tells whether the table could take another element.\<close>

(* @ app/utility/ValueCache.h:85-92 ValueCache::getOrCreate *)
definition getOrCreate ::
  "('k \<Rightarrow> 'v option) \<Rightarrow> bool \<Rightarrow> 'k \<Rightarrow> ('k, 'v) ValueCache \<Rightarrow> ('v option \<times> ('k, 'v) ValueCache) option"
where
  "getOrCreate construct room key storage =
     (case map_of storage key of
        Some v \<Rightarrow> Some (Some v, storage)
      | None \<Rightarrow>
          if \<not> room then Some (None, storage)
          else (case construct key of
                  None \<Rightarrow> None
                | Some v \<Rightarrow> Some (Some v, try_emplace storage key v)))"

(* @ app/utility/ValueCache.h:101-103 ValueCache::remove *)
definition cache_remove :: "('k, 'v) ValueCache \<Rightarrow> 'k \<Rightarrow> ('k, 'v) ValueCache" where
  "cache_remove storage key = filter (\<lambda>p. fst p \<noteq> key) storage"

definition cache_put :: "('k, 'v) ValueCache \<Rightarrow> 'k \<Rightarrow> 'v \<Rightarrow> ('k, 'v) ValueCache" where
  "cache_put storage key v = map (\<lambda>(k, u). (k, if k = key then v else u)) storage"

section \<open>The contract of a cache\<close>

locale value_cache =
  fixes get :: "'c \<Rightarrow> 'k \<Rightarrow> 'v option" and emplace put :: "'c \<Rightarrow> 'k \<Rightarrow> 'v \<Rightarrow> 'c"
    and remove :: "'c \<Rightarrow> 'k \<Rightarrow> 'c" and ok :: "'c \<Rightarrow> bool"
  assumes ok_emplace: "ok c \<Longrightarrow> ok (emplace c k v)"
    and ok_put: "ok c \<Longrightarrow> ok (put c k v)"
    and ok_remove: "ok c \<Longrightarrow> ok (remove c k)"
    and get_emplace: "get (emplace c k v) j = (if j = k \<and> get c k = None then Some v else get c j)"
    and get_put: "get (put c k v) j = (if j = k \<and> get c k \<noteq> None then Some v else get c j)"
    and get_remove: "get (remove c k) j = (if j = k then None else get c j)"
begin

definition modify :: "('v \<Rightarrow> 'v) \<Rightarrow> 'k \<Rightarrow> 'c \<Rightarrow> 'c" where
  "modify f k c = (case get c k of None \<Rightarrow> c | Some v \<Rightarrow> put c k (f v))"

lemma ok_modify: "ok c \<Longrightarrow> ok (modify f k c)"
  by (simp add: modify_def ok_put split: option.split)

lemma get_modify: "get (modify f k c) j = (if j = k then map_option f (get c k) else get c j)"
  by (simp add: modify_def get_put split: option.split)

lemma modify_comm:
  "k \<noteq> j \<Longrightarrow> get (modify f k (modify g j c)) i = get (modify g j (modify f k c)) i"
  by (auto simp: get_modify)

lemma remove_modify: "get (remove (modify f k c) k) j = get (remove c k) j"
  by (simp add: get_remove get_modify)

lemma emplace_twice: "get (emplace (emplace c k v) k v') j = get (emplace c k v) j"
  by (simp add: get_emplace)

text \<open>A predicate on the entries is kept by every operation that keeps it on the one it touches.\<close>

definition entries :: "('k \<Rightarrow> 'v \<Rightarrow> bool) \<Rightarrow> 'c \<Rightarrow> bool" where
  "entries P c \<longleftrightarrow> (\<forall>k v. get c k = Some v \<longrightarrow> P k v)"

lemma entries_emplace: "entries P c \<Longrightarrow> P k v \<Longrightarrow> entries P (emplace c k v)"
  by (auto simp: entries_def get_emplace)

lemma entries_put: "entries P c \<Longrightarrow> P k v \<Longrightarrow> entries P (put c k v)"
  by (auto simp: entries_def get_put split: if_splits)

lemma entries_remove: "entries P c \<Longrightarrow> entries P (remove c k)"
  by (auto simp: entries_def get_remove split: if_splits)

lemma entries_modify: "entries P c \<Longrightarrow> (\<And>v. P k v \<Longrightarrow> P k (f v)) \<Longrightarrow> entries P (modify f k c)"
  by (auto simp: entries_def get_modify split: if_splits)

lemma entries_getD: "entries P c \<Longrightarrow> get c k = Some v \<Longrightarrow> P k v"
  by (simp add: entries_def)

end

lemma cache_get_put:
  "cache_get (cache_put c k v) j = (if j = k \<and> cache_get c k \<noteq> None then Some v else cache_get c j)"
  by (induction c) (auto simp: cache_get_def cache_put_def)

lemma cache_get_remove: "cache_get (cache_remove c k) j = (if j = k then None else cache_get c j)"
  by (induction c) (auto simp: cache_get_def cache_remove_def)

interpretation caches: value_cache cache_get try_emplace cache_put cache_remove cache_ok
proof
  show "cache_ok (try_emplace c k v)" if "cache_ok c" for c :: "('a, 'b) ValueCache" and k v
    using that by (auto simp: cache_ok_def try_emplace_def map_of_eq_None_iff)
  show "cache_ok (cache_put c k v)" if "cache_ok c" for c :: "('a, 'b) ValueCache" and k v
    using that by (simp add: cache_ok_def cache_put_def case_prod_unfold comp_def)
  show "cache_ok (cache_remove c k)" if "cache_ok c" for c :: "('a, 'b) ValueCache" and k
    using that by (simp add: cache_ok_def cache_remove_def distinct_map_filter)
  show "cache_get (try_emplace c k v) j = (if j = k \<and> cache_get c k = None then Some v else cache_get c j)"
    for c :: "('a, 'b) ValueCache" and k v j
    by (simp add: cache_get_def try_emplace_def map_add_def split: option.split)
qed (rule cache_get_put cache_get_remove)+

text \<open>\<open>modify\<close> as the code does it: look the value up and write through the pointer.\<close>

definition cache_modify :: "('v \<Rightarrow> 'v) \<Rightarrow> 'k \<Rightarrow> ('k, 'v) ValueCache \<Rightarrow> ('k, 'v) ValueCache" where
  "cache_modify f key c = (case cache_get c key of None \<Rightarrow> c | Some v \<Rightarrow> cache_put c key (f v))"

lemma cache_modify_eq: "cache_modify = caches.modify"
  by (simp add: fun_eq_iff cache_modify_def caches.modify_def)

lemma getOrCreate_ok:
  assumes "getOrCreate construct room key c = Some (v, c')" "cache_ok c"
  shows "cache_ok c'" "v \<noteq> None \<Longrightarrow> cache_get c' key = v"
  using assms caches.ok_emplace [OF assms(2)] caches.get_emplace [of c key _ key]
  by (auto simp: getOrCreate_def cache_get_def split: option.splits if_splits)

lemma getOrCreate_entries:
  assumes "getOrCreate construct room key c = Some (v, c')" "caches.entries P c"
    "\<And>u. construct key = Some u \<Longrightarrow> P key u"
  shows "caches.entries P c'" "v = Some u \<Longrightarrow> P key u"
  using assms caches.entries_emplace [OF assms(2)] caches.entries_getD [OF assms(2), unfolded cache_get_def]
  by (auto simp: getOrCreate_def split: option.splits if_splits)

end
