(* ===== verification/Window.thy ===== *)
theory Window
  imports Process Vec Registry ValueCache
begin

text \<open>
  \<open>win32/window.cc\<close> and \<open>window/\<close>: what the program knows of a window.  \<open>WindowState\<close> answers from its
  cache and asks the system when an entry is dirty; \<open>WindowStateCache\<close> holds the states by handle and
  invalidates them on events; \<open>WindowStateWatcher\<close> is the event procedure.  The world \<open>'w\<close> is what
  the Win32 calls observe.
\<close>

section \<open>win32/window.cc\<close>

(* @ app/win32/window.h:7-10 IsRootWindow *)
definition IsRootWindow :: "('w, 'a) win_api_scheme \<Rightarrow> handle \<Rightarrow> 'w \<Rightarrow> bool" where
  "IsRootWindow A hwnd w \<longleftrightarrow> GetAncestorRoot A hwnd w = hwnd"

definition rect_lanes :: "32 word \<times> 32 word \<times> 32 word \<times> 32 word \<Rightarrow> i32x4" where
  "rect_lanes = (\<lambda>(l, t, r, b). M128 l t r b)"

(* @ app/win32/window.cc:10-26 GetWindowShadowMargin *)
definition GetWindowShadowMargin ::
  "('w, 'a) win_api_scheme \<Rightarrow> simd_features \<Rightarrow> handle \<Rightarrow> i32x4 \<Rightarrow> 'w \<Rightarrow> hresult \<times> i32x4" where
  "GetWindowShadowMargin A F hwnd margin w =
     (let (rc, outer, err) = GetWindowRect A hwnd w in
      if \<not> rc then (LastErrorAsHResult A err, margin)
      else let (hr, inner) = DwmExtendedFrameBounds A hwnd w in
        if FAILED hr then (hr, margin)
        else
          let outerRect = rect_lanes outer; innerRect = rect_lanes inner;
              m1 = i4_setXY F margin (i4_sub (i4_xy False innerRect) (i4_xy False outerRect));
              m2 = i4_setZW F m1
                (i4_sub (i4_add (i4_xy False m1) (i4_zw False outerRect)) (i4_zw False innerRect))
          in (S_OK, m2))"

lemma GetWindowShadowMargin_lanes:
  assumes "GetWindowRect A hwnd w = (True, (l, t, r, b), err)"
    and "DwmExtendedFrameBounds A hwnd w = (hr, (l', t', r', b'))" "\<not> FAILED hr"
  shows "GetWindowShadowMargin A F hwnd m w =
    (S_OK, M128 (l' - l) (t' - t) (l' - l + r - r') (t' - t + b - b'))"
  using assms
  by (cases m) (simp add: GetWindowShadowMargin_def rect_lanes_def Let_def i4_defs)

section \<open>window/WindowState\<close>

(* @ app/window/WindowState.h:51-64 State *)
record WindowState =
  ws_shadow_margin :: f32x4
  ws_class :: wstr
  ws_title :: wstr
  ws_hwnd :: handle
  ws_hmonitor :: handle
  ws_image_name :: wstr
  ws_process_id :: dword
  ws_info_loaded :: bool
  ws_margin_dirty :: bool
  ws_class_loaded :: bool
  ws_title_dirty :: bool

text \<open>The constructor is \<open>noexcept\<close> and reserves 256 characters: a failed allocation ends the process.\<close>

(* @ app/window/WindowState.h:9-19 State::State *)
definition makeWindowState :: "('w, 'a) win_api_scheme \<Rightarrow> handle \<Rightarrow> WindowState option" where
  "makeWindowState A hwnd =
     (if str_alloc A 256 \<noteq> AllocOk then None
      else Some \<lparr>ws_shadow_margin = f4_make 0 0 0 0, ws_class = [], ws_title = [], ws_hwnd = hwnd,
             ws_hmonitor = 0, ws_image_name = [], ws_process_id = 0, ws_info_loaded = False,
             ws_margin_dirty = True, ws_class_loaded = False, ws_title_dirty = True\<rparr>)"

text \<open>\<open>GetProcessInfoFromHWND\<close> may return a success code without filling \<open>info\<close> (a call that failed
  with last error 0): the path is then empty and the id not initialised, here 0.\<close>

(* @ app/window/WindowState.cc:8-19 State::updateProcessInfo *)
definition updateProcessInfo ::
  "('w, 'a) win_api_scheme \<Rightarrow> 'w \<Rightarrow> WindowState \<Rightarrow> (hresult \<times> WindowState) option" where
  "updateProcessInfo A w s =
     (case GetProcessInfoFromHWND A (ws_hwnd s) w of
        None \<Rightarrow> None
      | Some res \<Rightarrow>
          let (hr, info) = (case res of Inl hr \<Rightarrow> (hr, \<lparr>proc_id = 0, proc_filepath = []\<rparr>)
                                      | Inr info \<Rightarrow> (S_OK, info))
          in if FAILED hr then Some (hr, s)
             else Some (S_OK, s\<lparr>ws_process_id := proc_id info, ws_image_name := proc_filepath info,
                                ws_info_loaded := True\<rparr>))"

(* @ app/window/WindowState.cc:21-28 State::hMonitor *)
definition hMonitor :: "('w, 'a) win_api_scheme \<Rightarrow> 'w \<Rightarrow> WindowState \<Rightarrow> handle \<times> WindowState" where
  "hMonitor A w s =
     (if ws_hmonitor s \<noteq> 0 then (ws_hmonitor s, s)
      else let m = MonitorFromWindow A (ws_hwnd s) w in (m, s\<lparr>ws_hmonitor := m\<rparr>))"

text \<open>The local vector is not initialised; \<open>GetWindowShadowMargin_lanes\<close> shows that its value is not
  used.\<close>

(* @ app/window/WindowState.cc:30-42 State::shadowMargin *)
definition shadowMargin ::
  "('w, 'a) win_api_scheme \<Rightarrow> simd_features \<Rightarrow> 'w \<Rightarrow> WindowState \<Rightarrow> (exn + f32x4) \<times> WindowState" where
  "shadowMargin A F w s =
     (if \<not> ws_margin_dirty s then (Inr (ws_shadow_margin s), s)
      else let (hr, m) = GetWindowShadowMargin A F (ws_hwnd s) (M128 0 0 0 0) w in
        (case check_hresult hr of
           Inl e \<Rightarrow> (Inl e, s)
         | Inr _ \<Rightarrow> (Inr (i4_to_f4 m),
                    s\<lparr>ws_shadow_margin := i4_to_f4 m, ws_margin_dirty := False\<rparr>)))"

text \<open>\<open>throw_last_error\<close> inside \<open>resize_and_overwrite\<close> is undefined by the standard; the model gives
  it the effect of the other branch of the \<open>#if\<close>, which clears the string and throws.\<close>

(* @ app/window/WindowState.cc:44-70 State::windowClass *)
definition windowClass ::
  "('w, 'a) win_api_scheme \<Rightarrow> 'w \<Rightarrow> WindowState \<Rightarrow> (exn + wstr) \<times> WindowState" where
  "windowClass A w s =
     (if ws_class_loaded s then (Inr (ws_class s), s)
      else let (len, buf, err) = GetClassName A (ws_hwnd s) 256 w in
        if len \<le> 0 then (Inl (throw_hresult (HResultFromWin32 A err)), s\<lparr>ws_class := []\<rparr>)
        else let str = take (nat len) buf in
          (Inr str, s\<lparr>ws_class := str, ws_class_loaded := True\<rparr>))"

(* @ app/window/WindowState.cc:72-106 State::windowTitle *)
definition windowTitle ::
  "('w, 'a) win_api_scheme \<Rightarrow> 'w \<Rightarrow> WindowState \<Rightarrow> (exn + wstr) \<times> WindowState" where
  "windowTitle A w s =
     (if \<not> ws_title_dirty s then (Inr (ws_title s), s)
      else let (len, err) = GetWindowTextLength A (ws_hwnd s) w in
        if len \<le> 0 then
          (if err \<noteq> ERROR_SUCCESS then (Inl (throw_hresult (HResultFromWin32 A err)), s)
           else (Inr [], s\<lparr>ws_title := []\<rparr>))
        else (case str_alloc A (nat len) of
                AllocBad \<Rightarrow> (Inl BadAlloc, s)
              | AllocTooLong \<Rightarrow> (Inl LengthError, s)
              | AllocOk \<Rightarrow>
                  let (written, buf) = GetWindowText A (ws_hwnd s) (nat len + 1) w in
                  if written \<le> 0 then (Inl (throw_hresult E_FAIL), s\<lparr>ws_title := []\<rparr>)
                  else let str = take (nat written) buf in
                    (Inr str, s\<lparr>ws_title := str, ws_title_dirty := False\<rparr>)))"

(* @ app/window/WindowState.h:27-32 State::processId *)
definition processId ::
  "('w, 'a) win_api_scheme \<Rightarrow> 'w \<Rightarrow> WindowState \<Rightarrow> ((exn + dword) \<times> WindowState) option" where
  "processId A w s =
     (if ws_info_loaded s then Some (Inr (ws_process_id s), s)
      else map_option (\<lambda>(hr, s'). (rbind (check_hresult hr) (\<lambda>_. Inr (ws_process_id s')), s'))
             (updateProcessInfo A w s))"

(* @ app/window/WindowState.h:33-38 State::processImageName *)
definition processImageName ::
  "('w, 'a) win_api_scheme \<Rightarrow> 'w \<Rightarrow> WindowState \<Rightarrow> ((exn + wstr) \<times> WindowState) option" where
  "processImageName A w s =
     (if ws_info_loaded s then Some (Inr (ws_image_name s), s)
      else map_option (\<lambda>(hr, s'). (rbind (check_hresult hr) (\<lambda>_. Inr (ws_image_name s')), s'))
             (updateProcessInfo A w s))"

(* @ app/window/WindowState.h:40-43 State::invalidateWindowLocation *)
definition invalidateWindowLocation :: "WindowState \<Rightarrow> WindowState" where
  "invalidateWindowLocation s = s\<lparr>ws_hmonitor := 0, ws_margin_dirty := True\<rparr>"

(* @ app/window/WindowState.h:44-46 State::invalidateWindowTitle *)
definition invalidateWindowTitle :: "WindowState \<Rightarrow> WindowState" where
  "invalidateWindowTitle s = s\<lparr>ws_title_dirty := True\<rparr>"

section \<open>The cached answers\<close>

text \<open>
  The specification of a window state: what the system answers now about the window, and
  \<open>coherent\<close>, which says that every entry marked valid is that answer.  A getter of a coherent
  state gives the system's answer, and the state stays coherent.
\<close>

definition margin_of :: "('w, 'a) win_api_scheme \<Rightarrow> simd_features \<Rightarrow> handle \<Rightarrow> 'w \<Rightarrow> exn + f32x4" where
  "margin_of A F h w = (let (hr, m) = GetWindowShadowMargin A F h (M128 0 0 0 0) w in
     rbind (check_hresult hr) (\<lambda>_. Inr (i4_to_f4 m)))"

definition class_of :: "('w, 'a) win_api_scheme \<Rightarrow> handle \<Rightarrow> 'w \<Rightarrow> exn + wstr" where
  "class_of A h w = (let (len, buf, err) = GetClassName A h 256 w in
     if len \<le> 0 then Inl (throw_hresult (HResultFromWin32 A err)) else Inr (take (nat len) buf))"

definition title_of :: "('w, 'a) win_api_scheme \<Rightarrow> handle \<Rightarrow> 'w \<Rightarrow> exn + wstr" where
  "title_of A h w = (let (len, err) = GetWindowTextLength A h w in
     if len \<le> 0 then
       (if err \<noteq> ERROR_SUCCESS then Inl (throw_hresult (HResultFromWin32 A err)) else Inr [])
     else (case str_alloc A (nat len) of
             AllocBad \<Rightarrow> Inl BadAlloc
           | AllocTooLong \<Rightarrow> Inl LengthError
           | AllocOk \<Rightarrow> let (written, buf) = GetWindowText A h (nat len + 1) w in
               if written \<le> 0 then Inl (throw_hresult E_FAIL) else Inr (take (nat written) buf)))"

definition info_of :: "('w, 'a) win_api_scheme \<Rightarrow> handle \<Rightarrow> 'w \<Rightarrow> (exn + ProcessInfo) option" where
  "info_of A h w = map_option (\<lambda>r. case r of
       Inl hr \<Rightarrow> rbind (check_hresult hr) (\<lambda>_. Inr \<lparr>proc_id = 0, proc_filepath = []\<rparr>)
     | Inr info \<Rightarrow> Inr info) (GetProcessInfoFromHWND A h w)"

definition coherent_location :: "('w, 'a) win_api_scheme \<Rightarrow> simd_features \<Rightarrow> 'w \<Rightarrow> WindowState \<Rightarrow> bool" where
  "coherent_location A F w s \<longleftrightarrow>
     (ws_hmonitor s \<noteq> 0 \<longrightarrow> ws_hmonitor s = MonitorFromWindow A (ws_hwnd s) w) \<and>
     (\<not> ws_margin_dirty s \<longrightarrow> margin_of A F (ws_hwnd s) w = Inr (ws_shadow_margin s))"

definition coherent_title :: "('w, 'a) win_api_scheme \<Rightarrow> 'w \<Rightarrow> WindowState \<Rightarrow> bool" where
  "coherent_title A w s \<longleftrightarrow> (\<not> ws_title_dirty s \<longrightarrow> title_of A (ws_hwnd s) w = Inr (ws_title s))"

definition coherent_fixed :: "('w, 'a) win_api_scheme \<Rightarrow> 'w \<Rightarrow> WindowState \<Rightarrow> bool" where
  "coherent_fixed A w s \<longleftrightarrow>
     (ws_class_loaded s \<longrightarrow> class_of A (ws_hwnd s) w = Inr (ws_class s)) \<and>
     (ws_info_loaded s \<longrightarrow> info_of A (ws_hwnd s) w =
        Some (Inr \<lparr>proc_id = ws_process_id s, proc_filepath = ws_image_name s\<rparr>))"

definition coherent :: "('w, 'a) win_api_scheme \<Rightarrow> simd_features \<Rightarrow> 'w \<Rightarrow> WindowState \<Rightarrow> bool" where
  "coherent A F w s \<longleftrightarrow> coherent_location A F w s \<and> coherent_title A w s \<and> coherent_fixed A w s"

lemmas coherent_defs = coherent_def coherent_location_def coherent_title_def coherent_fixed_def

lemma makeWindowState_coherent: "makeWindowState A hwnd = Some s \<Longrightarrow> coherent A F w s \<and> ws_hwnd s = hwnd"
  by (auto simp: makeWindowState_def coherent_defs split: if_splits)

lemma shadowMargin_coherent:
  assumes "coherent A F w s" "shadowMargin A F w s = (r, s')"
  shows "coherent A F w s' \<and> r = margin_of A F (ws_hwnd s) w \<and> ws_hwnd s' = ws_hwnd s"
proof (cases "ws_margin_dirty s")
  case True
  then show ?thesis
    using assms by (auto simp: coherent_defs shadowMargin_def margin_of_def split: prod.splits sum.splits)
qed (use assms in \<open>auto simp: coherent_defs shadowMargin_def\<close>)

lemma hMonitor_coherent:
  assumes "coherent A F w s" "hMonitor A w s = (m, s')"
  shows "coherent A F w s' \<and> m = MonitorFromWindow A (ws_hwnd s) w \<and> ws_hwnd s' = ws_hwnd s"
  using assms by (auto simp: coherent_defs hMonitor_def Let_def split: if_splits)

text \<open>The names of a window and its location are separate parts of the state.\<close>

definition coherent_names :: "('w, 'a) win_api_scheme \<Rightarrow> 'w \<Rightarrow> WindowState \<Rightarrow> bool" where
  "coherent_names A w s \<longleftrightarrow> coherent_title A w s \<and> coherent_fixed A w s"

definition location_part :: "WindowState \<Rightarrow> handle \<times> handle \<times> bool \<times> f32x4" where
  "location_part s = (ws_hwnd s, ws_hmonitor s, ws_margin_dirty s, ws_shadow_margin s)"

lemma coherent_parts: "coherent A F w s \<longleftrightarrow> coherent_location A F w s \<and> coherent_names A w s"
  by (simp add: coherent_def coherent_names_def)

lemma coherent_location_part:
  "location_part s' = location_part s \<Longrightarrow> coherent_location A F w s' = coherent_location A F w s"
  by (simp add: coherent_location_def location_part_def)

lemmas names_defs = coherent_names_def coherent_title_def coherent_fixed_def location_part_def

lemma windowClass_names:
  assumes "coherent_names A w s" "windowClass A w s = (r, s')"
  shows "coherent_names A w s' \<and> r = class_of A (ws_hwnd s) w \<and> location_part s' = location_part s"
proof (cases "ws_class_loaded s")
  case False
  then show ?thesis
    using assms by (auto simp: names_defs windowClass_def class_of_def Let_def split: prod.splits if_splits)
qed (use assms in \<open>auto simp: names_defs windowClass_def\<close>)

lemma windowTitle_names:
  assumes "coherent_names A w s" "windowTitle A w s = (r, s')"
  shows "coherent_names A w s' \<and> r = title_of A (ws_hwnd s) w \<and> location_part s' = location_part s"
proof (cases "ws_title_dirty s")
  case True
  obtain len err where l: "GetWindowTextLength A (ws_hwnd s) w = (len, err)" by fastforce
  obtain written buf where g: "GetWindowText A (ws_hwnd s) (nat len + 1) w = (written, buf)" by fastforce
  note d = windowTitle_def title_of_def Let_def l g [simplified]
  show ?thesis
  proof (cases "0 < len \<and> str_alloc A (nat len) = AllocOk \<and> 0 < written")
    case ok: True
    then show ?thesis using assms True by (auto simp: names_defs d)
  next
    case False
    then have "r = title_of A (ws_hwnd s) w \<and> (\<exists>t. s' = s\<lparr>ws_title := t\<rparr>)"
      using assms(2) True by (auto simp: d split: if_splits alloc.splits intro: exI [of _ "ws_title s"])
    then show ?thesis using assms(1) True by (auto simp: names_defs)
  qed
qed (use assms in \<open>auto simp: names_defs windowTitle_def\<close>)

lemma updateProcessInfo_names:
  assumes "coherent_names A w s" "updateProcessInfo A w s = Some (hr, s')" "\<not> ws_info_loaded s"
  shows "coherent_names A w s' \<and> location_part s' = location_part s \<and> info_of A (ws_hwnd s) w =
    Some (rbind (check_hresult hr) (\<lambda>_. Inr \<lparr>proc_id = ws_process_id s', proc_filepath = ws_image_name s'\<rparr>))"
proof -
  obtain res where "GetProcessInfoFromHWND A (ws_hwnd s) w = Some res"
    using assms(2) by (auto simp: updateProcessInfo_def split: option.splits)
  then show ?thesis
    using assms by (cases res) (auto simp: updateProcessInfo_def info_of_def names_defs split: if_splits)
qed

lemma processImageName_names:
  assumes "coherent_names A w s" "processImageName A w s = Some (r, s')"
  shows "coherent_names A w s' \<and> location_part s' = location_part s \<and>
    Some r = map_option (\<lambda>i. rbind i (\<lambda>info. Inr (proc_filepath info))) (info_of A (ws_hwnd s) w)"
proof (cases "ws_info_loaded s")
  case False
  then obtain hr where u: "updateProcessInfo A w s = Some (hr, s')"
      "r = rbind (check_hresult hr) (\<lambda>_. Inr (ws_image_name s'))"
    using assms(2) by (auto simp: processImageName_def)
  then show ?thesis
    using updateProcessInfo_names [OF assms(1) u(1) False] by (auto simp: rbind_assoc)
qed (use assms in \<open>auto simp: names_defs processImageName_def\<close>)

lemma getters_coherent:
  assumes "coherent A F w s"
  shows "windowClass A w s = (c, s') \<Longrightarrow> coherent A F w s' \<and> c = class_of A (ws_hwnd s) w"
    and "windowTitle A w s = (c, s') \<Longrightarrow> coherent A F w s' \<and> c = title_of A (ws_hwnd s) w"
    and "processImageName A w s = Some (c, s') \<Longrightarrow> coherent A F w s' \<and>
      Some c = map_option (\<lambda>i. rbind i (\<lambda>info. Inr (proc_filepath info))) (info_of A (ws_hwnd s) w)"
proof -
  have n: "coherent_names A w s" and l: "coherent_location A F w s" using assms by (simp_all add: coherent_parts)
  have c: "coherent A F w s'" if "coherent_names A w s'" "location_part s' = location_part s"
    using that(1) coherent_location_part [OF that(2), of A F w] l by (simp add: coherent_parts)
  show "coherent A F w s' \<and> c = class_of A (ws_hwnd s) w" if "windowClass A w s = (c, s')"
    using windowClass_names [OF n that] c by simp
  show "coherent A F w s' \<and> c = title_of A (ws_hwnd s) w" if "windowTitle A w s = (c, s')"
    using windowTitle_names [OF n that] c by simp
  show "coherent A F w s' \<and>
      Some c = map_option (\<lambda>i. rbind i (\<lambda>info. Inr (proc_filepath info))) (info_of A (ws_hwnd s) w)"
    if "processImageName A w s = Some (c, s')"
    using processImageName_names [OF n that] c by simp
qed

text \<open>Invalidation makes a state coherent again after a change of what it invalidates.\<close>

definition same_location :: "('w, 'a) win_api_scheme \<Rightarrow> handle \<Rightarrow> 'w \<Rightarrow> 'w \<Rightarrow> bool" where
  "same_location A h w w' \<longleftrightarrow> MonitorFromWindow A h w' = MonitorFromWindow A h w \<and>
     GetWindowRect A h w' = GetWindowRect A h w \<and>
     DwmExtendedFrameBounds A h w' = DwmExtendedFrameBounds A h w"

definition same_title :: "('w, 'a) win_api_scheme \<Rightarrow> handle \<Rightarrow> 'w \<Rightarrow> 'w \<Rightarrow> bool" where
  "same_title A h w w' \<longleftrightarrow> GetWindowTextLength A h w' = GetWindowTextLength A h w \<and>
     (\<forall>n. GetWindowText A h n w' = GetWindowText A h n w)"

definition same_fixed :: "('w, 'a) win_api_scheme \<Rightarrow> handle \<Rightarrow> 'w \<Rightarrow> 'w \<Rightarrow> bool" where
  "same_fixed A h w w' \<longleftrightarrow> GetClassName A h 256 w' = GetClassName A h 256 w \<and>
     GetProcessInfoFromHWND A h w' = GetProcessInfoFromHWND A h w"

lemma margin_of_same: "same_location A h w w' \<Longrightarrow> margin_of A F h w' = margin_of A F h w"
  unfolding same_location_def margin_of_def GetWindowShadowMargin_def by (elim conjE) (simp only:)

lemma coherent_location_same:
  "same_location A (ws_hwnd s) w w' \<Longrightarrow> coherent_location A F w s \<Longrightarrow> coherent_location A F w' s"
  using margin_of_same [of A "ws_hwnd s" w w' F] by (auto simp: same_location_def coherent_location_def)

lemma title_of_same:
  assumes "same_title A h w w'"
  shows "title_of A h w' = title_of A h w"
proof -
  obtain len err where "GetWindowTextLength A h w = (len, err)" by fastforce
  then show ?thesis using assms by (cases "str_alloc A (nat len)") (simp_all add: same_title_def title_of_def)
qed

lemma coherent_title_same:
  "same_title A (ws_hwnd s) w w' \<Longrightarrow> coherent_title A w s \<Longrightarrow> coherent_title A w' s"
  by (simp add: coherent_title_def title_of_same)

lemma coherent_fixed_same:
  "same_fixed A (ws_hwnd s) w w' \<Longrightarrow> coherent_fixed A w s \<Longrightarrow> coherent_fixed A w' s"
  by (simp add: same_fixed_def coherent_fixed_def class_of_def info_of_def)

lemma invalidate_hwnd [simp]:
  "ws_hwnd (invalidateWindowLocation s) = ws_hwnd s" "ws_hwnd (invalidateWindowTitle s) = ws_hwnd s"
  by (simp_all add: invalidateWindowLocation_def invalidateWindowTitle_def)

section \<open>window/WindowStateCache\<close>

definition EVENT_SYSTEM_FOREGROUND :: dword where "EVENT_SYSTEM_FOREGROUND = 0x0003"
definition EVENT_OBJECT_DESTROY :: dword where "EVENT_OBJECT_DESTROY = 0x8001"
definition EVENT_OBJECT_SHOW :: dword where "EVENT_OBJECT_SHOW = 0x8002"
definition EVENT_OBJECT_LOCATIONCHANGE :: dword where "EVENT_OBJECT_LOCATIONCHANGE = 0x800B"
definition EVENT_OBJECT_NAMECHANGE :: dword where "EVENT_OBJECT_NAMECHANGE = 0x800C"
definition OBJID_WINDOW :: dword where "OBJID_WINDOW = 0"
definition CHILDID_SELF :: dword where "CHILDID_SELF = 0"

lemmas event_defs = EVENT_SYSTEM_FOREGROUND_def EVENT_OBJECT_DESTROY_def EVENT_OBJECT_SHOW_def
  EVENT_OBJECT_LOCATIONCHANGE_def EVENT_OBJECT_NAMECHANGE_def OBJID_WINDOW_def CHILDID_SELF_def

type_synonym WindowStateCache = "(handle, WindowState) ValueCache"

text \<open>\<open>None\<close>: the assumption of the first line is violated and the behaviour is undefined.\<close>

(* @ app/window/WindowStateCache.cc:6-30 StateCache::processWindowEvent *)
definition processWindowEvent :: "dword \<Rightarrow> handle \<Rightarrow> WindowStateCache \<Rightarrow> WindowStateCache option" where
  "processWindowEvent event hwnd cache =
     (if \<not> (event \<noteq> EVENT_SYSTEM_FOREGROUND \<and> event \<noteq> EVENT_OBJECT_SHOW) then None
      else if event = EVENT_OBJECT_DESTROY then Some (cache_remove cache hwnd)
      else if event = EVENT_OBJECT_LOCATIONCHANGE then
        Some (cache_modify invalidateWindowLocation hwnd cache)
      else if event = EVENT_OBJECT_NAMECHANGE then
        Some (cache_modify invalidateWindowTitle hwnd cache)
      else Some cache)"

text \<open>\<open>coherent_cache\<close>: every cached state is coherent and filed under its own handle.  \<open>WindowEvents\<close> shows
  what the events keep of it.\<close>

definition coherent_entry :: "('w, 'a) win_api_scheme \<Rightarrow> simd_features \<Rightarrow> 'w \<Rightarrow> handle \<Rightarrow> WindowState \<Rightarrow> bool" where
  "coherent_entry A F w h s \<longleftrightarrow> ws_hwnd s = h \<and> coherent A F w s"

abbreviation coherent_cache where "coherent_cache A F w \<equiv> caches.entries (coherent_entry A F w)"

section \<open>window/WindowStateWatcher\<close>

text \<open>
  The event procedure.  \<open>on_foreground l\<close> and \<open>on_show l\<close> are what a listener's callback does to the
  state it is handed and to the world; \<open>None\<close> is a process that ended, a call that does not
  return or, in \<open>processWindowEvent\<close>, undefined behaviour.  \<open>room\<close> tells whether the table of the
  cache can grow.
\<close>

definition dispatch_window ::
  "('w, 'a) win_api_scheme \<Rightarrow> bool \<Rightarrow> ('l \<Rightarrow> (WindowState \<times> 'w) option \<Rightarrow> (WindowState \<times> 'w) option) \<Rightarrow>
   'l list \<Rightarrow> handle \<Rightarrow> WindowStateCache \<times> 'w \<Rightarrow> (bool \<times> WindowStateCache \<times> 'w) option" where
  "dispatch_window A room call ls hwnd = (\<lambda>(cache, w).
     (case getOrCreate (makeWindowState A) room hwnd cache of
        None \<Rightarrow> None
      | Some (None, cache') \<Rightarrow> Some (False, cache', w)
      | Some (Some s, cache') \<Rightarrow>
          map_option (\<lambda>(s', w'). (True, cache_put cache' hwnd s', w')) (notify call ls (Some (s, w)))))"

(* @ app/window/WindowStateWatcher.cc:24-59 StateWatcher::winEventProcStatic *)
definition winEventProcStatic ::
  "('w, 'a) win_api_scheme \<Rightarrow> bool \<Rightarrow>
   ('l \<Rightarrow> (WindowState \<times> 'w) option \<Rightarrow> (WindowState \<times> 'w) option) \<Rightarrow>
   ('l \<Rightarrow> (WindowState \<times> 'w) option \<Rightarrow> (WindowState \<times> 'w) option) \<Rightarrow>
   'l list \<Rightarrow> dword \<Rightarrow> handle \<Rightarrow> dword \<Rightarrow> dword \<Rightarrow> WindowStateCache \<times> 'w \<Rightarrow> (WindowStateCache \<times> 'w) option" where
  "winEventProcStatic A room on_foreground on_show ls event hwnd object_id child_id st =
     (case (if event = EVENT_SYSTEM_FOREGROUND then dispatch_window A room on_foreground ls hwnd st
            else Some (True, st)) of
        None \<Rightarrow> None
      | Some (False, st1) \<Rightarrow> Some st1
      | Some (True, (cache, w)) \<Rightarrow>
          if object_id \<noteq> OBJID_WINDOW \<or> child_id \<noteq> CHILDID_SELF then Some (cache, w)
          else if \<not> IsRootWindow A hwnd w then Some (cache, w)
          else if event = EVENT_OBJECT_SHOW then
            map_option snd (dispatch_window A room on_show ls hwnd (cache, w))
          else map_option (\<lambda>cache'. (cache', w)) (processWindowEvent event hwnd cache))"

lemma foreground_reaches_assume:
  assumes "IsRootWindow A hwnd w'" "dispatch_window A room on_foreground ls hwnd st = Some (True, cache', w')"
  shows "winEventProcStatic A room on_foreground on_show ls EVENT_SYSTEM_FOREGROUND hwnd
     OBJID_WINDOW CHILDID_SELF st = None"
  using assms by (simp add: winEventProcStatic_def processWindowEvent_def event_defs)

end
