(* ===== verification/Logging.thy ===== *)
theory Logging
  imports Registry
begin

text \<open>
  \<open>logging/\<close>: the log ring and the helper every component logs through.  \<open>boost::circular_buffer\<close>
  of capacity \<open>n\<close> is a list of at most \<open>n\<close> logs, newest first: \<open>push_front\<close> on a full buffer drops
  the last.  A log's time stamp is a parameter.
\<close>

(* @ app/logging/Log.h:5-14 LogLevel *)
datatype LogLevel = LevelUnknown | LevelTrace | LevelDebug | LevelInfo | LevelNotice | LevelWarn | LevelError | LevelFatal

(* @ app/logging/Log.h:5-14 LogLevel *)
fun level_code :: "LogLevel \<Rightarrow> nat" where
  "level_code LevelUnknown = 0"
| "level_code LevelTrace = 1"
| "level_code LevelDebug = 2"
| "level_code LevelInfo = 3"
| "level_code LevelNotice = 4"
| "level_code LevelWarn = 5"
| "level_code LevelError = 6"
| "level_code LevelFatal = 7"

lemma level_code_inj: "level_code a = level_code b \<longleftrightarrow> a = b"
  by (cases a; cases b) simp_all

instantiation LogLevel :: linorder
begin
definition less_eq_LogLevel where "a \<le> b \<longleftrightarrow> level_code a \<le> level_code b"
definition less_LogLevel where "(a :: LogLevel) < b \<longleftrightarrow> level_code a < level_code b"
instance
  by standard (auto simp: less_eq_LogLevel_def less_LogLevel_def level_code_inj)
end

(* @ app/logging/Log.h:16-26 LogGroup *)
datatype LogGroup = GroupUnknown | GroupCompiler | GroupContext | GroupDebug | GroupEngine | GroupMonitor
  | GroupSettings | GroupWin32 | GroupWindow

(* @ app/logging/Log.h:28-34 Log *)
record Log =
  datetime :: nat
  log_content :: wstr
  log_hresult :: hresult
  log_level :: LogLevel
  log_group :: LogGroup

(* @ app/utility/ICollectionChangeListener.h:5-10 CollectionChangeType *)
datatype CollectionChangeType = ChangeReset | ChangeAdded | ChangeRemoved | ChangeUpdated

(* @ app/utility/ICollectionChangeListener.h:12-17 CollectionChange *)
record 'a CollectionChange =
  change_type :: CollectionChangeType
  change_index :: nat
  change_item :: 'a

(* @ app/logging/Logger.cc:6-12 kLogSize *)
definition kLogSize :: "bool \<Rightarrow> nat" where "kLogSize debug = (if debug then 256 else 64)"

(* @ app/logging/Logger.h:9-25 Logger *)
record Logger =
  log_capacity :: nat
  logs :: "Log list"

(* @ app/logging/Logger.cc:20-22 Logger::Logger *)
definition makeLogger :: "bool \<Rightarrow> Logger" where
  "makeLogger debug = \<lparr>log_capacity = kLogSize debug, logs = []\<rparr>"

definition push_front :: "nat \<Rightarrow> 'a \<Rightarrow> 'a list \<Rightarrow> 'a list" where
  "push_front cap x xs = take cap (x # xs)"

text \<open>\<open>addLog\<close> returns the logger and the change it notifies its listeners of.\<close>

(* @ app/logging/Logger.cc:24-36 Logger::addLog *)
definition addLog :: "Log \<Rightarrow> Logger \<Rightarrow> Logger \<times> Log CollectionChange" where
  "addLog l lg =
     (let is_full = (length (logs lg) = log_capacity lg);
          logs' = push_front (log_capacity lg) l (logs lg)
      in (lg\<lparr>logs := logs'\<rparr>,
          \<lparr>change_type = (if is_full then ChangeUpdated else ChangeAdded), change_index = 0,
           change_item = hd logs'\<rparr>))"

text \<open>A helper's \<open>logger_\<close> may be null; then nothing is logged.\<close>

(* @ app/logging/LogHelper.cc:12-26 LogHelperBase::log *)
definition helper_log :: "nat \<Rightarrow> LogLevel \<Rightarrow> LogGroup \<Rightarrow> wstr \<Rightarrow> hresult \<Rightarrow> Logger option \<Rightarrow> Logger option" where
  "helper_log now level grp msg hr logger =
     (case logger of
        None \<Rightarrow> None
      | Some lg \<Rightarrow>
          Some (fst (addLog \<lparr>datetime = now, log_content = msg, log_hresult = hr,
                             log_level = level, log_group = grp\<rparr> lg)))"

(* @ app/logging/LogHelper.h:43-45 LogHelper::trace *)
definition log_trace where "log_trace now = helper_log now LevelTrace"
(* @ app/logging/LogHelper.h:46-48 LogHelper::debug *)
definition log_debug where "log_debug now = helper_log now LevelDebug"
(* @ app/logging/LogHelper.h:49-51 LogHelper::info *)
definition log_info where "log_info now = helper_log now LevelInfo"
(* @ app/logging/LogHelper.h:52-54 LogHelper::notice *)
definition log_notice where "log_notice now = helper_log now LevelNotice"
(* @ app/logging/LogHelper.h:55-57 LogHelper::warn *)
definition log_warn where "log_warn now = helper_log now LevelWarn"
(* @ app/logging/LogHelper.h:58-60 LogHelper::error *)
definition log_error where "log_error now = helper_log now LevelError"
(* @ app/logging/LogHelper.h:61-63 LogHelper::fatal *)
definition log_fatal where "log_fatal now = helper_log now LevelFatal"

lemmas log_defs = log_trace_def log_debug_def log_info_def log_notice_def log_warn_def
  log_error_def log_fatal_def

section \<open>The ring\<close>

definition logger_wf :: "Logger \<Rightarrow> bool" where
  "logger_wf lg \<longleftrightarrow> 0 < log_capacity lg \<and> length (logs lg) \<le> log_capacity lg"

lemma makeLogger_wf: "logger_wf (makeLogger d)"
  by (simp add: logger_wf_def makeLogger_def kLogSize_def)

lemma addLog_wf: "logger_wf lg \<Longrightarrow> logger_wf (fst (addLog l lg))"
  by (simp add: logger_wf_def addLog_def push_front_def Let_def)

lemma addLog_logs: "logs (fst (addLog l lg)) = take (log_capacity lg) (l # logs lg)"
  by (simp add: addLog_def push_front_def Let_def)

lemma addLog_change:
  assumes "logger_wf lg"
  shows "change_item (snd (addLog l lg)) = l" "change_index (snd (addLog l lg)) = 0"
    and "change_type (snd (addLog l lg)) = ChangeUpdated \<longleftrightarrow> length (logs lg) = log_capacity lg"
  using assms
  by (cases "log_capacity lg"; simp add: addLog_def push_front_def Let_def logger_wf_def)+

lemma addLogs_take:
  "logs (fold (\<lambda>l lg. fst (addLog l lg)) ls lg) = take (log_capacity lg) (rev ls @ logs lg)"
  if "length (logs lg) \<le> log_capacity lg"
proof -
  have "log_capacity (fold (\<lambda>l lg. fst (addLog l lg)) ls lg) = log_capacity lg \<and>
    logs (fold (\<lambda>l lg. fst (addLog l lg)) ls lg) = take (log_capacity lg) (rev ls @ logs lg)"
  proof (induction ls rule: rev_induct)
    case (snoc l ls)
    then show ?case
      by (cases "log_capacity lg") (auto simp: addLog_def push_front_def Let_def min_def)
  qed (use that in simp)
  then show ?thesis by simp
qed

text \<open>C40: The logger holds the newest 64 logs, 256 in a debug build, newest first, whatever was logged
  before.  A listener is told of the new log at the front: as an addition while the ring fills, and as an
  update from then on.\<close>

theorem logger_keeps_newest:
  "logs (fold (\<lambda>l lg. fst (addLog l lg)) ls (makeLogger debug)) = take (kLogSize debug) (rev ls)
   \<and> snd (addLog l (fold (\<lambda>l lg. fst (addLog l lg)) ls (makeLogger debug))) =
       \<lparr>change_type = (if length ls < kLogSize debug then ChangeAdded else ChangeUpdated), change_index = 0, change_item = l\<rparr>"
proof -
  let ?lg = "fold (\<lambda>l lg. fst (addLog l lg)) ls (makeLogger debug)"
  have cap: "log_capacity (fold (\<lambda>l lg. fst (addLog l lg)) ls lg) = log_capacity lg" for lg
    by (induction ls arbitrary: lg) (simp_all add: addLog_def Let_def)
  have logs: "logs ?lg = take (kLogSize debug) (rev ls)"
    using addLogs_take [of "makeLogger debug" ls] by (simp add: makeLogger_def)
  have "0 < kLogSize debug" by (simp add: kLogSize_def)
  then show ?thesis
    using logs cap [of "makeLogger debug"] by (auto simp: addLog_def push_front_def Let_def makeLogger_def min_def hd_append)
qed

end
