(* ===== verification/Monitor.thy ===== *)
theory Monitor
  imports Window Logging
begin

text \<open>
  \<open>win32/monitor\<close> and \<open>monitor/\<close>: the monitors of the desktop.  \<open>mon_api\<close> extends the Win32 calls with
  those about displays; the two calls whose answers change while they are retried return the world
  after them.  The cache is rebuilt from an enumeration of the monitors and replaced only when it
  differs.
\<close>

record path_info =
  source_id :: nat
  target_id :: nat

record monitor_info =
  rcMonitor :: "32 word \<times> 32 word \<times> 32 word \<times> 32 word"
  rcWork :: "32 word \<times> 32 word \<times> 32 word \<times> 32 word"
  szDevice :: wstr
  dwFlags :: dword

record 'w mon_api = "'w win_api" +
  GetDisplayConfigBufferSizes :: "'w \<Rightarrow> (dword \<times> nat \<times> nat) \<times> 'w"
  QueryDisplayConfig :: "nat \<Rightarrow> nat \<Rightarrow> 'w \<Rightarrow> (dword \<times> path_info list) \<times> 'w"
  GetSourceName :: "path_info \<Rightarrow> 'w \<Rightarrow> dword \<times> wstr"
  GetTargetName :: "path_info \<Rightarrow> 'w \<Rightarrow> dword \<times> bool \<times> wstr"
  GetMonitorInfo :: "handle \<Rightarrow> 'w \<Rightarrow> bool \<times> monitor_info"
  EnumMonitors :: "'w \<Rightarrow> (handle \<times> (32 word \<times> 32 word \<times> 32 word \<times> 32 word)) list \<times> bool"
  MonitorCountMetric :: "'w \<Rightarrow> int"
  vec_alloc :: "nat \<Rightarrow> alloc"
  map_room :: "nat \<Rightarrow> bool"

section \<open>win32/monitor\<close>

(* @ app/win32/monitor.h:5-11 GetPrimaryHMonitor *)
definition GetPrimaryHMonitor :: "('w, 'a) win_api_scheme \<Rightarrow> 'w \<Rightarrow> handle" where
  "GetPrimaryHMonitor A w = PrimaryMonitor A w"

(* @ app/win32/monitor.h:13-16 GetMonitorCount *)
definition GetMonitorCount :: "('w, 'a) mon_api_scheme \<Rightarrow> 'w \<Rightarrow> int" where
  "GetMonitorCount A w = MonitorCountMetric A w"

text \<open>The C runtime's \<open>_wtoi\<close>: white space, a sign, digits, saturating.\<close>

definition wspace :: "16 word \<Rightarrow> bool" where "wspace c \<longleftrightarrow> c = 32 \<or> (9 \<le> c \<and> c \<le> 13)"
definition wdigit :: "16 word \<Rightarrow> bool" where "wdigit c \<longleftrightarrow> 48 \<le> c \<and> c \<le> 57"

fun wdigits :: "wstr \<Rightarrow> int \<Rightarrow> int" where
  "wdigits [] acc = acc"
| "wdigits (c # cs) acc = (if wdigit c then wdigits cs (10 * acc + (uint c - 48)) else acc)"

definition wtoi :: "wstr \<Rightarrow> int" where
  "wtoi s = (let s' = dropWhile wspace s;
                 i = (case s' of
                        [] \<Rightarrow> 0
                      | c # cs \<Rightarrow> if c = 45 then - wdigits cs 0 else if c = 43 then wdigits cs 0
                                 else wdigits s' 0)
             in max (- (2 ^ 31)) (min (2 ^ 31 - 1) i))"

(* @ app/win32/monitor.h:23-28 GetMonitorDeviceId *)
definition GetMonitorDeviceId :: "wstr \<Rightarrow> int" where
  "GetMonitorDeviceId device_name = wtoi (drop 11 device_name)"

(* @ app/win32/monitor.h:31-32 MonitorFriendlyNameContainer *)
type_synonym MonitorFriendlyNameContainer = "(int \<times> wstr) list"

(* @ app/win32/monitor.cc:12-12 kDisplayConfigMaxRetries *)
definition kDisplayConfigMaxRetries :: nat where "kDisplayConfigMaxRetries = 3"

text \<open>\<open>Inl\<close> is a thrown exception, \<open>Inr (Inl hr)\<close> a return of the function from inside the loop.\<close>

(* @ app/win32/monitor.cc:20-39 GetMonitorFriendlyNames *)
function display_config_loop ::
  "('w, 'a) mon_api_scheme \<Rightarrow> nat \<Rightarrow> 'w \<Rightarrow> (exn + hresult + path_info list) \<times> 'w" where
  "display_config_loop A count w =
     (let ((rc, path_count, mode_count), w1) = GetDisplayConfigBufferSizes A w in
      if rc \<noteq> ERROR_SUCCESS then (Inr (Inl (HResultFromWin32 A rc)), w1)
      else if vec_alloc A path_count = AllocBad then (Inl BadAlloc, w1)
      else if vec_alloc A path_count = AllocTooLong then (Inl LengthError, w1)
      else if vec_alloc A mode_count = AllocBad then (Inl BadAlloc, w1)
      else if vec_alloc A mode_count = AllocTooLong then (Inl LengthError, w1)
      else let ((rc', paths), w2) = QueryDisplayConfig A path_count mode_count w1 in
        if rc' = ERROR_SUCCESS then (Inr (Inr paths), w2)
        else if rc' \<noteq> ERROR_INSUFFICIENT_BUFFER then (Inr (Inl (HResultFromWin32 A rc')), w2)
        else if 1 < count then display_config_loop A (count - 1) w2
        else (Inr (Inl (HResultFromWin32 A rc')), w2))"
  by pat_completeness auto
termination by (relation "measure (\<lambda>(A, count, w). count)") auto

declare display_config_loop.simps [simp del]

(* @ app/win32/monitor.cc:41-77 GetMonitorFriendlyNames *)
fun friendly_names_loop ::
  "('w, 'a) mon_api_scheme \<Rightarrow> 'w \<Rightarrow> path_info list \<Rightarrow> hresult \<Rightarrow> MonitorFriendlyNameContainer \<Rightarrow>
   (exn + hresult) \<times> MonitorFriendlyNameContainer" where
  "friendly_names_loop A w [] hr names = (Inr hr, names)"
| "friendly_names_loop A w (path # paths) hr names =
     (let (rc, gdi_name) = GetSourceName A path w in
      if rc \<noteq> ERROR_SUCCESS then friendly_names_loop A w paths (HResultFromWin32 A rc) names
      else let (rc', from_edid, name) = GetTargetName A path w in
        if rc' \<noteq> ERROR_SUCCESS then friendly_names_loop A w paths (HResultFromWin32 A rc') names
        else if \<not> from_edid then friendly_names_loop A w paths hr names
        else let device_id = GetMonitorDeviceId gdi_name in
          if map_of names device_id \<noteq> None then friendly_names_loop A w paths hr names
          else if \<not> map_room A (Suc (length names)) then (Inl BadAlloc, names)
          else if 14 < length name then (Inl LengthError, names)
          else friendly_names_loop A w paths hr (try_emplace names device_id name))"

text \<open>The handlers of the function try block; no other exception can be thrown in it.\<close>

(* @ app/win32/monitor.cc:14-82 GetMonitorFriendlyNames *)
definition GetMonitorFriendlyNames ::
  "('w, 'a) mon_api_scheme \<Rightarrow> MonitorFriendlyNameContainer \<Rightarrow> 'w \<Rightarrow>
   hresult \<times> MonitorFriendlyNameContainer \<times> 'w" where
  "GetMonitorFriendlyNames A names w =
     (let (r, w1) = display_config_loop A kDisplayConfigMaxRetries w;
          caught = (\<lambda>e. if e = BadAlloc then E_OUTOFMEMORY else E_INVALIDARG)
      in case r of
           Inl e \<Rightarrow> (caught e, names, w1)
         | Inr (Inl hr) \<Rightarrow> (hr, names, w1)
         | Inr (Inr paths) \<Rightarrow>
             (case friendly_names_loop A w1 paths S_OK names of
                (Inl e, names') \<Rightarrow> (caught e, names', w1)
              | (Inr hr, names') \<Rightarrow> (hr, names', w1)))"

section \<open>monitor/MonitorState\<close>

(* @ app/monitor/MonitorState.h:32-37 State *)
record MonitorState =
  mon_display_area :: f32x4
  mon_work_area :: f32x4
  mon_friendly_name :: wstr
  mon_handle :: handle
  mon_id :: int
  mon_primary :: bool

(* @ app/monitor/MonitorState.cc:9-15 State::State *)
definition makeMonitorState :: "handle \<Rightarrow> f32x4 \<Rightarrow> MonitorState" where
  "makeMonitorState hmonitor area = \<lparr>mon_display_area = area, mon_work_area = f4_make 0 0 0 0,
     mon_friendly_name = [], mon_handle = hmonitor, mon_id = 0, mon_primary = False\<rparr>"

(* @ app/monitor/MonitorState.cc:32-43 State::initialize *)
definition rect_area :: "32 word \<times> 32 word \<times> 32 word \<times> 32 word \<Rightarrow> f32x4" where
  "rect_area = (\<lambda>(left, top, right, bottom). i4_to_f4 (i4_make left top (right - left) (bottom - top)))"

(* @ app/monitor/MonitorState.cc:25-47 State::initialize *)
definition monitor_initialize ::
  "('w, 'a) mon_api_scheme \<Rightarrow> 'w \<Rightarrow> MonitorState \<Rightarrow> hresult \<times> MonitorState" where
  "monitor_initialize A w s =
     (let (rc, info) = GetMonitorInfo A (mon_handle s) w in
      if \<not> rc then (kErrorInvalidMonitorHandle A, s)
      else (S_OK, s\<lparr>mon_display_area := rect_area (rcMonitor info),
                    mon_work_area := rect_area (rcWork info),
                    mon_id := GetMonitorDeviceId (szDevice info),
                    mon_primary := (dwFlags info AND 1 \<noteq> 0)\<rparr>))"

(* @ app/monitor/MonitorState.h:26-28 State::setFriendlyName *)
definition setFriendlyName :: "wstr \<Rightarrow> MonitorState \<Rightarrow> MonitorState" where
  "setFriendlyName v s = s\<lparr>mon_friendly_name := v\<rparr>"

(* @ app/monitor/MonitorState.h:30-30 operator== *)
definition monitor_eq :: "MonitorState \<Rightarrow> MonitorState \<Rightarrow> bool" where
  "monitor_eq a b \<longleftrightarrow> f4_eq (mon_display_area a) (mon_display_area b) \<and>
     f4_eq (mon_work_area a) (mon_work_area b) \<and> mon_friendly_name a = mon_friendly_name b \<and>
     mon_handle a = mon_handle b \<and> mon_id a = mon_id b \<and> mon_primary a = mon_primary b"

section \<open>monitor/MonitorStateCache\<close>

type_synonym MonitorStates = "(handle, MonitorState) ValueCache"

text \<open>\<open>operator==\<close> of the map: as many entries, and each found with an equal value.\<close>

definition states_eq :: "MonitorStates \<Rightarrow> MonitorStates \<Rightarrow> bool" where
  "states_eq a b \<longleftrightarrow> length a = length b \<and>
     list_all (\<lambda>(k, v). case map_of b k of None \<Rightarrow> False | Some v' \<Rightarrow> monitor_eq v v') a"

(* @ app/monitor/MonitorStateCache.cc:13-17 MonitorCallbackData *)
record MonitorCallbackData =
  cb_friendly_names :: MonitorFriendlyNameContainer
  cb_states :: MonitorStates
  cb_hresult :: hresult

(* @ app/monitor/MonitorStateCache.cc:22-70 StateCache::EnumDisplayMonitorsCallback *)
definition EnumDisplayMonitorsCallback ::
  "('w, 'a) mon_api_scheme \<Rightarrow> 'w \<Rightarrow> handle \<Rightarrow> (32 word \<times> 32 word \<times> 32 word \<times> 32 word) \<Rightarrow>
   MonitorCallbackData \<Rightarrow> bool \<times> MonitorCallbackData" where
  "EnumDisplayMonitorsCallback A w hmonitor rect d =
     (let display_area = rect_area rect in
      if list_ex (\<lambda>(_, state). f4_eq (mon_display_area state) display_area) (cb_states d) then (True, d)
      else if \<not> map_room A (Suc (length (cb_states d))) then (False, d\<lparr>cb_hresult := E_OUTOFMEMORY\<rparr>)
      else
        let states = try_emplace (cb_states d) hmonitor (makeMonitorState hmonitor display_area);
            (hr, state) = monitor_initialize A w (the (map_of states hmonitor))
        in if FAILED hr then
             (False, d\<lparr>cb_states := cache_put states hmonitor state, cb_hresult := hr\<rparr>)
           else
             let state' = (case map_of (cb_friendly_names d) (mon_id state) of
                             None \<Rightarrow> state | Some name \<Rightarrow> setFriendlyName name state)
             in (True, d\<lparr>cb_states := cache_put states hmonitor state'\<rparr>))"

text \<open>\<open>EnumDisplayMonitors\<close> calls the callback on each monitor until it returns \<open>FALSE\<close>.\<close>

fun enum_monitors ::
  "('w, 'a) mon_api_scheme \<Rightarrow> 'w \<Rightarrow> (handle \<times> (32 word \<times> 32 word \<times> 32 word \<times> 32 word)) list \<Rightarrow>
   MonitorCallbackData \<Rightarrow> bool \<times> MonitorCallbackData" where
  "enum_monitors A w [] d = (True, d)"
| "enum_monitors A w ((h, rect) # ms) d =
     (case EnumDisplayMonitorsCallback A w h rect d of
        (False, d') \<Rightarrow> (False, d')
      | (True, d') \<Rightarrow> enum_monitors A w ms d')"

(* @ app/monitor/MonitorStateCache.h:18-38 StateCache *)
record ('f, 'c) MonitorStateCache =
  mon_storage :: MonitorStates
  mon_callbacks :: "('f \<times> 'c) list"
  mon_log :: "Logger option"

definition kFriendlyNameRetrieveFailed :: wstr where
  "kFriendlyNameRetrieveFailed = widen ''Failed to retrieve monitor friendly names.''"
definition kReinitializeFailed :: wstr where
  "kReinitializeFailed = widen ''Failed to reinitialize monitor states after display change.''"

text \<open>\<open>call f c states w\<close> is the effect of callback \<open>f\<close> with context \<open>c\<close> on the world.\<close>

(* @ app/monitor/MonitorStateCache.cc:72-109 StateCache::initialize *)
definition cache_initialize ::
  "('w, 'a) mon_api_scheme \<Rightarrow> nat \<Rightarrow> ('f \<Rightarrow> 'c \<Rightarrow> MonitorStates \<Rightarrow> 'w \<Rightarrow> 'w) \<Rightarrow>
   ('f, 'c) MonitorStateCache \<Rightarrow> 'w \<Rightarrow> hresult \<times> ('f, 'c) MonitorStateCache \<times> 'w" where
  "cache_initialize A now call mc w =
     (let fire = (\<lambda>states w. invoke (\<lambda>f c. call f c states) (mon_callbacks mc) w);
          monitor_count = GetMonitorCount A w
      in if monitor_count \<le> 0 then
           (if mon_storage mc \<noteq> [] then (S_OK, mc\<lparr>mon_storage := []\<rparr>, fire [] w) else (S_OK, mc, w))
         else if \<not> map_room A (nat monitor_count) then (E_OUTOFMEMORY, mc, w)
         else
           let (hr, names, w1) = GetMonitorFriendlyNames A [] w;
               mc1 = (if FAILED hr
                      then mc\<lparr>mon_log := log_warn now GroupMonitor kFriendlyNameRetrieveFailed hr (mon_log mc)\<rparr>
                      else mc);
               (monitors, enum_ok) = EnumMonitors A w1;
               (go_on, d) = enum_monitors A w1 monitors
                 \<lparr>cb_friendly_names = names, cb_states = [], cb_hresult = E_FAIL\<rparr>
           in if \<not> (go_on \<and> enum_ok) then (cb_hresult d, mc1, w1)
              else if \<not> states_eq (mon_storage mc1) (cb_states d) then
                (S_OK, mc1\<lparr>mon_storage := cb_states d\<rparr>, fire (cb_states d) w1)
              else (S_OK, mc1, w1))"

(* @ app/monitor/MonitorStateCache.cc:111-118 StateCache::findById *)
fun findById :: "MonitorStates \<Rightarrow> int \<Rightarrow> MonitorState option" where
  "findById [] n = None"
| "findById ((_, val) # states) n = (if mon_id val = n then Some val else findById states n)"

(* @ app/monitor/MonitorStateCache.cc:120-125 StateCache::onDisplayChanged *)
definition onDisplayChanged ::
  "('w, 'a) mon_api_scheme \<Rightarrow> nat \<Rightarrow> ('f \<Rightarrow> 'c \<Rightarrow> MonitorStates \<Rightarrow> 'w \<Rightarrow> 'w) \<Rightarrow>
   ('f, 'c) MonitorStateCache \<Rightarrow> 'w \<Rightarrow> ('f, 'c) MonitorStateCache \<times> 'w" where
  "onDisplayChanged A now call mc w =
     (let (hr, mc', w') = cache_initialize A now call mc w in
      if FAILED hr then
        (mc'\<lparr>mon_log := log_warn now GroupMonitor kReinitializeFailed hr (mon_log mc')\<rparr>, w')
      else (mc', w'))"

section \<open>Friendly names\<close>

definition names_ok :: "MonitorFriendlyNameContainer \<Rightarrow> bool" where
  "names_ok names \<longleftrightarrow> distinct (map fst names) \<and> (\<forall>p \<in> set names. length (snd p) \<le> 14)"

lemma try_emplace_names:
  assumes "names_ok names" "length name \<le> 14"
  shows "names_ok (try_emplace names i name)"
  using assms caches.ok_emplace [of names i name]
  by (auto simp: names_ok_def cache_ok_def try_emplace_def)

lemma friendly_names_loop_ok:
  assumes "names_ok names" "friendly_names_loop A w paths hr names = (r, names')"
  shows "names_ok names' \<and> (\<exists>added. names' = names @ added)"
  using assms
proof (induction paths arbitrary: hr names)
  case (Cons path paths)
  obtain rc gdi where src: "GetSourceName A path w = (rc, gdi)" by fastforce
  obtain rc' edid name where tgt: "GetTargetName A path w = (rc', edid, name)" by (metis prod_cases3)
  let ?id = "GetMonitorDeviceId gdi"
  consider hr1 where "friendly_names_loop A w paths hr1 names = (r, names')" | "names' = names"
    | "length name \<le> 14" "map_of names ?id = None"
      "friendly_names_loop A w paths hr (names @ [(?id, name)]) = (r, names')"
    using Cons.prems(2) by (auto simp: src tgt Let_def try_emplace_def split: if_splits)
  then show ?case
  proof cases
    case 3
    then have "names_ok (names @ [(?id, name)])"
      using try_emplace_names [OF Cons.prems(1) 3(1), of ?id] by (simp add: try_emplace_def)
    then show ?thesis using Cons.IH 3(3) by fastforce
  qed (use Cons in \<open>blast, simp\<close>)
qed simp

lemma GetMonitorFriendlyNames_ok:
  assumes "GetMonitorFriendlyNames A names w = (hr, names', w')" "names_ok names"
  shows "names_ok names' \<and> (\<exists>added. names' = names @ added)"
proof -
  obtain r w1 where l: "display_config_loop A kDisplayConfigMaxRetries w = (r, w1)" by fastforce
  show ?thesis
  proof (cases "\<exists>paths. r = Inr (Inr paths)")
    case True
    then obtain paths where p: "r = Inr (Inr paths)" by blast
    obtain r' n' where f: "friendly_names_loop A w1 paths S_OK names = (r', n')" by fastforce
    then have "names' = n'"
      using assms(1) l p by (auto simp: GetMonitorFriendlyNames_def Let_def split: sum.splits)
    then show ?thesis using friendly_names_loop_ok [OF assms(2) f] by simp
  next
    case False
    then have "names' = names"
      using assms(1) l by (auto simp: GetMonitorFriendlyNames_def Let_def split: sum.splits)
    then show ?thesis using assms(2) by simp
  qed
qed

text \<open>The query fails for want of a buffer only after three attempts in a row found it too small.\<close>

fun too_small :: "('w, 'a) mon_api_scheme \<Rightarrow> nat \<Rightarrow> 'w \<Rightarrow> 'w \<Rightarrow> bool" where
  "too_small A 0 w w' \<longleftrightarrow> w' = w"
| "too_small A (Suc n) w w' \<longleftrightarrow>
     (let ((rc, p, m), w1) = GetDisplayConfigBufferSizes A w; ((rc', ps), w2) = QueryDisplayConfig A p m w1
      in rc = ERROR_SUCCESS \<and> rc' = ERROR_INSUFFICIENT_BUFFER \<and> too_small A n w2 w')"

lemma display_config_loop_retries:
  assumes "display_config_loop A count w = (Inr (Inl hr), w')" "0 < count"
  shows "too_small A count w w' \<or>
    (\<exists>rc. rc \<notin> {ERROR_SUCCESS, ERROR_INSUFFICIENT_BUFFER} \<and> hr = HResultFromWin32 A rc) \<or>
    (\<exists>w0 p w1. GetDisplayConfigBufferSizes A w0 = ((ERROR_INSUFFICIENT_BUFFER, p), w1))"
  using assms
proof (induction count arbitrary: w)
  case (Suc n)
  obtain rc p m w1 where sz: "GetDisplayConfigBufferSizes A w = ((rc, p, m), w1)" by (metis prod.exhaust)
  obtain rc' ps w2 where q: "QueryDisplayConfig A p m w1 = ((rc', ps), w2)" by (metis prod.exhaust)
  have ih: "0 < n \<Longrightarrow> display_config_loop A n w2 = (Inr (Inl hr), w') \<Longrightarrow>
      too_small A n w2 w' \<or>
      (\<exists>rc. rc \<notin> {ERROR_SUCCESS, ERROR_INSUFFICIENT_BUFFER} \<and> hr = HResultFromWin32 A rc) \<or>
      (\<exists>w0 p w1. GetDisplayConfigBufferSizes A w0 = ((ERROR_INSUFFICIENT_BUFFER, p), w1))"
    using Suc.IH by simp
  show ?case
    using Suc.prems(1) ih sz q
    by (subst (asm) (1) display_config_loop.simps)
      (auto simp: Let_def split: if_splits alloc.splits)
qed simp

section \<open>The enumeration\<close>

text \<open>
  What the enumeration is documented to report: each monitor once, with the rectangle that
  \<open>GetMonitorInfo\<close> reports.  Under it the states that are built are those of the first monitor of
  each display area, in order.
\<close>

definition enum_monitors_law ::
  "('w, 'a) mon_api_scheme \<Rightarrow> 'w \<Rightarrow> (handle \<times> (32 word \<times> 32 word \<times> 32 word \<times> 32 word)) list \<Rightarrow> bool" where
  "enum_monitors_law A w ms \<longleftrightarrow> distinct (map fst ms) \<and>
     (\<forall>(h, rect) \<in> set ms. fst (GetMonitorInfo A h w) \<longrightarrow> rcMonitor (snd (GetMonitorInfo A h w)) = rect)"

fun unique_areas ::
  "(handle \<times> (32 word \<times> 32 word \<times> 32 word \<times> 32 word)) list \<Rightarrow> f32x4 list \<Rightarrow>
   (handle \<times> (32 word \<times> 32 word \<times> 32 word \<times> 32 word)) list" where
  "unique_areas [] seen = []"
| "unique_areas ((h, rect) # ms) seen =
     (if list_ex (\<lambda>a. f4_eq a (rect_area rect)) seen then unique_areas ms seen
      else (h, rect) # unique_areas ms (seen @ [rect_area rect]))"

definition state_of :: "('w, 'a) mon_api_scheme \<Rightarrow> 'w \<Rightarrow> MonitorFriendlyNameContainer \<Rightarrow> handle \<Rightarrow> MonitorState" where
  "state_of A w names h =
     (let s = snd (monitor_initialize A w (makeMonitorState h (M128 0 0 0 0))) in
      case map_of names (mon_id s) of None \<Rightarrow> s | Some name \<Rightarrow> setFriendlyName name s)"

lemma try_emplace_put:
  assumes "h \<notin> fst ` set states"
  shows "map_of (try_emplace states h s0) h = Some s0"
    and "cache_put (try_emplace states h s0) h s = states @ [(h, s)]"
proof -
  have none: "map_of states h = None" using assms by (simp add: map_of_eq_None_iff)
  then show "map_of (try_emplace states h s0) h = Some s0"
    by (simp add: try_emplace_def map_add_Some_iff)
  have "cache_put states h s = states"
    using assms by (induction states) (auto simp: cache_put_def)
  then show "cache_put (try_emplace states h s0) h s = states @ [(h, s)]"
    using none by (simp add: try_emplace_def cache_put_def)
qed

lemma callback_hresult:
  assumes "EnumDisplayMonitorsCallback A w h rect d = (go_on, d')" "hr_law A"
  shows "(go_on \<longrightarrow> cb_hresult d' = cb_hresult d) \<and> (\<not> go_on \<longrightarrow> FAILED (cb_hresult d'))"
  using assms by (auto simp: EnumDisplayMonitorsCallback_def Let_def split: if_splits prod.splits)

lemma enum_monitors_hresult:
  assumes "enum_monitors A w ms d = (go_on, d')" "hr_law A" "FAILED (cb_hresult d)"
  shows "FAILED (cb_hresult d')"
  using assms
proof (induction ms arbitrary: d)
  case (Cons m ms)
  obtain h rect where m: "m = (h, rect)" by (cases m)
  obtain b d1 where c: "EnumDisplayMonitorsCallback A w h rect d = (b, d1)" by fastforce
  then show ?case
    using Cons callback_hresult [OF c assms(2)] m by (cases b) auto
qed simp

lemma enum_monitors_states:
  assumes "enum_monitors A w ms d = (True, d')" "enum_monitors_law A w (kept @ ms)"
    and "cb_states d = map (\<lambda>(h, r). (h, state_of A w (cb_friendly_names d) h)) kept"
    and "map (\<lambda>(_, s). mon_display_area s) (cb_states d) = map (\<lambda>m. rect_area (snd m)) kept"
    and "hr_law A"
  shows "cb_states d' = map (\<lambda>(h, r). (h, state_of A w (cb_friendly_names d) h))
    (kept @ unique_areas ms (map (\<lambda>m. rect_area (snd m)) kept))"
  using assms(1-4)
proof (induction ms arbitrary: d kept)
  case (Cons m ms)
  obtain h rect where m: "m = (h, rect)" by (cases m)
  have seen: "list_ex (\<lambda>(_, s). f4_eq (mon_display_area s) a) (cb_states d) =
      list_ex (\<lambda>b. f4_eq b a) (map (\<lambda>m. rect_area (snd m)) kept)" for a
    unfolding Cons.prems(4) [symmetric] by (simp add: list_ex_iff case_prod_unfold)
  show ?case
  proof (cases "list_ex (\<lambda>b. f4_eq b (rect_area rect)) (map (\<lambda>m. rect_area (snd m)) kept)")
    case True
    then have "enum_monitors A w ms d = (True, d')"
      using Cons.prems(1) by (simp add: m EnumDisplayMonitorsCallback_def seen)
    moreover have "enum_monitors_law A w (kept @ ms)"
      using Cons.prems(2) by (auto simp: enum_monitors_law_def)
    ultimately have "cb_states d' = map (\<lambda>(h, r). (h, state_of A w (cb_friendly_names d) h))
        (kept @ unique_areas ms (map (\<lambda>m. rect_area (snd m)) kept))"
      using Cons.prems(3,4) by (rule Cons.IH)
    then show ?thesis using True by (simp only: m unique_areas.simps if_True)
  next
    case False
    let ?names = "cb_friendly_names d"
    have "fst ` set (cb_states d) = fst ` set kept"
      unfolding Cons.prems(3) set_map image_image by (rule image_cong) auto
    then have h: "h \<notin> fst ` set (cb_states d)"
      using Cons.prems(2) m by (simp add: enum_monitors_law_def)
    note put = try_emplace_put [OF h]
    have fresh: "\<not> list_ex (\<lambda>(_, s). f4_eq (mon_display_area s) (rect_area rect)) (cb_states d)"
      using False unfolding seen .
    note cb = EnumDisplayMonitorsCallback_def Let_def fresh monitor_initialize_def makeMonitorState_def put(1)
    have room: "map_room A (Suc (length (cb_states d)))"
      by (rule ccontr) (use Cons.prems(1) in \<open>simp add: m cb\<close>)
    obtain rc info where gi: "GetMonitorInfo A h w = (rc, info)" by (cases "GetMonitorInfo A h w")
    have failed: "FAILED (kErrorInvalidMonitorHandle A)"
      using hr_law_simps(2) [OF assms(5)] by (simp add: kErrorInvalidMonitorHandle_def)
    have rc by (rule ccontr) (use Cons.prems(1) failed in \<open>simp add: m cb room gi\<close>)
    note info = gi [unfolded eqTrueI [OF \<open>rc\<close>]]
    have area: "rcMonitor info = rect"
      using Cons.prems(2) info m by (auto simp: enum_monitors_law_def)
    define d1 where "d1 = d\<lparr>cb_states := cb_states d @ [(h, state_of A w ?names h)]\<rparr>"
    have "EnumDisplayMonitorsCallback A w h rect d = (True, d1)"
      by (simp add: cb room info put(2) d1_def state_of_def Let_def split: option.split)
    then have run: "enum_monitors A w ms d1 = (True, d')"
      using Cons.prems(1) by (simp add: m)
    have d1: "cb_states d1 = map (\<lambda>(h, r). (h, state_of A w (cb_friendly_names d1) h)) (kept @ [m])"
      by (simp add: d1_def m Cons.prems(3))
    have "mon_display_area (state_of A w ?names h) = rect_area rect"
      using info area by (simp add: state_of_def monitor_initialize_def makeMonitorState_def Let_def
          setFriendlyName_def split: option.split)
    then have "map (\<lambda>(_, s). mon_display_area s) (cb_states d1) = map (\<lambda>m. rect_area (snd m)) (kept @ [m])"
      using Cons.prems(4) by (simp add: d1_def m)
    then have "cb_states d' = map (\<lambda>(h, r). (h, state_of A w (cb_friendly_names d1) h))
        ((kept @ [m]) @ unique_areas ms (map (\<lambda>m. rect_area (snd m)) (kept @ [m])))"
      using Cons.IH [OF run _ d1] Cons.prems(2) by simp
    moreover have "unique_areas (m # ms) (map (\<lambda>m. rect_area (snd m)) kept) =
        m # unique_areas ms (map (\<lambda>m. rect_area (snd m)) (kept @ [m]))"
      using False by (simp add: m)
    ultimately show ?thesis by (simp only: append_Cons append_Nil append_assoc) (simp add: d1_def)
  qed
qed simp

section \<open>The refresh of the cache\<close>

lemma cache_initialize_failed:
  assumes "cache_initialize A now call mc w = (hr, mc', w')" "FAILED hr"
  shows "mon_storage mc' = mon_storage mc \<and> (w' = w \<or> w' = snd (snd (GetMonitorFriendlyNames A [] w)))"
  using assms by (auto simp: cache_initialize_def Let_def split: if_splits prod.splits)

lemma cache_initialize_ok:
  assumes run: "cache_initialize A now call mc w = (hr, mc', w')" and ok: "\<not> FAILED hr" and law: "hr_law A"
    and count: "0 < GetMonitorCount A w"
    and names: "GetMonitorFriendlyNames A [] w = (hr1, names, w1)"
    and enum: "EnumMonitors A w1 = (ms, enum_ok)" "enum_monitors_law A w1 ms"
  defines "states \<equiv> map (\<lambda>(h, r). (h, state_of A w1 names h)) (unique_areas ms [])"
  shows "mon_storage mc' = (if states_eq (mon_storage mc) states then mon_storage mc else states)"
    and "w' = (if states_eq (mon_storage mc) states then w1
               else invoke (\<lambda>f c. call f c states) (mon_callbacks mc) w1)"
proof -
  let ?d = "\<lparr>cb_friendly_names = names, cb_states = [], cb_hresult = E_FAIL\<rparr>"
  obtain go_on d where e: "enum_monitors A w1 ms ?d = (go_on, d)" by fastforce
  have "FAILED (cb_hresult d)" using enum_monitors_hresult [OF e law] by simp
  then have "go_on \<and> enum_ok"
    using run ok count names enum(1) e
    by (auto simp: cache_initialize_def Let_def split: if_splits)
  moreover have "cb_states d = states" if go_on
    using enum_monitors_states [of A w1 ms ?d d "[]"] e that enum(2) law by (simp add: states_def)
  ultimately show "mon_storage mc' = (if states_eq (mon_storage mc) states then mon_storage mc else states)"
    "w' = (if states_eq (mon_storage mc) states then w1
           else invoke (\<lambda>f c. call f c states) (mon_callbacks mc) w1)"
    using run ok count names enum(1) e
    by (auto simp: cache_initialize_def Let_def split: if_splits)
qed

lemma findById_Some: "findById states n = Some s \<Longrightarrow> \<exists>h. (h, s) \<in> set states \<and> mon_id s = n"
  by (induction states n rule: findById.induct) (auto split: if_splits)

text \<open>The order of the map's iteration does not matter when the ids differ.\<close>

lemma findById_iff:
  assumes "distinct (map (mon_id \<circ> snd) states)"
  shows "findById states n = Some s \<longleftrightarrow> (\<exists>h. (h, s) \<in> set states \<and> mon_id s = n)"
  using assms by (induction states n rule: findById.induct) (force split: if_splits)+

end
