(* ===== verification/Operations.thy ===== *)
theory Operations
  imports Monitor
begin

text \<open>
  \<open>engine/MoveAndResizeOperation.cc\<close>: the operations a rule executes.  A relative operation keeps the
  bounds it computed the first time; the record is returned updated.  \<open>execute\<close> is \<open>noexcept\<close>: an
  exception of \<open>shadowMargin\<close> ends the process (\<open>None\<close>).  The second half shows where a window is put.
\<close>

(* @ app/engine/MoveAndResizeOperation.h:39-44 RelativeMoveAndResizeOperation *)
record RelativeOperation =
  op_hmonitor :: handle
  op_bounds :: i32x4
  op_relative :: f32x4
  op_dirty :: bool

(* @ app/engine/Operation.h:11-17 IOperation *)
datatype Operation = AbsoluteOp i32x4 | RelativeOp RelativeOperation

(* @ app/engine/MoveAndResizeOperation.h:13-15 AbsoluteMoveAndResizeOperation::AbsoluteMoveAndResizeOperation *)
definition makeAbsoluteOperation :: "i32x4 \<Rightarrow> Operation" where
  "makeAbsoluteOperation bounds = AbsoluteOp bounds"

(* @ app/engine/MoveAndResizeOperation.h:29-34 RelativeMoveAndResizeOperation::RelativeMoveAndResizeOperation *)
definition makeRelativeOperation :: "handle \<Rightarrow> f32x4 \<Rightarrow> Operation" where
  "makeRelativeOperation hmonitor relative_bounds =
     RelativeOp \<lparr>op_hmonitor = hmonitor, op_bounds = i4_make 0 0 0 0, op_relative = relative_bounds,
                 op_dirty = True\<rparr>"

(* @ app/engine/MoveAndResizeOperation.cc:13-26 applyWindowRect *)
definition applyWindowRect ::
  "('w, 'a) win_api_scheme \<Rightarrow> handle \<Rightarrow> i32x4 \<Rightarrow> 'w \<Rightarrow> hresult \<times> 'w" where
  "applyWindowRect A hwnd bounds w =
     (let (rc, err, w') = SetWindowPos A hwnd (i4_at bounds 0) (i4_at bounds 1) (i4_at bounds 2)
                            (i4_at bounds 3) w
      in if \<not> rc then (LastErrorAsHResult A err, w') else (S_OK, w'))"

(* @ app/engine/MoveAndResizeOperation.cc:28-30 AbsoluteMoveAndResizeOperation::execute *)
definition absolute_execute ::
  "('w, 'a) win_api_scheme \<Rightarrow> i32x4 \<Rightarrow> WindowState \<Rightarrow> 'w \<Rightarrow> hresult \<times> 'w" where
  "absolute_execute A bounds s w = applyWindowRect A (ws_hwnd s) bounds w"

text \<open>The window without its shadow: a size within the work area, placed relative to the rest of it.\<close>

(* @ app/engine/MoveAndResizeOperation.cc:40-44 RelativeMoveAndResizeOperation::execute *)
definition expected_area :: "simd_features \<Rightarrow> f32x4 \<Rightarrow> f32x4 \<Rightarrow> f32x4" where
  "expected_area F workArea relative =
     (let workSize = f4_zw False workArea;
          expectedSize = f4_ceil F (f4_mul (f4_zw False relative) workSize);
          expectedPos = f4_add (f4_xy False workArea)
            (f4_floor F (f4_mul (f4_xy False relative) (f4_sub workSize expectedSize)))
      in f4_concat expectedPos expectedSize)"

(* @ app/engine/MoveAndResizeOperation.cc:32-51 RelativeMoveAndResizeOperation::execute *)
definition relative_execute ::
  "('w, 'a) win_api_scheme \<Rightarrow> simd_features \<Rightarrow> MonitorStates \<Rightarrow> RelativeOperation \<Rightarrow> WindowState \<Rightarrow> 'w \<Rightarrow>
   (hresult \<times> RelativeOperation \<times> WindowState \<times> 'w) option" where
  "relative_execute A F monitors op s w =
     (if op_dirty op then
        (case cache_get monitors (op_hmonitor op) of
           None \<Rightarrow> Some (kErrorInvalidOperation A, op, s, w)
         | Some state \<Rightarrow>
             (case shadowMargin A F w s of
                (Inl _, _) \<Rightarrow> None
              | (Inr margin, s') \<Rightarrow>
                  let expectedBounds = f4_add (expected_area F (mon_work_area state) (op_relative op)) margin;
                      op' = op\<lparr>op_bounds := f4_ltrunc expectedBounds, op_dirty := False\<rparr>;
                      (hr, w') = applyWindowRect A (ws_hwnd s') (op_bounds op') w
                  in Some (hr, op', s', w')))
      else let (hr, w') = applyWindowRect A (ws_hwnd s) (op_bounds op) w in Some (hr, op, s, w'))"

fun execute ::
  "('w, 'a) win_api_scheme \<Rightarrow> simd_features \<Rightarrow> MonitorStates \<Rightarrow> Operation \<Rightarrow> WindowState \<Rightarrow> 'w \<Rightarrow>
   (hresult \<times> Operation \<times> WindowState \<times> 'w) option" where
  "execute A F monitors (AbsoluteOp bounds) s w =
     (let (hr, w') = absolute_execute A bounds s w in Some (hr, AbsoluteOp bounds, s, w'))"
| "execute A F monitors (RelativeOp op) s w =
     map_option (\<lambda>(hr, op', s', w'). (hr, RelativeOp op', s', w')) (relative_execute A F monitors op s w)"

section \<open>Where a window is put\<close>

text \<open>An integral float of small magnitude, and exact arithmetic on them.\<close>

definition int_f32 :: "f32 \<Rightarrow> int \<Rightarrow> bool" where
  "int_f32 a i \<longleftrightarrow> f32_finite a \<and> f32_val a = of_int i"

lemma f32_of_int_int: "\<bar>i\<bar> \<le> 2 ^ 24 \<Longrightarrow> int_f32 (f32_of_int i) i"
  using f32_val_round_int [of i False] by (simp add: int_f32_def f32_of_int_def)

lemma int_f32_add:
  assumes "int_f32 a i" "int_f32 b j" "\<bar>i + j\<bar> \<le> 2 ^ 24"
  shows "int_f32 (f32_add a b) (i + j)"
  using assms f32_val_round_int [OF assms(3)] by (simp add: int_f32_def f32_add_finite)

lemma int_f32_sub:
  assumes "int_f32 a i" "int_f32 b j" "\<bar>i - j\<bar> \<le> 2 ^ 24"
  shows "int_f32 (f32_sub a b) (i - j)"
  using assms f32_val_round_int [OF assms(3)] by (simp add: int_f32_def f32_sub_finite)

text \<open>A product with a factor between 0 and 1 stays between 0 and the integer, and so does its rounding.\<close>

lemma unit_mul_bounds:
  assumes "f32_finite r" "0 \<le> f32_val r" "f32_val r \<le> 1" "int_f32 b n" "0 \<le> n" "n \<le> 2 ^ 24"
  shows "f32_finite (f32_mul r b)" "0 \<le> f32_val (f32_mul r b)" "f32_val (f32_mul r b) \<le> of_int n"
proof -
  let ?x = "f32_val r * f32_val b"
  have b: "f32_finite b" "f32_val b = of_int n" using assms(4) by (simp_all add: int_f32_def)
  have x: "0 \<le> ?x" "?x \<le> of_int n"
    using assms(2,3,5) mult_left_le_one_le [of "of_int n" "f32_val r"] by (simp_all add: b(2))
  have m: "f32_mul r b = f32_round (f32_sign r \<noteq> f32_sign b) ?x"
    using assms(1) b(1) by (simp add: f32_mul_finite)
  have "(of_int n :: rat) \<le> 2 ^ 24" using of_int_le_iff [of n "2 ^ 24", where 'a = rat] assms(6) by simp
  then have "\<bar>?x\<bar> < two_to 127"
    using x order_le_less_trans [of ?x "2 ^ 24" "two_to 127"] by simp
  then show "f32_finite (f32_mul r b)" unfolding m by (rule f32_finite_round)
  show "0 \<le> f32_val (f32_mul r b)"
    using f32_val_round_mono [OF x(1), of False] f32_val_round_int(1) [of 0 False] by (simp add: m)
  show "f32_val (f32_mul r b) \<le> of_int n"
    using f32_val_round_mono [OF x(2)] f32_val_round_int(1) [of n] assms(5,6) by (simp add: m)
qed

lemma rounded_unit_mul:
  assumes "f32_finite r" "0 \<le> f32_val r" "f32_val r \<le> 1" "int_f32 b n" "0 \<le> n" "n \<le> 2 ^ 24"
    and "rounded_to f (f32_mul r b) v" "f = floor \<or> f = ceiling"
  shows "\<exists>k. int_f32 v k \<and> 0 \<le> k \<and> k \<le> n"
proof -
  note m = unit_mul_bounds [OF assms(1-6)]
  have "int_f32 v (f (f32_val (f32_mul r b)))"
    using assms(7) by (simp add: rounded_to_def int_f32_def)
  moreover have "0 \<le> f (f32_val (f32_mul r b))" "f (f32_val (f32_mul r b)) \<le> n"
    using m(2,3) assms(8) by (auto simp: le_floor_iff floor_le_iff ceiling_le_iff le_ceiling_iff)
  ultimately show ?thesis by blast
qed

text \<open>One axis of the expected area.\<close>

definition axis_size :: "simd_features \<Rightarrow> f32 \<Rightarrow> f32 \<Rightarrow> f32" where
  "axis_size F len rel = lane0 (f4_ceil F (f4_mul (M128 rel rel rel rel) (M128 len len len len)))"

definition axis_pos :: "simd_features \<Rightarrow> f32 \<Rightarrow> f32 \<Rightarrow> f32 \<Rightarrow> f32 \<Rightarrow> f32" where
  "axis_pos F origin len sz rel = f32_add origin
     (lane0 (f4_floor F (f4_mul (M128 rel rel rel rel) (lift2 f32_sub (M128 len len len len) (M128 sz sz sz sz)))))"

lemma expected_area_axes:
  "expected_area F (M128 x y w h) (M128 rx ry rw rh) =
     M128 (axis_pos F x w (axis_size F w rw) rx) (axis_pos F y h (axis_size F h rh) ry)
          (axis_size F w rw) (axis_size F h rh)"
  by (simp add: expected_area_def Let_def axis_pos_def axis_size_def f4_ceil_lane f4_floor_lane
      f4_zw_def f4_xy_def f4_mul_def f4_sub_def f4_add_def f4_concat_def)

lemma axis_bounds:
  assumes "int_f32 x i" "int_f32 w n" "0 \<le> n" "n \<le> 2 ^ 23" "\<bar>i\<bar> \<le> 2 ^ 23"
    and "f32_finite rw" "0 \<le> f32_val rw" "f32_val rw \<le> 1" "f32_finite rx" "0 \<le> f32_val rx" "f32_val rx \<le> 1"
  shows "\<exists>p k. int_f32 (axis_pos F x w (axis_size F w rw) rx) p \<and> int_f32 (axis_size F w rw) k \<and>
    0 \<le> k \<and> k \<le> n \<and> i \<le> p \<and> p + k \<le> i + n"
proof -
  have n: "n \<le> 2 ^ 24" using assms(4) by simp
  note mw = unit_mul_bounds [OF assms(6-8) assms(2,3) n]
  have "rounded_to ceiling (f32_mul rw w) (axis_size F w rw)"
    using ceil_lane_ok [OF mw(1), of F] by (simp add: axis_size_def f4_ceil_lane f4_mul_def)
  then obtain k where k: "int_f32 (axis_size F w rw) k" "0 \<le> k" "k \<le> n"
    using rounded_unit_mul [OF assms(6-8) assms(2,3) n] by blast
  let ?d = "f32_sub w (axis_size F w rw)"
  have d: "int_f32 ?d (n - k)" by (rule int_f32_sub) (use assms(2,4) k in auto)
  have nk: "0 \<le> n - k" "n - k \<le> 2 ^ 24" using k assms(4) by simp_all
  note mx = unit_mul_bounds [OF assms(9-11) d nk]
  let ?f = "lane0 (f4_floor F (f4_mul (M128 rx rx rx rx) (M128 ?d ?d ?d ?d)))"
  have "rounded_to floor (f32_mul rx ?d) ?f"
    using floor_lane_ok [OF mx(1), of F] by (simp add: f4_floor_lane f4_mul_def)
  then obtain j where j: "int_f32 ?f j" "0 \<le> j" "j \<le> n - k"
    using rounded_unit_mul [OF assms(9-11) d nk] by blast
  have "int_f32 (f32_add x ?f) (i + j)" by (rule int_f32_add) (use assms j nk k in auto)
  then have "int_f32 (axis_pos F x w (axis_size F w rw) rx) (i + j)" by (simp add: axis_pos_def)
  then show ?thesis using k j by (intro exI [of _ "i + j"] exI [of _ k]) simp
qed

text \<open>The conversion to integers of an area plus a margin.\<close>

lemma int_f32_to_i32:
  assumes "int_f32 a i" "\<bar>i\<bar> \<le> 2 ^ 24"
  shows "f32_to_i32 rtrunc a = of_int i"
proof -
  have "rtrunc (of_int i) = i" using rounding_int [of rtrunc i] by simp
  moreover have "- (2 ^ 31) \<le> i" "i < 2 ^ 31" using assms(2) by simp_all
  ultimately show ?thesis using assms(1) by (simp add: int_f32_def f32_to_i32_def)
qed

lemma i4_to_f4_lane: "i4_to_f4 (M128 a b c d) =
  M128 (f32_of_int (sint a)) (f32_of_int (sint b)) (f32_of_int (sint c)) (f32_of_int (sint d))"
  by (simp add: i4_to_f4_def)

text \<open>The visible frame of a window with the given outer bounds and shadow margin: the margin's first
  two lanes are the left and top insets, the others the total insets.\<close>

definition visible_frame :: "i32x4 \<Rightarrow> i32x4 \<Rightarrow> i32x4" where
  "visible_frame bounds margin =
     M128 (lane0 bounds + lane0 margin) (lane1 bounds + lane1 margin)
          (lane2 bounds - lane2 margin) (lane3 bounds - lane3 margin)"

definition unit_lanes :: "f32x4 \<Rightarrow> bool" where
  "unit_lanes v \<longleftrightarrow> (\<forall>a \<in> set (lanes v). f32_finite a \<and> 0 \<le> f32_val a \<and> f32_val a \<le> 1)"

definition desktop_rect :: "32 word \<times> 32 word \<times> 32 word \<times> 32 word \<Rightarrow> bool" where
  "desktop_rect = (\<lambda>(l, t, r, b). - (2 ^ 20) \<le> sint l \<and> sint l \<le> sint r \<and> sint r \<le> 2 ^ 20 \<and>
     - (2 ^ 20) \<le> sint t \<and> sint t \<le> sint b \<and> sint b \<le> 2 ^ 20)"

definition desktop_margin :: "i32x4 \<Rightarrow> bool" where
  "desktop_margin m \<longleftrightarrow> (\<forall>a \<in> set (lanes m). \<bar>sint a\<bar> \<le> 2 ^ 16)"

lemma sint_diff_small:
  assumes "- (2 ^ 20) \<le> sint a" "sint a \<le> sint b" "sint b \<le> 2 ^ 20"
  shows "sint ((b :: 32 word) - a) = sint b - sint a"
proof -
  have "sint (b - a) = signed_take_bit 31 (sint b - sint a)" by (simp add: sint_word_ariths)
  then show ?thesis using assms by (simp add: signed_take_bit_int_eq_self)
qed

lemma axis_placed:
  fixes F :: simd_features and l r ml mw :: "32 word"
  assumes "- (2 ^ 20) \<le> sint l" "sint l \<le> sint r" "sint r \<le> 2 ^ 20" "\<bar>sint ml\<bar> \<le> 2 ^ 16" "\<bar>sint mw\<bar> \<le> 2 ^ 16"
    and "f32_finite rw \<and> 0 \<le> f32_val rw \<and> f32_val rw \<le> 1" "f32_finite rx \<and> 0 \<le> f32_val rx \<and> f32_val rx \<le> 1"
  defines "sz \<equiv> axis_size F (f32_of_int (sint (r - l))) rw"
    and "pos \<equiv> axis_pos F (f32_of_int (sint l)) (f32_of_int (sint (r - l)))
      (axis_size F (f32_of_int (sint (r - l))) rw) rx"
  shows "\<exists>p k. f32_to_i32 rtrunc (f32_add pos (f32_of_int (sint ml))) = of_int p + ml \<and>
    f32_to_i32 rtrunc (f32_add sz (f32_of_int (sint mw))) = of_int k + mw \<and>
    0 \<le> k \<and> sint l \<le> p \<and> p + k \<le> sint r"
proof -
  have len: "sint (r - l) = sint r - sint l" using assms(1-3) by (rule sint_diff_small)
  have i: "int_f32 (f32_of_int (sint l)) (sint l)" "int_f32 (f32_of_int (sint (r - l))) (sint r - sint l)"
    "int_f32 (f32_of_int (sint ml)) (sint ml)" "int_f32 (f32_of_int (sint mw)) (sint mw)"
    unfolding len using assms(1-5) by (intro f32_of_int_int; simp)+
  have "0 \<le> sint r - sint l" "sint r - sint l \<le> 2 ^ 23" "\<bar>sint l\<bar> \<le> 2 ^ 23" using assms(1-3) by simp_all
  then obtain p k where pk: "int_f32 pos p" "int_f32 sz k" "0 \<le> k" "k \<le> sint r - sint l"
      "sint l \<le> p" "p + k \<le> sint l + (sint r - sint l)"
    using axis_bounds [OF i(1,2)] assms(6,7) unfolding sz_def pos_def by blast
  have small: "\<bar>p + sint ml\<bar> \<le> 2 ^ 24" "\<bar>k + sint mw\<bar> \<le> 2 ^ 24" using pk assms(1-5) by simp_all
  have "f32_to_i32 rtrunc (f32_add pos (f32_of_int (sint ml))) = of_int (p + sint ml)"
    "f32_to_i32 rtrunc (f32_add sz (f32_of_int (sint mw))) = of_int (k + sint mw)"
    using int_f32_to_i32 [OF int_f32_add [OF pk(1) i(3) small(1)] small(1)]
      int_f32_to_i32 [OF int_f32_add [OF pk(2) i(4) small(2)] small(2)] .
  then show ?thesis using pk by (intro exI [of _ p] exI [of _ k]) simp
qed

lemma placed_bounds:
  assumes "desktop_rect (l, t, r, b)" "desktop_margin m" "unit_lanes rel"
  shows "\<exists>x y cw ch. f4_ltrunc (f4_add (expected_area F (rect_area (l, t, r, b)) rel) (i4_to_f4 m)) =
      lift2 (+) (M128 (of_int x) (of_int y) (of_int cw) (of_int ch)) m \<and>
    0 \<le> cw \<and> 0 \<le> ch \<and> sint l \<le> x \<and> x + cw \<le> sint r \<and> sint t \<le> y \<and> y + ch \<le> sint b"
proof -
  obtain m0 m1 m2 m3 where m: "m = M128 m0 m1 m2 m3" by (cases m)
  obtain rx ry rw rh where rel: "rel = M128 rx ry rw rh" by (cases rel)
  note d = assms [unfolded desktop_rect_def desktop_margin_def unit_lanes_def m rel, simplified]
  obtain x cw where x: "f32_to_i32 rtrunc (f32_add (axis_pos F (f32_of_int (sint l)) (f32_of_int (sint (r - l)))
        (axis_size F (f32_of_int (sint (r - l))) rw) rx) (f32_of_int (sint m0))) = of_int x + m0"
      "f32_to_i32 rtrunc (f32_add (axis_size F (f32_of_int (sint (r - l))) rw) (f32_of_int (sint m2))) = of_int cw + m2"
      "0 \<le> cw" "sint l \<le> x" "x + cw \<le> sint r"
    using axis_placed [of l r m0 m2 rw rx F] d by auto
  obtain y ch where y: "f32_to_i32 rtrunc (f32_add (axis_pos F (f32_of_int (sint t)) (f32_of_int (sint (b - t)))
        (axis_size F (f32_of_int (sint (b - t))) rh) ry) (f32_of_int (sint m1))) = of_int y + m1"
      "f32_to_i32 rtrunc (f32_add (axis_size F (f32_of_int (sint (b - t))) rh) (f32_of_int (sint m3))) = of_int ch + m3"
      "0 \<le> ch" "sint t \<le> y" "y + ch \<le> sint b"
    using axis_placed [of t b m1 m3 rh ry F] d by auto
  show ?thesis
    by (intro exI [of _ x] exI [of _ y] exI [of _ cw] exI [of _ ch])
      (use x y in \<open>simp add: m rel rect_area_def i4_make_def i4_to_f4_lane expected_area_axes
        f4_add_def f4_ltrunc_def\<close>)
qed

lemma visible_frame_shift:
  "visible_frame (lift2 (+) (M128 x y cw ch) m) m = M128 (x + 2 * lane0 m) (y + 2 * lane1 m) cw ch"
  by (cases m) (simp add: visible_frame_def)

lemma relative_execute_clean:
  "\<not> op_dirty op \<Longrightarrow> relative_execute A F monitors op s w =
     (let (hr, w') = applyWindowRect A (ws_hwnd s) (op_bounds op) w in Some (hr, op, s, w'))"
  by (simp add: relative_execute_def)

lemma relative_execute_dirty:
  assumes "op_dirty op" "cache_get monitors (op_hmonitor op) = Some st" "shadowMargin A F w s = (Inr m, s')"
  shows "\<exists>hr w'. relative_execute A F monitors op s w = Some (hr,
    op\<lparr>op_bounds := f4_ltrunc (f4_add (expected_area F (mon_work_area st) (op_relative op)) m), op_dirty := False\<rparr>,
    s', w') \<and> applyWindowRect A (ws_hwnd s')
      (f4_ltrunc (f4_add (expected_area F (mon_work_area st) (op_relative op)) m)) w = (hr, w')"
  using assms by (simp add: relative_execute_def Let_def split: prod.split)

end
