(* ===== verification/Yaml.thy ===== *)
theory Yaml
  imports Errors
begin

text \<open>
  The interface of the YAML library (\<open>c4::yml\<close>) and of \<open>magic_enum\<close>, which are not part of the
  repository: every call the settings code makes is a field of the record \<open>ryml\<close>, over an abstract
  tree state \<open>'t\<close> and node references \<open>'n\<close>.  An observer takes the tree, a mutator returns the new
  tree.  A node reference obtained with \<open>operator[]\<close> for a missing key is a seed: invalid to a
  \<open>ConstNodeRef\<close>, and turned into a child by the first write through it.  The predicates
  \<open>..._law\<close> at the end state the documented behaviour that single properties rely on.
\<close>

datatype ytype = TKeyVal | TKeySeqFlow

record ('t, 'n) ryml = text_api +
  y_invalid :: "'t \<Rightarrow> 'n \<Rightarrow> bool"
  y_is_seed :: "'t \<Rightarrow> 'n \<Rightarrow> bool"
  y_is_map :: "'t \<Rightarrow> 'n \<Rightarrow> bool"
  y_is_seq :: "'t \<Rightarrow> 'n \<Rightarrow> bool"
  y_is_container :: "'t \<Rightarrow> 'n \<Rightarrow> bool"
  y_is_keyval :: "'t \<Rightarrow> 'n \<Rightarrow> bool"
  y_has_val :: "'t \<Rightarrow> 'n \<Rightarrow> bool"
  y_val_is_null :: "'t \<Rightarrow> 'n \<Rightarrow> bool"
  y_val :: "'t \<Rightarrow> 'n \<Rightarrow> string"
  y_has_child :: "'t \<Rightarrow> 'n \<Rightarrow> string \<Rightarrow> bool"
  y_at :: "'t \<Rightarrow> 'n \<Rightarrow> string \<Rightarrow> 'n"
  y_children :: "'t \<Rightarrow> 'n \<Rightarrow> 'n list"
  y_num_children :: "'t \<Rightarrow> 'n \<Rightarrow> nat"
  y_first_child :: "'t \<Rightarrow> 'n \<Rightarrow> 'n"
  y_next_sibling :: "'t \<Rightarrow> 'n \<Rightarrow> 'n"
  y_prev_sibling :: "'t \<Rightarrow> 'n \<Rightarrow> 'n"
  y_read_long :: "'t \<Rightarrow> 'n \<Rightarrow> 32 word option"
  y_read_float :: "'t \<Rightarrow> 'n \<Rightarrow> f32 option"
  y_remove_child :: "'t \<Rightarrow> 'n \<Rightarrow> 'n \<Rightarrow> 't"
  y_write_str :: "'t \<Rightarrow> 'n \<Rightarrow> string \<Rightarrow> exn + 't"
  y_write_long :: "'t \<Rightarrow> 'n \<Rightarrow> 32 word \<Rightarrow> exn + 't"
  y_write_float :: "'t \<Rightarrow> 'n \<Rightarrow> f32 \<Rightarrow> exn + 't"
  y_append_keyval :: "'t \<Rightarrow> 'n \<Rightarrow> string \<Rightarrow> exn + 't \<times> 'n"
  y_append_child :: "'t \<Rightarrow> 'n \<Rightarrow> exn + 't \<times> 'n"
  y_insert_keyseq :: "'t \<Rightarrow> 'n \<Rightarrow> string \<Rightarrow> 'n \<Rightarrow> exn + 't \<times> 'n"
  y_clear_val :: "'t \<Rightarrow> 'n \<Rightarrow> 't"
  y_set_type :: "'t \<Rightarrow> 'n \<Rightarrow> ytype \<Rightarrow> 't"
  y_clear_children :: "'t \<Rightarrow> 'n \<Rightarrow> 't"
  y_empty :: "'t"
  y_root :: "'t \<Rightarrow> 'n"
  y_parse_in_arena :: "string \<Rightarrow> 't \<Rightarrow> 't \<times> exn option"
  y_emit :: "'t \<Rightarrow> exn + string"
  enum_cast_ci :: "string list \<Rightarrow> string \<Rightarrow> nat option"
  enum_bitset_test :: "32 word \<Rightarrow> 32 word \<Rightarrow> bool"
  fl_shortest :: "f32 \<Rightarrow> string"

section \<open>Shared reading rules\<close>

text \<open>What a scalar child under a key reads as; most readers only look at these observers.\<close>

definition scalar_node :: "('t, 'n, 'a) ryml_scheme \<Rightarrow> 't \<Rightarrow> 'n \<Rightarrow> string \<Rightarrow> bool" where
  "scalar_node Y t n s \<longleftrightarrow> \<not> y_invalid Y t n \<and> \<not> y_is_container Y t n \<and> y_has_val Y t n \<and>
     y_val Y t n = s"

section \<open>Documented behaviour: writing a scalar under a key\<close>

text \<open>
  \<open>null_text\<close>: the plain scalars the library reads as null.  A write through \<open>node[key]\<close> that
  succeeds leaves a scalar child with the written text, of which the number readers read back
  the number that was written, and no other key of the map changes.
\<close>

definition null_text :: "string \<Rightarrow> bool" where
  "null_text s \<longleftrightarrow> s \<in> {''~'', ''null'', ''Null'', ''NULL''}"

definition yaml_write_law :: "('t, 'n, 'a) ryml_scheme \<Rightarrow> bool" where
  "yaml_write_law Y \<longleftrightarrow>
     (\<forall>t m k s t'. y_write_str Y t (y_at Y t m k) s = Inr t' \<longrightarrow>
        scalar_node Y t' (y_at Y t' m k) s \<and>
        (y_val_is_null Y t' (y_at Y t' m k) \<longleftrightarrow> null_text s)) \<and>
     (\<forall>t m k v t'. y_write_long Y t (y_at Y t m k) v = Inr t' \<longrightarrow>
        (\<exists>s. scalar_node Y t' (y_at Y t' m k) s) \<and>
        \<not> y_val_is_null Y t' (y_at Y t' m k) \<and>
        y_read_long Y t' (y_at Y t' m k) = Some v) \<and>
     (\<forall>t m k v t'. y_write_float Y t (y_at Y t m k) v = Inr t' \<longrightarrow> f32_finite v \<longrightarrow>
        (\<exists>s. scalar_node Y t' (y_at Y t' m k) s) \<and>
        \<not> y_val_is_null Y t' (y_at Y t' m k) \<and>
        y_read_float Y t' (y_at Y t' m k) = Some v)"

lemma yaml_write_strD:
  assumes "yaml_write_law Y" "y_write_str Y t (y_at Y t m k) s = Inr t'"
  shows "scalar_node Y t' (y_at Y t' m k) s"
    and "y_val_is_null Y t' (y_at Y t' m k) \<longleftrightarrow> null_text s"
  using assms unfolding yaml_write_law_def by blast+

lemma yaml_write_longD:
  assumes "yaml_write_law Y" "y_write_long Y t (y_at Y t m k) v = Inr t'"
  obtains s where "scalar_node Y t' (y_at Y t' m k) s"
    and "\<not> y_val_is_null Y t' (y_at Y t' m k)" and "y_read_long Y t' (y_at Y t' m k) = Some v"
  using assms unfolding yaml_write_law_def by blast

lemma yaml_write_floatD:
  assumes "yaml_write_law Y" "y_write_float Y t (y_at Y t m k) v = Inr t'" "f32_finite v"
  obtains s where "scalar_node Y t' (y_at Y t' m k) s"
    and "\<not> y_val_is_null Y t' (y_at Y t' m k)" and "y_read_float Y t' (y_at Y t' m k) = Some v"
  using assms unfolding yaml_write_law_def by blast

section \<open>Documented behaviour: the other keys of a map\<close>

text \<open>Writing a number under one key of a map leaves what is read under its other keys as it was.  Of a
  node that is not there only its absence is compared, and its text only when it has one.\<close>

definition same_read :: "('t, 'n, 'a) ryml_scheme \<Rightarrow> 't \<Rightarrow> 'n \<Rightarrow> 't \<Rightarrow> 'n \<Rightarrow> bool" where
  "same_read Y t n t' n' \<longleftrightarrow> y_invalid Y t' n' = y_invalid Y t n \<and>
     (\<not> y_invalid Y t n \<longrightarrow> y_is_container Y t' n' = y_is_container Y t n \<and> y_has_val Y t' n' = y_has_val Y t n \<and>
        (y_has_val Y t n \<longrightarrow> y_val_is_null Y t' n' = y_val_is_null Y t n \<and> y_val Y t' n' = y_val Y t n \<and>
           y_read_long Y t' n' = y_read_long Y t n \<and> y_read_float Y t' n' = y_read_float Y t n))"

definition other_keys_same :: "('t, 'n, 'a) ryml_scheme \<Rightarrow> 't \<Rightarrow> 't \<Rightarrow> 'n \<Rightarrow> string \<Rightarrow> bool" where
  "other_keys_same Y t t' m k \<longleftrightarrow> y_is_map Y t' m \<and>
     (\<forall>k'. k' \<noteq> k \<longrightarrow> same_read Y t (y_at Y t m k') t' (y_at Y t' m k'))"

definition yaml_frame_law :: "('t, 'n, 'a) ryml_scheme \<Rightarrow> bool" where
  "yaml_frame_law Y \<longleftrightarrow>
     (\<forall>t m k v t'. y_is_map Y t m \<longrightarrow> y_write_long Y t (y_at Y t m k) v = Inr t' \<longrightarrow> other_keys_same Y t t' m k) \<and>
     (\<forall>t m k v t'. y_is_map Y t m \<longrightarrow> y_write_float Y t (y_at Y t m k) v = Inr t' \<longrightarrow> other_keys_same Y t t' m k)"

lemma yaml_frameD:
  assumes "yaml_frame_law Y" "y_is_map Y t m"
  shows "y_write_long Y t (y_at Y t m k) v = Inr t' \<Longrightarrow> other_keys_same Y t t' m k"
    and "y_write_float Y t (y_at Y t m k) f = Inr t' \<Longrightarrow> other_keys_same Y t t' m k"
  using assms unfolding yaml_frame_law_def by blast+

section \<open>Documented behaviour: the children of a sequence\<close>

text \<open>The children of a node in order, and how the sibling links, \<open>remove_child\<close> and
  \<open>append_child() << text\<close> act on them.\<close>

definition link_law :: "('t, 'n, 'a) ryml_scheme \<Rightarrow> 't \<Rightarrow> 'n \<Rightarrow> bool" where
  "link_law Y t n \<longleftrightarrow> (let cs = y_children Y t n in
     distinct cs \<and> (\<forall>c \<in> set cs. \<not> y_invalid Y t c) \<and> y_num_children Y t n = length cs \<and>
     (cs = [] \<longrightarrow> y_invalid Y t (y_first_child Y t n)) \<and>
     (cs \<noteq> [] \<longrightarrow> y_first_child Y t n = hd cs) \<and>
     (\<forall>i. Suc i < length cs \<longrightarrow> y_next_sibling Y t (cs ! i) = cs ! Suc i) \<and>
     (cs \<noteq> [] \<longrightarrow> y_invalid Y t (y_next_sibling Y t (last cs))))"

definition same_scalars :: "('t, 'n, 'a) ryml_scheme \<Rightarrow> 't \<Rightarrow> 't \<Rightarrow> 'n list \<Rightarrow> bool" where
  "same_scalars Y t t' cs \<longleftrightarrow>
     (\<forall>c \<in> set cs. y_has_val Y t' c = y_has_val Y t c \<and> y_val Y t' c = y_val Y t c)"

text \<open>What a change inside the sequence \<open>w\<close> leaves alone: the keys of a map \<open>n\<close> other than \<open>w\<close>, and
  the invalidity of a reference.\<close>

definition same_maps :: "('t, 'n, 'a) ryml_scheme \<Rightarrow> 't \<Rightarrow> 't \<Rightarrow> 'n \<Rightarrow> bool" where
  "same_maps Y t t' w \<longleftrightarrow>
     (\<forall>n. y_is_map Y t n \<longrightarrow> n \<noteq> w \<longrightarrow> y_is_map Y t' n \<and>
        (\<forall>k. y_has_child Y t' n k = y_has_child Y t n k \<and>
             (y_has_child Y t n k \<longrightarrow> y_at Y t' n k = y_at Y t n k))) \<and>
     (\<forall>x. y_invalid Y t x \<longrightarrow> y_invalid Y t' x)"

definition seq_step :: "('t, 'n, 'a) ryml_scheme \<Rightarrow> 't \<Rightarrow> 't \<Rightarrow> 'n \<Rightarrow> 'n list \<Rightarrow> bool" where
  "seq_step Y t t' w kept \<longleftrightarrow> y_is_seq Y t' w \<and> same_scalars Y t t' kept \<and> same_maps Y t t' w"

definition yaml_seq_law :: "('t, 'n, 'a) ryml_scheme \<Rightarrow> bool" where
  "yaml_seq_law Y \<longleftrightarrow>
     (\<forall>t n. y_is_seq Y t n \<longrightarrow> link_law Y t n) \<and>
     (\<forall>t n c. y_is_seq Y t n \<longrightarrow> c \<in> set (y_children Y t n) \<longrightarrow> y_has_val Y t c \<longrightarrow>
        y_children Y (y_remove_child Y t n c) n = remove1 c (y_children Y t n) \<and>
        seq_step Y t (y_remove_child Y t n c) n (remove1 c (y_children Y t n))) \<and>
     (\<forall>t n t1 c s t2. y_is_seq Y t n \<longrightarrow> y_append_child Y t n = Inr (t1, c) \<longrightarrow>
        y_write_str Y t1 c s = Inr t2 \<longrightarrow>
        y_children Y t2 n = y_children Y t n @ [c] \<and>
        c \<notin> set (y_children Y t n) \<and> y_has_val Y t2 c \<and> y_val Y t2 c = s \<and>
        seq_step Y t t2 n (y_children Y t n))"

lemma yaml_seq_links: "yaml_seq_law Y \<Longrightarrow> y_is_seq Y t n \<Longrightarrow> link_law Y t n"
  unfolding yaml_seq_law_def by blast

lemma yaml_seq_remove:
  assumes "yaml_seq_law Y" "y_is_seq Y t n" "c \<in> set (y_children Y t n)" "y_has_val Y t c"
  shows "y_children Y (y_remove_child Y t n c) n = remove1 c (y_children Y t n)"
    and "seq_step Y t (y_remove_child Y t n c) n (remove1 c (y_children Y t n))"
  using assms unfolding yaml_seq_law_def by blast+

lemma yaml_seq_append:
  assumes "yaml_seq_law Y" "y_is_seq Y t n" "y_append_child Y t n = Inr (t1, c)"
    "y_write_str Y t1 c s = Inr t2"
  shows "y_children Y t2 n = y_children Y t n @ [c]"
    "c \<notin> set (y_children Y t n)" "y_has_val Y t2 c" "y_val Y t2 c = s"
    "seq_step Y t t2 n (y_children Y t n)"
  using assms unfolding yaml_seq_law_def by blast+

lemma seq_step_refl: "y_is_seq Y t w \<Longrightarrow> seq_step Y t t w kept"
  by (simp add: seq_step_def same_scalars_def same_maps_def)

lemma same_maps_trans: "same_maps Y t t1 w \<Longrightarrow> same_maps Y t1 t2 w \<Longrightarrow> same_maps Y t t2 w"
  unfolding same_maps_def by simp

lemma seq_step_trans:
  assumes "seq_step Y t t1 w k1" "seq_step Y t1 t2 w k2" "set k2 \<subseteq> set k1"
  shows "seq_step Y t t2 w k2"
proof -
  have "same_scalars Y t t2 k2"
    using assms by (auto simp: seq_step_def same_scalars_def)
  then show ?thesis
    using assms(1,2) same_maps_trans by (auto simp: seq_step_def)
qed

lemma seq_step_subset: "seq_step Y t t' w k \<Longrightarrow> set k' \<subseteq> set k \<Longrightarrow> seq_step Y t t' w k'"
  by (auto simp: seq_step_def same_scalars_def)

section \<open>Documented behaviour: changing the type of a node\<close>

text \<open>A keyed scalar that is cleared and given the type of a sequence is an empty sequence; a sequence
  of one scalar that is emptied, given the type of a keyed value and written to holds the text; a
  sequence inserted under a new key is an empty child of the map.\<close>

definition yaml_reshape_law :: "('t, 'n, 'a) ryml_scheme \<Rightarrow> bool" where
  "yaml_reshape_law Y \<longleftrightarrow>
     (\<forall>t w. y_is_keyval Y t w \<longrightarrow> \<not> y_is_seq Y t w \<and>
        (let t' = y_set_type Y (y_clear_val Y t w) w TKeySeqFlow in
         y_is_seq Y t' w \<and> y_children Y t' w = [] \<and> same_maps Y t t' w)) \<and>
     (\<forall>t w c s t'. y_is_seq Y t w \<longrightarrow> y_children Y t w = [c] \<longrightarrow> y_has_val Y t c \<longrightarrow>
        y_write_str Y (y_set_type Y (y_clear_children Y t w) w TKeyVal) w s = Inr t' \<longrightarrow>
        y_is_keyval Y t' w \<and> y_val Y t' w = s \<and> same_maps Y t t' w) \<and>
     (\<forall>t n k prev t' w. y_is_map Y t n \<longrightarrow> \<not> y_has_child Y t n k \<longrightarrow>
        y_insert_keyseq Y t n k prev = Inr (t', w) \<longrightarrow>
        y_is_map Y t' n \<and> y_has_child Y t' n k \<and> y_at Y t' n k = w \<and> w \<noteq> n \<and>
        y_is_seq Y t' w \<and> y_children Y t' w = [])"

lemma yaml_to_seq:
  assumes "yaml_reshape_law Y" "y_is_keyval Y t w"
    "t' = y_set_type Y (y_clear_val Y t w) w TKeySeqFlow"
  shows "\<not> y_is_seq Y t w" "y_is_seq Y t' w" "y_children Y t' w = []" "same_maps Y t t' w"
  using assms unfolding yaml_reshape_law_def Let_def by blast+

lemma yaml_to_scalar:
  assumes "yaml_reshape_law Y" "y_is_seq Y t w" "y_children Y t w = [c]" "y_has_val Y t c"
    "y_write_str Y (y_set_type Y (y_clear_children Y t w) w TKeyVal) w s = Inr t'"
  shows "y_is_keyval Y t' w" "y_val Y t' w = s" "same_maps Y t t' w"
  using assms unfolding yaml_reshape_law_def by blast+

lemma yaml_insert:
  assumes "yaml_reshape_law Y" "y_is_map Y t n" "\<not> y_has_child Y t n k"
    "y_insert_keyseq Y t n k prev = Inr (t', w)"
  shows "y_is_map Y t' n" "y_has_child Y t' n k" "y_at Y t' n k = w" "w \<noteq> n" "y_is_seq Y t' w"
  using assms unfolding yaml_reshape_law_def by blast+

text \<open>The allocations of the tree succeed.\<close>

definition yaml_alloc_ok :: "('t, 'n, 'a) ryml_scheme \<Rightarrow> bool" where
  "yaml_alloc_ok Y \<longleftrightarrow> (\<forall>t n. \<exists>t' c. y_append_child Y t n = Inr (t', c)) \<and>
     (\<forall>t n s. \<exists>t'. y_write_str Y t n s = Inr t') \<and>
     (\<forall>t n k p. \<exists>t' w. y_insert_keyseq Y t n k p = Inr (t', w))"

section \<open>Documented behaviour: magic_enum::enum_cast, case insensitive\<close>

definition lower :: "string \<Rightarrow> string" where
  "lower s = map (\<lambda>c. if 65 \<le> (of_char c :: nat) \<and> (of_char c :: nat) \<le> 90
                       then char_of ((of_char c :: nat) + 32) else c) s"

fun find_name :: "string list \<Rightarrow> string \<Rightarrow> nat \<Rightarrow> nat option" where
  "find_name [] s i = None"
| "find_name (n # ns) s i = (if lower n = lower s then Some i else find_name ns s (Suc i))"

text \<open>\<open>containers::bitset (v).test (f)\<close> for the named single-bit flags of a flags enumeration.\<close>

definition enum_law :: "('t, 'n, 'a) ryml_scheme \<Rightarrow> bool" where
  "enum_law Y \<longleftrightarrow> (\<forall>ns s. enum_cast_ci Y ns s = find_name ns s 0) \<and>
     (\<forall>v f. f \<in> {1, 2, 4} \<longrightarrow> enum_bitset_test Y v f \<longleftrightarrow> v AND f \<noteq> 0)"

lemma find_name_self:
  assumes "i < length ns" "distinct (List.map lower ns)"
  shows "find_name ns (ns ! i) k = Some (k + i)"
  using assms
proof (induction ns arbitrary: i k)
  case (Cons n ns)
  show ?case
  proof (cases i)
    case (Suc j)
    then have "lower n \<noteq> lower (ns ! j)"
      using Cons.prems nth_mem [of j ns] by auto
    then show ?thesis using Cons Suc by simp
  qed simp
qed simp

end
