(* ===== verification/ParseMessage.thy ===== *)
theory ParseMessage
  imports Yaml
begin

text \<open>
  \<open>settings/ParseError.cc\<close>: the texts with which a rejected rule is reported.  \<open>std::format\<close> is
  modelled for what the source uses of it: each \<open>{}\<close> is replaced by the next argument.
\<close>

fun wformat :: "string \<Rightarrow> wstr list \<Rightarrow> wstr" where
  "wformat [] args = []"
| "wformat [c] args = widen [c]"
| "wformat (c # d # cs) args =
     (if c = CHR ''{'' \<and> d = CHR ''}'' then
        (case args of [] \<Rightarrow> wformat cs [] | a # as \<Rightarrow> a @ wformat cs as)
      else widen [c] @ wformat (d # cs) args)"

definition wformat_uint :: "string \<Rightarrow> 32 word \<Rightarrow> wstr" where
  "wformat_uint fmt n = wformat fmt [widen (nat_dec (unat n))]"

(* @ app/settings/ParseError.cc:21-45 convertKeyName *)
fun convertKeyName :: "KeyId \<Rightarrow> wstr" where
  "convertKeyName KeyRule = widen ''rules[]''"
| "convertKeyName KeyName = widen ''name''"
| "convertKeyName KeyWhen = widen ''when''"
| "convertKeyName KeyWhere = widen ''where''"
| "convertKeyName KeyThen = widen ''then''"
| "convertKeyName KeyProcessImageName = widen ''process''"
| "convertKeyName KeyWindowClass = widen ''class''"
| "convertKeyName KeyWindowTitle = widen ''title''"
| "convertKeyName KeyActionType = widen ''type''"
| "convertKeyName KeyPositionX = widen ''x''"
| "convertKeyName KeyPositionY = widen ''y''"
| "convertKeyName KeyWidth = widen ''width''"
| "convertKeyName KeyHeight = widen ''height''"
| "convertKeyName KeyMonitorId = widen ''id''"
| "convertKeyName KeyMonitorName = widen ''name''"
| "convertKeyName KeyNone = widen ''?''"

(* @ app/settings/ParseError.cc:8-15 message formats *)
fun message_format :: "ParseErrorReason \<Rightarrow> string" where
  "message_format kMissingRequiredKey = ''Required key \"{}\" is missing in rule {}''"
| "message_format kExpectedString = ''Key \"{}\" must be a string in rule {}''"
| "message_format kExpectedNumber = ''Key \"{}\" must be a number in rule {}''"
| "message_format kExpectedMap = ''Key \"{}\" must be a map in rule {}''"
| "message_format kExpectedSequence = ''Key \"{}\" must be a sequence in rule {}''"
| "message_format kInvalidString = ''Key \"{}\" has an invalid string in rule {}''"
| "message_format kInvalidNumber = ''Key \"{}\" has an invalid number in rule {}''"
| "message_format kNumberOutOfRange = ''Key \"{}\" is out of range in rule {}: {}''"

(* @ app/settings/ParseError.cc:47-57 convertString *)
definition convertString :: "'a text_api_scheme \<Rightarrow> string \<Rightarrow> exn + wstr" where
  "convertString A s =
     (if s = [] then Inr []
      else let (hr, w) = ConvertUtf8ToUtf16 A s [] in rbind (check_hresult hr) (\<lambda>_. Inr w))"

(* @ app/settings/ParseError.cc:59-83 makeRuleDisplayName *)
definition makeRuleDisplayName ::
  "('t, 'n, 'a) ryml_scheme \<Rightarrow> 't \<Rightarrow> 'n \<Rightarrow> ParseError \<Rightarrow> 32 word \<Rightarrow> exn + wstr" where
  "makeRuleDisplayName Y t rule err index =
     (if key_id err = KeyRule \<or> \<not> y_has_child Y t rule kName then
        Inr (wformat_uint ''#{}'' index)
      else let name_node = y_at Y t rule kName in
        if y_is_keyval Y t name_node \<and> \<not> y_val_is_null Y t name_node then
          (case convertString Y (y_val Y t name_node) of
             Inr name \<Rightarrow> Inr (widen ''\"'' @ name @ widen ''\"'')
           | Inl (HrError hr) \<Rightarrow>
               if hr = kErrorNoUnicodeTranslation Y then Inr (wformat_uint ''#{}'' index)
               else Inl (HrError hr)
           | Inl e \<Rightarrow> Inl e)
        else Inr (wformat_uint ''#{}'' index))"

(* @ app/settings/ParseError.cc:85-121 makeParseErrorMessage *)
definition makeParseErrorMessage ::
  "'a text_api_scheme \<Rightarrow> ParseError \<Rightarrow> wstr \<Rightarrow> exn + wstr" where
  "makeParseErrorMessage A err rule_name =
     (let key_name = convertKeyName (key_id err); fmt = message_format (reason err) in
      case reason err of
        kNumberOutOfRange \<Rightarrow>
          rbind (convertString A (err_content err)) (\<lambda>c. Inr (wformat fmt [key_name, rule_name, c]))
      | _ \<Rightarrow> Inr (wformat fmt [key_name, rule_name]))"

end
