(* ===== verification/NodeHelper.thy ===== *)
theory NodeHelper
  imports ParseMessage
begin

text \<open>
  \<open>settings/NodeHelper.cc\<close>: how one YAML node is read into a \<open>long\<close>, a \<open>float\<close>, a string or a
  string with its match type, and written back.  A rejected value is the \<open>ParseError\<close> the source
  throws.  The readers of a missing, null or empty node return the default.  Floats are read as compiled
  without \<open>_M_FP_FAST\<close>, which leaves the test for finite values out; \<open>ReadFloatFromNodeOrDefault_build\<close>
  covers both builds.
\<close>

section \<open>Numbers\<close>

(* @ app/settings/NodeHelper.cc:19-33 ReadLongFromNode *)
definition ReadLongFromNode ::
  "('t, 'n, 'a) ryml_scheme \<Rightarrow> 't \<Rightarrow> 'n \<Rightarrow> KeyId \<Rightarrow> 32 word \<Rightarrow> 32 word \<Rightarrow> exn + 32 word" where
  "ReadLongFromNode Y t node kid min_val max_val =
     (if y_invalid Y t node \<or> y_is_container Y t node \<or> \<not> y_has_val Y t node
      then Inl (ParseErr (mkParseError kExpectedNumber kid))
      else case y_read_long Y t node of
        None \<Rightarrow> Inl (ParseErr (mkParseError kInvalidNumber kid))
      | Some val \<Rightarrow>
          if val <s min_val \<or> max_val <s val
          then Inl (ParseErr (setContent (mkParseError kNumberOutOfRange kid) val))
          else Inr val)"

(* @ app/settings/NodeHelper.cc:35-55 ReadLongFromNodeOrDefault *)
definition ReadLongFromNodeOrDefault ::
  "('t, 'n, 'a) ryml_scheme \<Rightarrow> 't \<Rightarrow> 'n \<Rightarrow> KeyId \<Rightarrow> 32 word \<Rightarrow> 32 word \<Rightarrow> 32 word \<Rightarrow> exn + 32 word"
where
  "ReadLongFromNodeOrDefault Y t node kid min_val max_val def_val =
     (if y_invalid Y t node then Inr def_val
      else if y_is_container Y t node then Inl (ParseErr (mkParseError kExpectedNumber kid))
      else if \<not> y_has_val Y t node \<or> y_val_is_null Y t node then Inr def_val
      else case y_read_long Y t node of
        None \<Rightarrow> Inl (ParseErr (mkParseError kInvalidNumber kid))
      | Some val \<Rightarrow>
          if val <s min_val \<or> max_val <s val
          then Inl (ParseErr (setContent (mkParseError kNumberOutOfRange kid) val))
          else Inr val)"

(* @ app/settings/NodeHelper.cc:57-67 WriteLongToNode *)
definition WriteLongToNode ::
  "('t, 'n, 'a) ryml_scheme \<Rightarrow> 't \<Rightarrow> 'n \<Rightarrow> 32 word \<Rightarrow> exn + 't" where
  "WriteLongToNode Y t node val =
     (if \<not> y_is_seed Y t node \<and> \<not> y_has_val Y t node then Inl (HrError E_INVALIDARG)
      else y_write_long Y t node val)"

(* @ app/settings/NodeHelper.cc:69-87 ReadFloatFromNode *)
definition ReadFloatFromNode ::
  "('t, 'n, 'a) ryml_scheme \<Rightarrow> 't \<Rightarrow> 'n \<Rightarrow> KeyId \<Rightarrow> f32 \<Rightarrow> f32 \<Rightarrow> exn + f32" where
  "ReadFloatFromNode Y t node kid min_val max_val =
     (if y_invalid Y t node \<or> y_is_container Y t node \<or> \<not> y_has_val Y t node
      then Inl (ParseErr (mkParseError kExpectedNumber kid))
      else case y_read_float Y t node of
        None \<Rightarrow> Inl (ParseErr (mkParseError kInvalidNumber kid))
      | Some val \<Rightarrow>
          let out = Inl (ParseErr (setContentF (fl_shortest Y) (mkParseError kNumberOutOfRange kid) val))
          in if \<not> f32_isfinite val then out
             else if f32_lt val min_val \<or> f32_lt max_val val then out
             else Inr val)"

(* @ app/settings/NodeHelper.cc:89-113 ReadFloatFromNodeOrDefault *)
definition ReadFloatFromNodeOrDefault ::
  "('t, 'n, 'a) ryml_scheme \<Rightarrow> 't \<Rightarrow> 'n \<Rightarrow> KeyId \<Rightarrow> f32 \<Rightarrow> f32 \<Rightarrow> f32 \<Rightarrow> exn + f32" where
  "ReadFloatFromNodeOrDefault Y t node kid min_val max_val def_val =
     (if y_invalid Y t node then Inr def_val
      else if y_is_container Y t node then Inl (ParseErr (mkParseError kExpectedNumber kid))
      else if \<not> y_has_val Y t node \<or> y_val_is_null Y t node then Inr def_val
      else case y_read_float Y t node of
        None \<Rightarrow> Inl (ParseErr (mkParseError kInvalidNumber kid))
      | Some val \<Rightarrow>
          let out = Inl (ParseErr (setContentF (fl_shortest Y) (mkParseError kNumberOutOfRange kid) val))
          in if \<not> f32_isfinite val then out
             else if f32_lt val min_val \<or> f32_lt max_val val then out
             else Inr val)"

text \<open>The same reader with the switch of the build: \<open>fast\<close> is \<open>_M_FP_FAST\<close>, which leaves the test for
  finite values out.  The comparisons are those of IEEE 754, false for a NaN.\<close>

(* @ app/settings/NodeHelper.cc:89-113 ReadFloatFromNodeOrDefault *)
definition ReadFloatFromNodeOrDefault_build ::
  "bool \<Rightarrow> ('t, 'n, 'a) ryml_scheme \<Rightarrow> 't \<Rightarrow> 'n \<Rightarrow> KeyId \<Rightarrow> f32 \<Rightarrow> f32 \<Rightarrow> f32 \<Rightarrow> exn + f32" where
  "ReadFloatFromNodeOrDefault_build fast Y t node kid min_val max_val def_val =
     (if y_invalid Y t node then Inr def_val
      else if y_is_container Y t node then Inl (ParseErr (mkParseError kExpectedNumber kid))
      else if \<not> y_has_val Y t node \<or> y_val_is_null Y t node then Inr def_val
      else case y_read_float Y t node of
        None \<Rightarrow> Inl (ParseErr (mkParseError kInvalidNumber kid))
      | Some val \<Rightarrow>
          let out = Inl (ParseErr (setContentF (fl_shortest Y) (mkParseError kNumberOutOfRange kid) val))
          in if \<not> fast \<and> \<not> f32_isfinite val then out
             else if f32_lt val min_val \<or> f32_lt max_val val then out
             else Inr val)"

(* @ app/settings/NodeHelper.cc:115-125 WriteFloatToNode *)
definition WriteFloatToNode ::
  "('t, 'n, 'a) ryml_scheme \<Rightarrow> 't \<Rightarrow> 'n \<Rightarrow> f32 \<Rightarrow> exn + 't" where
  "WriteFloatToNode Y t node val =
     (if \<not> y_is_seed Y t node \<and> \<not> y_has_val Y t node then Inl (HrError E_INVALIDARG)
      else y_write_float Y t node val)"

text \<open>The \<open>int\<close> readers and the writer are macros around the \<open>long\<close> ones (both are 32 bits).\<close>

(* @ app/settings/NodeHelper.h:27-31 ReadIntFromNodeOrDefault *)
definition ReadIntFromNodeOrDefault ::
  "('t, 'n, 'a) ryml_scheme \<Rightarrow> 't \<Rightarrow> 'n \<Rightarrow> KeyId \<Rightarrow> 32 word \<Rightarrow> 32 word \<Rightarrow> 32 word \<Rightarrow> exn + 32 word"
where
  "ReadIntFromNodeOrDefault Y t node kid min_val max_val def_val =
     ReadLongFromNodeOrDefault Y t node kid min_val max_val def_val"

section \<open>Strings\<close>

(* @ app/settings/NodeHelper.cc:127-139 ConvertUtf8Value *)
definition ConvertUtf8Value :: "'a text_api_scheme \<Rightarrow> KeyId \<Rightarrow> string \<Rightarrow> exn + wstr" where
  "ConvertUtf8Value A kid u8 =
     (let (hr, u16str) = ConvertUtf8ToUtf16 A u8 [] in
      if FAILED hr then
        (if hr = kErrorNoUnicodeTranslation A then Inl (ParseErr (mkParseError kInvalidString kid))
         else Inl (throw_hresult hr))
      else Inr u16str)"

(* @ app/settings/NodeHelper.cc:141-158 ReadStringFromNode *)
definition ReadStringFromNode ::
  "('t, 'n, 'a) ryml_scheme \<Rightarrow> 't \<Rightarrow> 'n \<Rightarrow> KeyId \<Rightarrow> exn + wstr" where
  "ReadStringFromNode Y t node kid =
     (if y_invalid Y t node then Inr []
      else if y_is_container Y t node then Inl (ParseErr (mkParseError kExpectedString kid))
      else if \<not> y_has_val Y t node \<or> y_val_is_null Y t node then Inr []
      else let u8str = y_val Y t node in
        if u8str = [] then Inr [] else ConvertUtf8Value Y kid u8str)"

text \<open>The pointer arithmetic of the source on \<open>^\<close> and \<open>$\<close>: a leading \<open>^\<close> moves the start, a
  trailing \<open>$\<close> shortens the length.  On a string that is only \<open>^\<close> the source tests the original
  text for the trailing \<open>$\<close>, so the length never drops below 0.\<close>

(* @ app/settings/NodeHelper.cc:179-190 ReadStringAndMatchTypeFromNode *)
definition split_match :: "string \<Rightarrow> StringMatchType \<times> string" where
  "split_match u8str =
     (let (ct, s) = (if u8str \<noteq> [] \<and> hd u8str = CHR ''^'' then (match_or kContains kStartsWith, tl u8str)
                     else (kContains, u8str))
      in if u8str \<noteq> [] \<and> last u8str = CHR ''$'' then (match_or ct kEndsWith, butlast s)
         else (ct, s))"

(* @ app/settings/NodeHelper.cc:160-196 ReadStringAndMatchTypeFromNode *)
definition ReadStringAndMatchTypeFromNode ::
  "('t, 'n, 'a) ryml_scheme \<Rightarrow> 't \<Rightarrow> 'n \<Rightarrow> KeyId \<Rightarrow> exn + StringAndMatchType" where
  "ReadStringAndMatchTypeFromNode Y t node kid =
     (if y_invalid Y t node then Inr (kContains, [])
      else if y_is_container Y t node then Inl (ParseErr (mkParseError kExpectedString kid))
      else if \<not> y_has_val Y t node \<or> y_val_is_null Y t node then Inr (kContains, [])
      else let u8str = y_val Y t node in
        if u8str = [] then Inr (kContains, [])
        else let (compare_type, utf8) = split_match u8str in
          if utf8 = [] then Inr (compare_type, [])
          else rbind (ConvertUtf8Value Y kid utf8) (\<lambda>w. Inr (compare_type, w)))"

(* @ app/settings/NodeHelper.cc:216-230 WriteStringAndMatchTypeToNode *)
fun join_match :: "StringMatchType \<Rightarrow> string \<Rightarrow> string" where
  "join_match kContains s = s"
| "join_match kEquals s = (CHR ''^'' # s) @ ''$''"
| "join_match kEndsWith s = s @ ''$''"
| "join_match kStartsWith s = CHR ''^'' # s"

(* @ app/settings/NodeHelper.cc:198-232 WriteStringAndMatchTypeToNode *)
definition WriteStringAndMatchTypeToNode ::
  "('t, 'n, 'a) ryml_scheme \<Rightarrow> 't \<Rightarrow> 'n \<Rightarrow> StringAndMatchType \<Rightarrow> exn + 't" where
  "WriteStringAndMatchTypeToNode Y t node val =
     (if \<not> y_is_seed Y t node \<and> \<not> y_has_val Y t node then Inl (HrError E_INVALIDARG)
      else rbind (if snd val = [] then Inr []
                  else let (hr, u8) = ConvertUtf16ToUtf8 Y (snd val) [] in
                       rbind (check_hresult hr) (\<lambda>_. Inr u8))
             (\<lambda>u8str. y_write_str Y t node (join_match (fst val) u8str)))"

section \<open>What the readers promise\<close>

lemma ReadLong_range:
  assumes "ReadLongFromNode Y t node kid lo hi = Inr v"
  shows "sint lo \<le> sint v" "sint v \<le> sint hi"
  using assms by (auto simp: ReadLongFromNode_def word_sless_alt split: if_splits option.splits)

lemma ReadLongOrDefault_cases:
  assumes "ReadLongFromNodeOrDefault Y t node kid lo hi d = Inr v"
  obtains "v = d" | "sint lo \<le> sint v" "sint v \<le> sint hi" "y_read_long Y t node = Some v"
  using assms
  by (fastforce simp: ReadLongFromNodeOrDefault_def word_sless_alt split: if_splits option.splits)

lemma ReadFloatOrDefault_cases:
  assumes "ReadFloatFromNodeOrDefault Y t node kid lo hi d = Inr v"
  obtains "v = d"
  | "f32_finite v" "\<not> f32_lt v lo" "\<not> f32_lt hi v" "y_read_float Y t node = Some v"
  using assms
  by (fastforce simp: ReadFloatFromNodeOrDefault_def Let_def f32_isfinite_def
      split: if_splits option.splits)

lemma ReadFloat_checked: "ReadFloatFromNodeOrDefault_build False = ReadFloatFromNodeOrDefault"
  by (intro ext) (unfold ReadFloatFromNodeOrDefault_build_def ReadFloatFromNodeOrDefault_def not_False_eq_True simp_thms, rule TrueI)

lemma ReadFloat_build_cases:
  assumes "ReadFloatFromNodeOrDefault_build fast Y t node kid lo hi d = Inr v"
  obtains "v = d" | "f32_finite v \<or> fast" "\<not> f32_lt v lo" "\<not> f32_lt hi v"
  using assms
  by (fastforce simp: ReadFloatFromNodeOrDefault_build_def Let_def f32_isfinite_def split: if_splits option.splits)

text \<open>Every reader reports its own key.\<close>

lemma ReadLongOrDefault_error:
  "ReadLongFromNodeOrDefault Y t node kid lo hi d = Inl e \<Longrightarrow>
   \<exists>err. e = ParseErr err \<and> key_id err = kid \<and> reason err \<in> {kExpectedNumber, kInvalidNumber, kNumberOutOfRange}"
  by (auto simp: ReadLongFromNodeOrDefault_def split: if_splits option.splits)

lemma ReadFloatOrDefault_error:
  "ReadFloatFromNodeOrDefault Y t node kid lo hi d = Inl e \<Longrightarrow>
   \<exists>err. e = ParseErr err \<and> key_id err = kid \<and> reason err \<in> {kExpectedNumber, kInvalidNumber, kNumberOutOfRange}"
  by (auto simp: ReadFloatFromNodeOrDefault_def Let_def split: if_splits option.splits)

lemma split_join_match:
  assumes "s = [] \<or> hd s \<noteq> CHR ''^''" "s = [] \<or> last s \<noteq> CHR ''$''"
  shows "split_match (join_match m s) = (m, s)"
  using assms by (cases m) (auto simp: split_match_def butlast_append hd_append)

lemma join_match_eq_Nil [simp]: "join_match m s = [] \<longleftrightarrow> m = kContains \<and> s = []"
  by (cases m) auto

end
