(* ===== verification/SettingsAction.thy ===== *)
theory SettingsAction
  imports NodeHelper Vec
begin

text \<open>
  \<open>settings/Filter.cc\<close>, \<open>settings/Action.cc\<close> and \<open>settings/action/MoveAndResize.cc\<close>: the objects a
  rule is made of.  Each caches what it read from its node; a setter writes the node first and
  the cache second, so an exception leaves the cache unchanged.  A constructor takes the tree and
  the node and returns the object or the exception; a setter also returns the new tree.
\<close>

section \<open>settings/Filter.cc\<close>

(* @ app/settings/Filter.h:6-30 Filter *)
record 'n Filter =
  fnode :: 'n
  process_image_name :: StringAndMatchType
  window_class :: StringAndMatchType
  window_title :: StringAndMatchType

(* @ app/settings/Filter.cc:25-29 checkFilterNode *)
definition checkFilterNode :: "('t, 'n, 'a) ryml_scheme \<Rightarrow> 't \<Rightarrow> 'n \<Rightarrow> exn + unit" where
  "checkFilterNode Y t n =
     (if \<not> y_is_map Y t n then Inl (ParseErr (mkParseError kExpectedMap KeyWhere)) else Inr ())"

(* @ app/settings/Filter.cc:31-37 Filter::Filter *)
definition makeFilter :: "('t, 'n, 'a) ryml_scheme \<Rightarrow> 't \<Rightarrow> 'n \<Rightarrow> exn + 'n Filter" where
  "makeFilter Y t node =
     rbind (checkFilterNode Y t node) (\<lambda>_.
     rbind (ReadStringAndMatchTypeFromNode Y t (y_at Y t node kProcessKey) KeyProcessImageName) (\<lambda>p.
     rbind (ReadStringAndMatchTypeFromNode Y t (y_at Y t node kWindowClassKey) KeyWindowClass) (\<lambda>c.
     rbind (ReadStringAndMatchTypeFromNode Y t (y_at Y t node kWindowTitleKey) KeyWindowTitle) (\<lambda>w.
     Inr \<lparr>fnode = node, process_image_name = p, window_class = c, window_title = w\<rparr>))))"

(* @ app/settings/Filter.cc:12-21 writeFilterStringMatchType *)
definition writeFilterStringMatchType ::
  "('t, 'n, 'a) ryml_scheme \<Rightarrow> 't \<Rightarrow> 'n \<Rightarrow> string \<Rightarrow> StringAndMatchType \<Rightarrow> exn + 't" where
  "writeFilterStringMatchType Y t node key val =
     (if snd val = [] \<and> fst val = kContains then
        (if y_has_child Y t node key then Inr (y_remove_child Y t node (y_at Y t node key))
         else Inr t)
      else WriteStringAndMatchTypeToNode Y t (y_at Y t node key) val)"

(* @ app/settings/Filter.cc:39-42 Filter::setProcessImageName *)
definition setProcessImageName ::
  "('t, 'n, 'a) ryml_scheme \<Rightarrow> 't \<Rightarrow> 'n Filter \<Rightarrow> StringAndMatchType \<Rightarrow> exn + 't \<times> 'n Filter" where
  "setProcessImageName Y t f val =
     rbind (writeFilterStringMatchType Y t (fnode f) kProcessKey val)
       (\<lambda>t'. Inr (t', f\<lparr>process_image_name := val\<rparr>))"

(* @ app/settings/Filter.cc:44-47 Filter::setWindowClass *)
definition setWindowClass ::
  "('t, 'n, 'a) ryml_scheme \<Rightarrow> 't \<Rightarrow> 'n Filter \<Rightarrow> StringAndMatchType \<Rightarrow> exn + 't \<times> 'n Filter" where
  "setWindowClass Y t f val =
     rbind (writeFilterStringMatchType Y t (fnode f) kWindowClassKey val)
       (\<lambda>t'. Inr (t', f\<lparr>window_class := val\<rparr>))"

(* @ app/settings/Filter.cc:49-52 Filter::setWindowTitle *)
definition setWindowTitle ::
  "('t, 'n, 'a) ryml_scheme \<Rightarrow> 't \<Rightarrow> 'n Filter \<Rightarrow> StringAndMatchType \<Rightarrow> exn + 't \<times> 'n Filter" where
  "setWindowTitle Y t f val =
     rbind (writeFilterStringMatchType Y t (fnode f) kWindowTitleKey val)
       (\<lambda>t'. Inr (t', f\<lparr>window_title := val\<rparr>))"

section \<open>settings/action/MoveAndResize.cc\<close>

(* @ app/settings/action/MoveAndResize.cc:10-15 removeField *)
definition removeField :: "('t, 'n, 'a) ryml_scheme \<Rightarrow> 'n \<Rightarrow> string \<Rightarrow> 't \<Rightarrow> 't" where
  "removeField Y node key t =
     (if y_has_child Y t node key then y_remove_child Y t node (y_at Y t node key) else t)"

(* @ app/settings/action/MoveAndResize.cc:17-22 ActionTypeTraits<AbsoluteMoveAndResize>::removeFields *)
definition absolute_removeFields :: "('t, 'n, 'a) ryml_scheme \<Rightarrow> 'n \<Rightarrow> 't \<Rightarrow> 't" where
  "absolute_removeFields Y n t =
     removeField Y n kHeight (removeField Y n kWidth (removeField Y n kPosY (removeField Y n kPosX t)))"

(* @ app/settings/action/MoveAndResize.cc:106-113 ActionTypeTraits<RelativeMoveAndResize>::removeFields *)
definition relative_removeFields :: "('t, 'n, 'a) ryml_scheme \<Rightarrow> 'n \<Rightarrow> 't \<Rightarrow> 't" where
  "relative_removeFields Y n t =
     removeField Y n kHeight (removeField Y n kWidth (removeField Y n kPosY (removeField Y n kPosX
       (removeField Y n kMonitorName (removeField Y n kMonitorId t)))))"

(* @ app/settings/action/MoveAndResize.h:9-24 AbsoluteMoveAndResize *)
record 'n AbsoluteMoveAndResize =
  abs_node :: 'n
  abs_bounds :: i32x4

text \<open>The source passes the four reads as arguments of one call, whose order C++ leaves open; the
  model reads from left to right.  Only which of several invalid keys is reported depends on it.\<close>

(* @ app/settings/action/MoveAndResize.cc:24-56 AbsoluteMoveAndResize::AbsoluteMoveAndResize *)
definition makeAbsolute :: "('t, 'n, 'a) ryml_scheme \<Rightarrow> 't \<Rightarrow> 'n \<Rightarrow> exn + 'n AbsoluteMoveAndResize" where
  "makeAbsolute Y t node =
     rbind (ReadLongFromNodeOrDefault Y t (y_at Y t node kPosX) KeyPositionX
              kAbsoluteCoordinateMin kAbsoluteCoordinateMax 0) (\<lambda>x.
     rbind (ReadLongFromNodeOrDefault Y t (y_at Y t node kPosY) KeyPositionY
              kAbsoluteCoordinateMin kAbsoluteCoordinateMax 0) (\<lambda>y.
     rbind (ReadLongFromNodeOrDefault Y t (y_at Y t node kWidth) KeyWidth
              kAbsoluteLengthMin kAbsoluteLengthMax 640) (\<lambda>w.
     rbind (ReadLongFromNodeOrDefault Y t (y_at Y t node kHeight) KeyHeight
              kAbsoluteLengthMin kAbsoluteLengthMax 400) (\<lambda>h.
     Inr \<lparr>abs_node = node, abs_bounds = i4_make x y w h\<rparr>))))"

definition abs_set ::
  "('t, 'n, 'a) ryml_scheme \<Rightarrow> nat \<Rightarrow> string \<Rightarrow> 't \<Rightarrow> 'n AbsoluteMoveAndResize \<Rightarrow> 32 word \<Rightarrow>
   exn + 't \<times> 'n AbsoluteMoveAndResize" where
  "abs_set Y i key t a val =
     (if i4_at (abs_bounds a) i \<noteq> val then
        rbind (WriteLongToNode Y t (y_at Y t (abs_node a) key) val)
          (\<lambda>t'. Inr (t', a\<lparr>abs_bounds := i4_setAt (abs_bounds a) i val\<rparr>))
      else Inr (t, a))"

(* @ app/settings/action/MoveAndResize.cc:58-68 AbsoluteMoveAndResize::setX *)
definition abs_setX where "abs_setX Y = abs_set Y 0 kPosX"
(* @ app/settings/action/MoveAndResize.cc:70-80 AbsoluteMoveAndResize::setY *)
definition abs_setY where "abs_setY Y = abs_set Y 1 kPosY"
(* @ app/settings/action/MoveAndResize.cc:82-92 AbsoluteMoveAndResize::setWidth *)
definition abs_setWidth where "abs_setWidth Y = abs_set Y 2 kWidth"
(* @ app/settings/action/MoveAndResize.cc:94-104 AbsoluteMoveAndResize::setHeight *)
definition abs_setHeight where "abs_setHeight Y = abs_set Y 3 kHeight"

text \<open>The \<open>ROXYG_UNCHECKED_ASSERT\<close> in each setter is the caller's obligation.\<close>

(* @ app/settings/action/MoveAndResize.cc:59-62 AbsoluteMoveAndResize::setX *)
definition abs_set_pre :: "nat \<Rightarrow> 32 word \<Rightarrow> bool" where
  "abs_set_pre i val \<longleftrightarrow>
     (if i < 2 then kAbsoluteCoordinateMin \<le>s val \<and> val \<le>s kAbsoluteCoordinateMax
      else kAbsoluteLengthMin \<le>s val \<and> val \<le>s kAbsoluteLengthMax)"

(* @ app/settings/action/MoveAndResize.h:26-53 RelativeMoveAndResize *)
record 'n RelativeMoveAndResize =
  rel_node :: 'n
  rel_name :: StringAndMatchType
  rel_bounds :: f32x4
  rel_id :: "32 word"

(* @ app/settings/action/MoveAndResize.cc:115-155 RelativeMoveAndResize::RelativeMoveAndResize *)
definition makeRelative :: "('t, 'n, 'a) ryml_scheme \<Rightarrow> 't \<Rightarrow> 'n \<Rightarrow> exn + 'n RelativeMoveAndResize" where
  "makeRelative Y t node =
     rbind (ReadStringAndMatchTypeFromNode Y t (y_at Y t node kMonitorName) KeyMonitorName) (\<lambda>name.
     rbind (ReadFloatFromNodeOrDefault Y t (y_at Y t node kPosX) KeyPositionX
              kRelativeCoordinateMin kRelativeCoordinateMax f32_half) (\<lambda>x.
     rbind (ReadFloatFromNodeOrDefault Y t (y_at Y t node kPosY) KeyPositionY
              kRelativeCoordinateMin kRelativeCoordinateMax f32_half) (\<lambda>y.
     rbind (ReadFloatFromNodeOrDefault Y t (y_at Y t node kWidth) KeyWidth
              kRelativeCoordinateMin kRelativeCoordinateMax f32_one) (\<lambda>w.
     rbind (ReadFloatFromNodeOrDefault Y t (y_at Y t node kHeight) KeyHeight
              kRelativeCoordinateMin kRelativeCoordinateMax f32_one) (\<lambda>h.
     rbind (ReadIntFromNodeOrDefault Y t (y_at Y t node kMonitorId) KeyMonitorId
              kRelativeMonitorIdMin kRelativeMonitorIdMax kRelativeMonitorIdUnset) (\<lambda>i.
     Inr \<lparr>rel_node = node, rel_name = name, rel_bounds = f4_make x y w h, rel_id = i\<rparr>))))))"

text \<open>The same constructor in a build with or without \<open>_M_FP_FAST\<close>.\<close>

(* @ app/settings/action/MoveAndResize.cc:115-155 RelativeMoveAndResize::RelativeMoveAndResize *)
definition makeRelative_build ::
  "bool \<Rightarrow> ('t, 'n, 'a) ryml_scheme \<Rightarrow> 't \<Rightarrow> 'n \<Rightarrow> exn + 'n RelativeMoveAndResize" where
  "makeRelative_build fast Y t node =
     rbind (ReadStringAndMatchTypeFromNode Y t (y_at Y t node kMonitorName) KeyMonitorName) (\<lambda>name.
     rbind (ReadFloatFromNodeOrDefault_build fast Y t (y_at Y t node kPosX) KeyPositionX
              kRelativeCoordinateMin kRelativeCoordinateMax f32_half) (\<lambda>x.
     rbind (ReadFloatFromNodeOrDefault_build fast Y t (y_at Y t node kPosY) KeyPositionY
              kRelativeCoordinateMin kRelativeCoordinateMax f32_half) (\<lambda>y.
     rbind (ReadFloatFromNodeOrDefault_build fast Y t (y_at Y t node kWidth) KeyWidth
              kRelativeCoordinateMin kRelativeCoordinateMax f32_one) (\<lambda>w.
     rbind (ReadFloatFromNodeOrDefault_build fast Y t (y_at Y t node kHeight) KeyHeight
              kRelativeCoordinateMin kRelativeCoordinateMax f32_one) (\<lambda>h.
     rbind (ReadIntFromNodeOrDefault Y t (y_at Y t node kMonitorId) KeyMonitorId
              kRelativeMonitorIdMin kRelativeMonitorIdMax kRelativeMonitorIdUnset) (\<lambda>i.
     Inr \<lparr>rel_node = node, rel_name = name, rel_bounds = f4_make x y w h, rel_id = i\<rparr>))))))"

lemma makeRelative_checked: "makeRelative_build False = makeRelative"
  unfolding makeRelative_build_def makeRelative_def ReadFloat_checked ..

(* @ app/settings/action/MoveAndResize.cc:157-176 RelativeMoveAndResize::setId *)
definition rel_setId ::
  "('t, 'n, 'a) ryml_scheme \<Rightarrow> 't \<Rightarrow> 'n RelativeMoveAndResize \<Rightarrow> 32 word \<Rightarrow>
   exn + 't \<times> 'n RelativeMoveAndResize" where
  "rel_setId Y t r val =
     (if val = kRelativeMonitorIdUnset then
        (let t' = (if y_has_child Y t (rel_node r) kMonitorId
                   then y_remove_child Y t (rel_node r) (y_at Y t (rel_node r) kMonitorId) else t)
         in Inr (t', r\<lparr>rel_id := val\<rparr>))
      else if rel_id r \<noteq> val then
        rbind (WriteLongToNode Y t (y_at Y t (rel_node r) kMonitorId) val)
          (\<lambda>t'. Inr (t', r\<lparr>rel_id := val\<rparr>))
      else Inr (t, r))"

(* @ app/settings/action/MoveAndResize.cc:178-183 RelativeMoveAndResize::setName *)
definition rel_setName ::
  "('t, 'n, 'a) ryml_scheme \<Rightarrow> 't \<Rightarrow> 'n RelativeMoveAndResize \<Rightarrow> StringAndMatchType \<Rightarrow>
   exn + 't \<times> 'n RelativeMoveAndResize" where
  "rel_setName Y t r val =
     (if rel_name r \<noteq> val then
        rbind (WriteStringAndMatchTypeToNode Y t (y_at Y t (rel_node r) kMonitorName) val)
          (\<lambda>t'. Inr (t', r\<lparr>rel_name := val\<rparr>))
      else Inr (t, r))"

text \<open>The comparison \<open>window_bounds_.x() != val\<close> is the float \<open>!=\<close>.\<close>

definition rel_set ::
  "('t, 'n, 'a) ryml_scheme \<Rightarrow> nat \<Rightarrow> string \<Rightarrow> 't \<Rightarrow> 'n RelativeMoveAndResize \<Rightarrow> f32 \<Rightarrow>
   exn + 't \<times> 'n RelativeMoveAndResize" where
  "rel_set Y i key t r val =
     (if \<not> f32_eq (f4_at (rel_bounds r) i) val then
        rbind (WriteFloatToNode Y t (y_at Y t (rel_node r) key) val)
          (\<lambda>t'. Inr (t', r\<lparr>rel_bounds := f4_setAt (rel_bounds r) i val\<rparr>))
      else Inr (t, r))"

(* @ app/settings/action/MoveAndResize.cc:185-195 RelativeMoveAndResize::setX *)
definition rel_setX where "rel_setX Y = rel_set Y 0 kPosX"
(* @ app/settings/action/MoveAndResize.cc:197-207 RelativeMoveAndResize::setY *)
definition rel_setY where "rel_setY Y = rel_set Y 1 kPosY"
(* @ app/settings/action/MoveAndResize.cc:209-219 RelativeMoveAndResize::setWidth *)
definition rel_setWidth where "rel_setWidth Y = rel_set Y 2 kWidth"
(* @ app/settings/action/MoveAndResize.cc:221-231 RelativeMoveAndResize::setHeight *)
definition rel_setHeight where "rel_setHeight Y = rel_set Y 3 kHeight"

section \<open>settings/Action.cc\<close>

(* @ app/settings/Action.h:9-13 ActionType *)
datatype ActionType = kInvalid | kAbsoluteMoveAndResize | kRelativeMoveAndResize

(* @ app/settings/Action.h:46-62 magic_enum::customize::enum_name *)
fun action_enum_name :: "ActionType \<Rightarrow> string option" where
  "action_enum_name kAbsoluteMoveAndResize = Some ''absolute_move_and_resize''"
| "action_enum_name kRelativeMoveAndResize = Some ''relative_move_and_resize''"
| "action_enum_name kInvalid = None"

text \<open>The named values of the enumeration, in the order of \<open>magic_enum\<close>.\<close>

definition action_values :: "ActionType list" where
  "action_values = [kAbsoluteMoveAndResize, kRelativeMoveAndResize]"

definition action_names :: "string list" where
  "action_names = List.map (\<lambda>v. case action_enum_name v of Some n \<Rightarrow> n | None \<Rightarrow> []) action_values"

(* @ app/settings/Action.cc:9-14 toActionType *)
definition toActionType :: "('t, 'n, 'a) ryml_scheme \<Rightarrow> string \<Rightarrow> ActionType" where
  "toActionType Y str =
     (case enum_cast_ci Y action_names str of
        Some i \<Rightarrow> (if i < length action_values then action_values ! i else kInvalid)
      | None \<Rightarrow> kInvalid)"

(* @ app/settings/Action.cc:16-27 ReadActionTypeFromNode *)
definition ReadActionTypeFromNode :: "('t, 'n, 'a) ryml_scheme \<Rightarrow> 't \<Rightarrow> 'n \<Rightarrow> exn + ActionType" where
  "ReadActionTypeFromNode Y t n =
     (if \<not> y_has_child Y t n kType then Inr kInvalid
      else let type = y_at Y t n kType in
        if \<not> y_is_keyval Y t type then Inl (ParseErr (mkParseError kExpectedString KeyActionType))
        else Inr (toActionType Y (y_val Y t type)))"

(* @ app/settings/Action.h:39-42 Action *)
record 'n Action =
  anode :: 'n
  atype :: ActionType

(* @ app/settings/Action.cc:29-33 checkActionNode *)
definition checkActionNode :: "('t, 'n, 'a) ryml_scheme \<Rightarrow> 't \<Rightarrow> 'n \<Rightarrow> exn + unit" where
  "checkActionNode Y t n =
     (if \<not> y_is_map Y t n then Inl (ParseErr (mkParseError kExpectedMap KeyThen)) else Inr ())"

(* @ app/settings/Action.cc:35-39 Action::Action *)
definition makeAction :: "('t, 'n, 'a) ryml_scheme \<Rightarrow> 't \<Rightarrow> 'n \<Rightarrow> exn + 'n Action" where
  "makeAction Y t node =
     rbind (checkActionNode Y t node) (\<lambda>_.
     rbind (ReadActionTypeFromNode Y t node) (\<lambda>ty. Inr \<lparr>anode = node, atype = ty\<rparr>))"

(* @ app/settings/Action.cc:41-81 Action::setType *)
definition setType ::
  "('t, 'n, 'a) ryml_scheme \<Rightarrow> 't \<Rightarrow> 'n Action \<Rightarrow> ActionType \<Rightarrow> exn + 't \<times> 'n Action" where
  "setType Y t a value =
     (if atype a = value then Inr (t, a)
      else let n = anode a in
        rbind
          (case action_enum_name value of
             None \<Rightarrow>
               Inr (if y_has_child Y t n kType then y_remove_child Y t n (y_at Y t n kType) else t)
           | Some value_name \<Rightarrow>
               rbind (if \<not> y_has_child Y t n kType then y_append_keyval Y t n kType
                      else Inr (t, y_at Y t n kType))
                 (\<lambda>(t', type). y_write_str Y t' type value_name))
          (\<lambda>t'. let t'' = (case atype a of
                   kInvalid \<Rightarrow> t'
                 | kAbsoluteMoveAndResize \<Rightarrow> absolute_removeFields Y n t'
                 | kRelativeMoveAndResize \<Rightarrow> relative_removeFields Y n t')
               in Inr (t'', a\<lparr>atype := value\<rparr>)))"

text \<open>\<open>Action::as<T>\<close>: the typed view of an action, only for the type it has.\<close>

(* @ app/settings/Action.h:31-37 Action::as *)
definition as_absolute ::
  "('t, 'n, 'a) ryml_scheme \<Rightarrow> 't \<Rightarrow> 'n Action \<Rightarrow> exn + 'n AbsoluteMoveAndResize" where
  "as_absolute Y t a =
     (if atype a \<noteq> kAbsoluteMoveAndResize then Inl (HrError E_INVALIDARG)
      else makeAbsolute Y t (anode a))"

(* @ app/settings/Action.h:31-37 Action::as *)
definition as_relative ::
  "('t, 'n, 'a) ryml_scheme \<Rightarrow> 't \<Rightarrow> 'n Action \<Rightarrow> exn + 'n RelativeMoveAndResize" where
  "as_relative Y t a =
     (if atype a \<noteq> kRelativeMoveAndResize then Inl (HrError E_INVALIDARG)
      else makeRelative Y t (anode a))"

section \<open>What the constructors promise\<close>

definition abs_valid :: "'n AbsoluteMoveAndResize \<Rightarrow> bool" where
  "abs_valid a \<longleftrightarrow> (\<forall>i < 4. abs_set_pre i (i4_at (abs_bounds a) i))"

definition rel_valid :: "'n RelativeMoveAndResize \<Rightarrow> bool" where
  "rel_valid r \<longleftrightarrow>
     (\<forall>i < 4. f32_finite (f4_at (rel_bounds r) i) \<and> 0 \<le> f32_val (f4_at (rel_bounds r) i) \<and>
        f32_val (f4_at (rel_bounds r) i) \<le> 1) \<and> sint (rel_id r) \<in> {0..16}"

lemma all_less_4: "(\<forall>i < (4::nat). P i) \<longleftrightarrow> P 0 \<and> P 1 \<and> P 2 \<and> P 3"
proof (intro iffI allI impI)
  fix i :: nat assume p: "P 0 \<and> P 1 \<and> P 2 \<and> P 3" and "i < 4"
  then have "i = 0 \<or> i = 1 \<or> i = 2 \<or> i = 3" by linarith
  then show "P i" using p by blast
qed simp

lemma abs_pre_sint:
  "abs_set_pre 0 v \<longleftrightarrow> - 16384 \<le> sint v \<and> sint v \<le> 16384"
  "abs_set_pre (Suc 0) v \<longleftrightarrow> - 16384 \<le> sint v \<and> sint v \<le> 16384"
  "abs_set_pre 2 v \<longleftrightarrow> 0 \<le> sint v \<and> sint v \<le> 16384"
  "abs_set_pre 3 v \<longleftrightarrow> 0 \<le> sint v \<and> sint v \<le> 16384"
  by (simp_all add: abs_set_pre_def limit_defs word_sle_eq)

lemma ReadLongOrDefault_within:
  assumes "ReadLongFromNodeOrDefault Y t node kid lo hi d = Inr v"
    and "sint lo \<le> sint d" "sint d \<le> sint hi"
  shows "sint lo \<le> sint v \<and> sint v \<le> sint hi"
  using ReadLongOrDefault_cases [OF assms(1)] assms(2,3) by metis

lemma makeAbsolute_valid:
  assumes "makeAbsolute Y t node = Inr a"
  shows "abs_valid a" "abs_node a = node"
proof -
  obtain x y w h where read:
      "ReadLongFromNodeOrDefault Y t (y_at Y t node kPosX) KeyPositionX
         kAbsoluteCoordinateMin kAbsoluteCoordinateMax 0 = Inr x"
      "ReadLongFromNodeOrDefault Y t (y_at Y t node kPosY) KeyPositionY
         kAbsoluteCoordinateMin kAbsoluteCoordinateMax 0 = Inr y"
      "ReadLongFromNodeOrDefault Y t (y_at Y t node kWidth) KeyWidth
         kAbsoluteLengthMin kAbsoluteLengthMax 640 = Inr w"
      "ReadLongFromNodeOrDefault Y t (y_at Y t node kHeight) KeyHeight
         kAbsoluteLengthMin kAbsoluteLengthMax 400 = Inr h"
    and a: "a = \<lparr>abs_node = node, abs_bounds = i4_make x y w h\<rparr>"
    using assms unfolding makeAbsolute_def rbind_eq_Inr by blast
  note v = read [THEN ReadLongOrDefault_within]
  have "abs_set_pre 0 x" "abs_set_pre 1 y" "abs_set_pre 2 w" "abs_set_pre 3 h"
    using v by (simp_all add: abs_pre_sint limit_defs)
  then show "abs_valid a" "abs_node a = node"
    by (simp_all add: a abs_valid_def all_less_4 i4_at_def i4_make_def)
qed

definition unit_fraction :: "bool \<Rightarrow> f32 \<Rightarrow> bool" where
  "unit_fraction fast f \<longleftrightarrow> f32_finite f \<and> 0 \<le> f32_val f \<and> f32_val f \<le> 1 \<or> fast \<and> f32_nan f"

lemma not_lt_unit:
  assumes "\<not> f32_lt v kRelativeCoordinateMin" "\<not> f32_lt kRelativeCoordinateMax v"
  shows "unit_fraction True v"
proof -
  consider "f32_finite v" | "f32_nan v" | "f32_mag v = inf_mag"
    unfolding f32_finite_def f32_nan_def by (meson linorder_less_linear)
  then show ?thesis
  proof cases
    case 1
    then show ?thesis using assms
      by (simp add: unit_fraction_def limit_defs f32_lt_finite f32_consts f32_consts_finite not_less)
  next
    case 3
    have "\<not> f32_nan v" "\<not> f32_nan 0" "\<not> f32_nan 0x3F800000" "f32_key 0 = 0" "f32_key 0x3F800000 = 0x3F800000"
      using 3 by (simp_all add: f32_nan_def f32_key_def f32_mag_def f32_sign_def inf_mag_def)
    then show ?thesis
      using assms 3 by (cases "f32_sign v") (simp_all add: limit_defs f32_lt_def f32_key_def inf_mag_def)
  qed (simp add: unit_fraction_def)
qed

lemma ReadFloat_unit:
  assumes "ReadFloatFromNodeOrDefault_build fast Y t node kid kRelativeCoordinateMin kRelativeCoordinateMax d = Inr v"
    and "f32_finite d" "0 \<le> f32_val d" "f32_val d \<le> 1"
  shows "unit_fraction fast v"
  using assms(1)
proof (rule ReadFloat_build_cases)
  assume v: "f32_finite v \<or> fast" "\<not> f32_lt v kRelativeCoordinateMin" "\<not> f32_lt kRelativeCoordinateMax v"
  then show ?thesis using not_lt_unit [OF v(2,3)] by (auto simp: unit_fraction_def f32_finite_def f32_nan_def)
qed (use assms in \<open>simp add: unit_fraction_def\<close>)

lemma makeRelative_build_valid:
  assumes "makeRelative_build fast Y t node = Inr r"
  shows "(\<forall>i < 4. unit_fraction fast (f4_at (rel_bounds r) i)) \<and> sint (rel_id r) \<in> {0..16} \<and> rel_node r = node"
proof -
  have i: "sint v \<in> {0..16}"
    if "ReadIntFromNodeOrDefault Y t n KeyMonitorId kRelativeMonitorIdMin kRelativeMonitorIdMax
          kRelativeMonitorIdUnset = Inr v" for n v
    using that unfolding ReadIntFromNodeOrDefault_def
    by (rule ReadLongOrDefault_cases) (auto simp: limit_defs)
  obtain name x y w h m where read:
      "ReadFloatFromNodeOrDefault_build fast Y t (y_at Y t node kPosX) KeyPositionX
         kRelativeCoordinateMin kRelativeCoordinateMax f32_half = Inr x"
      "ReadFloatFromNodeOrDefault_build fast Y t (y_at Y t node kPosY) KeyPositionY
         kRelativeCoordinateMin kRelativeCoordinateMax f32_half = Inr y"
      "ReadFloatFromNodeOrDefault_build fast Y t (y_at Y t node kWidth) KeyWidth
         kRelativeCoordinateMin kRelativeCoordinateMax f32_one = Inr w"
      "ReadFloatFromNodeOrDefault_build fast Y t (y_at Y t node kHeight) KeyHeight
         kRelativeCoordinateMin kRelativeCoordinateMax f32_one = Inr h"
    and m: "ReadIntFromNodeOrDefault Y t (y_at Y t node kMonitorId) KeyMonitorId
         kRelativeMonitorIdMin kRelativeMonitorIdMax kRelativeMonitorIdUnset = Inr m"
    and r: "r = \<lparr>rel_node = node, rel_name = name, rel_bounds = f4_make x y w h, rel_id = m\<rparr>"
    using assms unfolding makeRelative_build_def rbind_eq_Inr by blast
  note v = read [THEN ReadFloat_unit]
  show ?thesis
    using v i [OF m] by (simp add: r all_less_4 f4_at_def f4_make_def f32_consts f32_consts_finite)
qed

lemma makeRelative_valid:
  assumes "makeRelative Y t node = Inr r"
  shows "rel_valid r" "rel_node r = node"
  using makeRelative_build_valid [of False Y t node r] assms
  by (simp_all add: makeRelative_checked rel_valid_def unit_fraction_def)

lemma abs_set_valid:
  assumes "abs_set Y i key t a v = Inr (t', a')" "abs_valid a" "abs_set_pre i v" "i < 4"
  shows "abs_valid a'" "i4_at (abs_bounds a') i = v" "abs_node a' = abs_node a"
proof -
  have at: "i4_at (i4_setAt b i v) j = (if j = i then v else i4_at b j)" if "j < 4" for b j
    using assms(4) that by (simp add: i4_at_def setAt_lanes nth_list_update)
  show "abs_valid a'" "i4_at (abs_bounds a') i = v" "abs_node a' = abs_node a"
    using assms at by (auto simp: abs_set_def res_simps abs_valid_def split: if_splits)
qed

end
