(* ===== verification/Triggers.thy ===== *)
theory Triggers
  imports NodeHelper
begin

text \<open>
  \<open>settings/TriggerFlags.cc\<close>: the \<open>when\<close> key of a rule, a scalar or a sequence of trigger names, read
  into a flag word and rewritten from one.  The loop over the children follows the sibling links
  while its visitor removes nodes, so it runs on fuel: the number of children plus one, which
  \<open>visit_remove\<close> and \<open>visit_find\<close> show to be enough.  \<open>None\<close> is a loop that did not end.
\<close>

type_synonym TriggerFlags = "32 word"

(* @ app/settings/TriggerFlags.h:10-10 TriggerFlags::kNone *)
definition kTriggerNone :: TriggerFlags where "kTriggerNone = 0"
(* @ app/settings/TriggerFlags.h:11-11 TriggerFlags::kApplicationStart *)
definition kApplicationStart :: TriggerFlags where "kApplicationStart = 1"
(* @ app/settings/TriggerFlags.h:12-12 TriggerFlags::kWindowFocus *)
definition kWindowFocus :: TriggerFlags where "kWindowFocus = 2"
(* @ app/settings/TriggerFlags.h:13-13 TriggerFlags::kWindowShow *)
definition kWindowShow :: TriggerFlags where "kWindowShow = 4"

lemmas trigger_defs = kTriggerNone_def kApplicationStart_def kWindowFocus_def kWindowShow_def

(* @ app/settings/TriggerFlags.cc:12-15 kAllTriggerEntries *)
definition kAllTriggerFlags :: "TriggerFlags list" where
  "kAllTriggerFlags = [kApplicationStart, kWindowFocus, kWindowShow]"

(* @ app/settings/TriggerFlags.h:18-34 magic_enum::customize::enum_name *)
definition trigger_names :: "string list" where
  "trigger_names = [''init'', ''focus'', ''show'']"

(* @ app/settings/TriggerFlags.cc:13-13 kAllTriggerEntries *)
definition kAllTriggerEntries :: "(TriggerFlags \<times> string) list" where
  "kAllTriggerEntries = zip kAllTriggerFlags trigger_names"

(* @ app/settings/TriggerFlags.cc:24-29 toOptionalTriggerFlags *)
definition toOptionalTriggerFlags :: "('t, 'n, 'a) ryml_scheme \<Rightarrow> string \<Rightarrow> TriggerFlags option" where
  "toOptionalTriggerFlags Y str =
     (case enum_cast_ci Y trigger_names str of
        Some i \<Rightarrow> (if i < length kAllTriggerFlags then Some (kAllTriggerFlags ! i) else None)
      | None \<Rightarrow> None)"

(* @ app/settings/TriggerFlags.cc:31-33 toTriggerFlags *)
definition toTriggerFlags :: "('t, 'n, 'a) ryml_scheme \<Rightarrow> string \<Rightarrow> TriggerFlags" where
  "toTriggerFlags Y str =
     (case toOptionalTriggerFlags Y str of Some f \<Rightarrow> f | None \<Rightarrow> kTriggerNone)"

(* @ app/settings/TriggerFlags.cc:35-53 visitMatchingTriggers *)
fun visitMatchingTriggers ::
  "('t, 'n, 'a) ryml_scheme \<Rightarrow> TriggerFlags \<Rightarrow> ('t \<Rightarrow> 'n \<Rightarrow> 't \<times> bool) \<Rightarrow> nat \<Rightarrow> 't \<Rightarrow> 'n \<Rightarrow>
   ('t \<times> bool) option" where
  "visitMatchingTriggers Y value visitor 0 t child = None"
| "visitMatchingTriggers Y value visitor (Suc fuel) t child =
     (if y_invalid Y t child then Some (t, True)
      else let nxt = y_next_sibling Y t child in
        if y_has_val Y t child \<and> toOptionalTriggerFlags Y (y_val Y t child) = Some value then
          (let (t', go_on) = visitor t child in
           if \<not> go_on then Some (t', False)
           else visitMatchingTriggers Y value visitor fuel t' nxt)
        else visitMatchingTriggers Y value visitor fuel t nxt)"

definition visit_all ::
  "('t, 'n, 'a) ryml_scheme \<Rightarrow> 'n \<Rightarrow> TriggerFlags \<Rightarrow> ('t \<Rightarrow> 'n \<Rightarrow> 't \<times> bool) \<Rightarrow> 't \<Rightarrow>
   ('t \<times> bool) option" where
  "visit_all Y seq value visitor t =
     visitMatchingTriggers Y value visitor (Suc (y_num_children Y t seq)) t (y_first_child Y t seq)"

(* @ app/settings/TriggerFlags.cc:55-62 containsTriggerFlag *)
definition containsTriggerFlag ::
  "('t, 'n, 'a) ryml_scheme \<Rightarrow> 't \<Rightarrow> 'n \<Rightarrow> TriggerFlags \<Rightarrow> bool option" where
  "containsTriggerFlag Y t seq value =
     (case visit_all Y seq value (\<lambda>t _. (t, False)) t of
        None \<Rightarrow> None | Some (_, finished) \<Rightarrow> Some (\<not> finished))"

(* @ app/settings/TriggerFlags.cc:77-83 ReadTriggerFlagsFromNode *)
definition read_trigger_seq :: "('t, 'n, 'a) ryml_scheme \<Rightarrow> 't \<Rightarrow> 'n list \<Rightarrow> TriggerFlags" where
  "read_trigger_seq Y t cs =
     foldl (\<lambda>ret v. if y_has_val Y t v then ret OR toTriggerFlags Y (y_val Y t v) else ret)
       kTriggerNone cs"

(* @ app/settings/TriggerFlags.cc:64-89 ReadTriggerFlagsFromNode *)
definition ReadTriggerFlagsFromNode ::
  "('t, 'n, 'a) ryml_scheme \<Rightarrow> 't \<Rightarrow> 'n \<Rightarrow> exn + TriggerFlags" where
  "ReadTriggerFlagsFromNode Y t n =
     (if \<not> y_is_map Y t n then Inl (ParseErr (mkParseError kExpectedMap KeyRule))
      else if \<not> y_has_child Y t n kWhen then Inr kTriggerNone
      else let w = y_at Y t n kWhen in
        if y_is_seq Y t w then Inr (read_trigger_seq Y t (y_children Y t w))
        else if y_is_keyval Y t w then Inr (toTriggerFlags Y (y_val Y t w))
        else Inl (ParseErr (mkParseError kExpectedSequence KeyWhen)))"

section \<open>Writing\<close>

text \<open>The three loops of \<open>WriteTriggerFlagsToNode\<close>; \<open>None\<close> would be a loop that does not end.\<close>

(* @ app/settings/TriggerFlags.cc:125-135 WriteTriggerFlagsToNode *)
fun remove_unrequested ::
  "('t, 'n, 'a) ryml_scheme \<Rightarrow> 'n \<Rightarrow> TriggerFlags \<Rightarrow> TriggerFlags list \<Rightarrow> 't \<Rightarrow> 't option" where
  "remove_unrequested Y w value [] t = Some t"
| "remove_unrequested Y w value (trigger # ts) t =
     (if enum_bitset_test Y value trigger then remove_unrequested Y w value ts t
      else case visit_all Y w trigger (\<lambda>t c. (y_remove_child Y t w c, True)) t of
        None \<Rightarrow> None
      | Some (t', _) \<Rightarrow> remove_unrequested Y w value ts t')"

(* @ app/settings/TriggerFlags.cc:137-146 WriteTriggerFlagsToNode *)
fun append_enabled ::
  "('t, 'n, 'a) ryml_scheme \<Rightarrow> 'n \<Rightarrow> TriggerFlags \<Rightarrow> (TriggerFlags \<times> string) list \<Rightarrow> 't \<Rightarrow>
   (exn + 't) option" where
  "append_enabled Y w value [] t = Some (Inr t)"
| "append_enabled Y w value ((trigger, name) # es) t =
     (if \<not> enum_bitset_test Y value trigger then append_enabled Y w value es t
      else case containsTriggerFlag Y t w trigger of
        None \<Rightarrow> None
      | Some True \<Rightarrow> append_enabled Y w value es t
      | Some False \<Rightarrow>
          (case y_append_child Y t w of
             Inl e \<Rightarrow> Some (Inl e)
           | Inr (t1, c) \<Rightarrow>
               (case y_write_str Y t1 c name of
                  Inl e \<Rightarrow> Some (Inl e)
                | Inr t2 \<Rightarrow> append_enabled Y w value es t2)))"

text \<open>The node under \<open>when\<close>, created before \<open>where\<close> if the rule has none, and a scalar value turned
  into a sequence of one.\<close>

(* @ app/settings/TriggerFlags.cc:100-114 WriteTriggerFlagsToNode *)
definition when_node :: "('t, 'n, 'a) ryml_scheme \<Rightarrow> 't \<Rightarrow> 'n \<Rightarrow> exn + 't \<times> 'n" where
  "when_node Y t n =
     (if \<not> y_has_child Y t n kWhen
      then y_insert_keyseq Y t n kWhen (y_prev_sibling Y t (y_at Y t n kWhere))
      else Inr (t, y_at Y t n kWhen))"

(* @ app/settings/TriggerFlags.cc:116-123 WriteTriggerFlagsToNode *)
definition scalar_to_seq :: "('t, 'n, 'a) ryml_scheme \<Rightarrow> 't \<Rightarrow> 'n \<Rightarrow> exn + 't" where
  "scalar_to_seq Y t w =
     (let old_value = y_val Y t w; t1 = y_clear_val Y t w; t2 = y_set_type Y t1 w TKeySeqFlow in
      rbind (y_append_child Y t2 w) (\<lambda>(t3, c). y_write_str Y t3 c old_value))"

(* @ app/settings/TriggerFlags.cc:148-154 WriteTriggerFlagsToNode *)
definition seq_to_scalar :: "('t, 'n, 'a) ryml_scheme \<Rightarrow> 't \<Rightarrow> 'n \<Rightarrow> exn + 't" where
  "seq_to_scalar Y t w =
     (let old_value = y_val Y t (y_first_child Y t w); t1 = y_clear_children Y t w;
          t2 = y_set_type Y t1 w TKeyVal in y_write_str Y t2 w old_value)"

text \<open>The function try block maps an allocation failure to \<open>E_OUTOFMEMORY\<close>; the tree it leaves is
  then not described (\<open>None\<close>).  Other exceptions leave the function.\<close>

(* @ app/settings/TriggerFlags.cc:91-159 WriteTriggerFlagsToNode *)
definition WriteTriggerFlagsToNode ::
  "('t, 'n, 'a) ryml_scheme \<Rightarrow> 't \<Rightarrow> 'n \<Rightarrow> TriggerFlags \<Rightarrow> (exn + hresult \<times> 't option) option" where
  "WriteTriggerFlagsToNode Y t n value =
     (let body =
        (case when_node Y t n of
           Inl e \<Rightarrow> Some (Inl e)
         | Inr (t1, w) \<Rightarrow>
             let is_scalar = \<not> y_is_seq Y t1 w in
             (case (if is_scalar then scalar_to_seq Y t1 w else Inr t1) of
                Inl e \<Rightarrow> Some (Inl e)
              | Inr t2 \<Rightarrow>
                  (case remove_unrequested Y w value kAllTriggerFlags t2 of
                     None \<Rightarrow> None
                   | Some t3 \<Rightarrow>
                       (case append_enabled Y w value kAllTriggerEntries t3 of
                          None \<Rightarrow> None
                        | Some (Inl e) \<Rightarrow> Some (Inl e)
                        | Some (Inr t4) \<Rightarrow>
                            if is_scalar \<and> y_num_children Y t4 w = 1
                            then Some (seq_to_scalar Y t4 w) else Some (Inr t4)))))
      in case body of
           None \<Rightarrow> None
         | Some (Inl BadAlloc) \<Rightarrow> Some (Inr (E_OUTOFMEMORY, None))
         | Some (Inl e) \<Rightarrow> Some (Inl e)
         | Some (Inr t') \<Rightarrow> Some (Inr (S_OK, Some t')))"

section \<open>The loops over a sequence\<close>

definition trigger_match :: "('t, 'n, 'a) ryml_scheme \<Rightarrow> 't \<Rightarrow> TriggerFlags \<Rightarrow> 'n \<Rightarrow> bool" where
  "trigger_match Y t f c \<longleftrightarrow>
     y_has_val Y t c \<and> toOptionalTriggerFlags Y (y_val Y t c) = Some f"

lemma trigger_match_step:
  "seq_step Y t t' w k \<Longrightarrow> c \<in> set k \<Longrightarrow> trigger_match Y t' f c = trigger_match Y t f c"
  by (simp add: trigger_match_def seq_step_def same_scalars_def)

definition at_cursor :: "('t, 'n, 'a) ryml_scheme \<Rightarrow> 't \<Rightarrow> 'n \<Rightarrow> 'n list \<Rightarrow> 'n list \<Rightarrow> 'n \<Rightarrow> bool" where
  "at_cursor Y t w pre suf child \<longleftrightarrow> y_is_seq Y t w \<and> y_children Y t w = pre @ suf \<and>
     (case suf of [] \<Rightarrow> y_invalid Y t child | c # _ \<Rightarrow> child = c)"

lemma cursor_start:
  assumes "yaml_seq_law Y" "y_is_seq Y t w"
  shows "at_cursor Y t w [] (y_children Y t w) (y_first_child Y t w)"
  using assms yaml_seq_links [OF assms]
  by (cases "y_children Y t w") (simp_all add: at_cursor_def link_law_def)

lemma cursor_next:
  assumes law: "yaml_seq_law Y" and cur: "at_cursor Y t w pre (c # suf) c"
  shows "at_cursor Y t w (pre @ [c]) suf (y_next_sibling Y t c)" "\<not> y_invalid Y t c"
proof -
  have w: "y_is_seq Y t w" "y_children Y t w = pre @ c # suf"
    using cur by (simp_all add: at_cursor_def)
  note l = yaml_seq_links [OF law w(1), unfolded link_law_def Let_def w(2)]
  show "\<not> y_invalid Y t c" using l by simp
  show "at_cursor Y t w (pre @ [c]) suf (y_next_sibling Y t c)"
  proof (cases suf)
    case Nil
    then show ?thesis using l w by (simp add: at_cursor_def)
  next
    case (Cons d ds)
    have "y_next_sibling Y t ((pre @ c # suf) ! length pre) = (pre @ c # suf) ! Suc (length pre)"
      using l Cons by (elim conjE allE [of _ "length pre"]) simp
    then show ?thesis using w Cons by (simp add: at_cursor_def nth_append)
  qed
qed

lemma cursor_remove:
  assumes law: "yaml_seq_law Y" and cur: "at_cursor Y t w (pre @ [c]) suf nxt" and val: "y_has_val Y t c"
  shows "at_cursor Y (y_remove_child Y t w c) w pre suf nxt"
    and "seq_step Y t (y_remove_child Y t w c) w (pre @ suf)"
proof -
  have w: "y_is_seq Y t w" "y_children Y t w = pre @ c # suf"
    using cur by (simp_all add: at_cursor_def)
  have "c \<notin> set pre" using yaml_seq_links [OF law w(1)] w(2) by (simp add: link_law_def Let_def)
  then have r: "remove1 c (y_children Y t w) = pre @ suf" using w(2) by (simp add: remove1_append)
  have c: "c \<in> set (y_children Y t w)" using w(2) by simp
  note rm = yaml_seq_remove [OF law w(1) c val, unfolded r]
  show "seq_step Y t (y_remove_child Y t w c) w (pre @ suf)" by (rule rm)
  then show "at_cursor Y (y_remove_child Y t w c) w pre suf nxt"
    using rm(1) cur by (auto simp: at_cursor_def seq_step_def same_maps_def split: list.splits)
qed

lemma visit_remove:
  assumes "yaml_seq_law Y" "at_cursor Y t w pre suf child" "length suf < fuel"
  shows "\<exists>t'. visitMatchingTriggers Y f (\<lambda>t c. (y_remove_child Y t w c, True)) fuel t child
               = Some (t', True) \<and>
             y_children Y t' w = pre @ filter (\<lambda>c. \<not> trigger_match Y t f c) suf \<and>
             seq_step Y t t' w (y_children Y t' w)"
  using assms(2,3)
proof (induction suf arbitrary: t pre child fuel)
  case Nil
  then obtain k where "fuel = Suc k" by (cases fuel) auto
  then show ?case using Nil by (auto simp: at_cursor_def seq_step_refl)
next
  case (Cons c suf)
  then obtain k where k: "fuel = Suc k" "length suf < k" by (cases fuel) auto
  have child: "child = c" using Cons.prems(1) by (simp add: at_cursor_def)
  note cur = Cons.prems(1) [unfolded child]
  note nxt = cursor_next [OF assms(1) cur]
  show ?case
  proof (cases "trigger_match Y t f c")
    case True
    define t1 where "t1 = y_remove_child Y t w c"
    have t1: "at_cursor Y t1 w pre suf (y_next_sibling Y t c)" "seq_step Y t t1 w (pre @ suf)"
      using cursor_remove [OF assms(1) nxt(1)] True by (simp_all add: t1_def trigger_match_def)
    obtain t' where t': "visitMatchingTriggers Y f (\<lambda>t c. (y_remove_child Y t w c, True)) k t1
          (y_next_sibling Y t c) = Some (t', True)"
        "y_children Y t' w = pre @ filter (\<lambda>c. \<not> trigger_match Y t1 f c) suf"
        "seq_step Y t1 t' w (y_children Y t' w)"
      using Cons.IH [OF t1(1) k(2)] by blast
    have "filter (\<lambda>c. \<not> trigger_match Y t1 f c) suf = filter (\<lambda>c. \<not> trigger_match Y t f c) suf"
      using trigger_match_step [OF t1(2)] by (intro filter_cong) simp_all
    moreover have "seq_step Y t t' w (y_children Y t' w)"
      using seq_step_trans [OF t1(2) t'(3)] t'(2) by auto
    ultimately show ?thesis
      using True t' k nxt(2) child by (simp add: trigger_match_def Let_def t1_def)
  next
    case False
    obtain t' where "visitMatchingTriggers Y f (\<lambda>t c. (y_remove_child Y t w c, True)) k t
          (y_next_sibling Y t c) = Some (t', True)"
        "y_children Y t' w = (pre @ [c]) @ filter (\<lambda>c. \<not> trigger_match Y t f c) suf"
        "seq_step Y t t' w (y_children Y t' w)"
      using Cons.IH [OF nxt(1) k(2)] by blast
    then show ?thesis using False k nxt(2) child by (auto simp: trigger_match_def Let_def)
  qed
qed

lemma visit_find:
  assumes "yaml_seq_law Y" "at_cursor Y t w pre suf child" "length suf < fuel"
  shows "visitMatchingTriggers Y f (\<lambda>t _. (t, False)) fuel t child
           = Some (t, \<not> (\<exists>c \<in> set suf. trigger_match Y t f c))"
  using assms(2,3)
proof (induction suf arbitrary: pre child fuel)
  case Nil
  then show ?case by (cases fuel) (auto simp: at_cursor_def)
next
  case (Cons c suf)
  then obtain k where k: "fuel = Suc k" "length suf < k" by (cases fuel) auto
  have child: "child = c" using Cons.prems(1) by (simp add: at_cursor_def)
  note nxt = cursor_next [OF assms(1) Cons.prems(1) [unfolded child]]
  show ?case
    using Cons.IH [OF nxt(1) k(2)] k nxt(2) child by (auto simp: trigger_match_def Let_def)
qed

lemma num_children: "yaml_seq_law Y \<Longrightarrow> y_is_seq Y t w \<Longrightarrow> y_num_children Y t w = length (y_children Y t w)"
  using yaml_seq_links by (fastforce simp: link_law_def Let_def)

lemma containsTriggerFlag_eq:
  assumes "yaml_seq_law Y" "y_is_seq Y t w"
  shows "containsTriggerFlag Y t w f = Some (\<exists>c \<in> set (y_children Y t w). trigger_match Y t f c)"
  using visit_find [OF assms(1) cursor_start [OF assms]] num_children [OF assms]
  by (simp add: containsTriggerFlag_def visit_all_def del: visitMatchingTriggers.simps)

lemma remove_unrequested_ok:
  assumes "yaml_seq_law Y" "y_is_seq Y t w"
  shows "\<exists>t'. remove_unrequested Y w value ts t = Some t' \<and>
     y_children Y t' w = filter (\<lambda>c. \<forall>f \<in> set ts. enum_bitset_test Y value f \<or> \<not> trigger_match Y t f c)
                          (y_children Y t w) \<and>
     seq_step Y t t' w (y_children Y t' w)"
  using assms(2)
proof (induction ts arbitrary: t)
  case Nil
  then show ?case by (simp add: seq_step_refl)
next
  case (Cons f ts)
  show ?case
  proof (cases "enum_bitset_test Y value f")
    case True
    then show ?thesis using Cons by simp
  next
    case False
    obtain t1 where t1: "visit_all Y w f (\<lambda>t c. (y_remove_child Y t w c, True)) t = Some (t1, True)"
        "y_children Y t1 w = filter (\<lambda>c. \<not> trigger_match Y t f c) (y_children Y t w)"
        "seq_step Y t t1 w (y_children Y t1 w)"
      using visit_remove [OF assms(1) cursor_start [OF assms(1) Cons.prems] lessI, of f]
      unfolding visit_all_def num_children [OF assms(1) Cons.prems] by auto
    have "y_is_seq Y t1 w" using t1(3) by (simp add: seq_step_def)
    from Cons.IH [OF this] obtain t2 where t2: "remove_unrequested Y w value ts t1 = Some t2"
        "y_children Y t2 w = filter (\<lambda>c. \<forall>f \<in> set ts. enum_bitset_test Y value f \<or> \<not> trigger_match Y t1 f c)
           (y_children Y t1 w)"
        "seq_step Y t1 t2 w (y_children Y t2 w)"
      by blast
    have "y_children Y t2 w =
        filter (\<lambda>c. \<forall>f \<in> set ts. enum_bitset_test Y value f \<or> \<not> trigger_match Y t f c) (y_children Y t1 w)"
      unfolding t2(2) using trigger_match_step [OF t1(3)] by (intro filter_cong) simp_all
    then have "y_children Y t2 w = filter (\<lambda>c. \<forall>g \<in> set (f # ts). enum_bitset_test Y value g \<or>
        \<not> trigger_match Y t g c) (y_children Y t w)"
      unfolding t1(2) filter_filter using False by (simp add: conj_commute cong: conj_cong)
    moreover have "seq_step Y t t2 w (y_children Y t2 w)"
      using seq_step_trans [OF t1(3) t2(3)] t2(2) by auto
    ultimately show ?thesis using False t1(1) t2(1) by simp
  qed
qed

lemma trigger_match_unique: "trigger_match Y t f c \<Longrightarrow> trigger_match Y t g c \<Longrightarrow> f = g"
  by (simp add: trigger_match_def)

lemma append_enabled_ok:
  assumes law: "yaml_seq_law Y"
    and names: "\<forall>(f, s) \<in> set es. toOptionalTriggerFlags Y s = Some f"
    and "y_is_seq Y t w"
  shows "\<exists>r. append_enabled Y w value es t = Some r \<and>
    (\<forall>t'. r = Inr t' \<longrightarrow> (\<exists>new. y_children Y t' w = y_children Y t w @ new \<and>
       seq_step Y t t' w (y_children Y t w) \<and>
       (\<forall>c \<in> set new. \<exists>f \<in> fst ` set es. enum_bitset_test Y value f \<and> trigger_match Y t' f c) \<and>
       (\<forall>f \<in> fst ` set es. enum_bitset_test Y value f \<longrightarrow>
          (\<exists>c \<in> set (y_children Y t' w). trigger_match Y t' f c))))"
  using names assms(3)
proof (induction es arbitrary: t)
  case Nil
  then show ?case by (simp add: seq_step_refl)
next
  case (Cons e es)
  obtain f s where e: "e = (f, s)" by (cases e)
  have names: "\<forall>(f, s) \<in> set es. toOptionalTriggerFlags Y s = Some f" "toOptionalTriggerFlags Y s = Some f"
    using Cons.prems(1) e by auto
  note IH = Cons.IH [OF names(1)]
  consider (skip) "\<not> enum_bitset_test Y value f"
    | (has) "enum_bitset_test Y value f" "\<exists>c \<in> set (y_children Y t w). trigger_match Y t f c"
    | (add) "enum_bitset_test Y value f" "\<not> (\<exists>c \<in> set (y_children Y t w). trigger_match Y t f c)"
    by blast
  then show ?case
  proof cases
    case skip
    then show ?thesis using IH [OF Cons.prems(2)] e by auto
  next
    case has
    then have "append_enabled Y w value (e # es) t = append_enabled Y w value es t"
      using e containsTriggerFlag_eq [OF law Cons.prems(2)] by simp
    moreover have "\<exists>c \<in> set (y_children Y t' w). trigger_match Y t' f c"
      if "y_children Y t' w = y_children Y t w @ new" "seq_step Y t t' w (y_children Y t w)" for t' new
      using has(2) that trigger_match_step [OF that(2)] by auto
    ultimately show ?thesis using IH [OF Cons.prems(2)] e by fastforce
  next
    case add
    then have contains: "containsTriggerFlag Y t w f = Some False"
      using containsTriggerFlag_eq [OF law Cons.prems(2)] by simp
    show ?thesis
    proof (cases "y_append_child Y t w")
      case (Inl ex)
      then show ?thesis using add e contains by simp
    next
      case (Inr tc)
      obtain t1 c where tc: "tc = (t1, c)" by (cases tc)
      show ?thesis
      proof (cases "y_write_str Y t1 c s")
        case (Inl ex)
        then show ?thesis using add e contains Inr tc by simp
      next
        case w: (Inr t2)
        note ap = yaml_seq_append [OF law Cons.prems(2) Inr [unfolded tc] w]
        have run: "append_enabled Y w value (e # es) t = append_enabled Y w value es t2"
          using add e contains Inr tc w by simp
        have m: "trigger_match Y t2 f c" using ap names(2) by (simp add: trigger_match_def)
        have step: "seq_step Y t t' w (y_children Y t w) \<and> trigger_match Y t' f c"
          if "y_children Y t' w = y_children Y t2 w @ new" "seq_step Y t2 t' w (y_children Y t2 w)"
          for t' new
        proof -
          have "seq_step Y t2 t' w (y_children Y t w)"
            using that(2) ap(1) by (auto intro: seq_step_subset)
          then show ?thesis
            using seq_step_trans [OF ap(5)] trigger_match_step [OF that(2), of c f] m ap(1) by auto
        qed
        have "y_is_seq Y t2 w" using ap(5) by (simp add: seq_step_def)
        from IH [OF this] obtain r where r: "append_enabled Y w value es t2 = Some r"
          "\<forall>t'. r = Inr t' \<longrightarrow> (\<exists>new. y_children Y t' w = y_children Y t2 w @ new \<and>
             seq_step Y t2 t' w (y_children Y t2 w) \<and>
             (\<forall>c \<in> set new. \<exists>f \<in> fst ` set es. enum_bitset_test Y value f \<and> trigger_match Y t' f c) \<and>
             (\<forall>f \<in> fst ` set es. enum_bitset_test Y value f \<longrightarrow>
                (\<exists>c \<in> set (y_children Y t' w). trigger_match Y t' f c)))"
          by blast
        show ?thesis
        proof (rule exI [of _ r], intro conjI allI impI)
          show "append_enabled Y w value (e # es) t = Some r" using run r(1) by simp
        next
          fix t' assume "r = Inr t'"
          then obtain new where new: "y_children Y t' w = y_children Y t2 w @ new"
            "seq_step Y t2 t' w (y_children Y t2 w)"
            "\<forall>c \<in> set new. \<exists>f \<in> fst ` set es. enum_bitset_test Y value f \<and> trigger_match Y t' f c"
            "\<forall>f \<in> fst ` set es. enum_bitset_test Y value f \<longrightarrow>
                (\<exists>c \<in> set (y_children Y t' w). trigger_match Y t' f c)"
            using r(2) by blast
          then show "\<exists>new. y_children Y t' w = y_children Y t w @ new \<and>
             seq_step Y t t' w (y_children Y t w) \<and>
             (\<forall>c \<in> set new. \<exists>f \<in> fst ` set (e # es). enum_bitset_test Y value f \<and> trigger_match Y t' f c) \<and>
             (\<forall>f \<in> fst ` set (e # es). enum_bitset_test Y value f \<longrightarrow>
                (\<exists>c \<in> set (y_children Y t' w). trigger_match Y t' f c))"
            using step [OF new(1,2)] ap(1) add(1) e by (intro exI [of _ "c # new"]) auto
        qed
      qed
    qed
  qed
qed

section \<open>Reading back\<close>

lemma flag_names:
  assumes "enum_law Y"
  shows "\<forall>(f, s) \<in> set kAllTriggerEntries. toOptionalTriggerFlags Y s = Some f"
  using assms
  by (simp add: kAllTriggerEntries_def kAllTriggerFlags_def trigger_names_def
      toOptionalTriggerFlags_def enum_law_def lower_def trigger_defs)

lemma toOptionalTriggerFlags_range:
  "toOptionalTriggerFlags Y s = Some f \<Longrightarrow> f \<in> {1, 2, 4}"
  by (auto simp: toOptionalTriggerFlags_def kAllTriggerFlags_def trigger_defs less_Suc_eq
      split: option.splits if_splits)

lemma bit_read_trigger_seq:
  "bit (read_trigger_seq Y t cs) k \<longleftrightarrow> (\<exists>c \<in> set cs. \<exists>f. trigger_match Y t f c \<and> bit f k)"
proof -
  let ?step = "\<lambda>ret v. if y_has_val Y t v then ret OR toTriggerFlags Y (y_val Y t v) else ret"
  have "bit (foldl ?step r cs) k \<longleftrightarrow> bit r k \<or> (\<exists>c \<in> set cs. \<exists>f. trigger_match Y t f c \<and> bit f k)" for r
  proof (induction cs arbitrary: r)
    case (Cons c cs)
    have "bit (?step r c) k \<longleftrightarrow> bit r k \<or> (\<exists>f. trigger_match Y t f c \<and> bit f k)"
      by (auto simp: trigger_match_def toTriggerFlags_def bit_or_iff trigger_defs split: option.splits)
    then show ?case using Cons.IH by auto
  qed simp
  then show ?thesis by (simp add: read_trigger_seq_def kTriggerNone_def)
qed

lemma flag_bits: "f \<in> {1, 2, 4 :: 32 word} \<Longrightarrow> bit f k \<longleftrightarrow> f = push_bit k 1 \<and> k < 3"
proof -
  assume "f \<in> {1, 2, 4 :: 32 word}"
  then obtain j where j: "f = push_bit j 1" "j < 3"
    by (auto intro: that [of 0] that [of 1] that [of 2])
  have b: "bit (push_bit i 1 :: 32 word) n \<longleftrightarrow> n = i" if "i < 3" for i n
    using that by (auto simp: bit_exp_iff)
  have "push_bit j 1 = (push_bit k 1 :: 32 word) \<longleftrightarrow> k = j" if "k < 3"
    using b [OF that] b [OF j(2)] by metis
  then show ?thesis using b [OF j(2)] j by auto
qed

lemma read_trigger_seq_eq:
  assumes range: "take_bit 3 value = (value :: TriggerFlags)"
    and match: "\<And>f. f \<in> {1, 2, 4} \<Longrightarrow> (\<exists>c \<in> set cs. trigger_match Y t f c) \<longleftrightarrow> value AND f \<noteq> 0"
  shows "read_trigger_seq Y t cs = value"
proof (rule bit_word_eqI)
  fix k assume k: "k < LENGTH(32)"
  have "bit (read_trigger_seq Y t cs) k \<longleftrightarrow>
      (\<exists>f \<in> {1, 2, 4}. (\<exists>c \<in> set cs. trigger_match Y t f c) \<and> bit f k)"
    unfolding bit_read_trigger_seq
  proof
    assume "\<exists>c \<in> set cs. \<exists>f. trigger_match Y t f c \<and> bit f k"
    then obtain c f where "c \<in> set cs" "trigger_match Y t f c" "bit f k" by blast
    moreover from this(2) have "f \<in> {1, 2, 4}"
      using toOptionalTriggerFlags_range [of Y "y_val Y t c" f] by (simp add: trigger_match_def)
    ultimately show "\<exists>f \<in> {1, 2, 4}. (\<exists>c \<in> set cs. trigger_match Y t f c) \<and> bit f k" by blast
  qed blast
  also have "\<dots> \<longleftrightarrow> (\<exists>f \<in> {1, 2, 4}. value AND f \<noteq> 0 \<and> bit f k)"
    using match by blast
  also have "\<dots> \<longleftrightarrow> k < 3 \<and> value AND push_bit k 1 \<noteq> 0"
  proof -
    have "k < 3 \<Longrightarrow> push_bit k 1 \<in> {1, 2, 4 :: 32 word}" by (auto simp: less_Suc_eq numeral_eq_Suc)
    then show ?thesis using flag_bits by metis
  qed
  also have "\<dots> \<longleftrightarrow> k < 3 \<and> bit value k"
    using k by (simp add: bit_iff_and_push_bit_not_eq_0)
  also have "\<dots> \<longleftrightarrow> bit value k"
    using arg_cong [OF range, of "\<lambda>v. bit v k"] by (auto simp: bit_take_bit_iff)
  finally show "bit (read_trigger_seq Y t cs) k = bit value k" .
qed

section \<open>Writing and reading back\<close>

text \<open>\<open>value\<close> is a combination of the three triggers: the assertion the writer starts with.\<close>

definition trigger_flags :: "TriggerFlags \<Rightarrow> bool" where
  "trigger_flags value \<longleftrightarrow> take_bit 3 value = value"

lemma trigger_test:
  "enum_law Y \<Longrightarrow> f \<in> set kAllTriggerFlags \<Longrightarrow> enum_bitset_test Y value f \<longleftrightarrow> value AND f \<noteq> 0"
  by (auto simp: enum_law_def kAllTriggerFlags_def trigger_defs)

lemma write_seq_children:
  assumes law: "yaml_seq_law Y" "enum_law Y" and w: "y_is_seq Y t w"
    and rm: "remove_unrequested Y w value kAllTriggerFlags t = Some t3"
    and ap: "append_enabled Y w value kAllTriggerEntries t3 = Some (Inr t4)"
  shows "seq_step Y t t4 w []"
    and "\<exists>new. y_children Y t4 w =
           filter (\<lambda>c. \<forall>f \<in> {1, 2, 4}. value AND f \<noteq> 0 \<or> \<not> trigger_match Y t f c) (y_children Y t w) @ new \<and>
           (\<forall>c \<in> set new. y_has_val Y t4 c)"
    and "f \<in> {1, 2, 4} \<Longrightarrow> (\<exists>c \<in> set (y_children Y t4 w). trigger_match Y t4 f c) \<longleftrightarrow> value AND f \<noteq> 0"
proof -
  let ?keep = "\<lambda>c. \<forall>f \<in> {1, 2, 4}. value AND f \<noteq> 0 \<or> \<not> trigger_match Y t f c"
  have flags: "set kAllTriggerFlags = {1, 2, 4}" "fst ` set kAllTriggerEntries = {1, 2, 4}"
    by (simp_all add: kAllTriggerFlags_def kAllTriggerEntries_def trigger_names_def trigger_defs)
  have test: "enum_bitset_test Y value f \<longleftrightarrow> value AND f \<noteq> 0" if "f \<in> {1, 2, 4}" for f
    using trigger_test [OF law(2)] that flags by simp
  have "(\<forall>f \<in> set kAllTriggerFlags. enum_bitset_test Y value f \<or> \<not> trigger_match Y t f c) \<longleftrightarrow> ?keep c" for c
    unfolding flags(1) using test by (intro ball_cong) auto
  then have t3: "y_children Y t3 w = filter ?keep (y_children Y t w)"
    and st3: "seq_step Y t t3 w (y_children Y t3 w)"
    using remove_unrequested_ok [OF law(1) w, of "value" kAllTriggerFlags] rm by auto
  have w3: "y_is_seq Y t3 w" using st3 by (simp add: seq_step_def)
  obtain new where new: "y_children Y t4 w = y_children Y t3 w @ new"
      "seq_step Y t3 t4 w (y_children Y t3 w)"
      "\<forall>c \<in> set new. \<exists>f \<in> {1, 2, 4}. enum_bitset_test Y value f \<and> trigger_match Y t4 f c"
      "\<forall>f \<in> {1, 2, 4}. enum_bitset_test Y value f \<longrightarrow>
         (\<exists>c \<in> set (y_children Y t4 w). trigger_match Y t4 f c)"
    using append_enabled_ok [OF law(1) flag_names [OF law(2)] w3, of "value"] ap
    unfolding flags(2) by (metis option.inject)
  have t04: "seq_step Y t t4 w (y_children Y t3 w)" using seq_step_trans [OF st3 new(2)] by simp
  then show "seq_step Y t t4 w []" by (rule seq_step_subset) simp
  have val: "\<forall>c \<in> set new. y_has_val Y t4 c"
    using new(3) by (auto simp: trigger_match_def)
  show "\<exists>new. y_children Y t4 w = filter ?keep (y_children Y t w) @ new \<and> (\<forall>c \<in> set new. y_has_val Y t4 c)"
    using new(1) t3 val by (intro exI [of _ new]) simp
  show "(\<exists>c \<in> set (y_children Y t4 w). trigger_match Y t4 f c) \<longleftrightarrow> value AND f \<noteq> 0" if f: "f \<in> {1, 2, 4}"
  proof
    assume "value AND f \<noteq> 0"
    then show "\<exists>c \<in> set (y_children Y t4 w). trigger_match Y t4 f c" using new(4) test [OF f] f by blast
  next
    assume "\<exists>c \<in> set (y_children Y t4 w). trigger_match Y t4 f c"
    then obtain c where c: "c \<in> set (y_children Y t3 w) \<or> c \<in> set new" "trigger_match Y t4 f c"
      using new(1) by auto
    show "value AND f \<noteq> 0"
      using c(1)
    proof
      assume k: "c \<in> set (y_children Y t3 w)"
      then have "trigger_match Y t f c" using c(2) trigger_match_step [OF t04 k] by simp
      then show ?thesis using k t3 f by auto
    next
      assume "c \<in> set new"
      then obtain g where "g \<in> {1, 2, 4}" "enum_bitset_test Y value g" "trigger_match Y t4 g c"
        using new(3) by blast
      then show ?thesis using trigger_match_unique [OF c(2)] test by blast
    qed
  qed
qed

text \<open>The two loops on a sequence end, and what they leave reads as the flags that were asked for.\<close>

lemma append_enabled_alloc:
  "yaml_alloc_ok Y \<Longrightarrow> append_enabled Y w value es t = Some r \<Longrightarrow> \<exists>t'. r = Inr t'"
proof (induction es arbitrary: t)
  case (Cons e es)
  obtain f s where e: "e = (f, s)" by (cases e)
  show ?case
  proof (cases "enum_bitset_test Y value f \<and> containsTriggerFlag Y t w f = Some False")
    case True
    obtain t1 c t2 where "y_append_child Y t w = Inr (t1, c)" "y_write_str Y t1 c s = Inr t2"
      using Cons.prems(1) unfolding yaml_alloc_ok_def by metis
    then show ?thesis using True Cons e by simp
  next
    case False
    then show ?thesis using Cons e by (simp split: if_splits option.splits bool.splits)
  qed
qed auto

lemma write_loops:
  assumes law: "yaml_seq_law Y" "enum_law Y" "yaml_alloc_ok Y" and w: "y_is_seq Y t w"
    and flags: "trigger_flags value" and val: "\<forall>c \<in> set (y_children Y t w). scalars \<longrightarrow> y_has_val Y t c"
  obtains t3 t4 where "remove_unrequested Y w value kAllTriggerFlags t = Some t3"
    "append_enabled Y w value kAllTriggerEntries t3 = Some (Inr t4)"
    "seq_step Y t t4 w []" "read_trigger_seq Y t4 (y_children Y t4 w) = value"
    "\<forall>c \<in> set (y_children Y t4 w). scalars \<longrightarrow> y_has_val Y t4 c"
proof -
  obtain t3 where t3: "remove_unrequested Y w value kAllTriggerFlags t = Some t3" "y_is_seq Y t3 w"
    and st3: "seq_step Y t t3 w (y_children Y t3 w)"
    and ch3: "set (y_children Y t3 w) \<subseteq> set (y_children Y t w)"
    using remove_unrequested_ok [OF law(1) w, of "value" kAllTriggerFlags] by (auto simp: seq_step_def)
  obtain r where r: "append_enabled Y w value kAllTriggerEntries t3 = Some r"
    "\<forall>t'. r = Inr t' \<longrightarrow> (\<exists>new. y_children Y t' w = y_children Y t3 w @ new \<and>
       seq_step Y t3 t' w (y_children Y t3 w) \<and>
       (\<forall>c \<in> set new. \<exists>f \<in> fst ` set kAllTriggerEntries. enum_bitset_test Y value f \<and> trigger_match Y t' f c))"
    using append_enabled_ok [OF law(1) flag_names [OF law(2)] t3(2), of "value"] by metis
  obtain t4 where t4: "r = Inr t4" using append_enabled_alloc [OF law(3) r(1)] by blast
  note c = write_seq_children [OF law(1,2) w t3(1) r(1) [unfolded t4]]
  obtain new where new: "y_children Y t4 w = y_children Y t3 w @ new" "seq_step Y t3 t4 w (y_children Y t3 w)"
    "\<forall>c \<in> set new. \<exists>f. trigger_match Y t4 f c"
    using r(2) t4 by blast
  have "seq_step Y t t4 w (y_children Y t3 w)" using seq_step_trans [OF st3 new(2)] by simp
  then have "\<forall>c \<in> set (y_children Y t4 w). scalars \<longrightarrow> y_has_val Y t4 c"
    using val ch3 new(1,3) by (auto simp: seq_step_def same_scalars_def trigger_match_def)
  moreover have "read_trigger_seq Y t4 (y_children Y t4 w) = value"
    using read_trigger_seq_eq [OF _ c(3)] flags by (simp add: trigger_flags_def)
  ultimately show ?thesis using that t3(1) r(1) t4 c(1) by blast
qed

lemma read_after_write_seq:
  assumes "y_is_map Y t n" "y_has_child Y t n kWhen" "y_at Y t n kWhen = w" "w \<noteq> n"
    and "seq_step Y t t' w k" "read_trigger_seq Y t' (y_children Y t' w) = value"
  shows "ReadTriggerFlagsFromNode Y t' n = Inr value"
  using assms by (simp add: seq_step_def same_maps_def ReadTriggerFlagsFromNode_def)

text \<open>A sequence, found under \<open>when\<close> or created there.\<close>

lemma write_triggers_seq:
  assumes law: "yaml_seq_law Y" "enum_law Y" "yaml_alloc_ok Y" and flags: "trigger_flags value"
    and wn: "when_node Y t n = Inr (t1, w)" and w: "y_is_seq Y t1 w"
    and n: "y_is_map Y t1 n" "y_has_child Y t1 n kWhen" "y_at Y t1 n kWhen = w" "w \<noteq> n"
  shows "\<exists>t'. WriteTriggerFlagsToNode Y t n value = Some (Inr (S_OK, Some t')) \<and>
    ReadTriggerFlagsFromNode Y t' n = Inr value"
proof -
  obtain t3 t4 where l: "remove_unrequested Y w value kAllTriggerFlags t1 = Some t3"
    "append_enabled Y w value kAllTriggerEntries t3 = Some (Inr t4)"
    "seq_step Y t1 t4 w []" "read_trigger_seq Y t4 (y_children Y t4 w) = value"
    using write_loops [OF law w flags, of False] by blast
  then show ?thesis
    using read_after_write_seq [OF n l(3,4)] wn w by (simp add: WriteTriggerFlagsToNode_def)
qed

text \<open>A scalar becomes a sequence for the loops, and a scalar again when one name is left.\<close>

lemma write_triggers_scalar:
  assumes law: "yaml_seq_law Y" "enum_law Y" "yaml_alloc_ok Y" "yaml_reshape_law Y"
    and flags: "trigger_flags value"
    and n: "y_is_map Y t n" "y_has_child Y t n kWhen" "y_at Y t n kWhen = w" "w \<noteq> n"
    and w: "y_is_keyval Y t w"
  shows "\<exists>t'. WriteTriggerFlagsToNode Y t n value = Some (Inr (S_OK, Some t')) \<and>
    ReadTriggerFlagsFromNode Y t' n = Inr value"
proof -
  define t1 where "t1 = y_set_type Y (y_clear_val Y t w) w TKeySeqFlow"
  note c = yaml_to_seq [OF law(4) w t1_def]
  obtain t2 d t3 where ap: "y_append_child Y t1 w = Inr (t2, d)" "y_write_str Y t2 d (y_val Y t w) = Inr t3"
    using law(3) unfolding yaml_alloc_ok_def by metis
  note a = yaml_seq_append [OF law(1) c(2) ap]
  have t3: "y_is_seq Y t3 w" "\<forall>c \<in> set (y_children Y t3 w). True \<longrightarrow> y_has_val Y t3 c"
    using a c(3) by (simp_all add: seq_step_def)
  have s: "scalar_to_seq Y t w = Inr t3" using ap by (simp add: scalar_to_seq_def t1_def)
  have sm: "same_maps Y t t3 w"
    by (rule same_maps_trans [OF c(4)]) (use a(5) in \<open>simp add: seq_step_def\<close>)
  have n3: "y_is_map Y t3 n" "y_has_child Y t3 n kWhen" "y_at Y t3 n kWhen = w"
    using sm n unfolding same_maps_def by auto
  obtain t4 t5 where l: "remove_unrequested Y w value kAllTriggerFlags t3 = Some t4"
    "append_enabled Y w value kAllTriggerEntries t4 = Some (Inr t5)"
    "seq_step Y t3 t5 w []" "read_trigger_seq Y t5 (y_children Y t5 w) = value"
    "\<forall>c \<in> set (y_children Y t5 w). y_has_val Y t5 c"
    using write_loops [OF law(1-3) t3(1) flags t3(2)] by auto
  have wn: "when_node Y t n = Inr (t, w)" using n by (simp add: when_node_def)
  have w5: "y_is_seq Y t5 w" using l(3) by (simp add: seq_step_def)
  note links = yaml_seq_links [OF law(1) w5, unfolded link_law_def Let_def]
  show ?thesis
  proof (cases "length (y_children Y t5 w) = 1")
    case True
    then obtain x where x: "y_children Y t5 w = [x]" by (auto simp: length_Suc_conv)
    have first: "y_first_child Y t5 w = x" "y_num_children Y t5 w = 1" using links x by simp_all
    obtain t' where t': "y_write_str Y (y_set_type Y (y_clear_children Y t5 w) w TKeyVal) w (y_val Y t5 x) = Inr t'"
      using law(3) unfolding yaml_alloc_ok_def by metis
    have xv: "y_has_val Y t5 x" using l(5) x by simp
    note r = yaml_to_scalar [OF law(4) w5 x xv t']
    have run: "WriteTriggerFlagsToNode Y t n value = Some (Inr (S_OK, Some t'))"
      using wn c(1) s l(1,2) first t' by (simp add: WriteTriggerFlagsToNode_def seq_to_scalar_def)
    have "y_is_map Y t' n" "y_has_child Y t' n kWhen" "y_at Y t' n kWhen = w"
      using n3 n(4) l(3) r(3) by (simp_all add: seq_step_def same_maps_def)
    moreover have "toTriggerFlags Y (y_val Y t5 x) = value"
      using l(4) xv x by (simp add: read_trigger_seq_def kTriggerNone_def)
    ultimately have "ReadTriggerFlagsFromNode Y t' n = Inr value"
      using r(1,2) yaml_to_seq(1) [OF law(4) r(1) refl] by (simp add: ReadTriggerFlagsFromNode_def)
    then show ?thesis using run by blast
  next
    case False
    then have "WriteTriggerFlagsToNode Y t n value = Some (Inr (S_OK, Some t5))"
      using wn c(1) s l(1,2) links by (simp add: WriteTriggerFlagsToNode_def)
    then show ?thesis using read_after_write_seq [OF n3 n(4) l(3,4)] by blast
  qed
qed

text \<open>C3: Writing a combination of triggers to a rule and reading the rule back gives the combination,
  whether the rule had no \<open>when\<close>, a scalar or a sequence there, with names in any case and unknown
  names among them; the loops that follow sibling links while removing nodes end.\<close>

theorem triggers_write_read:
  assumes "yaml_seq_law Y" "enum_law Y" "yaml_alloc_ok Y" "yaml_reshape_law Y" "trigger_flags value"
    and "y_is_map Y t n"
    and "y_has_child Y t n kWhen \<Longrightarrow> y_at Y t n kWhen \<noteq> n \<and>
      (y_is_seq Y t (y_at Y t n kWhen) \<or> y_is_keyval Y t (y_at Y t n kWhen))"
  shows "\<exists>t'. WriteTriggerFlagsToNode Y t n value = Some (Inr (S_OK, Some t')) \<and>
    ReadTriggerFlagsFromNode Y t' n = Inr value"
proof (cases "y_has_child Y t n kWhen")
  case True
  then have wn: "when_node Y t n = Inr (t, y_at Y t n kWhen)" by (simp add: when_node_def)
  from assms(7) [OF True] show ?thesis
    using write_triggers_seq [OF assms(1-3,5) wn] write_triggers_scalar [OF assms(1-6) True refl]
      assms(6) True by blast
next
  case False
  obtain t1 w where i: "y_insert_keyseq Y t n kWhen (y_prev_sibling Y t (y_at Y t n kWhere)) = Inr (t1, w)"
    using assms(3) unfolding yaml_alloc_ok_def by metis
  then have wn: "when_node Y t n = Inr (t1, w)" using False by (simp add: when_node_def)
  note s = yaml_insert [OF assms(4,6) False i]
  show ?thesis using write_triggers_seq [OF assms(1-3,5) wn s(5,1,2,3,4)] .
qed

end
