(* ===== verification/FileIo.thy ===== *)
theory FileIo
  imports Errors
begin

text \<open>
  \<open>win32/file.cc\<close>: reading a settings file and replacing it atomically.  The file functions of
  Win32 act on a world \<open>'w\<close>; a handle result of \<open>None\<close> is \<open>INVALID_HANDLE_VALUE\<close>, and a call that
  can fail also returns \<open>GetLastError\<close>.  \<open>fs_law\<close> states their documented effect on the
  contents \<open>files w\<close> of the paths.
\<close>

type_synonym path = wstr

record 'w file_api = text_api +
  create_read :: "path \<Rightarrow> 'w \<Rightarrow> handle option \<times> dword \<times> 'w"
  get_file_size :: "handle \<Rightarrow> 'w \<Rightarrow> dword \<times> dword"
  read_file :: "handle \<Rightarrow> nat \<Rightarrow> 'w \<Rightarrow> bool \<times> string \<times> dword"
  create_write :: "path \<Rightarrow> 'w \<Rightarrow> handle option \<times> dword \<times> 'w"
  write_file :: "handle \<Rightarrow> string \<Rightarrow> 'w \<Rightarrow> bool \<times> dword \<times> 'w"
  flush_file :: "handle \<Rightarrow> 'w \<Rightarrow> bool \<times> dword \<times> 'w"
  close_handle :: "handle \<Rightarrow> 'w \<Rightarrow> bool \<times> dword \<times> 'w"
  move_file :: "path \<Rightarrow> path \<Rightarrow> 'w \<Rightarrow> bool \<times> dword \<times> 'w"
  delete_file :: "path \<Rightarrow> 'w \<Rightarrow> 'w"

abbreviation (input) INVALID_FILE_SIZE :: dword where "INVALID_FILE_SIZE \<equiv> 0xFFFFFFFF"

text \<open>The result is the returned \<open>hresult\<close>, the out parameter \<open>content\<close> and the world after the
  handle has been closed.\<close>

(* @ app/win32/file.cc:9-78 ReadFile *)
definition ReadFile :: "('w, 'a) file_api_scheme \<Rightarrow> path \<Rightarrow> string \<Rightarrow> 'w \<Rightarrow> (hresult \<times> string) \<times> 'w" where
  "ReadFile A filepath content w =
     (case create_read A filepath w of
        (None, err, w1) \<Rightarrow> ((LastErrorAsHResult A err, content), w1)
      | (Some hfile, _, w1) \<Rightarrow>
          let (file_size, lasterr) = get_file_size A hfile w1;
              res = (if file_size = INVALID_FILE_SIZE \<and> lasterr \<noteq> ERROR_SUCCESS
                     then (HResultFromWin32 A lasterr, content)
                     else if file_size = 0 then (S_OK, [])
                     else case str_alloc A (unat file_size) of
                       AllocBad \<Rightarrow> (E_OUTOFMEMORY, content)
                     | AllocTooLong \<Rightarrow> (E_INVALIDARG, content)
                     | AllocOk \<Rightarrow>
                         (let (rc, bytes, err) = read_file A hfile (unat file_size) w1 in
                          if \<not> rc then (LastErrorAsHResult A err, []) else (S_OK, bytes)));
              (_, _, w2) = close_handle A hfile w1
          in (res, w2))"

definition tmp_suffix :: wstr where "tmp_suffix = widen ''.tmp''"

text \<open>The path is copied outside of the \<open>try\<close> block; that this can fail for want of memory, which ends the
  process because the function is \<open>noexcept\<close>, is not modelled.\<close>

(* @ app/win32/file.cc:80-129 WriteFileAtomic *)
definition WriteFileAtomic :: "('w, 'a) file_api_scheme \<Rightarrow> path \<Rightarrow> string \<Rightarrow> 'w \<Rightarrow> hresult \<times> 'w" where
  "WriteFileAtomic A filepath content w =
     (case str_alloc A (length filepath + 4) of
        AllocBad \<Rightarrow> (E_OUTOFMEMORY, w)
      | AllocTooLong \<Rightarrow> (E_FAIL, w)
      | AllocOk \<Rightarrow>
        let temp_path = filepath @ tmp_suffix in
        (case create_write A temp_path w of
           (None, err, w1) \<Rightarrow> (LastErrorAsHResult A err, w1)
         | (Some hfile, _, w1) \<Rightarrow>
             let (rc1, err1, w2) = write_file A hfile (take (length content mod 2 ^ 32) content) w1;
                 (rc2, err2, w3) = (if rc1 then flush_file A hfile w2 else (False, err1, w2))
             in if \<not> rc2 then
                  let (_, _, w4) = close_handle A hfile w3
                  in (LastErrorAsHResult A err2, delete_file A temp_path w4)
                else
                  let (rc3, err3, w4) = close_handle A hfile w3
                  in if \<not> rc3 then (LastErrorAsHResult A err3, w4)
                     else
                       let (rc4, err4, w5) = move_file A temp_path filepath w4
                       in if \<not> rc4 then (LastErrorAsHResult A err4, delete_file A temp_path w5)
                          else (S_OK, w5)))"

section \<open>The documented effect of the file functions\<close>

text \<open>\<open>files w p\<close> is the content of the file at \<open>p\<close>, if there is one; \<open>hpath w h\<close> is the path an open
  handle writes to.\<close>

definition fs_law ::
  "('w, 'a) file_api_scheme \<Rightarrow> ('w \<Rightarrow> path \<Rightarrow> string option) \<Rightarrow> ('w \<Rightarrow> handle \<Rightarrow> path option) \<Rightarrow> bool" where
  "fs_law A files hpath \<longleftrightarrow> hr_law A \<and>
     (\<forall>p w h e w'. create_write A p w = (Some h, e, w') \<longrightarrow>
        hpath w' h = Some p \<and> files w' = (files w)(p := Some [])) \<and>
     (\<forall>p w e w'. create_write A p w = (None, e, w') \<longrightarrow> e \<noteq> 0 \<and> files w' = files w) \<and>
     (\<forall>h s w p ok e w'. write_file A h s w = (ok, e, w') \<longrightarrow> hpath w h = Some p \<longrightarrow>
        hpath w' h = Some p \<and> (\<forall>q. q \<noteq> p \<longrightarrow> files w' q = files w q) \<and>
        (ok \<longrightarrow> files w' p = Some (the (files w p) @ s)) \<and> (\<not> ok \<longrightarrow> e \<noteq> 0)) \<and>
     (\<forall>h w ok e w'. flush_file A h w = (ok, e, w') \<longrightarrow>
        files w' = files w \<and> hpath w' = hpath w \<and> (\<not> ok \<longrightarrow> e \<noteq> 0)) \<and>
     (\<forall>h w ok e w'. close_handle A h w = (ok, e, w') \<longrightarrow> files w' = files w \<and> (\<not> ok \<longrightarrow> e \<noteq> 0)) \<and>
     (\<forall>p q w ok e w'. move_file A p q w = (ok, e, w') \<longrightarrow>
        (ok \<longrightarrow> files w' = (files w)(q := files w p, p := None)) \<and>
        (\<not> ok \<longrightarrow> e \<noteq> 0 \<and> files w' = files w)) \<and>
     (\<forall>p q w. p \<noteq> q \<longrightarrow> files (delete_file A p w) q = files w q)"

lemma tmp_suffix_ne [simp]: "tmp_suffix \<noteq> []"
  by (simp add: tmp_suffix_def)

lemma fs_lawD:
  assumes "fs_law A files hpath"
  shows "hr_law A"
    and "create_write A p w = (Some h, e, w') \<Longrightarrow> hpath w' h = Some p \<and> files w' = (files w)(p := Some [])"
    and "create_write A p w = (None, e, w') \<Longrightarrow> e \<noteq> 0 \<and> files w' = files w"
    and "write_file A h s w = (ok, e, w') \<Longrightarrow> hpath w h = Some p \<Longrightarrow>
      hpath w' h = Some p \<and> (\<forall>q. q \<noteq> p \<longrightarrow> files w' q = files w q) \<and>
      (ok \<longrightarrow> files w' p = Some (the (files w p) @ s)) \<and> (\<not> ok \<longrightarrow> e \<noteq> 0)"
    and "flush_file A h w = (ok, e, w') \<Longrightarrow> files w' = files w \<and> hpath w' = hpath w \<and> (\<not> ok \<longrightarrow> e \<noteq> 0)"
    and "close_handle A h w = (ok, e, w') \<Longrightarrow> files w' = files w \<and> (\<not> ok \<longrightarrow> e \<noteq> 0)"
    and "move_file A p q w = (ok, e, w') \<Longrightarrow>
      (ok \<longrightarrow> files w' = (files w)(q := files w p, p := None)) \<and> (\<not> ok \<longrightarrow> e \<noteq> 0 \<and> files w' = files w)"
    and "p \<noteq> q \<Longrightarrow> files (delete_file A p w) q = files w q"
  using assms unfolding fs_law_def by (elim conjE; simp)+

text \<open>The replacement is all or nothing for every path but the temporary one.\<close>

lemma WriteFileAtomic_effect:
  assumes law: "fs_law A files hpath" and size: "length content < 2 ^ 32"
    and run: "WriteFileAtomic A filepath content w = (hr, w')"
  shows "(\<not> FAILED hr \<longrightarrow> files w' filepath = Some content) \<and>
         (FAILED hr \<longrightarrow> files w' filepath = files w filepath) \<and>
         (\<forall>q. q \<noteq> filepath \<longrightarrow> q \<noteq> filepath @ tmp_suffix \<longrightarrow> files w' q = files w q)"
proof -
  let ?tmp = "filepath @ tmp_suffix"
  note L = fs_lawD [OF law]
  have fail: "FAILED (LastErrorAsHResult A e)" if "e \<noteq> 0" for e
    using that L(1) by (simp add: LastErrorAsHResult_def HResultFromWin32_def hr_law_simps)
  show ?thesis
  proof (cases "str_alloc A (length filepath + 4)")
    case AllocOk
    obtain ho e0 w1 where c: "create_write A ?tmp w = (ho, e0, w1)" by (cases "create_write A ?tmp w")
    show ?thesis
    proof (cases ho)
      case None
      then show ?thesis
        using run AllocOk c L(3) [of ?tmp w e0 w1] fail [of e0] by (auto simp: WriteFileAtomic_def)
    next
      case (Some h)
      have w1: "hpath w1 h = Some ?tmp" "files w1 = (files w)(?tmp := Some [])"
        using L(2) c Some by blast+
      obtain ok1 e1 w2 where wr: "write_file A h content w1 = (ok1, e1, w2)"
        by (cases "write_file A h content w1")
      have w2: "\<forall>q. q \<noteq> ?tmp \<longrightarrow> files w2 q = files w q" "ok1 \<longrightarrow> files w2 ?tmp = Some content"
        "\<not> ok1 \<longrightarrow> e1 \<noteq> 0"
        using L(4) [OF wr w1(1)] w1(2) by auto
      obtain ok2 e2 w3 where fl: "(if ok1 then flush_file A h w2 else (False, e1, w2)) = (ok2, e2, w3)"
        by (metis prod_cases3)
      have w3: "files w3 = files w2" "\<not> ok2 \<longrightarrow> e2 \<noteq> 0" "ok2 \<longrightarrow> ok1"
        using fl L(5) [of h w2 ok2 e2 w3] w2(3) by (auto split: if_splits)
      obtain ok3 e3 w4 where cl: "close_handle A h w3 = (ok3, e3, w4)" by (cases "close_handle A h w3")
      have w4: "files w4 = files w2" "\<not> ok3 \<longrightarrow> e3 \<noteq> 0" using L(6) [OF cl] w3 by simp_all
      obtain ok4 e4 w5 where mv: "move_file A ?tmp filepath w4 = (ok4, e4, w5)"
        by (cases "move_file A ?tmp filepath w4")
      note w5 = L(7) [OF mv]
      have run': "(hr, w') =
          (if \<not> ok2 then (case close_handle A h w3 of (_, _, w4) \<Rightarrow> (LastErrorAsHResult A e2, delete_file A ?tmp w4))
           else if \<not> ok3 then (LastErrorAsHResult A e3, w4)
           else if \<not> ok4 then (LastErrorAsHResult A e4, delete_file A ?tmp w5) else (S_OK, w5))"
        using run AllocOk c Some wr fl cl mv size by (auto simp: WriteFileAtomic_def Let_def)
      have del: "files (delete_file A ?tmp v) q = files v q" if "q \<noteq> ?tmp" for v q
        using L(8) [of ?tmp q] that by auto
      consider "\<not> ok2" | "ok2" "\<not> ok3" | "ok2" "ok3" "\<not> ok4" | "ok2" "ok3" "ok4" by blast
      then show ?thesis
      proof cases
        case 1
        then show ?thesis using run' cl w2(1) w3 w4(1) del fail [of e2] by simp
      next
        case 2
        then show ?thesis using run' w2(1) w4 fail [of e3] by simp
      next
        case 3
        then show ?thesis using run' w2(1) w4(1) w5 del fail [of e4] by simp
      next
        case 4
        then show ?thesis using run' w2 w3(3) w4(1) w5 by simp
      qed
    qed
  qed (use run in \<open>auto simp: WriteFileAtomic_def\<close>)
qed

section \<open>Reading\<close>

text \<open>An open handle reports the size of its file and reads its bytes.\<close>

definition fs_read_law :: "('w, 'a) file_api_scheme \<Rightarrow> ('w \<Rightarrow> path \<Rightarrow> string option) \<Rightarrow> bool" where
  "fs_read_law A files \<longleftrightarrow> hr_law A \<and>
     (\<forall>p w h e w'. create_read A p w = (Some h, e, w') \<longrightarrow>
        (\<exists>c. files w p = Some c \<and> fst (get_file_size A h w') = of_nat (length c) \<and>
           (\<forall>n b e. read_file A h n w' = (True, b, e) \<longrightarrow> b = take n c) \<and>
           (\<forall>n b e. read_file A h n w' = (False, b, e) \<longrightarrow> e \<noteq> 0))) \<and>
     (\<forall>p w e w'. create_read A p w = (None, e, w') \<longrightarrow> e \<noteq> 0)"

lemma ReadFile_ok:
  assumes "fs_read_law A files" "ReadFile A p content w = ((hr, bytes), w')" "\<not> FAILED hr"
    and "files w p = Some c" "length c < 2 ^ 32 - 1"
  shows "bytes = c"
proof -
  note hr = assms(1) [unfolded fs_read_law_def, THEN conjunct1]
  have fail: "FAILED (HResultFromWin32 A e)" if "e \<noteq> 0" for e
    using that hr by (simp add: HResultFromWin32_def hr_law_simps)
  obtain ho e w1 where cr: "create_read A p w = (ho, e, w1)" by (metis prod_cases3)
  have none: "ho = None \<Longrightarrow> e \<noteq> 0" using assms(1) cr unfolding fs_read_law_def by blast
  obtain h where h: "ho = Some h"
    using none assms(2,3) cr fail [of e] by (cases ho) (auto simp: ReadFile_def LastErrorAsHResult_def)
  obtain sz le where gs: "get_file_size A h w1 = (sz, le)" by fastforce
  obtain rc b e2 where rd: "read_file A h (unat sz) w1 = (rc, b, e2)" by (metis prod_cases3)
  have l: "sz = of_nat (length c)" "rc \<Longrightarrow> b = take (unat sz) c" "\<not> rc \<Longrightarrow> e2 \<noteq> 0"
    using assms(1) [unfolded fs_read_law_def, THEN conjunct2, THEN conjunct1, rule_format, OF cr [unfolded h]]
      assms(4) gs rd by auto
  have n: "unat sz = length c" using assms(5) by (simp add: l(1) unsigned_of_nat take_bit_nat_eq_self)
  then have v: "sz \<noteq> INVALID_FILE_SIZE" "sz = 0 \<longleftrightarrow> c = []" using assms(5) by (auto simp: unat_eq_0)
  show ?thesis
    using assms(2,3) cr h gs rd v n l(2,3) fail
    by (auto simp: ReadFile_def LastErrorAsHResult_def Let_def split: if_splits alloc.splits prod.splits)
qed

end
