(* ===== verification/UserSettings.thy ===== *)
theory UserSettings
  imports SettingsAction Triggers Logging FileIo
begin

text \<open>
  \<open>settings/Rule.cc\<close>, \<open>settings/UserSettings.cc\<close>, \<open>settings/BasicSettingsReader\<close> and
  \<open>settings/BasicSettingsStore.h\<close>: a rule, the list of rules of a document, and the store that
  loads, saves and publishes the document.  A rule that does not parse is logged and left out; any
  other exception stops the load.
\<close>

section \<open>settings/Rule.cc\<close>

(* @ app/settings/Rule.h:8-31 Rule *)
record 'n Rule =
  rnode :: 'n
  rname :: wstr
  rfilter :: "'n Filter"
  rindex :: "32 word"
  rtriggers :: TriggerFlags
  raction :: "'n Action"

(* @ app/settings/Rule.cc:10-22 checkRuleNode *)
definition checkRuleNode :: "('t, 'n, 'a) ryml_scheme \<Rightarrow> 't \<Rightarrow> 'n \<Rightarrow> exn + unit" where
  "checkRuleNode Y t n =
     (if \<not> y_is_map Y t n then Inl (ParseErr (mkParseError kExpectedMap KeyRule))
      else if \<not> y_has_child Y t n kWhere then Inl (ParseErr (mkParseError kMissingRequiredKey KeyWhere))
      else if \<not> y_has_child Y t n kThen then Inl (ParseErr (mkParseError kMissingRequiredKey KeyThen))
      else Inr ())"

(* @ app/settings/Rule.cc:24-35 Rule::Rule *)
definition makeRule :: "('t, 'n, 'a) ryml_scheme \<Rightarrow> 't \<Rightarrow> 'n \<Rightarrow> 32 word \<Rightarrow> exn + 'n Rule" where
  "makeRule Y t node index =
     rbind (checkRuleNode Y t node) (\<lambda>_.
     rbind (ReadStringFromNode Y t (y_at Y t node kName) KeyName) (\<lambda>name.
     rbind (makeFilter Y t (y_at Y t node kWhere)) (\<lambda>f.
     rbind (ReadTriggerFlagsFromNode Y t node) (\<lambda>triggers.
     rbind (makeAction Y t (y_at Y t node kThen)) (\<lambda>a.
     Inr \<lparr>rnode = node, rname = name, rfilter = f, rindex = index, rtriggers = triggers,
          raction = a\<rparr>)))))"

text \<open>\<open>None\<close>: a loop of the writer that does not end.\<close>

(* @ app/settings/Rule.cc:37-48 Rule::setTriggerFlags *)
definition setTriggerFlags ::
  "('t, 'n, 'a) ryml_scheme \<Rightarrow> 't \<Rightarrow> 'n Rule \<Rightarrow> TriggerFlags \<Rightarrow> (exn + 't option \<times> 'n Rule) option" where
  "setTriggerFlags Y t r value =
     (if rtriggers r = value then Some (Inr (Some t, r))
      else case WriteTriggerFlagsToNode Y t (rnode r) value of
        None \<Rightarrow> None
      | Some res \<Rightarrow>
          Some (rbind res (\<lambda>(hr, t').
            if FAILED hr then Inl (throw_hresult hr) else Inr (t', r\<lparr>rtriggers := value\<rparr>))))"

section \<open>settings/UserSettings.cc\<close>

text \<open>The loop over the rule nodes, with the logger the warnings go to: what was logged before an exception
  stays logged.\<close>

(* @ app/settings/UserSettings.cc:36-47 readRules *)
fun read_rules_loop ::
  "('t, 'n, 'a) ryml_scheme \<Rightarrow> 't \<Rightarrow> nat \<Rightarrow> 'n list \<Rightarrow> 32 word \<Rightarrow> Logger option \<Rightarrow>
   (exn + 'n Rule list) \<times> Logger option" where
  "read_rules_loop Y t now [] index lg = (Inr [], lg)"
| "read_rules_loop Y t now (rule # rules) index lg =
     (case makeRule Y t rule index of
        Inr r \<Rightarrow> apfst (\<lambda>res. rbind res (\<lambda>rs. Inr (r # rs))) (read_rules_loop Y t now rules (index + 1) lg)
      | Inl (ParseErr err) \<Rightarrow>
          (case rbind (makeRuleDisplayName Y t rule err index) (makeParseErrorMessage Y err) of
             Inl e \<Rightarrow> (Inl e, lg)
           | Inr msg \<Rightarrow> read_rules_loop Y t now rules (index + 1) (log_warn now GroupSettings msg E_INVALIDARG lg))
      | Inl e \<Rightarrow> (Inl e, lg))"

(* @ app/settings/UserSettings.cc:16-48 readRules *)
definition readRules ::
  "('t, 'n, 'a) ryml_scheme \<Rightarrow> 't \<Rightarrow> nat \<Rightarrow> 'n \<Rightarrow> Logger option \<Rightarrow> (exn + 'n Rule list) \<times> Logger option"
where
  "readRules Y t now n lg =
     (if \<not> y_has_child Y t n kRules then (Inr [], lg)
      else let rules = y_at Y t n kRules in
        if \<not> y_is_seq Y t rules then (Inr [], lg)
        else if y_num_children Y t rules = 0 then (Inr [], lg)
        else read_rules_loop Y t now (y_children Y t rules) 1 lg)"

(* @ app/settings/UserSettings.h:9-23 UserSettings *)
record 'n UserSettings =
  unode :: 'n
  urules :: "'n Rule list"

(* @ app/settings/UserSettings.cc:50-53 UserSettings::UserSettings *)
definition makeUserSettings ::
  "('t, 'n, 'a) ryml_scheme \<Rightarrow> 't \<Rightarrow> nat \<Rightarrow> 'n \<Rightarrow> Logger option \<Rightarrow> (exn + 'n UserSettings) \<times> Logger option"
where
  "makeUserSettings Y t now node lg =
     apfst (\<lambda>res. rbind res (\<lambda>rs. Inr \<lparr>unode = node, urules = rs\<rparr>)) (readRules Y t now node lg)"

(* @ app/settings/UserSettings.h:25-45 UserSettingsDocument *)
record ('t, 'n) UserSettingsDocument =
  doc_tree :: 't
  doc_root :: "'n UserSettings option"

text \<open>\<open>parse\<close> writes the tree in place: when it throws, the new tree stays with the old root.\<close>

(* @ app/settings/UserSettings.cc:55-58 UserSettingsDocument::parse *)
definition doc_parse ::
  "('t, 'n, 'a) ryml_scheme \<Rightarrow> nat \<Rightarrow> string \<Rightarrow> Logger option \<Rightarrow> ('t, 'n) UserSettingsDocument \<Rightarrow>
   exn option \<times> ('t, 'n) UserSettingsDocument \<times> Logger option" where
  "doc_parse Y now yaml lg doc =
     (case y_parse_in_arena Y yaml (doc_tree doc) of
        (t', Some e) \<Rightarrow> (Some e, doc\<lparr>doc_tree := t'\<rparr>, lg)
      | (t', None) \<Rightarrow>
          (case makeUserSettings Y t' now (y_root Y t') lg of
             (Inl e, lg') \<Rightarrow> (Some e, doc\<lparr>doc_tree := t'\<rparr>, lg')
           | (Inr us, lg') \<Rightarrow> (None, \<lparr>doc_tree = t', doc_root = Some us\<rparr>, lg')))"

(* @ app/settings/UserSettings.cc:60-63 UserSettingsDocument::reset *)
definition doc_reset ::
  "('t, 'n, 'a) ryml_scheme \<Rightarrow> ('t, 'n) UserSettingsDocument \<Rightarrow> ('t, 'n) UserSettingsDocument" where
  "doc_reset Y doc = \<lparr>doc_tree = y_empty Y, doc_root = None\<rparr>"

(* @ app/settings/UserSettings.cc:65-68 UserSettingsDocument::str *)
definition doc_str :: "('t, 'n, 'a) ryml_scheme \<Rightarrow> ('t, 'n) UserSettingsDocument \<Rightarrow> exn + string" where
  "doc_str Y doc = y_emit Y (doc_tree doc)"

(* @ app/settings/constants.h:5-5 kUserSettingsFileName *)
definition kUserSettingsFileName :: wstr where "kUserSettingsFileName = widen (CHR 0x5C # ''roxyg_user.yaml'')"

(* @ app/settings/UserSettings.cc:70-72 UserSettingsDocument::fileName *)
definition doc_fileName :: wstr where "doc_fileName = kUserSettingsFileName"

section \<open>settings/BasicSettingsReader and BasicSettingsStore\<close>

text \<open>The application's local folder is the platform's: a path, or the exception of the call.\<close>

(* @ app/settings/BasicSettingsReader.cc:11-16 ResolveSettingsPath *)
definition ResolveSettingsPath :: "exn + path \<Rightarrow> wstr \<Rightarrow> exn + path" where
  "ResolveSettingsPath local_folder file_name =
     rbind local_folder (\<lambda>dir_path. Inr (dir_path @ file_name))"

(* @ app/settings/BasicSettingsReader.cc:18-21 IsTransientReadError *)
definition IsTransientReadError :: "'a sys_scheme \<Rightarrow> hresult \<Rightarrow> bool" where
  "IsTransientReadError A hr \<longleftrightarrow> hr = kErrorAccessDenied A \<or> hr = kErrorSharingViolation A"

(* @ app/settings/BasicSettingsReader.cc:23-25 IsFileMissing *)
definition IsFileMissing :: "'a sys_scheme \<Rightarrow> hresult \<Rightarrow> bool" where
  "IsFileMissing A hr \<longleftrightarrow> hr = kErrorFileNotFound A"

(* @ app/settings/BasicSettingsReader.h:45-90 BasicSettingsReader *)
record ('t, 'n, 'l) UserSettingsStore =
  store_listeners :: "'l list"
  document :: "('t, 'n) UserSettingsDocument"
  store_logger :: "Logger option"

text \<open>\<open>on_changed l doc\<close> is the effect of a listener's \<open>onSettingsChanged\<close> on the world.\<close>

(* @ app/settings/BasicSettingsReader.h:76-76 BasicSettingsReader::load *)
definition notify_settings ::
  "('l \<Rightarrow> ('t, 'n) UserSettingsDocument \<Rightarrow> 'w \<Rightarrow> 'w) \<Rightarrow> ('t, 'n, 'l) UserSettingsStore \<Rightarrow> 'w \<Rightarrow> 'w" where
  "notify_settings on_changed st w =
     notify (\<lambda>l. on_changed l (document st)) (store_listeners st) w"

text \<open>\<open>load\<close> is \<open>noexcept\<close>: an exception that \<open>winrt::to_hresult\<close> does not translate ends the
  process (\<open>None\<close>).\<close>

(* @ app/settings/BasicSettingsReader.h:54-78 BasicSettingsReader::load *)
definition load ::
  "('w, 'b) file_api_scheme \<Rightarrow> ('t, 'n, 'a) ryml_scheme \<Rightarrow> exn + path \<Rightarrow> nat \<Rightarrow>
   ('l \<Rightarrow> ('t, 'n) UserSettingsDocument \<Rightarrow> 'w \<Rightarrow> 'w) \<Rightarrow> ('t, 'n, 'l) UserSettingsStore \<Rightarrow> 'w \<Rightarrow>
   (hresult \<times> ('t, 'n, 'l) UserSettingsStore \<times> 'w) option" where
  "load A Y local_folder now on_changed st w =
     (case ResolveSettingsPath local_folder doc_fileName of
        Inl e \<Rightarrow> map_option (\<lambda>hr. (hr, st, w)) (to_hresult e)
      | Inr file_path \<Rightarrow>
          let ((hr, bytes), w1) = ReadFile A file_path [] w in
          if FAILED hr \<and> \<not> IsFileMissing A hr then Some (hr, st, w1)
          else if bytes = [] then
            (let st' = st\<lparr>document := doc_reset Y (document st)\<rparr>
             in Some (S_OK, st', notify_settings on_changed st' w1))
          else
            (case doc_parse Y now bytes (store_logger st) (document st) of
               (Some e, doc', lg') \<Rightarrow>
                 map_option (\<lambda>hr. (hr, st\<lparr>document := doc', store_logger := lg'\<rparr>, w1)) (to_hresult e)
             | (None, doc', lg') \<Rightarrow>
                 (let st' = st\<lparr>document := doc', store_logger := lg'\<rparr>
                  in Some (S_OK, st', notify_settings on_changed st' w1))))"

(* @ app/settings/BasicSettingsStore.h:24-35 BasicSettingsStore::save *)
definition save ::
  "('w, 'b) file_api_scheme \<Rightarrow> ('t, 'n, 'a) ryml_scheme \<Rightarrow> exn + path \<Rightarrow>
   ('t, 'n, 'l) UserSettingsStore \<Rightarrow> 'w \<Rightarrow> (hresult \<times> 'w) option" where
  "save A Y local_folder st w =
     (case rbind (doc_str Y (document st)) (\<lambda>s.
             rbind (ResolveSettingsPath local_folder doc_fileName) (\<lambda>p. Inr (s, p))) of
        Inl e \<Rightarrow> map_option (\<lambda>hr. (hr, w)) (to_hresult e)
      | Inr (s, p) \<Rightarrow> Some (WriteFileAtomic A p s w))"

(* @ app/settings/BasicSettingsStore.h:37-44 BasicSettingsStore::commit *)
definition commit ::
  "('w, 'b) file_api_scheme \<Rightarrow> ('t, 'n, 'a) ryml_scheme \<Rightarrow> exn + path \<Rightarrow>
   ('l \<Rightarrow> ('t, 'n) UserSettingsDocument \<Rightarrow> 'w \<Rightarrow> 'w) \<Rightarrow> ('t, 'n, 'l) UserSettingsStore \<Rightarrow> 'w \<Rightarrow>
   (hresult \<times> 'w) option" where
  "commit A Y local_folder on_changed st w =
     save A Y local_folder st (notify_settings on_changed st w)"

section \<open>What a rule promises\<close>

definition rule_wf :: "('t, 'n, 'a) ryml_scheme \<Rightarrow> 't \<Rightarrow> 'n Rule \<Rightarrow> bool" where
  "rule_wf Y t r \<longleftrightarrow> y_is_map Y t (rnode r) \<and>
     y_has_child Y t (rnode r) kWhere \<and> y_has_child Y t (rnode r) kThen \<and>
     fnode (rfilter r) = y_at Y t (rnode r) kWhere \<and> y_is_map Y t (fnode (rfilter r)) \<and>
     anode (raction r) = y_at Y t (rnode r) kThen \<and> y_is_map Y t (anode (raction r)) \<and>
     trigger_flags (rtriggers r)"

lemma trigger_flags_or: "trigger_flags a \<Longrightarrow> trigger_flags b \<Longrightarrow> trigger_flags (a OR b)"
  by (simp add: trigger_flags_def take_bit_or)

lemma toTriggerFlags_range: "trigger_flags (toTriggerFlags Y s)"
proof (cases "toOptionalTriggerFlags Y s")
  case (Some f)
  then show ?thesis
    using toOptionalTriggerFlags_range [OF Some]
    by (auto simp: toTriggerFlags_def trigger_flags_def take_bit_eq_mask mask_numeral)
qed (simp add: toTriggerFlags_def kTriggerNone_def trigger_flags_def)

lemma ReadTriggerFlags_range:
  assumes "ReadTriggerFlagsFromNode Y t n = Inr v"
  shows "trigger_flags v"
proof -
  have "trigger_flags r \<Longrightarrow> trigger_flags
      (foldl (\<lambda>ret v. if y_has_val Y t v then ret OR toTriggerFlags Y (y_val Y t v) else ret) r cs)" for r cs
    by (induction cs arbitrary: r) (simp_all add: trigger_flags_or toTriggerFlags_range)
  then have "trigger_flags (read_trigger_seq Y t cs)" for cs
    by (simp add: read_trigger_seq_def kTriggerNone_def trigger_flags_def)
  then show ?thesis
    using assms toTriggerFlags_range
    by (auto simp: ReadTriggerFlagsFromNode_def Let_def kTriggerNone_def trigger_flags_def split: if_splits)
qed

lemma makeFilter_node: "makeFilter Y t n = Inr f \<Longrightarrow> fnode f = n \<and> y_is_map Y t n"
  unfolding makeFilter_def checkFilterNode_def rbind_eq_Inr by (auto split: if_splits)

lemma makeAction_node: "makeAction Y t n = Inr a \<Longrightarrow> anode a = n \<and> y_is_map Y t n"
  unfolding makeAction_def checkActionNode_def rbind_eq_Inr by (auto split: if_splits)

lemma checkRuleNode_ok:
  "checkRuleNode Y t n = Inr u \<longleftrightarrow> y_is_map Y t n \<and> y_has_child Y t n kWhere \<and> y_has_child Y t n kThen"
  by (simp add: checkRuleNode_def)

lemma makeRule_wf:
  assumes "makeRule Y t node index = Inr r"
  shows "rule_wf Y t r" "rnode r = node" "rindex r = index"
proof -
  obtain u name f v a where parts: "checkRuleNode Y t node = Inr u"
      "makeFilter Y t (y_at Y t node kWhere) = Inr f" "ReadTriggerFlagsFromNode Y t node = Inr v"
      "makeAction Y t (y_at Y t node kThen) = Inr a"
    and r: "r = \<lparr>rnode = node, rname = name, rfilter = f, rindex = index, rtriggers = v, raction = a\<rparr>"
    using assms unfolding makeRule_def rbind_eq_Inr by blast
  show "rule_wf Y t r" "rnode r = node" "rindex r = index"
    using parts(1) makeFilter_node [OF parts(2)] ReadTriggerFlags_range [OF parts(3)]
      makeAction_node [OF parts(4)]
    by (simp_all add: r rule_wf_def checkRuleNode_ok)
qed

text \<open>The rules that were read are the ones that parse, in document order, numbered by position.\<close>

fun accepted :: "('t, 'n, 'a) ryml_scheme \<Rightarrow> 't \<Rightarrow> 'n list \<Rightarrow> 32 word \<Rightarrow> 'n Rule list" where
  "accepted Y t [] index = []"
| "accepted Y t (n # ns) index =
     (case makeRule Y t n index of Inr r \<Rightarrow> [r] | Inl _ \<Rightarrow> []) @ accepted Y t ns (index + 1)"

fun rejected :: "('t, 'n, 'a) ryml_scheme \<Rightarrow> 't \<Rightarrow> 'n list \<Rightarrow> 32 word \<Rightarrow> ParseError list" where
  "rejected Y t [] index = []"
| "rejected Y t (n # ns) index =
     (case makeRule Y t n index of Inl (ParseErr e) \<Rightarrow> [e] | _ \<Rightarrow> []) @ rejected Y t ns (index + 1)"

lemma read_rules_accepted:
  "read_rules_loop Y t now ns index lg = (Inr rs, lg') \<Longrightarrow> rs = accepted Y t ns index"
proof (induction ns arbitrary: index lg rs)
  case (Cons n ns)
  then show ?case
    by (auto simp: res_simps apfst_def map_prod_def split: sum.splits exn.splits prod.splits)
qed simp

lemma read_rules_logged:
  assumes "read_rules_loop Y t now ns index (Some lg) = (Inr rs, lg')" "logger_wf lg"
  shows "\<exists>ms. lg' = Some (fold (\<lambda>l lg. fst (addLog l lg)) ms lg) \<and>
    length ms = length (rejected Y t ns index) \<and>
    (\<forall>m \<in> set ms. log_level m = LevelWarn \<and> log_group m = GroupSettings \<and> log_hresult m = E_INVALIDARG)"
  using assms
proof (induction ns arbitrary: index lg rs)
  case Nil
  then show ?case by (intro exI [of _ "[]"]) simp
next
  case (Cons n ns)
  show ?case
  proof (cases "makeRule Y t n index")
    case (Inr r)
    then obtain rs1 where "read_rules_loop Y t now ns (index + 1) (Some lg) = (Inr rs1, lg')"
      using Cons.prems(1) by (auto simp: res_simps apfst_def map_prod_def split: prod.splits)
    from Cons.IH [OF this Cons.prems(2)] show ?thesis by (simp add: Inr)
  next
    case (Inl e)
    then obtain err where e: "e = ParseErr err"
      using Cons.prems(1) by (cases e) simp_all
    obtain msg where run: "read_rules_loop Y t now ns (index + 1)
        (log_warn now GroupSettings msg E_INVALIDARG (Some lg)) = (Inr rs, lg')"
      using Cons.prems(1) Inl e by (auto split: sum.splits)
    define l where "l = \<lparr>datetime = now, log_content = msg, log_hresult = E_INVALIDARG,
        log_level = LevelWarn, log_group = GroupSettings\<rparr>"
    have warn: "log_warn now GroupSettings msg E_INVALIDARG (Some lg) = Some (fst (addLog l lg))"
      by (simp add: log_warn_def helper_log_def l_def)
    obtain ms where ms: "lg' = Some (fold (\<lambda>l lg. fst (addLog l lg)) ms (fst (addLog l lg)))"
        "length ms = length (rejected Y t ns (index + 1))"
        "\<forall>m \<in> set ms. log_level m = LevelWarn \<and> log_group m = GroupSettings \<and> log_hresult m = E_INVALIDARG"
      using Cons.IH [OF run [unfolded warn] addLog_wf [OF Cons.prems(2)]] by blast
    show ?thesis
      using ms Inl e by (intro exI [of _ "l # ms"]) (simp add: l_def)
  qed
qed

lemma accepted_wf: "r \<in> set (accepted Y t ns index) \<Longrightarrow> rule_wf Y t r"
proof (induction ns arbitrary: index)
  case (Cons n ns)
  then show ?case using makeRule_wf(1) by (cases "makeRule Y t n index") auto
qed simp

lemma accepted_index:
  "r \<in> set (accepted Y t ns index) \<Longrightarrow> \<exists>i < length ns. rnode r = ns ! i \<and> rindex r = index + of_nat i"
proof (induction ns arbitrary: index)
  case (Cons n ns)
  then consider "makeRule Y t n index = Inr r" | "r \<in> set (accepted Y t ns (index + 1))"
    by (auto split: sum.splits)
  then show ?case
  proof cases
    case 1
    then show ?thesis using makeRule_wf [OF 1] by (intro exI [of _ 0]) simp
  next
    case 2
    then obtain i where "i < length ns" "rnode r = ns ! i" "rindex r = index + 1 + of_nat i"
      using Cons.IH by blast
    then show ?thesis by (intro exI [of _ "Suc i"]) simp
  qed
qed simp

end
