(* ===== verification/Compiler.thy ===== *)
theory Compiler
  imports Operations UserSettings "HOL-Library.Sublist"
begin

text \<open>
  \<open>compiler/\<close>: from a settings document to the rule set the engine runs.  A predicate is a function
  of its data, the world and a window state, which its getter may update; \<open>None\<close> is a getter that
  does not return.  A \<open>PredicateSet\<close> is a \<open>static_vector\<close> of capacity 2, whose \<open>emplace_back\<close> throws
  \<open>std::bad_alloc\<close> when it is full.
\<close>

record 'w eng_api = "'w mon_api" +
  enum_flags_test :: "32 word \<Rightarrow> 32 word \<Rightarrow> bool"
  obj_alloc :: bool

section \<open>engine/Predicate.h\<close>

(* @ app/engine/Predicate.h:9-15 Predicate *)
record 'w Predicate =
  evaluate :: "wstr option \<Rightarrow> 'w \<Rightarrow> WindowState \<Rightarrow> ((exn + bool) \<times> WindowState) option"
  pdata :: "wstr option"

(* @ app/engine/Predicate.h:17-17 PredicateSet *)
definition predicate_capacity :: nat where "predicate_capacity = 2"

(* @ app/engine/Predicate.h:17-17 PredicateSet *)
definition predicate_emplace :: "'w Predicate \<Rightarrow> 'w Predicate list \<Rightarrow> exn + 'w Predicate list" where
  "predicate_emplace p ps = (if length ps < predicate_capacity then Inr (ps @ [p]) else Inl BadAlloc)"

section \<open>compiler/filter: the matchers\<close>

text \<open>\<open>std::get<std::wstring>\<close> of a predicate without a string throws.\<close>

definition match_text ::
  "('w \<Rightarrow> WindowState \<Rightarrow> ((exn + wstr) \<times> WindowState) option) \<Rightarrow> (wstr \<Rightarrow> wstr \<Rightarrow> bool) \<Rightarrow>
   wstr option \<Rightarrow> 'w \<Rightarrow> WindowState \<Rightarrow> ((exn + bool) \<times> WindowState) option" where
  "match_text getter test d w s =
     map_option (\<lambda>(r, s'). (rbind r (\<lambda>text. case d of None \<Rightarrow> Inl StdExn | Some pat \<Rightarrow> Inr (test text pat)), s'))
       (getter w s)"

definition text_equals :: "wstr \<Rightarrow> wstr \<Rightarrow> bool" where "text_equals text pat \<longleftrightarrow> text = pat"
definition text_contains :: "wstr \<Rightarrow> wstr \<Rightarrow> bool" where "text_contains text pat \<longleftrightarrow> sublist pat text"
definition text_starts_with :: "wstr \<Rightarrow> wstr \<Rightarrow> bool" where "text_starts_with text pat \<longleftrightarrow> prefix pat text"
definition text_ends_with :: "wstr \<Rightarrow> wstr \<Rightarrow> bool" where "text_ends_with text pat \<longleftrightarrow> suffix pat text"

lemmas text_test_defs = text_equals_def text_contains_def text_starts_with_def text_ends_with_def

(* @ app/compiler/filter/ProcessImageNameMatcher.cc:14-16 matchesProcessImageNameEquals *)
definition matchesProcessImageNameEquals where
  "matchesProcessImageNameEquals A = match_text (processImageName A) text_equals"
(* @ app/compiler/filter/ProcessImageNameMatcher.cc:18-20 matchesProcessImageNameContains *)
definition matchesProcessImageNameContains where
  "matchesProcessImageNameContains A = match_text (processImageName A) text_contains"
(* @ app/compiler/filter/ProcessImageNameMatcher.cc:22-24 matchesProcessImageNameStartsWith *)
definition matchesProcessImageNameStartsWith where
  "matchesProcessImageNameStartsWith A = match_text (processImageName A) text_starts_with"
(* @ app/compiler/filter/ProcessImageNameMatcher.cc:26-28 matchesProcessImageNameEndsWith *)
definition matchesProcessImageNameEndsWith where
  "matchesProcessImageNameEndsWith A = match_text (processImageName A) text_ends_with"

text \<open>The \<open>default\<close> branch of each \<open>switch\<close> is for values outside the enumeration.\<close>

(* @ app/compiler/filter/ProcessImageNameMatcher.cc:30-57 filter::CompileProcessImageName *)
definition CompileProcessImageName :: "('w, 'a) win_api_scheme \<Rightarrow> StringAndMatchType \<Rightarrow> 'w Predicate" where
  "CompileProcessImageName A conf =
     \<lparr>evaluate = (case fst conf of
        kEquals \<Rightarrow> matchesProcessImageNameEquals A
      | kContains \<Rightarrow> matchesProcessImageNameContains A
      | kStartsWith \<Rightarrow> matchesProcessImageNameStartsWith A
      | kEndsWith \<Rightarrow> matchesProcessImageNameEndsWith A),
      pdata = Some (snd conf)\<rparr>"

definition windowClass' where "windowClass' A w s = Some (windowClass A w s)"
definition windowTitle' where "windowTitle' A w s = Some (windowTitle A w s)"

(* @ app/compiler/filter/WindowClassMatcher.cc:14-16 matchesWindowClassEquals *)
definition matchesWindowClassEquals where
  "matchesWindowClassEquals A = match_text (windowClass' A) text_equals"
(* @ app/compiler/filter/WindowClassMatcher.cc:18-20 matchesWindowClassContains *)
definition matchesWindowClassContains where
  "matchesWindowClassContains A = match_text (windowClass' A) text_contains"
(* @ app/compiler/filter/WindowClassMatcher.cc:22-24 matchesWindowClassStartsWith *)
definition matchesWindowClassStartsWith where
  "matchesWindowClassStartsWith A = match_text (windowClass' A) text_starts_with"
(* @ app/compiler/filter/WindowClassMatcher.cc:26-28 matchesWindowClassEndsWith *)
definition matchesWindowClassEndsWith where
  "matchesWindowClassEndsWith A = match_text (windowClass' A) text_ends_with"

(* @ app/compiler/filter/WindowClassMatcher.cc:30-57 filter::CompileWindowClass *)
definition CompileWindowClass :: "('w, 'a) win_api_scheme \<Rightarrow> StringAndMatchType \<Rightarrow> 'w Predicate" where
  "CompileWindowClass A conf =
     \<lparr>evaluate = (case fst conf of
        kEquals \<Rightarrow> matchesWindowClassEquals A
      | kContains \<Rightarrow> matchesWindowClassContains A
      | kStartsWith \<Rightarrow> matchesWindowClassStartsWith A
      | kEndsWith \<Rightarrow> matchesWindowClassEndsWith A),
      pdata = Some (snd conf)\<rparr>"

(* @ app/compiler/filter/WindowTitleMatcher.cc:14-16 matchesWindowTitleEquals *)
definition matchesWindowTitleEquals where
  "matchesWindowTitleEquals A = match_text (windowTitle' A) text_equals"
(* @ app/compiler/filter/WindowTitleMatcher.cc:18-20 matchesWindowTitleContains *)
definition matchesWindowTitleContains where
  "matchesWindowTitleContains A = match_text (windowTitle' A) text_contains"
(* @ app/compiler/filter/WindowTitleMatcher.cc:22-24 matchesWindowTitleStartsWith *)
definition matchesWindowTitleStartsWith where
  "matchesWindowTitleStartsWith A = match_text (windowTitle' A) text_starts_with"
(* @ app/compiler/filter/WindowTitleMatcher.cc:26-28 matchesWindowTitleEndsWith *)
definition matchesWindowTitleEndsWith where
  "matchesWindowTitleEndsWith A = match_text (windowTitle' A) text_ends_with"

(* @ app/compiler/filter/WindowTitleMatcher.cc:30-57 filter::CompileWindowTitle *)
definition CompileWindowTitle :: "('w, 'a) win_api_scheme \<Rightarrow> StringAndMatchType \<Rightarrow> 'w Predicate" where
  "CompileWindowTitle A conf =
     \<lparr>evaluate = (case fst conf of
        kEquals \<Rightarrow> matchesWindowTitleEquals A
      | kContains \<Rightarrow> matchesWindowTitleContains A
      | kStartsWith \<Rightarrow> matchesWindowTitleStartsWith A
      | kEndsWith \<Rightarrow> matchesWindowTitleEndsWith A),
      pdata = Some (snd conf)\<rparr>"

lemmas matcher_defs =
  CompileProcessImageName_def CompileWindowClass_def CompileWindowTitle_def
  matchesProcessImageNameEquals_def matchesProcessImageNameContains_def
  matchesProcessImageNameStartsWith_def matchesProcessImageNameEndsWith_def
  matchesWindowClassEquals_def matchesWindowClassContains_def matchesWindowClassStartsWith_def
  matchesWindowClassEndsWith_def matchesWindowTitleEquals_def matchesWindowTitleContains_def
  matchesWindowTitleStartsWith_def matchesWindowTitleEndsWith_def

(* @ app/compiler/filter/CompileFilter.cc:9-28 filter::CompileFilter *)
definition CompileFilter :: "('w, 'a) win_api_scheme \<Rightarrow> 'n Filter \<Rightarrow> exn + 'w Predicate list" where
  "CompileFilter A f =
     (let p = process_image_name f; c = window_class f; t = window_title f in
      rbind (if snd p \<noteq> [] then predicate_emplace (CompileProcessImageName A p) [] else Inr []) (\<lambda>cond.
      rbind (if snd c \<noteq> [] \<or> fst c = kEquals then predicate_emplace (CompileWindowClass A c) cond
             else Inr cond) (\<lambda>cond.
      if snd t \<noteq> [] \<or> fst t = kEquals then predicate_emplace (CompileWindowTitle A t) cond
      else Inr cond)))"

section \<open>compiler: actions and rules\<close>

(* @ app/compiler/CompilationContext.cc:8-19 CompilationContext::resolveMonitorId *)
definition resolveMonitorId :: "('w, 'a) win_api_scheme \<Rightarrow> 'w \<Rightarrow> MonitorStates \<Rightarrow> int \<Rightarrow> handle" where
  "resolveMonitorId A w monitors n =
     (if n = 0 then GetPrimaryHMonitor A w
      else (case findById monitors n of None \<Rightarrow> 0 | Some state \<Rightarrow> mon_handle state))"

(* @ app/compiler/CompileAction.cc:11-38 CompileAction *)
definition CompileAction ::
  "('w, 'a) eng_api_scheme \<Rightarrow> ('t, 'n, 'b) ryml_scheme \<Rightarrow> 't \<Rightarrow> MonitorStates \<Rightarrow> 'w \<Rightarrow> 'n Action \<Rightarrow>
   exn + Operation option" where
  "CompileAction A Y t monitors w action =
     (case atype action of
        kAbsoluteMoveAndResize \<Rightarrow>
          rbind (as_absolute Y t action) (\<lambda>detail.
            if \<not> obj_alloc A then Inl BadAlloc
            else Inr (Some (makeAbsoluteOperation (abs_bounds detail))))
      | kRelativeMoveAndResize \<Rightarrow>
          rbind (as_relative Y t action) (\<lambda>detail.
            let hmon = resolveMonitorId A w monitors (sint (rel_id detail)) in
            if hmon = 0 then Inr None
            else if \<not> obj_alloc A then Inl BadAlloc
            else Inr (Some (makeRelativeOperation hmon (rel_bounds detail))))
      | kInvalid \<Rightarrow> Inr None)"

(* @ app/engine/Rule.h:11-15 Rule *)
record 'w EngineRule =
  er_trigger :: TriggerFlags
  er_operation :: Operation
  er_condition :: "'w Predicate list"

type_synonym 'w RuleSet = "'w EngineRule list"

(* @ app/compiler/CompileRule.cc:18-26 CompileRule *)
fun compile_rules ::
  "('w, 'a) eng_api_scheme \<Rightarrow> ('t, 'n, 'b) ryml_scheme \<Rightarrow> 't \<Rightarrow> MonitorStates \<Rightarrow> 'w \<Rightarrow> 'n Rule list \<Rightarrow>
   'w RuleSet \<Rightarrow> exn + 'w RuleSet" where
  "compile_rules A Y t monitors w [] rules = Inr rules"
| "compile_rules A Y t monitors w (rule # rest) rules =
     rbind (CompileAction A Y t monitors w (raction rule)) (\<lambda>op.
       case op of
         None \<Rightarrow> compile_rules A Y t monitors w rest rules
       | Some operation \<Rightarrow>
           rbind (CompileFilter A (rfilter rule)) (\<lambda>predicates.
             if vec_alloc A (Suc (length rules)) = AllocOk then
               compile_rules A Y t monitors w rest (rules @
                 [\<lparr>er_trigger = rtriggers rule, er_operation = operation, er_condition = predicates\<rparr>])
             else if vec_alloc A (Suc (length rules)) = AllocBad then Inl BadAlloc else Inl LengthError))"

(* @ app/compiler/CompileRule.cc:11-28 CompileRule *)
definition CompileRule ::
  "('w, 'a) eng_api_scheme \<Rightarrow> ('t, 'n, 'b) ryml_scheme \<Rightarrow> MonitorStates \<Rightarrow> 'w \<Rightarrow>
   ('t, 'n) UserSettingsDocument \<Rightarrow> exn + 'w RuleSet" where
  "CompileRule A Y monitors w settings =
     (case doc_root settings of
        None \<Rightarrow> Inr []
      | Some us \<Rightarrow> compile_rules A Y (doc_tree settings) monitors w (urules us) [])"

section \<open>What a compiled filter means\<close>

text \<open>The specification: the parts of a filter that constrain, each against the system's answer.\<close>

fun text_matches :: "StringMatchType \<Rightarrow> wstr \<Rightarrow> wstr \<Rightarrow> bool" where
  "text_matches kEquals text pat \<longleftrightarrow> text = pat"
| "text_matches kContains text pat \<longleftrightarrow> sublist pat text"
| "text_matches kStartsWith text pat \<longleftrightarrow> prefix pat text"
| "text_matches kEndsWith text pat \<longleftrightarrow> suffix pat text"

definition constrains_process :: "'n Filter \<Rightarrow> bool" where
  "constrains_process f \<longleftrightarrow> snd (process_image_name f) \<noteq> []"
definition constrains_class :: "'n Filter \<Rightarrow> bool" where
  "constrains_class f \<longleftrightarrow> snd (window_class f) \<noteq> [] \<or> fst (window_class f) = kEquals"
definition constrains_title :: "'n Filter \<Rightarrow> bool" where
  "constrains_title f \<longleftrightarrow> snd (window_title f) \<noteq> [] \<or> fst (window_title f) = kEquals"

lemmas constrains_defs = constrains_process_def constrains_class_def constrains_title_def

definition filter_matches :: "'n Filter \<Rightarrow> wstr \<Rightarrow> wstr \<Rightarrow> wstr \<Rightarrow> bool" where
  "filter_matches f img cls title \<longleftrightarrow>
     (constrains_process f \<longrightarrow> text_matches (fst (process_image_name f)) img (snd (process_image_name f))) \<and>
     (constrains_class f \<longrightarrow> text_matches (fst (window_class f)) cls (snd (window_class f))) \<and>
     (constrains_title f \<longrightarrow> text_matches (fst (window_title f)) title (snd (window_title f)))"

definition constraint_count :: "'n Filter \<Rightarrow> nat" where
  "constraint_count f = of_bool (constrains_process f) + of_bool (constrains_class f) + of_bool (constrains_title f)"

definition predicates_of :: "('w, 'a) win_api_scheme \<Rightarrow> 'n Filter \<Rightarrow> 'w Predicate list" where
  "predicates_of A f =
     (if constrains_process f then [CompileProcessImageName A (process_image_name f)] else []) @
     (if constrains_class f then [CompileWindowClass A (window_class f)] else []) @
     (if constrains_title f then [CompileWindowTitle A (window_title f)] else [])"

lemma CompileFilter_eq:
  "CompileFilter A f = (if constraint_count f \<le> 2 then Inr (predicates_of A f) else Inl BadAlloc)"
  by (simp add: CompileFilter_def constraint_count_def predicates_of_def constrains_defs
      predicate_emplace_def predicate_capacity_def Let_def)

text \<open>The compiled predicates on a window whose three answers are known.\<close>

lemma process_predicate:
  assumes "coherent_names A w s" "info_of A (ws_hwnd s) w = Some (Inr info)"
  shows "\<exists>s'. evaluate (CompileProcessImageName A conf) (pdata (CompileProcessImageName A conf)) w s =
      Some (Inr (text_matches (fst conf) (proc_filepath info) (snd conf)), s') \<and>
    coherent_names A w s' \<and> location_part s' = location_part s"
proof -
  have "processImageName A w s \<noteq> None"
    using assms(2)
    by (auto simp: processImageName_def updateProcessInfo_def info_of_def Let_def split: option.splits prod.splits)
  then obtain r s' where g: "processImageName A w s = Some (r, s')" by auto
  note c = processImageName_names [OF assms(1) g]
  then have "r = Inr (proc_filepath info)" using assms(2) by simp
  then show ?thesis
    using g c by (cases "fst conf") (simp_all add: matcher_defs match_text_def text_test_defs)
qed

lemma class_predicate:
  assumes "coherent_names A w s" "class_of A (ws_hwnd s) w = Inr cls"
  shows "\<exists>s'. evaluate (CompileWindowClass A conf) (pdata (CompileWindowClass A conf)) w s =
      Some (Inr (text_matches (fst conf) cls (snd conf)), s') \<and>
    coherent_names A w s' \<and> location_part s' = location_part s"
proof -
  obtain r s' where g: "windowClass A w s = (r, s')" by fastforce
  then show ?thesis
    using windowClass_names [OF assms(1) g] assms(2)
    by (cases "fst conf") (simp_all add: matcher_defs match_text_def text_test_defs windowClass'_def)
qed

lemma title_predicate:
  assumes "coherent_names A w s" "title_of A (ws_hwnd s) w = Inr title"
  shows "\<exists>s'. evaluate (CompileWindowTitle A conf) (pdata (CompileWindowTitle A conf)) w s =
      Some (Inr (text_matches (fst conf) title (snd conf)), s') \<and>
    coherent_names A w s' \<and> location_part s' = location_part s"
proof -
  obtain r s' where g: "windowTitle A w s = (r, s')" by fastforce
  then show ?thesis
    using windowTitle_names [OF assms(1) g] assms(2)
    by (cases "fst conf") (simp_all add: matcher_defs match_text_def text_test_defs windowTitle'_def)
qed

section \<open>What a compiled rule set holds\<close>

text \<open>The specification, from the settings alone: the monitor an id names (0 is the primary one, a null
  handle is none), the operation an action asks for, and the engine rule of a rule.  An action of no type,
  one whose values do not read and one for a monitor that is not there ask for none.\<close>

definition named_monitor :: "('w, 'a) win_api_scheme \<Rightarrow> 'w \<Rightarrow> MonitorStates \<Rightarrow> int \<Rightarrow> handle" where
  "named_monitor A w monitors n =
     (if n = 0 then PrimaryMonitor A w
      else (case filter (\<lambda>s. mon_id s = n) (map snd monitors) of [] \<Rightarrow> 0 | s # _ \<Rightarrow> mon_handle s))"

definition asked_operation ::
  "('w, 'a) win_api_scheme \<Rightarrow> ('t, 'n, 'b) ryml_scheme \<Rightarrow> 't \<Rightarrow> MonitorStates \<Rightarrow> 'w \<Rightarrow> 'n Action \<Rightarrow> Operation option"
where
  "asked_operation A Y t monitors w a =
     (if atype a = kAbsoluteMoveAndResize then
        (case makeAbsolute Y t (anode a) of Inl _ \<Rightarrow> None | Inr d \<Rightarrow> Some (AbsoluteOp (abs_bounds d)))
      else if atype a = kRelativeMoveAndResize then
        (case makeRelative Y t (anode a) of
           Inl _ \<Rightarrow> None
         | Inr d \<Rightarrow>
             if named_monitor A w monitors (sint (rel_id d)) = 0 then None
             else Some (RelativeOp \<lparr>op_hmonitor = named_monitor A w monitors (sint (rel_id d)),
                    op_bounds = M128 0 0 0 0, op_relative = rel_bounds d, op_dirty = True\<rparr>))
      else None)"

definition compiled ::
  "('w, 'a) eng_api_scheme \<Rightarrow> ('t, 'n, 'b) ryml_scheme \<Rightarrow> 't \<Rightarrow> MonitorStates \<Rightarrow> 'w \<Rightarrow> 'n Rule \<Rightarrow> 'w EngineRule list"
where
  "compiled A Y t monitors w rule =
     (case asked_operation A Y t monitors w (raction rule) of
        Some op \<Rightarrow> [\<lparr>er_trigger = rtriggers rule, er_operation = op, er_condition = predicates_of A (rfilter rule)\<rparr>]
      | None \<Rightarrow> [])"

lemma findById_filter:
  "findById monitors n = (case filter (\<lambda>s. mon_id s = n) (map snd monitors) of [] \<Rightarrow> None | s # _ \<Rightarrow> Some s)"
  by (induction monitors n rule: findById.induct) simp_all

lemma resolveMonitorId_named: "resolveMonitorId A w monitors n = named_monitor A w monitors n"
  by (simp add: resolveMonitorId_def named_monitor_def GetPrimaryHMonitor_def findById_filter split: list.split)

lemma CompileAction_asked:
  "CompileAction A Y t monitors w a = Inr op \<Longrightarrow> op = asked_operation A Y t monitors w a"
  by (cases "atype a")
    (auto simp: CompileAction_def asked_operation_def as_absolute_def as_relative_def rbind_eq_Inr Let_def
      resolveMonitorId_named makeAbsoluteOperation_def makeRelativeOperation_def i4_make_def split: if_splits)

lemma compile_rules_Inr:
  assumes "compile_rules A Y t monitors w rs rules = Inr rules'"
  shows "rules' = rules @ concat (map (compiled A Y t monitors w) rs)"
  using assms
proof (induction rs arbitrary: rules)
  case (Cons r rs)
  obtain op where op: "CompileAction A Y t monitors w (raction r) = Inr op"
    using Cons.prems by (cases "CompileAction A Y t monitors w (raction r)") simp_all
  show ?case
  proof (cases op)
    case None
    then show ?thesis using Cons op CompileAction_asked [OF op] by (simp add: compiled_def)
  next
    case (Some operation)
    then have "compile_rules A Y t monitors w rs (rules @ [\<lparr>er_trigger = rtriggers r,
        er_operation = operation, er_condition = predicates_of A (rfilter r)\<rparr>]) = Inr rules'"
      using Cons.prems op by (simp add: CompileFilter_eq split: if_splits)
    from Cons.IH [OF this] show ?thesis using CompileAction_asked [OF op [unfolded Some], symmetric] by (simp add: compiled_def)
  qed
qed simp

text \<open>Which exceptions a compilation can end with.\<close>

lemma compile_rules_app:
  assumes "compile_rules A Y t monitors w rs rules = Inr rules'"
  shows "compile_rules A Y t monitors w (rs @ rs') rules = compile_rules A Y t monitors w rs' rules'"
  using assms
proof (induction rs arbitrary: rules)
  case (Cons r rs)
  then show ?case
    by (auto simp: rbind_eq_Inr split: option.splits if_splits)
qed simp

end
