(* ===== verification/RuleEngine.thy ===== *)
theory RuleEngine
  imports Compiler
begin

text \<open>
  \<open>engine/RuleEngine.cc\<close>: on a window event, every rule with the event's trigger whose conditions hold
  is executed, in order.  The handlers are \<open>noexcept\<close>: an exception of a getter, of an operation or of
  the compilation that is not \<open>std::bad_alloc\<close> ends the process (\<open>None\<close>).  The rules of the shared
  rule set keep the state of their operations, so the set is returned updated.
\<close>

(* @ app/engine/RuleEngine.h:40-44 RuleEngine *)
record 'w RuleEngine =
  operation_context :: bool
  re_logger :: "Logger option"
  rule_set :: "'w RuleSet"

(* @ app/engine/RuleEngine.cc:35-40 RuleEngine::checkRules *)
fun check_condition :: "'w Predicate list \<Rightarrow> 'w \<Rightarrow> WindowState \<Rightarrow> (bool \<times> WindowState) option" where
  "check_condition [] w s = Some (True, s)"
| "check_condition (p # ps) w s =
     (case evaluate p (pdata p) w s of
        None \<Rightarrow> None
      | Some (Inl e, s') \<Rightarrow> None
      | Some (Inr matched, s') \<Rightarrow> if \<not> matched then Some (False, s') else check_condition ps w s')"

(* @ app/engine/RuleEngine.cc:28-44 RuleEngine::checkRules *)
fun check_rules_loop ::
  "('w, 'a) eng_api_scheme \<Rightarrow> simd_features \<Rightarrow> MonitorStates \<Rightarrow> TriggerFlags \<Rightarrow> 'w RuleSet \<Rightarrow>
   WindowState \<Rightarrow> 'w \<Rightarrow> ('w RuleSet \<times> WindowState \<times> 'w) option" where
  "check_rules_loop A F monitors trigger [] s w = Some ([], s, w)"
| "check_rules_loop A F monitors trigger (rule # rules) s w =
     (let continue = (\<lambda>rule s w.
        map_option (\<lambda>(rules', s', w'). (rule # rules', s', w'))
          (check_rules_loop A F monitors trigger rules s w))
      in if \<not> enum_flags_test A (er_trigger rule) trigger then continue rule s w
         else case check_condition (er_condition rule) w s of
           None \<Rightarrow> None
         | Some (False, s') \<Rightarrow> continue rule s' w
         | Some (True, s') \<Rightarrow>
             (case execute A F monitors (er_operation rule) s' w of
                None \<Rightarrow> None
              | Some (hr, op', s'', w') \<Rightarrow> continue (rule\<lparr>er_operation := op'\<rparr>) s'' w'))"

(* @ app/engine/RuleEngine.cc:20-45 RuleEngine::checkRules *)
definition checkRules ::
  "('w, 'a) eng_api_scheme \<Rightarrow> simd_features \<Rightarrow> MonitorStates \<Rightarrow> TriggerFlags \<Rightarrow> 'w RuleEngine \<Rightarrow>
   WindowState \<Rightarrow> 'w \<Rightarrow> ('w RuleEngine \<times> WindowState \<times> 'w) option" where
  "checkRules A F monitors trigger eng s w =
     (if \<not> operation_context eng then Some (eng, s, w)
      else map_option (\<lambda>(rules', s', w'). (eng\<lparr>rule_set := rules'\<rparr>, s', w'))
             (check_rules_loop A F monitors trigger (rule_set eng) s w))"

(* @ app/engine/RuleEngine.cc:12-13 kRuleCompilationOutOfMemory *)
definition kRuleCompilationOutOfMemory :: wstr where
  "kRuleCompilationOutOfMemory = widen ''Failed to allocate memory while updating the rule set.''"

(* @ app/engine/RuleEngine.cc:47-60 RuleEngine::onSettingsChanged *)
definition onSettingsChanged ::
  "('w, 'a) eng_api_scheme \<Rightarrow> ('t, 'n, 'b) ryml_scheme \<Rightarrow> nat \<Rightarrow> MonitorStates \<Rightarrow> 'w \<Rightarrow>
   ('t, 'n) UserSettingsDocument \<Rightarrow> 'w RuleEngine \<Rightarrow> 'w RuleEngine option" where
  "onSettingsChanged A Y now monitors w settings eng =
     (if \<not> operation_context eng then Some eng
      else case rbind (CompileRule A Y monitors w settings)
             (\<lambda>rules. if obj_alloc A then Inr rules else Inl BadAlloc) of
        Inr rules \<Rightarrow> Some (eng\<lparr>rule_set := rules\<rparr>)
      | Inl BadAlloc \<Rightarrow>
          Some (eng\<lparr>re_logger := log_error now GroupEngine kRuleCompilationOutOfMemory E_OUTOFMEMORY
                                  (re_logger eng)\<rparr>)
      | Inl e \<Rightarrow> None)"

(* @ app/engine/RuleEngine.cc:62-64 RuleEngine::onForegroundEvent *)
definition onForegroundEvent where
  "onForegroundEvent A F monitors eng s w = checkRules A F monitors kWindowFocus eng s w"

(* @ app/engine/RuleEngine.cc:66-68 RuleEngine::onShowEvent *)
definition onShowEvent where
  "onShowEvent A F monitors eng s w = checkRules A F monitors kWindowShow eng s w"

section \<open>Conditions\<close>

lemma check_condition_append:
  "check_condition (ps @ qs) w s =
     (case check_condition ps w s of Some (True, s') \<Rightarrow> check_condition qs w s' | r \<Rightarrow> r)"
  by (induction ps w s rule: check_condition.induct) (simp_all split: option.split sum.split)

text \<open>What the system answers about a window, as the specification of a filter uses it.\<close>

definition answers ::
  "('w, 'a) win_api_scheme \<Rightarrow> handle \<Rightarrow> 'w \<Rightarrow> wstr \<Rightarrow> wstr \<Rightarrow> wstr \<Rightarrow> bool" where
  "answers A h w img cls title \<longleftrightarrow> (\<exists>info. info_of A h w = Some (Inr info) \<and> proc_filepath info = img) \<and>
     class_of A h w = Inr cls \<and> title_of A h w = Inr title"

lemma check_condition_single:
  assumes "evaluate p (pdata p) w s = Some (Inr b, s')"
  shows "check_condition [p] w s = Some (b, s')"
  using assms by simp

lemma location_part_hwnd: "location_part s' = location_part s \<Longrightarrow> ws_hwnd s' = ws_hwnd s"
  by (simp add: location_part_def)

lemma check_condition_matches:
  assumes "coherent_names A w s" "answers A (ws_hwnd s) w img cls title"
  shows "\<exists>s'. check_condition (predicates_of A f) w s = Some (filter_matches f img cls title, s') \<and>
    coherent_names A w s' \<and> location_part s' = location_part s"
proof -
  obtain info where info: "info_of A (ws_hwnd s) w = Some (Inr info)" "proc_filepath info = img"
    and cls: "class_of A (ws_hwnd s) w = Inr cls" and title: "title_of A (ws_hwnd s) w = Inr title"
    using assms(2) by (auto simp: answers_def)
  let ?P = "if constrains_process f then [CompileProcessImageName A (process_image_name f)] else []"
  let ?C = "if constrains_class f then [CompileWindowClass A (window_class f)] else []"
  let ?T = "if constrains_title f then [CompileWindowTitle A (window_title f)] else []"
  obtain s1 where s1: "check_condition ?P w s = Some (constrains_process f \<longrightarrow>
        text_matches (fst (process_image_name f)) img (snd (process_image_name f)), s1)"
      "coherent_names A w s1" "location_part s1 = location_part s"
    using process_predicate [OF assms(1) info(1), of "process_image_name f"] info(2) assms(1)
    by (cases "constrains_process f") (auto dest: check_condition_single)
  note h1 = location_part_hwnd [OF s1(3)]
  obtain s2 where s2: "check_condition ?C w s1 = Some (constrains_class f \<longrightarrow>
        text_matches (fst (window_class f)) cls (snd (window_class f)), s2)"
      "coherent_names A w s2" "location_part s2 = location_part s"
    using class_predicate [OF s1(2), of cls "window_class f"] cls h1 s1
    by (cases "constrains_class f") (auto dest: check_condition_single)
  note h2 = location_part_hwnd [OF s2(3)]
  obtain s3 where s3: "check_condition ?T w s2 = Some (constrains_title f \<longrightarrow>
        text_matches (fst (window_title f)) title (snd (window_title f)), s3)"
      "coherent_names A w s3" "location_part s3 = location_part s"
    using title_predicate [OF s2(2), of title "window_title f"] title h2 s2
    by (cases "constrains_title f") (auto dest: check_condition_single)
  have "check_condition (predicates_of A f) w s =
      (case check_condition ?P w s of
         Some (True, s') \<Rightarrow> (case check_condition ?C w s' of
            Some (True, s'') \<Rightarrow> check_condition ?T w s'' | r \<Rightarrow> r) | r \<Rightarrow> r)"
    unfolding predicates_of_def check_condition_append by (simp only:)
  then show ?thesis
    unfolding s1(1) using s1 s2 s3
    by (cases "constrains_process f \<longrightarrow> text_matches (fst (process_image_name f)) img (snd (process_image_name f))";
        cases "constrains_class f \<longrightarrow> text_matches (fst (window_class f)) cls (snd (window_class f))")
      (simp_all add: filter_matches_def)
qed

section \<open>The loop over the rules\<close>

text \<open>
  The specification: each rule with the trigger whose filter matches the window is executed, in order.
  It knows filters instead of compiled predicates and never asks the system for a name.
\<close>

fun run_matching ::
  "('w, 'a) eng_api_scheme \<Rightarrow> simd_features \<Rightarrow> MonitorStates \<Rightarrow> TriggerFlags \<Rightarrow> wstr \<Rightarrow> wstr \<Rightarrow> wstr \<Rightarrow>
   (TriggerFlags \<times> Operation \<times> 'n Filter) list \<Rightarrow> WindowState \<Rightarrow> 'w \<Rightarrow>
   (Operation list \<times> WindowState \<times> 'w) option" where
  "run_matching A F monitors trigger img cls title [] s w = Some ([], s, w)"
| "run_matching A F monitors trigger img cls title ((trig, op, f) # rs) s w =
     (if enum_flags_test A trig trigger \<and> filter_matches f img cls title then
        (case execute A F monitors op s w of
           None \<Rightarrow> None
         | Some (hr, op', s', w') \<Rightarrow>
             map_option (\<lambda>(ops, s'', w''). (op' # ops, s'', w''))
               (run_matching A F monitors trigger img cls title rs s' w'))
      else map_option (\<lambda>(ops, s'', w''). (op # ops, s'', w''))
             (run_matching A F monitors trigger img cls title rs s w))"

definition engine_rule :: "('w, 'a) win_api_scheme \<Rightarrow> TriggerFlags \<times> Operation \<times> 'n Filter \<Rightarrow> 'w EngineRule" where
  "engine_rule A = (\<lambda>(trig, op, f).
     \<lparr>er_trigger = trig, er_operation = op, er_condition = predicates_of A f\<rparr>)"

text \<open>\<open>SetWindowPos\<close> posts the move: the names of the window are not changed by it.\<close>

definition move_keeps_names :: "('w, 'a) win_api_scheme \<Rightarrow> handle \<Rightarrow> bool" where
  "move_keeps_names A h \<longleftrightarrow> (\<forall>x y cx cy w rc err w'. SetWindowPos A h x y cx cy w = (rc, err, w') \<longrightarrow>
     same_title A h w w' \<and> same_fixed A h w w')"

lemma applyWindowRect_names:
  assumes "move_keeps_names A h" "applyWindowRect A h bounds w = (hr, w')"
  shows "same_title A h w w' \<and> same_fixed A h w w'"
  using assms by (auto simp: applyWindowRect_def move_keeps_names_def split: prod.splits if_splits)

lemma shadowMargin_location:
  assumes "shadowMargin A F w s = (r, s')" "location_part u = location_part s"
  shows "\<exists>u'. shadowMargin A F w u = (r, u') \<and> location_part u' = location_part s' \<and>
    ws_hwnd s' = ws_hwnd s \<and> (coherent_names A w s \<longrightarrow> coherent_names A w s')"
  using assms
  by (cases "ws_margin_dirty s")
    (auto simp: shadowMargin_def names_defs split: prod.splits sum.splits)

text \<open>An operation only looks at the handle and the location entries of the state.\<close>

lemma execute_location:
  assumes "execute A F monitors op s w = Some (hr, op', s', w')" "location_part u = location_part s"
    and "move_keeps_names A (ws_hwnd s)"
  shows "\<exists>u'. execute A F monitors op u w = Some (hr, op', u', w') \<and> location_part u' = location_part s' \<and>
    ws_hwnd s' = ws_hwnd s \<and> same_title A (ws_hwnd s) w w' \<and> same_fixed A (ws_hwnd s) w w' \<and>
    (coherent_names A w s \<longrightarrow> coherent_names A w s')"
proof (cases op)
  case (AbsoluteOp bounds)
  then show ?thesis
    using assms location_part_hwnd [OF assms(2)] applyWindowRect_names [OF assms(3)]
    by (auto simp: absolute_execute_def split: prod.splits)
next
  case (RelativeOp r)
  note h = location_part_hwnd [OF assms(2)]
  consider "op_dirty r" "cache_get monitors (op_hmonitor r) = None" | "\<not> op_dirty r"
    | st m s1 where "op_dirty r" "cache_get monitors (op_hmonitor r) = Some st" "shadowMargin A F w s = (Inr m, s1)"
    using assms(1) RelativeOp
    by (cases "op_dirty r"; cases "cache_get monitors (op_hmonitor r)")
      (auto simp: relative_execute_def split: prod.splits sum.splits)
  then show ?thesis
  proof cases
    case 1
    then show ?thesis using assms(1,2) RelativeOp
      by (auto simp: relative_execute_def same_title_def same_fixed_def)
  next
    case 2
    then show ?thesis using assms RelativeOp h applyWindowRect_names [OF assms(3)]
      by (auto simp: relative_execute_def split: prod.splits)
  next
    case 3
    obtain u1 where u: "shadowMargin A F w u = (Inr m, u1)" "location_part u1 = location_part s1"
        "ws_hwnd s1 = ws_hwnd s" "coherent_names A w s \<longrightarrow> coherent_names A w s1"
      using shadowMargin_location [OF 3(3) assms(2)] by blast
    obtain hr1 w1 where r: "relative_execute A F monitors r s w = Some (hr1,
        r\<lparr>op_bounds := f4_ltrunc (f4_add (expected_area F (mon_work_area st) (op_relative r)) m), op_dirty := False\<rparr>,
        s1, w1)" and ap: "applyWindowRect A (ws_hwnd s1)
        (f4_ltrunc (f4_add (expected_area F (mon_work_area st) (op_relative r)) m)) w = (hr1, w1)"
      using relative_execute_dirty [OF 3] by blast
    then have "relative_execute A F monitors r u w = Some (hr1,
        r\<lparr>op_bounds := f4_ltrunc (f4_add (expected_area F (mon_work_area st) (op_relative r)) m), op_dirty := False\<rparr>,
        u1, w1)"
      using 3 u location_part_hwnd [OF u(2)] by (simp add: relative_execute_def Let_def)
    then show ?thesis
      using assms(1) r RelativeOp u ap applyWindowRect_names [OF assms(3)] by auto
  qed
qed

lemma answers_same:
  assumes "answers A h w img cls title" "same_title A h w w'" "same_fixed A h w w'"
  shows "answers A h w' img cls title"
  using assms title_of_same [OF assms(2)] by (simp add: answers_def same_fixed_def info_of_def class_of_def)

lemma coherent_names_same:
  "same_title A (ws_hwnd s) w w' \<Longrightarrow> same_fixed A (ws_hwnd s) w w' \<Longrightarrow> coherent_names A w s \<Longrightarrow> coherent_names A w' s"
  using coherent_title_same coherent_fixed_same by (auto simp: coherent_names_def)

abbreviation engine_result where
  "engine_result \<equiv> map_option (\<lambda>(rules, s, w). (map er_operation rules, location_part s, w))"

abbreviation spec_result where
  "spec_result \<equiv> map_option (\<lambda>(ops, s, w). (ops, location_part s, w))"

lemma spec_shift: "spec_result (map_option (\<lambda>(ops, y). (op # ops, y)) x) =
    map_option (\<lambda>(ops, l). (op # ops, l)) (spec_result x)"
  by (cases x) auto

lemma engine_shift: "engine_result (map_option (\<lambda>(rules, y). (r # rules, y)) x) =
    map_option (\<lambda>(ops, l). (er_operation r # ops, l)) (engine_result x)"
  by (cases x) auto

lemma spec_result_cong:
  assumes "location_part s = location_part u" "move_keeps_names A (ws_hwnd s)"
  shows "spec_result (run_matching A F monitors trigger img cls title rs s w) =
    spec_result (run_matching A F monitors trigger img cls title rs u w)"
  using assms
proof (induction rs arbitrary: s u w)
  case (Cons r rs)
  obtain trig op f where r: "r = (trig, op, f)" by (cases r) auto
  have ih: "spec_result (run_matching A F monitors trigger img cls title rs s' w') =
      spec_result (run_matching A F monitors trigger img cls title rs u' w')"
    if "location_part s' = location_part u'" "ws_hwnd s' = ws_hwnd s" for s' u' w'
    using Cons.IH [OF that(1)] Cons.prems(2) that(2) by simp
  show ?case
  proof (cases "enum_flags_test A trig trigger \<and> filter_matches f img cls title")
    case False
    then have n: "run_matching A F monitors trigger img cls title (r # rs) v w =
        map_option (\<lambda>(ops, s, w). (op # ops, s, w)) (run_matching A F monitors trigger img cls title rs v w)" for v
      using False by (auto simp: r)
    show ?thesis using ih [OF Cons.prems(1)] by (simp add: n spec_shift)
  next
    case True
    then have n: "run_matching A F monitors trigger img cls title (r # rs) v w =
        (case execute A F monitors op v w of None \<Rightarrow> None | Some (hr, op', s', w') \<Rightarrow>
           map_option (\<lambda>(ops, s, w). (op' # ops, s, w)) (run_matching A F monitors trigger img cls title rs s' w'))" for v
      by (simp add: r)
    show ?thesis
    proof (cases "execute A F monitors op s w")
      case None
      have "execute A F monitors op u w = None"
      proof (rule ccontr)
        assume "execute A F monitors op u w \<noteq> None"
        then obtain x where "execute A F monitors op u w = Some x" by auto
        then obtain hr op' u' w' where "execute A F monitors op u w = Some (hr, op', u', w')"
          by (cases x) auto
        from execute_location [OF this Cons.prems(1)] show False
          using None Cons.prems location_part_hwnd [OF Cons.prems(1)] by simp
      qed
      then show ?thesis unfolding n using None by simp
    next
      case (Some x)
      then obtain hr op' s' w' where e: "execute A F monitors op s w = Some (hr, op', s', w')"
        by (cases x) auto
      obtain u' where u': "execute A F monitors op u w = Some (hr, op', u', w')"
          "location_part u' = location_part s'" "ws_hwnd s' = ws_hwnd s"
        using execute_location [OF e Cons.prems(1) [symmetric] Cons.prems(2)] by blast
      show ?thesis using ih [OF u'(2) [symmetric] u'(3)] by (simp add: n e u'(1) spec_shift)
    qed
  qed
qed simp

lemma check_rules_matching:
  assumes "coherent_names A w s" "answers A (ws_hwnd s) w img cls title" "move_keeps_names A (ws_hwnd s)"
  shows "engine_result (check_rules_loop A F monitors trigger (map (engine_rule A) rs) s w) =
    spec_result (run_matching A F monitors trigger img cls title rs s w)"
  using assms
proof (induction rs arbitrary: s w)
  case (Cons r rs)
  obtain trig op f where r: "r = (trig, op, f)" by (cases r) auto
  let ?loop = "check_rules_loop A F monitors trigger (map (engine_rule A) rs)"
  let ?spec = "run_matching A F monitors trigger img cls title rs"
  let ?rule = "engine_rule A (trig, op, f)"
  obtain s1 where s1: "check_condition (predicates_of A f) w s = Some (filter_matches f img cls title, s1)"
      "coherent_names A w s1" "location_part s1 = location_part s"
    using check_condition_matches [OF Cons.prems(1,2)] by blast
  note h1 = location_part_hwnd [OF s1(3)]
  have eq: "spec_result (?spec s1 w) = spec_result (?spec s w)"
    by (rule spec_result_cong) (simp_all add: s1(3) h1 Cons.prems(3))
  consider "\<not> enum_flags_test A trig trigger" | "enum_flags_test A trig trigger" "\<not> filter_matches f img cls title"
    | "enum_flags_test A trig trigger" "filter_matches f img cls title" by blast
  then show ?case
  proof cases
    case 1
    then show ?thesis
      using Cons.IH [OF Cons.prems] by (simp add: r engine_rule_def spec_shift engine_shift)
  next
    case 2
    have "engine_result (?loop s1 w) = spec_result (?spec s w)"
      using Cons.IH [OF s1(2)] Cons.prems(2,3) h1 eq by simp
    then show ?thesis using 2 s1(1) by (simp add: r engine_rule_def spec_shift engine_shift)
  next
    case 3
    show ?thesis
    proof (cases "execute A F monitors op s w")
      case None
      have "execute A F monitors op s1 w = None"
      proof (rule ccontr)
        assume "execute A F monitors op s1 w \<noteq> None"
        then obtain hr op' u' w' where "execute A F monitors op s1 w = Some (hr, op', u', w')" by auto
        from execute_location [OF this s1(3) [symmetric]] show False using None Cons.prems(3) h1 by simp
      qed
      then show ?thesis using None 3 s1(1) by (simp add: r engine_rule_def)
    next
      case (Some x)
      then obtain hr op' s' w' where e: "execute A F monitors op s w = Some (hr, op', s', w')"
        by (cases x) auto
      obtain u' where u': "execute A F monitors op s1 w = Some (hr, op', u', w')" "location_part u' = location_part s'"
          "ws_hwnd s' = ws_hwnd s" "same_title A (ws_hwnd s) w w'" "same_fixed A (ws_hwnd s) w w'"
        using execute_location [OF e s1(3) Cons.prems(3)] by blast
      obtain v' where "execute A F monitors op s w = Some (hr, op', v', w')" "ws_hwnd u' = ws_hwnd s1"
          "coherent_names A w s1 \<longrightarrow> coherent_names A w u'"
        using execute_location [OF u'(1) s1(3) [symmetric]] Cons.prems(3) h1 by auto
      then have n: "coherent_names A w' u'" "ws_hwnd u' = ws_hwnd s"
        using coherent_names_same [of A u' w w'] u'(4,5) s1(2) h1 by auto
      have ans: "answers A (ws_hwnd u') w' img cls title"
        using answers_same [OF Cons.prems(2) u'(4,5)] n(2) by simp
      have "engine_result (?loop u' w') = spec_result (?spec u' w')"
        using Cons.IH [OF n(1) ans] Cons.prems(3) n(2) by simp
      also have "\<dots> = spec_result (?spec s' w')"
        by (rule spec_result_cong) (simp_all add: u'(2) n(2) Cons.prems(3))
      finally show ?thesis using 3 s1(1) e u'(1) by (simp add: r engine_rule_def spec_shift engine_shift)
    qed
  qed
qed simp

section \<open>A change of the settings\<close>

lemma compile_rules_bad_filter:
  assumes "compile_rules A Y t monitors w pre [] = Inr rules"
    and "CompileAction A Y t monitors w (raction r) = Inr (Some op)" "constraint_count (rfilter r) = 3"
  shows "compile_rules A Y t monitors w (pre @ r # post) [] = Inl BadAlloc"
  using compile_rules_app [OF assms(1), of "r # post"] assms(2,3) by (simp add: CompileFilter_eq)

lemma compile_rules_bad_action:
  assumes "compile_rules A Y t monitors w pre [] = Inr rules"
    and "CompileAction A Y t monitors w (raction r) = Inl e"
  shows "compile_rules A Y t monitors w (pre @ r # post) [] = Inl e"
  using compile_rules_app [OF assms(1), of "r # post"] assms(2) by simp

end
