(* ===== verification/Instances.thy ===== *)
theory Instances
  imports RuleEngine
begin

text \<open>
  Concrete providers for the parameters of the model, and the proofs that they obey the laws the
  properties assume: an ASCII text codec, a YAML tree, a file system and a desktop with one window
  and one monitor.  The properties are applied to them.
\<close>

section \<open>Text\<close>

definition ascii :: "string \<Rightarrow> bool" where "ascii s \<longleftrightarrow> (\<forall>c \<in> set s. of_char c < (128 :: nat))"

definition narrow :: "wstr \<Rightarrow> string" where "narrow w = List.map (\<lambda>c. char_of (unat c)) w"

definition wascii :: "wstr \<Rightarrow> bool" where "wascii w \<longleftrightarrow> (\<forall>c \<in> set w. c < 128)"

definition demo_mb_to_wc :: "string \<Rightarrow> nat \<Rightarrow> int \<times> wstr \<times> dword" where
  "demo_mb_to_wc s cch =
     (if s = [] then (0, [], ERROR_INVALID_PARAMETER)
      else if \<not> ascii s then (0, [], ERROR_NO_UNICODE_TRANSLATION)
      else if cch = 0 then (int (length s), [], 0)
      else if cch < length s then (0, [], ERROR_INSUFFICIENT_BUFFER)
      else (int (length s), widen s, 0))"

definition demo_wc_to_mb :: "wstr \<Rightarrow> nat \<Rightarrow> int \<times> string \<times> dword" where
  "demo_wc_to_mb w cch =
     (if w = [] then (0, [], ERROR_INVALID_PARAMETER)
      else if \<not> wascii w then (0, [], ERROR_NO_UNICODE_TRANSLATION)
      else if cch = 0 then (int (length w), [], 0)
      else if cch < length w then (0, [], ERROR_INSUFFICIENT_BUFFER)
      else (int (length w), narrow w, 0))"

definition demo_text :: text_api where
  "demo_text = \<lparr>hr_of = win32_hr, mb_to_wc = demo_mb_to_wc, wc_to_mb = demo_wc_to_mb,
     str_alloc = (\<lambda>_. AllocOk), load_string = (\<lambda>_. (0, [], 0))\<rparr>"

lemma length_narrow [simp]: "length (narrow w) = length w"
  by (simp add: narrow_def)

lemma widen_narrow: "wascii w \<Longrightarrow> widen (narrow w) = w"
  by (auto simp: narrow_def widen_def wascii_def word_less_nat_alt of_nat_take_bit
      simp flip: take_bit_eq_mod intro!: map_idI)

lemma ascii_narrow: "wascii w \<Longrightarrow> ascii (narrow w)"
  by (auto simp: narrow_def ascii_def wascii_def word_less_nat_alt)

lemma narrow_Nil [simp]: "narrow w = [] \<longleftrightarrow> w = []"
  by (simp add: narrow_def)

lemma demo_mb_law:
  assumes "mb_to_wc A = demo_mb_to_wc" "s \<noteq> []"
  shows "(\<exists>w. mb_outputs A s w) \<or> (\<exists>e. mb_fails A s e)"
proof (cases "ascii s")
  case True
  then show ?thesis
    using assms by (intro disjI1 exI [of _ "widen s"])
      (auto simp: mb_outputs_def demo_mb_to_wc_def widen_def)
next
  case False
  then show ?thesis
    using assms by (intro disjI2 exI [of _ ERROR_NO_UNICODE_TRANSLATION]) (simp add: mb_fails_def demo_mb_to_wc_def)
qed

lemma demo_wc_outputs:
  assumes "wc_to_mb A = demo_wc_to_mb" "w \<noteq> []"
  shows "wc_outputs A w s \<longleftrightarrow> wascii w \<and> s = narrow w"
  using assms narrow_Nil [of w] by (auto simp: wc_outputs_def demo_wc_to_mb_def simp del: narrow_Nil)

lemma unat_char: "unat (of_nat (of_char c) :: 16 word) = of_char c"
proof -
  have "of_char c < (2 :: nat) ^ LENGTH(16)" by (rule less_trans [OF nat_of_char_less_256]) simp
  then show ?thesis by (simp only: unsigned_of_nat take_bit_nat_eq_self of_nat_id)
qed

lemma narrow_widen: "narrow (widen s) = s"
  by (simp add: narrow_def widen_def comp_def unat_char del: of_nat_of_char)

lemma wascii_widen: "ascii s \<Longrightarrow> wascii (widen s)"
  by (auto simp: ascii_def wascii_def widen_def word_less_nat_alt unat_char)

lemma demo_wc_widen: "wc_to_mb A = demo_wc_to_mb \<Longrightarrow> ascii s \<Longrightarrow> s \<noteq> [] \<Longrightarrow> wc_outputs A (widen s) s"
  using demo_wc_outputs [of A "widen s" s] wascii_widen narrow_widen by (simp add: widen_def)

lemma demo_wc_law:
  assumes "wc_to_mb A = demo_wc_to_mb" "w \<noteq> []"
  shows "(\<exists>s. wc_outputs A w s) \<or> (\<exists>e. wc_fails A w e)"
proof (cases "wascii w")
  case True
  then show ?thesis using demo_wc_outputs [OF assms] by blast
next
  case False
  then show ?thesis
    using assms by (intro disjI2 exI [of _ ERROR_NO_UNICODE_TRANSLATION]) (simp add: wc_fails_def demo_wc_to_mb_def)
qed

lemma demo_text_law:
  assumes "mb_to_wc A = demo_mb_to_wc" "wc_to_mb A = demo_wc_to_mb" "hr_of A = win32_hr"
  shows "text_law A"
proof -
  have "mb_outputs A s w" if "wc_outputs A w s" for s w
  proof (cases "w = []")
    case True
    then show ?thesis using that assms(2) by (auto simp: wc_outputs_def demo_wc_to_mb_def)
  next
    case False
    then show ?thesis
      using that assms demo_wc_outputs [OF assms(2) False] widen_narrow [of w] ascii_narrow [of w]
      by (auto simp: mb_outputs_def demo_mb_to_wc_def)
  qed
  then show ?thesis
    using demo_mb_law [OF assms(1)] demo_wc_law [OF assms(2)] assms(3)
    by (simp add: text_law_def hr_law_def)
qed

section \<open>A YAML tree\<close>

text \<open>
  A tree is the list of its nodes: the path of each and its value.  A step of a path is a key of a map
  or the index of a child of a sequence; index 0 is the reference past the last child.
\<close>

datatype ystep = Key string | Idx nat
datatype yval = YScalar string | YLong "32 word" | YFloat f32 | YMap | YSeq

type_synonym ypath = "ystep list"
type_synonym ytree = "(ypath \<times> yval) list"

definition yt_invalid :: "ytree \<Rightarrow> ypath \<Rightarrow> bool" where
  "yt_invalid t p \<longleftrightarrow> (if p = [] then False else case last p of Idx i \<Rightarrow> i = 0 | Key _ \<Rightarrow> map_of t p = None)"

definition yt_text :: "yval \<Rightarrow> string" where
  "yt_text v = (case v of YScalar s \<Rightarrow> s | YLong w \<Rightarrow> int_dec (sint w) | YFloat f \<Rightarrow> ''1.0'' | _ \<Rightarrow> [])"

definition yt_has_val :: "ytree \<Rightarrow> ypath \<Rightarrow> bool" where
  "yt_has_val t p = (case map_of t p of None \<Rightarrow> False | Some v \<Rightarrow> v \<noteq> YMap \<and> v \<noteq> YSeq)"

definition yt_val :: "ytree \<Rightarrow> ypath \<Rightarrow> string" where
  "yt_val t p = (case map_of t p of None \<Rightarrow> [] | Some v \<Rightarrow> yt_text v)"

definition yt_child :: "ypath \<Rightarrow> ypath \<Rightarrow> bool" where
  "yt_child n p \<longleftrightarrow> p \<noteq> [] \<and> butlast p = n \<and> (case last p of Idx i \<Rightarrow> 0 < i | Key _ \<Rightarrow> False)"

definition yt_children :: "ytree \<Rightarrow> ypath \<Rightarrow> ypath list" where
  "yt_children t n = remdups (filter (yt_child n) (List.map fst t))"

fun yt_next :: "ypath list \<Rightarrow> ypath \<Rightarrow> ypath" where
  "yt_next (a # b # cs) c = (if a = c then b else yt_next (b # cs) c)"
| "yt_next _ c = butlast c @ [Idx 0]"

definition yt_indices :: "ytree \<Rightarrow> nat list" where
  "yt_indices t = concat (List.map (\<lambda>(p, _). List.map (\<lambda>s. case s of Idx i \<Rightarrow> i | Key _ \<Rightarrow> 0) p) t)"

definition yt_fresh :: "ytree \<Rightarrow> nat" where "yt_fresh t = Suc (foldr max (yt_indices t) 0)"

definition yt_write :: "ytree \<Rightarrow> ypath \<Rightarrow> yval \<Rightarrow> ytree" where
  "yt_write t p v = (if map_of t p = None then t @ [(p, v)]
                     else List.map (\<lambda>(q, u). (q, if q = p then v else u)) t)"

definition yt_remove :: "ytree \<Rightarrow> ypath \<Rightarrow> ytree" where
  "yt_remove t c = (if yt_has_val t c then filter (\<lambda>(p, _). p \<noteq> c) t
                    else filter (\<lambda>(p, _). take (length c) p \<noteq> c) t)"

definition yt_clear :: "ytree \<Rightarrow> ypath \<Rightarrow> ytree" where
  "yt_clear t n = filter (\<lambda>(p, _). p \<notin> set (yt_children t n)) t"

definition demo_yaml :: "(string \<Rightarrow> ytree) \<Rightarrow> (ytree, ypath) ryml" where
  "demo_yaml parsed =
     \<lparr>hr_of = win32_hr, mb_to_wc = demo_mb_to_wc, wc_to_mb = demo_wc_to_mb,
      str_alloc = (\<lambda>_. AllocOk), load_string = (\<lambda>_. (0, [], 0)),
      y_invalid = yt_invalid,
      y_is_seed = (\<lambda>t p. map_of t p = None),
      y_is_map = (\<lambda>t p. map_of t p = Some YMap),
      y_is_seq = (\<lambda>t p. map_of t p = Some YSeq),
      y_is_container = (\<lambda>t p. map_of t p = Some YMap \<or> map_of t p = Some YSeq),
      y_is_keyval = (\<lambda>t p. yt_has_val t p \<and> yt_children t p = []),
      y_has_val = yt_has_val,
      y_val_is_null = (\<lambda>t p. case map_of t p of Some (YScalar s) \<Rightarrow> null_text s | _ \<Rightarrow> False),
      y_val = yt_val,
      y_has_child = (\<lambda>t p k. map_of t (p @ [Key k]) \<noteq> None),
      y_at = (\<lambda>t p k. p @ [Key k]),
      y_children = yt_children,
      y_num_children = (\<lambda>t p. length (yt_children t p)),
      y_first_child = (\<lambda>t p. case yt_children t p of [] \<Rightarrow> p @ [Idx 0] | c # _ \<Rightarrow> c),
      y_next_sibling = (\<lambda>t c. yt_next (yt_children t (butlast c)) c),
      y_prev_sibling = (\<lambda>t c. butlast c @ [Idx 0]),
      y_read_long = (\<lambda>t p. case map_of t p of Some (YLong w) \<Rightarrow> Some w | _ \<Rightarrow> None),
      y_read_float = (\<lambda>t p. case map_of t p of Some (YFloat f) \<Rightarrow> Some f | _ \<Rightarrow> None),
      y_remove_child = (\<lambda>t n c. yt_remove t c),
      y_write_str = (\<lambda>t p s. Inr (yt_write t p (YScalar s))),
      y_write_long = (\<lambda>t p w. Inr (yt_write t p (YLong w))),
      y_write_float = (\<lambda>t p f. Inr (yt_write t p (YFloat f))),
      y_append_keyval = (\<lambda>t p k. Inr (yt_write t (p @ [Key k]) (YScalar []), p @ [Key k])),
      y_append_child = (\<lambda>t p. let c = p @ [Idx (yt_fresh t)] in Inr (yt_write t c (YScalar []), c)),
      y_insert_keyseq = (\<lambda>t p k after. Inr (yt_write (yt_clear t (p @ [Key k])) (p @ [Key k]) YSeq, p @ [Key k])),
      y_clear_val = (\<lambda>t p. yt_write t p (YScalar [])),
      y_set_type = (\<lambda>t p ty. yt_write t p (case ty of TKeyVal \<Rightarrow> YScalar [] | TKeySeqFlow \<Rightarrow> YSeq)),
      y_clear_children = yt_clear,
      y_empty = [([], YMap)],
      y_root = (\<lambda>t. []),
      y_parse_in_arena = (\<lambda>s t. (parsed s, None)),
      y_emit = (\<lambda>t. Inr (''# '' @ nat_dec (length t))),
      enum_cast_ci = (\<lambda>ns s. find_name ns s 0),
      enum_bitset_test = (\<lambda>v f. v AND f \<noteq> 0),
      fl_shortest = (\<lambda>f. ''1.0'')\<rparr>"

lemma demo_sel:
  "hr_of (demo_yaml parsed) = win32_hr"
  "mb_to_wc (demo_yaml parsed) = demo_mb_to_wc"
  "wc_to_mb (demo_yaml parsed) = demo_wc_to_mb"
  "str_alloc (demo_yaml parsed) = (\<lambda>_. AllocOk)"
  "load_string (demo_yaml parsed) = (\<lambda>_. (0, [], 0))"
  "y_invalid (demo_yaml parsed) = yt_invalid"
  "y_is_seed (demo_yaml parsed) = (\<lambda>t p. map_of t p = None)"
  "y_is_map (demo_yaml parsed) = (\<lambda>t p. map_of t p = Some YMap)"
  "y_is_seq (demo_yaml parsed) = (\<lambda>t p. map_of t p = Some YSeq)"
  "y_is_container (demo_yaml parsed) = (\<lambda>t p. map_of t p = Some YMap \<or> map_of t p = Some YSeq)"
  "y_is_keyval (demo_yaml parsed) = (\<lambda>t p. yt_has_val t p \<and> yt_children t p = [])"
  "y_has_val (demo_yaml parsed) = yt_has_val"
  "y_val_is_null (demo_yaml parsed) = (\<lambda>t p. case map_of t p of Some (YScalar s) \<Rightarrow> null_text s | _ \<Rightarrow> False)"
  "y_val (demo_yaml parsed) = yt_val"
  "y_has_child (demo_yaml parsed) = (\<lambda>t p k. map_of t (p @ [Key k]) \<noteq> None)"
  "y_at (demo_yaml parsed) = (\<lambda>t p k. p @ [Key k])"
  "y_children (demo_yaml parsed) = yt_children"
  "y_num_children (demo_yaml parsed) = (\<lambda>t p. length (yt_children t p))"
  "y_first_child (demo_yaml parsed) = (\<lambda>t p. case yt_children t p of [] \<Rightarrow> p @ [Idx 0] | c # _ \<Rightarrow> c)"
  "y_next_sibling (demo_yaml parsed) = (\<lambda>t c. yt_next (yt_children t (butlast c)) c)"
  "y_prev_sibling (demo_yaml parsed) = (\<lambda>t c. butlast c @ [Idx 0])"
  "y_read_long (demo_yaml parsed) = (\<lambda>t p. case map_of t p of Some (YLong w) \<Rightarrow> Some w | _ \<Rightarrow> None)"
  "y_read_float (demo_yaml parsed) = (\<lambda>t p. case map_of t p of Some (YFloat f) \<Rightarrow> Some f | _ \<Rightarrow> None)"
  "y_remove_child (demo_yaml parsed) = (\<lambda>t n c. yt_remove t c)"
  "y_write_str (demo_yaml parsed) = (\<lambda>t p s. Inr (yt_write t p (YScalar s)))"
  "y_write_long (demo_yaml parsed) = (\<lambda>t p w. Inr (yt_write t p (YLong w)))"
  "y_write_float (demo_yaml parsed) = (\<lambda>t p f. Inr (yt_write t p (YFloat f)))"
  "y_append_keyval (demo_yaml parsed) = (\<lambda>t p k. Inr (yt_write t (p @ [Key k]) (YScalar []), p @ [Key k]))"
  "y_append_child (demo_yaml parsed) = (\<lambda>t p. let c = p @ [Idx (yt_fresh t)] in Inr (yt_write t c (YScalar []), c))"
  "y_insert_keyseq (demo_yaml parsed) = (\<lambda>t p k after. Inr (yt_write (yt_clear t (p @ [Key k])) (p @ [Key k]) YSeq, p @ [Key k]))"
  "y_clear_val (demo_yaml parsed) = (\<lambda>t p. yt_write t p (YScalar []))"
  "y_set_type (demo_yaml parsed) = (\<lambda>t p ty. yt_write t p (case ty of TKeyVal \<Rightarrow> YScalar [] | TKeySeqFlow \<Rightarrow> YSeq))"
  "y_clear_children (demo_yaml parsed) = yt_clear"
  "y_empty (demo_yaml parsed) = [([], YMap)]"
  "y_root (demo_yaml parsed) = (\<lambda>t. [])"
  "y_parse_in_arena (demo_yaml parsed) = (\<lambda>s t. (parsed s, None))"
  "y_emit (demo_yaml parsed) = (\<lambda>t. Inr (''# '' @ nat_dec (length t)))"
  "enum_cast_ci (demo_yaml parsed) = (\<lambda>ns s. find_name ns s 0)"
  "enum_bitset_test (demo_yaml parsed) = (\<lambda>v f. v AND f \<noteq> 0)"
  "fl_shortest (demo_yaml parsed) = (\<lambda>f. ''1.0'')"
  by (simp_all add: demo_yaml_def)

lemma demo_yaml_text: "text_law (demo_yaml p)"
  by (rule demo_text_law) (simp_all add: demo_yaml_def)

lemma demo_yaml_enum: "enum_law (demo_yaml p)"
  by (simp add: enum_law_def demo_yaml_def)

lemma map_of_write: "map_of (yt_write t p v) q = (if q = p then Some v else map_of t q)"
proof (cases "map_of t p")
  case None
  then show ?thesis by (auto simp: yt_write_def map_add_Some_iff map_add_def split: option.split)
next
  case (Some u)
  have "map_of (List.map (\<lambda>(q, u). (q, if q = p then v else u)) t) q =
      (if q = p then map_option (\<lambda>_. v) (map_of t p) else map_of t q)"
    by (induction t) auto
  then show ?thesis using Some by (simp add: yt_write_def)
qed

lemma demo_yaml_write: "yaml_write_law (demo_yaml p)"
  unfolding yaml_write_law_def
  by (auto simp: demo_yaml_def scalar_node_def map_of_write yt_invalid_def yt_has_val_def yt_val_def
      yt_text_def)

lemma demo_yaml_frame: "yaml_frame_law (demo_yaml p)"
  unfolding yaml_frame_law_def other_keys_same_def same_read_def
  by (auto simp: demo_yaml_def map_of_write yt_invalid_def yt_has_val_def yt_val_def)

text \<open>The children of a sequence under the operations on them.\<close>

lemma yt_children_set: "c \<in> set (yt_children t n) \<longleftrightarrow> yt_child n c \<and> map_of t c \<noteq> None"
  by (auto simp: yt_children_def map_of_eq_None_iff)

lemma yt_next_last: "cs \<noteq> [] \<Longrightarrow> distinct cs \<Longrightarrow> yt_next cs (last cs) = butlast (last cs) @ [Idx 0]"
  by (induction cs "last cs" rule: yt_next.induct) auto

lemma yt_next_nth: "distinct cs \<Longrightarrow> Suc i < length cs \<Longrightarrow> yt_next cs (cs ! i) = cs ! Suc i"
proof (induction cs "cs ! i" arbitrary: i rule: yt_next.induct)
  case (1 a b cs)
  show ?case
  proof (cases i)
    case (Suc j)
    then have "a \<noteq> (b # cs) ! j" using 1(2,3) nth_mem [of j "b # cs"] by auto
    then show ?thesis using 1 Suc by simp
  qed simp
qed auto

lemma yt_child_butlast: "yt_child n c \<Longrightarrow> butlast c = n \<and> \<not> yt_invalid t c"
  by (auto simp: yt_child_def yt_invalid_def split: ystep.splits)

lemma demo_yaml_links: "link_law (demo_yaml p) t n"
proof -
  let ?cs = "yt_children t n"
  have d: "distinct ?cs" by (simp add: yt_children_def)
  have c: "yt_child n x" if "x \<in> set ?cs" for x using that by (simp add: yt_children_set)
  have b: "butlast x = n" "\<not> yt_invalid t x" if "x \<in> set ?cs" for x
    using yt_child_butlast [OF c [OF that]] by simp_all
  have i0: "yt_invalid t (m @ [Idx 0])" for m by (simp add: yt_invalid_def)
  have "yt_invalid t (yt_next ?cs (last ?cs))" if "?cs \<noteq> []"
    using yt_next_last [OF that d] i0 by simp
  then show ?thesis
    using d b yt_next_nth [OF d] i0
    by (auto simp: link_law_def demo_yaml_def Let_def split: list.splits)
qed

lemma yt_children_write_new:
  assumes "map_of t c = None" "yt_child n c"
  shows "yt_children (yt_write t c v) n = yt_children t n @ [c]"
proof -
  have "c \<notin> set (filter (yt_child n) (List.map fst t))" using assms(1) by (auto simp: map_of_eq_None_iff)
  moreover have "c \<notin> set xs \<Longrightarrow> remdups (xs @ [c]) = remdups xs @ [c]" for xs by (induction xs) auto
  ultimately show ?thesis using assms by (simp add: yt_children_def yt_write_def)
qed

lemma yt_children_write_old: "map_of t c \<noteq> None \<Longrightarrow> yt_children (yt_write t c v) n = yt_children t n"
  by (auto simp: yt_children_def yt_write_def comp_def case_prod_unfold)

lemma yt_fresh_index: "map_of t p \<noteq> None \<Longrightarrow> Idx i \<in> set p \<Longrightarrow> i < yt_fresh t"
proof -
  assume p: "map_of t p \<noteq> None" "Idx i \<in> set p"
  then obtain v where v: "(p, v) \<in> set t" by (auto dest: map_of_SomeD)
  have "i \<in> set (List.map (\<lambda>s. case s of Idx i \<Rightarrow> i | Key _ \<Rightarrow> 0) p)"
    unfolding set_map using imageI [OF p(2), of "\<lambda>s. case s of Idx i \<Rightarrow> i | Key _ \<Rightarrow> 0"] by simp
  then have "i \<in> set (yt_indices t)"
    unfolding yt_indices_def set_concat set_map using imageI [OF v] by (intro UN_I [OF imageI [OF v]]) simp
  moreover have "x \<in> set xs \<Longrightarrow> x \<le> foldr max xs 0" for x and xs :: "nat list"
    by (induction xs) auto
  ultimately show ?thesis unfolding yt_fresh_def by (simp add: less_Suc_eq_le)
qed

lemma yt_fresh_path: "map_of t (n @ Idx (yt_fresh t) # q) = None"
  using yt_fresh_index [of t "n @ Idx (yt_fresh t) # q" "yt_fresh t"] by fastforce

lemma demo_yaml_append:
  assumes "y_append_child (demo_yaml p) t n = Inr (t1, c)" "y_write_str (demo_yaml p) t1 c s = Inr t2"
  shows "c = n @ [Idx (yt_fresh t)]" "t2 = yt_write (yt_write t c (YScalar [])) c (YScalar s)"
  using assms by (auto simp: demo_yaml_def Let_def)

lemma yt_same_maps:
  assumes "\<And>m. map_of t m = Some YMap \<Longrightarrow> m \<noteq> w \<Longrightarrow> map_of t' m = Some YMap"
    and "\<And>m k. map_of t' (m @ [Key k]) = None \<longleftrightarrow> map_of t (m @ [Key k]) = None"
  shows "same_maps (demo_yaml p) t t' w"
proof -
  have "yt_invalid t' x = yt_invalid t x" for x
  proof (cases x rule: rev_cases)
    case (snoc m s)
    then show ?thesis using assms(2) by (cases s) (simp_all add: yt_invalid_def)
  qed (simp add: yt_invalid_def)
  then show ?thesis using assms by (simp add: same_maps_def demo_yaml_def del: not_None_eq)
qed

lemma map_of_remove_scalar:
  assumes "yt_has_val t c"
  shows "map_of (yt_remove t c) q = (if q = c then None else map_of t q)"
proof -
  have "map_of (filter (\<lambda>(p, _). p \<noteq> c) t) q = (if q = c then None else map_of t q)" by (induction t) auto
  then show ?thesis using assms by (simp add: yt_remove_def)
qed

lemma demo_yaml_seq: "yaml_seq_law (demo_yaml p)"
  unfolding yaml_seq_law_def
proof (intro conjI allI impI)
  fix t n
  show "link_law (demo_yaml p) t n" by (rule demo_yaml_links)
next
  fix t n c
  assume seq: "y_is_seq (demo_yaml p) t n" and c: "c \<in> set (y_children (demo_yaml p) t n)"
    and val: "y_has_val (demo_yaml p) t c"
  let ?t = "yt_remove t c"
  have val': "yt_has_val t c" using val by (simp add: demo_yaml_def)
  note mo = map_of_remove_scalar [OF val']
  have ch: "yt_child n c" using c by (simp add: demo_yaml_def yt_children_set)
  then obtain i where ci: "c = n @ [Idx i]" "n \<noteq> c"
    by (cases c rule: rev_cases) (auto simp: yt_child_def split: ystep.splits)
  have rem: "y_remove_child (demo_yaml p) t n c = ?t" by (simp add: demo_yaml_def)
  have "filter (yt_child n) (List.map fst ?t) = removeAll c (filter (yt_child n) (List.map fst t))"
    using val' by (simp add: yt_remove_def removeAll_filter_not_eq filter_map comp_def case_prod_unfold conj_commute eq_commute)
  then show ch': "y_children (demo_yaml p) (y_remove_child (demo_yaml p) t n c) n =
      remove1 c (y_children (demo_yaml p) t n)"
    by (simp add: demo_yaml_def yt_children_def remove1_remdups remdups_filter removeAll_filter_not_eq
        distinct_remove1_removeAll)
  have "same_maps (demo_yaml p) t ?t n"
  proof (rule yt_same_maps)
    show "map_of ?t m = Some YMap" if "map_of t m = Some YMap" for m
      using that val' mo by (auto simp: yt_has_val_def)
  qed (simp only: mo, simp add: ci)
  moreover have "map_of ?t n = Some YSeq" using seq mo ci by (simp add: demo_yaml_def)
  moreover have "c \<notin> set (remove1 c (y_children (demo_yaml p) t n))"
    by (simp add: demo_yaml_def yt_children_def)
  then have "same_scalars (demo_yaml p) t ?t (remove1 c (y_children (demo_yaml p) t n))"
    by (auto simp: same_scalars_def demo_yaml_def yt_has_val_def yt_val_def mo)
  ultimately show "seq_step (demo_yaml p) t (y_remove_child (demo_yaml p) t n c) n
      (remove1 c (y_children (demo_yaml p) t n))"
    by (simp add: seq_step_def rem) (simp add: demo_yaml_def)
next
  fix t n t1 c s t2
  assume seq: "y_is_seq (demo_yaml p) t n"
    and ap: "y_append_child (demo_yaml p) t n = Inr (t1, c)" "y_write_str (demo_yaml p) t1 c s = Inr t2"
  note a = demo_yaml_append [OF ap]
  have none: "map_of t c = None" using yt_fresh_path [of t n "[]"] by (simp add: a(1))
  have ch: "yt_child n c" by (simp add: a(1) yt_child_def yt_fresh_def)
  have mo: "map_of t2 q = (if q = c then Some (YScalar s) else map_of t q)" for q
    by (simp add: a(2) map_of_write)
  have "yt_children t2 n = yt_children (yt_write t c (YScalar [])) n"
    by (simp add: a(2) yt_children_write_old map_of_write)
  then show "y_children (demo_yaml p) t2 n = y_children (demo_yaml p) t n @ [c]"
    using yt_children_write_new [OF none ch] by (simp add: demo_yaml_def)
  show new: "c \<notin> set (y_children (demo_yaml p) t n)"
    using none by (simp add: demo_yaml_def yt_children_set)
  show "y_has_val (demo_yaml p) t2 c" "y_val (demo_yaml p) t2 c = s"
    by (simp_all add: demo_yaml_def yt_has_val_def yt_val_def yt_text_def mo)
  have "same_maps (demo_yaml p) t t2 n"
    by (rule yt_same_maps) (use none in \<open>auto simp: mo a(1)\<close>)
  moreover have "same_scalars (demo_yaml p) t t2 (y_children (demo_yaml p) t n)"
    using new by (auto simp: same_scalars_def demo_yaml_def yt_has_val_def yt_val_def mo)
  ultimately show "seq_step (demo_yaml p) t t2 n (y_children (demo_yaml p) t n)"
    using seq none by (auto simp: seq_step_def demo_yaml_def mo)
qed

lemma map_of_clear: "map_of (yt_clear t n) q = (if q \<in> set (yt_children t n) then None else map_of t q)"
proof -
  have "map_of (filter (\<lambda>(p, _). p \<notin> C) t) q = (if q \<in> C then None else map_of t q)" for C by (induction t) auto
  then show ?thesis by (simp add: yt_clear_def)
qed

lemma yt_children_Nil: "yt_children t n = [] \<longleftrightarrow> (\<forall>c. yt_child n c \<longrightarrow> map_of t c = None)"
  by (subst set_empty [symmetric]) (simp add: set_eq_iff yt_children_set del: set_empty not_None_eq)

lemma yt_child_length: "yt_child n p \<Longrightarrow> length p = Suc (length n)"
  by (cases p rule: rev_cases) (auto simp: yt_child_def)

lemma yt_child_irrefl [simp]: "\<not> yt_child n n" "\<not> yt_child (n @ [Key k]) n" "\<not> yt_child n (m @ [Key k])"
  using yt_child_length [of n n] yt_child_length [of "n @ [Key k]" n] by (auto simp: yt_child_def)

lemma demo_yaml_reshape: "yaml_reshape_law (demo_yaml p)"
  unfolding yaml_reshape_law_def Let_def
proof (intro conjI allI impI)
  fix t w assume w: "y_is_keyval (demo_yaml p) t w"
  let ?t = "y_set_type (demo_yaml p) (y_clear_val (demo_yaml p) t w) w TKeySeqFlow"
  have m: "map_of ?t q = (if q = w then Some YSeq else map_of t q)" for q
    by (simp add: demo_yaml_def map_of_write)
  have v: "yt_has_val t w" "yt_children t w = []" using w by (simp_all add: demo_yaml_def)
  show "\<not> y_is_seq (demo_yaml p) t w" using v(1) by (auto simp: demo_yaml_def yt_has_val_def)
  show "y_is_seq (demo_yaml p) ?t w" using m [of w] by (simp add: demo_yaml_def)
  have "yt_children ?t w = []" using v(2) by (auto simp: yt_children_Nil m)
  then show "y_children (demo_yaml p) ?t w = []" by (simp add: demo_yaml_def)
  show "same_maps (demo_yaml p) t ?t w"
    by (rule yt_same_maps) (use v(1) in \<open>auto simp: m yt_has_val_def split: option.splits\<close>)
next
  fix t w c s t'
  assume w: "y_is_seq (demo_yaml p) t w" "y_children (demo_yaml p) t w = [c]" "y_has_val (demo_yaml p) t c"
    and t': "y_write_str (demo_yaml p) (y_set_type (demo_yaml p) (y_clear_children (demo_yaml p) t w) w TKeyVal) w s = Inr t'"
  have c: "yt_children t w = [c]" "yt_child w c" "yt_has_val t c"
    using w yt_children_set [of c t w] by (simp_all add: demo_yaml_def)
  have m: "map_of t' q = (if q = w then Some (YScalar s) else if q = c then None else map_of t q)" for q
    using t' by (auto simp: demo_yaml_def map_of_write map_of_clear c(1))
  have "yt_child w d \<Longrightarrow> map_of t' d = None" for d
    using c(1) yt_children_set [of d t w] m [of d] by (cases "d = w") auto
  then show "y_is_keyval (demo_yaml p) t' w"
    using m [of w] by (simp add: demo_yaml_def yt_has_val_def yt_children_Nil)
  show "y_val (demo_yaml p) t' w = s" using m [of w] by (simp add: demo_yaml_def yt_val_def yt_text_def)
  have "c \<noteq> q @ [Key k]" for q k using c(2) by auto
  then show "same_maps (demo_yaml p) t t' w"
    by (intro yt_same_maps) (use c(3) w(1) in \<open>auto simp: m yt_has_val_def demo_yaml_def\<close>)
next
  fix t n k prev t' w
  assume n: "y_is_map (demo_yaml p) t n" "\<not> y_has_child (demo_yaml p) t n k"
    and "y_insert_keyseq (demo_yaml p) t n k prev = Inr (t', w)"
  then have t': "t' = yt_write (yt_clear t w) w YSeq" and w: "w = n @ [Key k]" by (auto simp: demo_yaml_def)
  have m: "map_of t' q = (if q = w then Some YSeq else if q \<in> set (yt_children t w) then None else map_of t q)" for q
    by (simp add: t' map_of_write map_of_clear)
  have "n \<notin> set (yt_children t w)" by (simp add: yt_children_set w)
  then show "y_is_map (demo_yaml p) t' n" using n(1) by (simp add: demo_yaml_def m w)
  show "y_has_child (demo_yaml p) t' n k" "y_at (demo_yaml p) t' n k = w" "w \<noteq> n" "y_is_seq (demo_yaml p) t' w"
    by (simp_all add: demo_yaml_def m w)
  have "yt_child w d \<Longrightarrow> map_of t' d = None" for d
    using yt_children_set [of d t w] m [of d] by (cases "d = w") auto
  then show "y_children (demo_yaml p) t' w = []" by (simp add: demo_yaml_def yt_children_Nil)
qed

lemma demo_yaml_alloc: "yaml_alloc_ok (demo_yaml p)"
  by (simp add: yaml_alloc_ok_def demo_yaml_def Let_def)

section \<open>A file system\<close>

record demo_fs =
  fs_files :: "path \<Rightarrow> string option"
  fs_handles :: "handle \<Rightarrow> path option"
  fs_notified :: nat

definition demo_files :: "demo_fs file_api" where
  "demo_files =
     \<lparr>hr_of = win32_hr, mb_to_wc = demo_mb_to_wc, wc_to_mb = demo_wc_to_mb,
      str_alloc = (\<lambda>_. AllocOk), load_string = (\<lambda>_. (0, [], 0)),
      create_read = (\<lambda>p w. if fs_files w p = None then (None, ERROR_FILE_NOT_FOUND, w)
                          else (Some 2, 0, w\<lparr>fs_handles := (fs_handles w)(2 := Some p)\<rparr>)),
      get_file_size = (\<lambda>h w. (of_nat (length (the (fs_files w (the (fs_handles w h))))), 0)),
      read_file = (\<lambda>h n w. (True, take n (the (fs_files w (the (fs_handles w h)))), 0)),
      create_write = (\<lambda>p w. (Some 1, 0, w\<lparr>fs_files := (fs_files w)(p := Some []),
                                              fs_handles := (fs_handles w)(1 := Some p)\<rparr>)),
      write_file = (\<lambda>h s w. case fs_handles w h of
          None \<Rightarrow> (False, 6, w)
        | Some p \<Rightarrow> (True, 0, w\<lparr>fs_files := (fs_files w)(p := Some (the (fs_files w p) @ s))\<rparr>)),
      flush_file = (\<lambda>h w. (True, 0, w)),
      close_handle = (\<lambda>h w. (True, 0, w)),
      move_file = (\<lambda>p q w. (True, 0, w\<lparr>fs_files := (fs_files w)(q := fs_files w p, p := None)\<rparr>)),
      delete_file = (\<lambda>p w. w\<lparr>fs_files := (fs_files w)(p := None)\<rparr>)\<rparr>"

lemma demo_files_law: "fs_law demo_files fs_files fs_handles"
  unfolding fs_law_def demo_files_def hr_law_def
  by (auto split: option.splits)

lemma demo_files_read_law: "fs_read_law demo_files fs_files"
  unfolding fs_read_law_def demo_files_def hr_law_def by auto

definition empty_fs :: demo_fs where
  "empty_fs = \<lparr>fs_files = Map.empty, fs_handles = Map.empty, fs_notified = 0\<rparr>"

section \<open>A desktop\<close>

text \<open>One window, handle 7, with a shadow of 7 pixels at its left, right and bottom edges; one
  monitor, handle 3, of 1920 by 1080 pixels with a task bar of 40.  The world is the window's rectangle.\<close>

type_synonym desk = "32 word \<times> 32 word \<times> 32 word \<times> 32 word"

definition demo_image :: wstr where "demo_image = widen ''C:/np.exe''"
definition demo_class :: wstr where "demo_class = widen ''Notepad''"
definition demo_title :: wstr where "demo_title = widen ''readme''"
definition demo_monitor :: monitor_info where
  "demo_monitor = \<lparr>rcMonitor = (0, 0, 1920, 1080), rcWork = (0, 0, 1920, 1040),
     szDevice = widen (CHR 0x5C # CHR 0x5C # ''.'' @ CHR 0x5C # ''DISPLAY1''), dwFlags = 1\<rparr>"

definition demo_desk :: "desk eng_api" where
  "demo_desk =
     \<lparr>hr_of = win32_hr, mb_to_wc = demo_mb_to_wc, wc_to_mb = demo_wc_to_mb,
      str_alloc = (\<lambda>_. AllocOk), load_string = (\<lambda>_. (0, [], 0)),
      QueryFullProcessImageName = (\<lambda>h n w. (True, demo_image, 0)),
      OpenProcess = (\<lambda>i w. (1, 0)),
      CloseProcess = (\<lambda>h w. (True, 0)),
      GetWindowThreadProcessId = (\<lambda>h w. if h = 7 then (1, 42, 0) else (0, 0, 1400)),
      GetChildWindow = (\<lambda>h w. 0),
      GetNextWindow = (\<lambda>h w. 0),
      GetClassName = (\<lambda>h n w. if h = 7 then (int (length demo_class), demo_class, 0) else (0, [], 1400)),
      sso_capacity = 7,
      grown_capacity = length,
      CompareStringOrdinal_ci = (=),
      GetAncestorRoot = (\<lambda>h w. h),
      GetWindowRect = (\<lambda>h (x, y, cx, cy). if h = 7 then (True, (x, y, x + cx, y + cy), 0)
                                         else (False, (0, 0, 0, 0), 1400)),
      DwmExtendedFrameBounds = (\<lambda>h (x, y, cx, cy). (0, (x + 7, y, x + cx - 7, y + cy - 7))),
      MonitorFromWindow = (\<lambda>h w. 3),
      PrimaryMonitor = (\<lambda>w. 3),
      GetWindowTextLength = (\<lambda>h w. if h = 7 then (int (length demo_title), 0) else (0, 1400)),
      GetWindowText = (\<lambda>h n w. (int (length demo_title), demo_title)),
      SetWindowPos = (\<lambda>h x y cx cy w. if h = 7 then (True, 0, (x, y, cx, cy)) else (False, 1400, w)),
      GetDisplayConfigBufferSizes = (\<lambda>w. ((0, 1, 1), w)),
      QueryDisplayConfig = (\<lambda>p m w. ((0, [\<lparr>source_id = 0, target_id = 0\<rparr>]), w)),
      GetSourceName = (\<lambda>p w. (0, szDevice demo_monitor)),
      GetTargetName = (\<lambda>p w. (0, True, widen ''Panel'')),
      GetMonitorInfo = (\<lambda>h w. if h = 3 then (True, demo_monitor) else (False, demo_monitor)),
      EnumMonitors = (\<lambda>w. ([(3, (0, 0, 1920, 1080))], True)),
      MonitorCountMetric = (\<lambda>w. 1),
      vec_alloc = (\<lambda>_. AllocOk),
      map_room = (\<lambda>_. True),
      enum_flags_test = (\<lambda>a b. a AND b = b),
      obj_alloc = True\<rparr>"

lemma demo_desk_hr: "hr_law demo_desk"
  by (simp add: hr_law_def demo_desk_def)

lemma demo_desk_move: "move_keeps_names demo_desk 7"
proof -
  have "GetProcessInfoFromHWND demo_desk 7 w' = GetProcessInfoFromHWND demo_desk 7 w" for w w'
    unfolding GetProcessInfoFromHWND_def GetProcessImageNameFromId_def GetProcessImageNameFromHANDLE_def
      EndsWithOrdinalIgnoreCase_def
    by (simp add: demo_desk_def image_name_loop.simps GetProcessImageNameFromHANDLEWithBufferSize_def
        demo_image_def kApplicationHostFilename_def)
  then show ?thesis
    by (simp add: move_keeps_names_def same_title_def same_fixed_def demo_desk_def)
qed

definition demo_window :: WindowState where
  "demo_window = the (makeWindowState demo_desk 7)"

lemma demo_window_new: "makeWindowState demo_desk 7 = Some demo_window" "ws_hwnd demo_window = 7"
  by (simp_all add: demo_window_def makeWindowState_def demo_desk_def)

lemma demo_window_coherent: "coherent demo_desk F w demo_window"
  using makeWindowState_coherent [OF demo_window_new(1)] by blast

lemma demo_info: "info_of demo_desk 7 w = Some (Inr \<lparr>proc_id = 42, proc_filepath = demo_image\<rparr>)"
  unfolding info_of_def GetProcessInfoFromHWND_def GetProcessImageNameFromId_def
    GetProcessImageNameFromHANDLE_def EndsWithOrdinalIgnoreCase_def
  by (simp add: demo_desk_def image_name_loop.simps GetProcessImageNameFromHANDLEWithBufferSize_def
      demo_image_def kApplicationHostFilename_def hr_law_def HResultFromWin32_def)

lemma demo_answers: "answers demo_desk 7 w demo_image demo_class demo_title"
  unfolding answers_def class_of_def title_of_def
  by (simp add: demo_info) (simp add: demo_desk_def demo_class_def demo_title_def)

end
