(* ===== verification/ActionTree.thy ===== *)
theory ActionTree
  imports SettingsAction
begin

text \<open>
  An action and the tree it writes to: after any sequence of setter calls a later load of the action
  reads the object that the setters left.  The setters are those of \<open>settings/action/MoveAndResize.cc\<close>;
  clearing the monitor id, which removes its key, is left out.
\<close>

section \<open>What a write leaves alone\<close>

lemma reads_same:
  assumes "same_read Y t n t' n'"
  shows "ReadLongFromNodeOrDefault Y t' n' kid lo hi d = ReadLongFromNodeOrDefault Y t n kid lo hi d"
    and "ReadFloatFromNodeOrDefault_build fast Y t' n' kid flo fhi fd = ReadFloatFromNodeOrDefault_build fast Y t n kid flo fhi fd"
    and "ReadStringAndMatchTypeFromNode Y t' n' kid = ReadStringAndMatchTypeFromNode Y t n kid"
  using assms
  by (auto simp: same_read_def ReadLongFromNodeOrDefault_def ReadFloatFromNodeOrDefault_build_def
      ReadStringAndMatchTypeFromNode_def)

lemma other_keyD: "other_keys_same Y t t' m k \<Longrightarrow> k' \<noteq> k \<Longrightarrow> same_read Y t (y_at Y t m k') t' (y_at Y t' m k')"
  unfolding other_keys_same_def by blast

definition bound_keys :: "string list" where "bound_keys = [kPosX, kPosY, kWidth, kHeight]"

lemma bound_keys_distinct:
  "distinct bound_keys" "length bound_keys = 4" "kMonitorId \<notin> set bound_keys" "kMonitorName \<notin> set bound_keys"
  "kMonitorName \<noteq> kMonitorId"
  by (simp_all add: bound_keys_def kPosX_def kPosY_def kWidth_def kHeight_def kMonitorId_def kMonitorName_def)

lemma bound_key_neq: "i < 4 \<Longrightarrow> j < 4 \<Longrightarrow> j \<noteq> i \<Longrightarrow> bound_keys ! j \<noteq> bound_keys ! i"
  using bound_keys_distinct(1,2) by (simp add: nth_eq_iff_index_eq)

lemma monitor_key_neq: "i < 4 \<Longrightarrow> kMonitorId \<noteq> bound_keys ! i" "i < 4 \<Longrightarrow> kMonitorName \<noteq> bound_keys ! i"
  using bound_keys_distinct(2-4) by (metis nth_mem)+

section \<open>The absolute action\<close>

text \<open>A sequence of setter calls, each on the coordinate of its index.\<close>

fun abs_sets ::
  "('t, 'n, 'a) ryml_scheme \<Rightarrow> (nat \<times> 32 word) list \<Rightarrow> 't \<Rightarrow> 'n AbsoluteMoveAndResize \<Rightarrow>
   exn + 't \<times> 'n AbsoluteMoveAndResize" where
  "abs_sets Y [] t a = Inr (t, a)"
| "abs_sets Y ((i, v) # vs) t a =
     rbind (([abs_setX Y, abs_setY Y, abs_setWidth Y, abs_setHeight Y] ! i) t a v)
       (\<lambda>(t', a'). abs_sets Y vs t' a')"

lemma less_4_cases:
  fixes i :: nat
  assumes "i < 4"
  obtains "i = 0" | "i = 1" | "i = 2" | "i = 3"
  using assms by linarith

lemma abs_setter_nth:
  assumes "i < 4"
  shows "[abs_setX Y, abs_setY Y, abs_setWidth Y, abs_setHeight Y] ! i = abs_set Y i (bound_keys ! i)"
  using assms
  by (cases rule: less_4_cases) (simp_all add: bound_keys_def abs_setX_def abs_setY_def abs_setWidth_def abs_setHeight_def)

text \<open>The four reads of the constructor by their index.\<close>

definition read_bound :: "('t, 'n, 'a) ryml_scheme \<Rightarrow> 't \<Rightarrow> 'n \<Rightarrow> nat \<Rightarrow> exn + 32 word" where
  "read_bound Y t n i = ReadLongFromNodeOrDefault Y t (y_at Y t n (bound_keys ! i))
     ([KeyPositionX, KeyPositionY, KeyWidth, KeyHeight] ! i)
     (if i < 2 then kAbsoluteCoordinateMin else kAbsoluteLengthMin)
     (if i < 2 then kAbsoluteCoordinateMax else kAbsoluteLengthMax) ([0, 0, 640, 400] ! i)"

lemma makeAbsolute_iff:
  "makeAbsolute Y t n = Inr a \<longleftrightarrow> abs_node a = n \<and> (\<forall>i < 4. read_bound Y t n i = Inr (i4_at (abs_bounds a) i))"
proof -
  obtain m x y w h where a: "a = \<lparr>abs_node = m, abs_bounds = M128 x y w h\<rparr>"
    by (cases a; cases "abs_bounds a") auto
  show ?thesis
    unfolding all_less_4 by (auto simp: makeAbsolute_def rbind_eq_Inr read_bound_def bound_keys_def a i4_at_def i4_make_def)
qed

lemma read_bound_written:
  assumes "yaml_write_law Y" "abs_set_pre i v" "i < 4" "y_write_long Y t (y_at Y t n (bound_keys ! i)) v = Inr t'"
  shows "read_bound Y t' n i = Inr v"
proof -
  obtain s where "scalar_node Y t' (y_at Y t' n (bound_keys ! i)) s"
      "\<not> y_val_is_null Y t' (y_at Y t' n (bound_keys ! i))" "y_read_long Y t' (y_at Y t' n (bound_keys ! i)) = Some v"
    using yaml_write_longD [OF assms(1,4)] .
  then show ?thesis
    using assms(2) by (auto simp: read_bound_def ReadLongFromNodeOrDefault_def scalar_node_def abs_set_pre_def
        word_sless_alt word_sle_eq split: if_splits)
qed

lemma i4_lanes: "lanes v = map (i4_at v) [0..<4]" "i < 4 \<Longrightarrow> lanes (i4_setAt v i x) = (lanes v)[i := x]"
  by (cases v; simp add: i4_at_def upt_rec) (rule setAt_lanes)

lemma i4_set_at: "i < 4 \<Longrightarrow> j < 4 \<Longrightarrow> i4_at (i4_setAt v i x) j = (if j = i then x else i4_at v j)"
  by (simp add: i4_at_def setAt_lanes nth_list_update)

lemma abs_set_synced:
  assumes "yaml_write_law Y" "yaml_frame_law Y" "y_is_map Y t n" "makeAbsolute Y t n = Inr a" "i < 4" "abs_set_pre i v"
    and "abs_set Y i (bound_keys ! i) t a v = Inr (t', a')"
  shows "makeAbsolute Y t' n = Inr a' \<and> y_is_map Y t' n \<and> lanes (abs_bounds a') = (lanes (abs_bounds a))[i := v]"
proof (cases "i4_at (abs_bounds a) i = v")
  case True
  then have "t' = t" "a' = a" using assms(7) by (simp_all add: abs_set_def)
  moreover have "(lanes (abs_bounds a))[i := v] = lanes (abs_bounds a)"
    using True by (auto simp: i4_at_def list_update_same_conv)
  ultimately show ?thesis using assms(3,4) by simp
next
  case False
  note a = assms(4) [unfolded makeAbsolute_iff]
  have w: "y_write_long Y t (y_at Y t n (bound_keys ! i)) v = Inr t'"
    and a': "a' = a\<lparr>abs_bounds := i4_setAt (abs_bounds a) i v\<rparr>"
    using assms(7) False a by (auto simp: abs_set_def WriteLongToNode_def res_simps split: if_splits)
  note f = yaml_frameD(1) [OF assms(2,3) w]
  have "read_bound Y t' n j = Inr (i4_at (abs_bounds a') j)" if "j < 4" for j
  proof (cases "j = i")
    case True
    then show ?thesis using read_bound_written [OF assms(1,6,5) w] assms(5) by (simp add: a' i4_set_at)
  next
    case False
    then have "read_bound Y t' n j = read_bound Y t n j"
      using reads_same(1) [OF other_keyD [OF f bound_key_neq [OF assms(5) that False]]] by (simp add: read_bound_def)
    then show ?thesis using a False that assms(5) by (simp add: a' i4_set_at)
  qed
  then show ?thesis using a f assms(5) by (simp add: makeAbsolute_iff a' other_keys_same_def i4_lanes(2))
qed

lemma abs_sets_synced:
  assumes "yaml_write_law Y" "yaml_frame_law Y"
  shows "y_is_map Y t n \<Longrightarrow> makeAbsolute Y t n = Inr a \<Longrightarrow> \<forall>(i, v) \<in> set vs. i < 4 \<and> abs_set_pre i v \<Longrightarrow>
    abs_sets Y vs t a = Inr (t', a') \<Longrightarrow>
    makeAbsolute Y t' n = Inr a' \<and> lanes (abs_bounds a') = fold (\<lambda>(i, v) xs. xs[i := v]) vs (lanes (abs_bounds a))"
proof (induction vs arbitrary: t a)
  case (Cons iv vs)
  obtain i v where iv: "iv = (i, v)" "i < 4" "abs_set_pre i v" using Cons.prems(3) by (cases iv) auto
  obtain t1 a1 where set1: "abs_set Y i (bound_keys ! i) t a v = Inr (t1, a1)" "abs_sets Y vs t1 a1 = Inr (t', a')"
    using Cons.prems(4) unfolding iv(1) abs_sets.simps abs_setter_nth [OF iv(2)] rbind_eq_Inr by auto
  have "makeAbsolute Y t1 n = Inr a1 \<and> y_is_map Y t1 n \<and> lanes (abs_bounds a1) = (lanes (abs_bounds a))[i := v]"
    by (rule abs_set_synced [OF assms Cons.prems(1,2) iv(2,3) set1(1)])
  then show ?case using Cons.IH [of t1 a1] Cons.prems(3) set1(2) by (simp add: iv(1))
qed simp

section \<open>The relative action\<close>

text \<open>A setter call: of one of the four fractions by its index, or of the monitor id.\<close>

datatype rel_op = SetFraction nat f32 | SetId "32 word"

fun rel_op_ok :: "rel_op \<Rightarrow> bool" where
  "rel_op_ok (SetFraction i f) \<longleftrightarrow> i < 4 \<and> f32_finite f \<and> 0 \<le> f32_val f \<and> f32_val f \<le> 1"
| "rel_op_ok (SetId v) \<longleftrightarrow> sint v \<in> {1..16}"

fun rel_op_run :: "('t, 'n, 'a) ryml_scheme \<Rightarrow> rel_op \<Rightarrow> 't \<Rightarrow> 'n RelativeMoveAndResize \<Rightarrow> exn + 't \<times> 'n RelativeMoveAndResize" where
  "rel_op_run Y (SetFraction i f) t r = ([rel_setX Y, rel_setY Y, rel_setWidth Y, rel_setHeight Y] ! i) t r f"
| "rel_op_run Y (SetId v) t r = rel_setId Y t r v"

fun rel_sets ::
  "('t, 'n, 'a) ryml_scheme \<Rightarrow> rel_op list \<Rightarrow> 't \<Rightarrow> 'n RelativeMoveAndResize \<Rightarrow> exn + 't \<times> 'n RelativeMoveAndResize" where
  "rel_sets Y [] t r = Inr (t, r)"
| "rel_sets Y (op # ops) t r = rbind (rel_op_run Y op t r) (\<lambda>(t', r'). rel_sets Y ops t' r')"

text \<open>What the calls make of the fractions and of the id.\<close>

fun set_fraction :: "rel_op \<Rightarrow> rat list \<Rightarrow> rat list" where
  "set_fraction (SetFraction i f) xs = xs[i := f32_val f]"
| "set_fraction (SetId v) xs = xs"

fun set_id :: "rel_op \<Rightarrow> 32 word \<Rightarrow> 32 word" where
  "set_id (SetFraction i f) v = v"
| "set_id (SetId v) _ = v"

lemma rel_setter_nth:
  assumes "i < 4"
  shows "[rel_setX Y, rel_setY Y, rel_setWidth Y, rel_setHeight Y] ! i = rel_set Y i (bound_keys ! i)"
  using assms
  by (cases rule: less_4_cases) (simp_all add: bound_keys_def rel_setX_def rel_setY_def rel_setWidth_def rel_setHeight_def)

definition read_fraction :: "bool \<Rightarrow> ('t, 'n, 'a) ryml_scheme \<Rightarrow> 't \<Rightarrow> 'n \<Rightarrow> nat \<Rightarrow> exn + f32" where
  "read_fraction fast Y t n i = ReadFloatFromNodeOrDefault_build fast Y t (y_at Y t n (bound_keys ! i))
     ([KeyPositionX, KeyPositionY, KeyWidth, KeyHeight] ! i) kRelativeCoordinateMin kRelativeCoordinateMax
     ([f32_half, f32_half, f32_one, f32_one] ! i)"

definition read_id :: "('t, 'n, 'a) ryml_scheme \<Rightarrow> 't \<Rightarrow> 'n \<Rightarrow> exn + 32 word" where
  "read_id Y t n = ReadLongFromNodeOrDefault Y t (y_at Y t n kMonitorId) KeyMonitorId
     kRelativeMonitorIdMin kRelativeMonitorIdMax kRelativeMonitorIdUnset"

definition read_name :: "('t, 'n, 'a) ryml_scheme \<Rightarrow> 't \<Rightarrow> 'n \<Rightarrow> exn + StringAndMatchType" where
  "read_name Y t n = ReadStringAndMatchTypeFromNode Y t (y_at Y t n kMonitorName) KeyMonitorName"

lemma makeRelative_iff:
  "makeRelative_build fast Y t n = Inr r \<longleftrightarrow> rel_node r = n \<and> read_name Y t n = Inr (rel_name r) \<and>
     (\<forall>i < 4. read_fraction fast Y t n i = Inr (f4_at (rel_bounds r) i)) \<and> read_id Y t n = Inr (rel_id r)"
proof -
  obtain m s x y w h i where r: "r = \<lparr>rel_node = m, rel_name = s, rel_bounds = M128 x y w h, rel_id = i\<rparr>"
    by (cases r; cases "rel_bounds r") auto
  show ?thesis
    unfolding all_less_4
    by (cases s) (auto simp: makeRelative_build_def rbind_eq_Inr read_fraction_def read_id_def read_name_def ReadIntFromNodeOrDefault_def
        bound_keys_def r f4_at_def f4_make_def)
qed

lemma read_fraction_written:
  assumes "yaml_write_law Y" "rel_op_ok (SetFraction i f)" "y_write_float Y t (y_at Y t n (bound_keys ! i)) f = Inr t'"
  shows "read_fraction fast Y t' n i = Inr f"
proof -
  have f: "f32_finite f" "0 \<le> f32_val f" "f32_val f \<le> 1" using assms(2) by simp_all
  obtain s where "scalar_node Y t' (y_at Y t' n (bound_keys ! i)) s"
      "\<not> y_val_is_null Y t' (y_at Y t' n (bound_keys ! i))" "y_read_float Y t' (y_at Y t' n (bound_keys ! i)) = Some f"
    using yaml_write_floatD [OF assms(1,3) f(1)] .
  then show ?thesis
    using f by (simp add: read_fraction_def ReadFloatFromNodeOrDefault_build_def scalar_node_def limit_defs f32_isfinite_def
        f32_lt_finite f32_consts f32_consts_finite)
qed

lemma read_id_written:
  assumes "yaml_write_law Y" "rel_op_ok (SetId v)" "y_write_long Y t (y_at Y t n kMonitorId) v = Inr t'"
  shows "read_id Y t' n = Inr v"
proof -
  obtain s where "scalar_node Y t' (y_at Y t' n kMonitorId) s"
      "\<not> y_val_is_null Y t' (y_at Y t' n kMonitorId)" "y_read_long Y t' (y_at Y t' n kMonitorId) = Some v"
    using yaml_write_longD [OF assms(1,3)] .
  then show ?thesis
    using assms(2) by (simp add: read_id_def ReadLongFromNodeOrDefault_def scalar_node_def limit_defs word_sless_alt)
qed

lemma f32_eq_val:
  assumes "f32_eq a b" "f32_finite b"
  shows "f32_val a = f32_val b"
proof -
  have "f32_finite a" using assms by (auto simp: f32_eq_def f32_key_def f32_finite_def split: if_splits)
  then show ?thesis using assms f32_eq_finite by blast
qed

lemma f4_set_at: "i < 4 \<Longrightarrow> j < 4 \<Longrightarrow> f4_at (f4_setAt v i x) j = (if j = i then x else f4_at v j)"
  by (simp add: f4_at_def setAt_lanes nth_list_update)

lemma rel_set_synced:
  assumes "yaml_write_law Y" "yaml_frame_law Y" "y_is_map Y t n" "makeRelative_build fast Y t n = Inr r"
    and "rel_op_ok (SetFraction i f)" "rel_set Y i (bound_keys ! i) t r f = Inr (t', r')"
  shows "makeRelative_build fast Y t' n = Inr r' \<and> y_is_map Y t' n \<and>
    map f32_val (lanes (rel_bounds r')) = (map f32_val (lanes (rel_bounds r)))[i := f32_val f] \<and>
    rel_id r' = rel_id r \<and> rel_name r' = rel_name r"
proof (cases "f32_eq (f4_at (rel_bounds r) i) f")
  case True
  then have "t' = t" "r' = r" using assms(6) by (simp_all add: rel_set_def)
  moreover have "i < 4" using assms(5) by simp
  then have "(map f32_val (lanes (rel_bounds r)))[i := f32_val f] = map f32_val (lanes (rel_bounds r))"
    using f32_eq_val [OF True] assms(5) by (simp add: f4_at_def list_update_same_conv)
  ultimately show ?thesis using assms(3,4) by simp
next
  case False
  have i: "i < 4" using assms(5) by simp
  note r = assms(4) [unfolded makeRelative_iff]
  have w: "y_write_float Y t (y_at Y t n (bound_keys ! i)) f = Inr t'"
    and r': "r' = r\<lparr>rel_bounds := f4_setAt (rel_bounds r) i f\<rparr>"
    using assms(6) False r by (auto simp: rel_set_def WriteFloatToNode_def res_simps split: if_splits)
  note fr = yaml_frameD(2) [OF assms(2,3) w]
  have "read_fraction fast Y t' n j = Inr (f4_at (rel_bounds r') j)" if "j < 4" for j
  proof (cases "j = i")
    case True
    then show ?thesis using read_fraction_written [OF assms(1,5) w] i by (simp add: r' f4_set_at)
  next
    case False
    then have "read_fraction fast Y t' n j = read_fraction fast Y t n j"
      using reads_same(2) [OF other_keyD [OF fr bound_key_neq [OF i that False]]] by (simp add: read_fraction_def)
    then show ?thesis using r False that i by (simp add: r' f4_set_at)
  qed
  moreover have "read_id Y t' n = read_id Y t n" "read_name Y t' n = read_name Y t n"
    using reads_same(1) [OF other_keyD [OF fr monitor_key_neq(1) [OF i]]]
      reads_same(3) [OF other_keyD [OF fr monitor_key_neq(2) [OF i]]] by (simp_all add: read_id_def read_name_def)
  ultimately show ?thesis using r fr i by (simp add: makeRelative_iff r' other_keys_same_def setAt_lanes map_update)
qed

lemma rel_setId_synced:
  assumes "yaml_write_law Y" "yaml_frame_law Y" "y_is_map Y t n" "makeRelative_build fast Y t n = Inr r"
    and "rel_op_ok (SetId v)" "rel_setId Y t r v = Inr (t', r')" and set: "v \<noteq> kRelativeMonitorIdUnset"
  shows "makeRelative_build fast Y t' n = Inr r' \<and> y_is_map Y t' n \<and> rel_bounds r' = rel_bounds r \<and>
    rel_id r' = v \<and> rel_name r' = rel_name r"
proof (cases "rel_id r = v")
  case True
  then have "t' = t" "r' = r" using assms(6) set by (simp_all add: rel_setId_def)
  then show ?thesis using assms(3,4) True by simp
next
  case False
  note r = assms(4) [unfolded makeRelative_iff]
  have w: "y_write_long Y t (y_at Y t n kMonitorId) v = Inr t'" and r': "r' = r\<lparr>rel_id := v\<rparr>"
    using assms(6) False r set by (auto simp: rel_setId_def WriteLongToNode_def res_simps split: if_splits)
  note fr = yaml_frameD(1) [OF assms(2,3) w]
  have "read_fraction fast Y t' n j = read_fraction fast Y t n j" if "j < 4" for j
    using reads_same(2) [OF other_keyD [OF fr monitor_key_neq(1) [OF that, symmetric]]] by (simp add: read_fraction_def)
  moreover have "read_name Y t' n = read_name Y t n"
    using reads_same(3) [OF other_keyD [OF fr bound_keys_distinct(5)]] by (simp add: read_name_def)
  ultimately show ?thesis
    using r fr read_id_written [OF assms(1,5) w] by (simp add: makeRelative_iff r' other_keys_same_def)
qed

lemma rel_sets_synced:
  assumes "yaml_write_law Y" "yaml_frame_law Y"
  shows "y_is_map Y t n \<Longrightarrow> makeRelative_build fast Y t n = Inr r \<Longrightarrow> list_all rel_op_ok ops \<Longrightarrow>
    rel_sets Y ops t r = Inr (t', r') \<Longrightarrow>
    makeRelative_build fast Y t' n = Inr r' \<and> rel_name r' = rel_name r \<and> rel_id r' = fold set_id ops (rel_id r) \<and>
    map f32_val (lanes (rel_bounds r')) = fold set_fraction ops (map f32_val (lanes (rel_bounds r)))"
proof (induction ops arbitrary: t r)
  case (Cons op ops)
  obtain t1 r1 where o: "rel_op_run Y op t r = Inr (t1, r1)" "rel_sets Y ops t1 r1 = Inr (t', r')"
    using Cons.prems(4) by (auto simp: rbind_eq_Inr)
  have ok: "rel_op_ok op" "list_all rel_op_ok ops" using Cons.prems(3) by simp_all
  have "makeRelative_build fast Y t1 n = Inr r1 \<and> y_is_map Y t1 n \<and> rel_name r1 = rel_name r \<and>
    rel_id r1 = set_id op (rel_id r) \<and> map f32_val (lanes (rel_bounds r1)) = set_fraction op (map f32_val (lanes (rel_bounds r)))"
  proof (cases op)
    case (SetFraction i f)
    have "rel_set Y i (bound_keys ! i) t r f = Inr (t1, r1)"
      using o(1) ok(1) by (simp add: SetFraction rel_setter_nth)
    from rel_set_synced [OF assms Cons.prems(1,2) ok(1) [unfolded SetFraction] this] show ?thesis by (simp add: SetFraction)
  next
    case (SetId v)
    have "rel_setId Y t r v = Inr (t1, r1)" using o(1) by (simp add: SetId)
    moreover have "v \<noteq> kRelativeMonitorIdUnset" using ok(1) SetId by (auto simp: limit_defs)
    ultimately show ?thesis
      using rel_setId_synced [OF assms Cons.prems(1,2) ok(1) [unfolded SetId]] by (simp add: SetId)
  qed
  then show ?case using Cons.IH [of t1 r1] ok(2) o(2) by simp
qed simp

end
