(* ===== verification/Settings_Properties.thy ===== *)
theory Settings_Properties
  imports Instances ActionTree
begin

text \<open>
  The properties of the settings side: texts, numbers and triggers of a rule, the rules of a document,
  and the document's way from and to the disk.  Each property with hypotheses is followed by its
  application to a concrete document or file system of \<open>Instances\<close>.
\<close>

section \<open>A document\<close>

text \<open>Two rules: the first is complete, the second has no \<open>where\<close> and is rejected.\<close>

abbreviation rule1 :: ypath where "rule1 \<equiv> [Key ''rules'', Idx 1]"
abbreviation rule2 :: ypath where "rule2 \<equiv> [Key ''rules'', Idx 2]"

definition demo_tree :: ytree where
  "demo_tree =
     [([], YMap), ([Key ''rules''], YSeq), (rule1, YMap),
      (rule1 @ [Key ''name''], YScalar ''edit''),
      (rule1 @ [Key ''when''], YScalar ''focus''),
      (rule1 @ [Key ''where''], YMap),
      (rule1 @ [Key ''where'', Key ''class''], YScalar ''^Notepad$''),
      (rule1 @ [Key ''then''], YMap),
      (rule1 @ [Key ''then'', Key ''type''], YScalar ''relative_move_and_resize''),
      (rule1 @ [Key ''then'', Key ''x''], YFloat f32_one),
      (rule2, YMap)]"

lemmas key_simps = kRules_def kName_def kWhen_def kWhere_def kThen_def kType_def kPosX_def kPosY_def
  kWidth_def kHeight_def kMonitorId_def kMonitorName_def kProcessKey_def kWindowClassKey_def
  kWindowTitleKey_def

section \<open>Triggers\<close>

lemma triggers_write_read_witness:
  "\<exists>t'. WriteTriggerFlagsToNode (demo_yaml (\<lambda>_. [])) demo_tree rule1 6 = Some (Inr (S_OK, Some t')) \<and>
     ReadTriggerFlagsFromNode (demo_yaml (\<lambda>_. [])) t' rule1 = Inr 6"
  by (rule triggers_write_read [OF demo_yaml_seq demo_yaml_enum demo_yaml_alloc demo_yaml_reshape])
    (simp_all add: trigger_flags_def take_bit_eq_mask mask_numeral demo_sel demo_tree_def key_simps
      yt_has_val_def yt_children_def yt_child_def)

section \<open>Texts\<close>

text \<open>C36: A text and its match type that are written under a key are read back as they were, for every
  text that does not begin with a caret, end with a dollar sign or spell a YAML null.\<close>

theorem match_text_round_trip:
  assumes "yaml_write_law Y" "text_law Y"
    and "WriteStringAndMatchTypeToNode Y t (y_at Y t n k) (m, text) = Inr t'"
    and "if text = [] then s = [] else wc_outputs Y text s \<and> str_alloc Y (length text) = AllocOk"
    and "s \<noteq> [] \<Longrightarrow> hd s \<noteq> CHR ''^'' \<and> last s \<noteq> CHR ''$''" "\<not> null_text (join_match m s)"
  shows "ReadStringAndMatchTypeFromNode Y t' (y_at Y t' n k) kid = Inr (m, text)"
proof -
  have split: "split_match (join_match m s) = (m, s)" using assms(5) by (intro split_join_match) auto
  have "y_write_str Y t (y_at Y t n k) (join_match m s) = Inr t'"
  proof (cases "text = []")
    case True
    then show ?thesis using assms(3,4) by (simp add: WriteStringAndMatchTypeToNode_def split: if_splits)
  next
    case False
    then have out: "wc_outputs Y text s" using assms(4) by simp
    obtain hr u where c: "ConvertUtf16ToUtf8 Y text [] = (hr, u)" by fastforce
    then have "\<not> FAILED hr" using assms(3) False
      by (auto simp: WriteStringAndMatchTypeToNode_def check_hresult_def res_simps split: if_splits)
    then have "u = s"
      using out c by (auto simp: ConvertUtf16ToUtf8_def wc_outputs_def split: alloc.splits prod.splits)
    then show ?thesis using assms(3) False c \<open>\<not> FAILED hr\<close>
      by (auto simp: WriteStringAndMatchTypeToNode_def check_hresult_def res_simps split: if_splits)
  qed
  note w = yaml_write_strD [OF assms(1) this]
  note node = w(1) [unfolded scalar_node_def] w(2)
  show ?thesis
  proof (cases "s = []")
    case True
    then have "text = []" using assms(4) by (auto simp: wc_outputs_def split: if_splits)
    then show ?thesis
      using node split True assms(6) by (cases m) (auto simp: ReadStringAndMatchTypeFromNode_def)
  next
    case False
    then have t: "text \<noteq> []" "wc_outputs Y text s" "str_alloc Y (length text) = AllocOk"
      using assms(4) by (auto split: if_splits)
    have "mb_outputs Y s text" using assms(2) t(2) unfolding text_law_def by blast
    then have "ConvertUtf8Value Y kid s = Inr text"
      using ConvertUtf8ToUtf16_ok [OF _ t(3)] by (simp add: ConvertUtf8Value_def)
    then show ?thesis
      using node split False assms(6) by (simp add: ReadStringAndMatchTypeFromNode_def)
  qed
qed

lemma write_text:
  assumes "ConvertUtf16ToUtf8 Y text [] = (S_OK, u)" "text \<noteq> []" "y_has_val Y t n"
  shows "WriteStringAndMatchTypeToNode Y t n (m, text) = y_write_str Y t n (join_match m u)"
  using assms by (simp add: WriteStringAndMatchTypeToNode_def check_hresult_def res_simps)

lemma demo_class_node: "y_has_val (demo_yaml p) demo_tree (rule1 @ [Key ''where'', Key ''class''])"
  by (simp add: demo_sel demo_tree_def yt_has_val_def)

lemma match_text_round_trip_witness:
  "\<exists>t'. WriteStringAndMatchTypeToNode (demo_yaml (\<lambda>_. [])) demo_tree (rule1 @ [Key ''where'', Key ''class''])
       (kEndsWith, widen ''ad'') = Inr t' \<and>
     ReadStringAndMatchTypeFromNode (demo_yaml (\<lambda>_. [])) t' (rule1 @ [Key ''where'', Key ''class'']) KeyWindowClass
       = Inr (kEndsWith, widen ''ad'')"
proof -
  let ?Y = "demo_yaml (\<lambda>_. [])" and ?n = "rule1 @ [Key ''where'']"
  have wc: "wc_outputs ?Y (widen ''ad'') ''ad''"
    by (rule demo_wc_widen) (simp_all add: demo_sel ascii_def)
  have at: "y_at ?Y t ?n ''class'' = rule1 @ [Key ''where'', Key ''class'']" for t
    by (simp add: demo_sel)
  have c: "ConvertUtf16ToUtf8 ?Y (widen ''ad'') [] = (S_OK, ''ad'')"
    using ConvertUtf16ToUtf8_ok [OF wc] by (simp add: demo_sel)
  obtain t' where t': "WriteStringAndMatchTypeToNode ?Y demo_tree (y_at ?Y demo_tree ?n ''class'')
      (kEndsWith, widen ''ad'') = Inr t'"
    using write_text [OF c, of demo_tree "y_at ?Y demo_tree ?n ''class''" kEndsWith] demo_class_node at
    by (simp add: widen_def) (simp add: demo_sel)
  have "ReadStringAndMatchTypeFromNode ?Y t' (y_at ?Y t' ?n ''class'') KeyWindowClass = Inr (kEndsWith, widen ''ad'')"
    by (rule match_text_round_trip [OF demo_yaml_write demo_yaml_text t', of "''ad''"])
      (use wc in \<open>simp_all add: null_text_def, simp add: demo_sel\<close>)
  then show ?thesis using t' unfolding at by blast
qed

text \<open>A text that begins with a caret, or spells null, does not survive: the filter \<open>contains ^a\<close> is read
  back as \<open>starts with a\<close>, and \<open>contains null\<close> as no constraint.\<close>

lemma match_text_lost:
  "(\<exists>t'. WriteStringAndMatchTypeToNode (demo_yaml (\<lambda>_. [])) demo_tree (rule1 @ [Key ''where'', Key ''class''])
       (kContains, widen ''^a'') = Inr t' \<and>
     ReadStringAndMatchTypeFromNode (demo_yaml (\<lambda>_. [])) t' (rule1 @ [Key ''where'', Key ''class'']) KeyWindowClass
       = Inr (kStartsWith, widen ''a'')) \<and>
   (\<exists>t'. WriteStringAndMatchTypeToNode (demo_yaml (\<lambda>_. [])) demo_tree (rule1 @ [Key ''where'', Key ''class''])
       (kContains, widen ''null'') = Inr t' \<and>
     ReadStringAndMatchTypeFromNode (demo_yaml (\<lambda>_. [])) t' (rule1 @ [Key ''where'', Key ''class'']) KeyWindowClass
       = Inr (kContains, []))"
proof -
  let ?Y = "demo_yaml (\<lambda>_. [])" and ?p = "rule1 @ [Key ''where'', Key ''class'']"
  have w: "WriteStringAndMatchTypeToNode ?Y demo_tree ?p (kContains, widen s) = Inr (yt_write demo_tree ?p (YScalar s))"
    if "s = ''^a'' \<or> s = ''null''" for s
  proof -
    have "wc_outputs ?Y (widen s) s"
      by (rule demo_wc_widen) (use that in \<open>auto simp: demo_sel ascii_def\<close>)
    then have "ConvertUtf16ToUtf8 ?Y (widen s) [] = (S_OK, s)"
      using ConvertUtf16ToUtf8_ok by (fastforce simp: demo_sel)
    then have "WriteStringAndMatchTypeToNode ?Y demo_tree ?p (kContains, widen s) = y_write_str ?Y demo_tree ?p (join_match kContains s)"
      by (rule write_text) (use that demo_class_node in \<open>auto simp: widen_def\<close>)
    then show ?thesis by (simp add: demo_sel)
  qed
  have "ConvertUtf8ToUtf16 ?Y ''a'' [] = (S_OK, widen ''a'')"
    by (rule ConvertUtf8ToUtf16_ok)
      (simp_all add: mb_outputs_def demo_sel demo_mb_to_wc_def ascii_def widen_def)
  then have "ReadStringAndMatchTypeFromNode ?Y (yt_write demo_tree ?p (YScalar ''^a'')) ?p KeyWindowClass
      = Inr (kStartsWith, widen ''a'')"
    by (simp add: ReadStringAndMatchTypeFromNode_def ConvertUtf8Value_def)
      (simp add: demo_sel map_of_write yt_invalid_def ConvertUtf8Value_def yt_has_val_def yt_val_def yt_text_def null_text_def
        split_match_def)
  moreover have "ReadStringAndMatchTypeFromNode ?Y (yt_write demo_tree ?p (YScalar ''null'')) ?p KeyWindowClass
      = Inr (kContains, [])"
    by (simp add: ReadStringAndMatchTypeFromNode_def)
      (simp add: demo_sel map_of_write yt_invalid_def ConvertUtf8Value_def null_text_def)
  ultimately show ?thesis using w by blast
qed

section \<open>Numbers\<close>

text \<open>C35: An absolute action holds coordinates from -16384 to 16384 and lengths from 0 to 16384 when it
  has been read from a document, and after any sequence of setter calls with values in those limits;
  \<open>docs/configuration.md\<close> gives 0 to 16384 for the coordinates too, which the code does not ask for.  A
  relative action that has been read holds a monitor id from 0 (not set) to 16 and four fractions, each from
  0 to 1 or, in a build with \<open>_M_FP_FAST\<close> (\<open>fast\<close>), as the project's is, a NaN.\<close>

theorem move_values_in_range:
  assumes "makeAbsolute Y t node = Inr a" "abs_sets Y vs t a = Inr (t', a')"
    and "\<forall>(i, v) \<in> set vs. i < 4 \<and> abs_set_pre i v"
    and "makeRelative_build fast Y u node' = Inr r"
  shows "(\<forall>i < 4. (if i < 2 then - 16384 else 0) \<le> sint (i4_at (abs_bounds a') i) \<and> sint (i4_at (abs_bounds a') i) \<le> 16384) \<and>
    sint (rel_id r) \<in> {0..16} \<and>
    (\<forall>i < 4. let f = f4_at (rel_bounds r) i in
       f32_finite f \<and> 0 \<le> f32_val f \<and> f32_val f \<le> 1 \<or> fast \<and> f32_nan f)"
proof -
  have "abs_valid b \<Longrightarrow> abs_sets Y vs t b = Inr (t', a') \<Longrightarrow> abs_valid a'" for b
    using assms(3)
  proof (induction vs arbitrary: t b)
    case (Cons iv vs)
    obtain i v where iv: "iv = (i, v)" "i < 4" "abs_set_pre i v" using Cons.prems(3) by (cases iv) auto
    obtain t1 b1 where set1: "abs_set Y i (bound_keys ! i) t b v = Inr (t1, b1)"
        "abs_sets Y vs t1 b1 = Inr (t', a')"
      using Cons.prems(2) unfolding iv(1) abs_sets.simps abs_setter_nth [OF iv(2)] rbind_eq_Inr by auto
    show ?case
      using Cons.IH [OF abs_set_valid(1) [OF set1(1) Cons.prems(1) iv(3,2)] set1(2)] Cons.prems(3) by simp
  qed simp
  from this [OF makeAbsolute_valid(1) [OF assms(1)] assms(2)] makeRelative_build_valid [OF assms(4)]
  show ?thesis by (simp add: abs_valid_def all_less_4 abs_pre_sint unit_fraction_def)
qed

text \<open>A document whose width is not a number, which the fast build accepts.\<close>

definition nan_tree :: ytree where
  "nan_tree = [(rule1, YMap), (rule1 @ [Key ''width''], YFloat 0x7FC00000)]"

lemma nan_relative:
  "makeRelative_build True (demo_yaml (\<lambda>_. [])) nan_tree rule1 = Inr \<lparr>rel_node = rule1, rel_name = (kContains, []),
     rel_bounds = M128 f32_half f32_half 0x7FC00000 f32_one, rel_id = 0\<rparr>"
  by (simp add: makeRelative_build_def ReadFloatFromNodeOrDefault_build_def ReadIntFromNodeOrDefault_def
      ReadLongFromNodeOrDefault_def ReadStringAndMatchTypeFromNode_def demo_sel yt_invalid_def
      yt_has_val_def nan_tree_def key_simps f4_make_def limit_defs f32_lt_def f32_nan_def f32_mag_def inf_mag_def Let_def)

lemma move_values_in_range_witness:
  "\<exists>a r. makeAbsolute (demo_yaml (\<lambda>_. [])) [(rule1, YMap)] rule1 = Inr a \<and>
     makeRelative_build True (demo_yaml (\<lambda>_. [])) nan_tree rule1 = Inr r \<and>
     sint (i4_at (abs_bounds a) 1) \<le> 16384 \<and> sint (rel_id r) \<in> {0..16} \<and> f32_nan (f4_at (rel_bounds r) 2)"
proof -
  let ?Y = "demo_yaml (\<lambda>_. [])" and ?t = "[(rule1, YMap)]"
  have a: "makeAbsolute ?Y ?t rule1 = Inr \<lparr>abs_node = rule1, abs_bounds = M128 0 0 640 400\<rparr>"
    by (simp add: makeAbsolute_def ReadLongFromNodeOrDefault_def demo_sel yt_invalid_def key_simps i4_make_def)
  have s: "\<exists>t'. abs_sets ?Y [(0, -16384), (2, 16384)] ?t \<lparr>abs_node = rule1, abs_bounds = M128 0 0 640 400\<rparr> =
      Inr (t', \<lparr>abs_node = rule1, abs_bounds = M128 (-16384) 0 16384 400\<rparr>)"
    by (simp add: abs_setX_def abs_setWidth_def abs_set_def i4_at_def WriteLongToNode_def
        demo_sel key_simps numeral_2_eq_2 map_of_write yt_has_val_def)
  then obtain t' where t': "abs_sets ?Y [(0, -16384), (2, 16384)] ?t \<lparr>abs_node = rule1, abs_bounds = M128 0 0 640 400\<rparr> =
      Inr (t', \<lparr>abs_node = rule1, abs_bounds = M128 (-16384) 0 16384 400\<rparr>)" by blast
  have "sint (0 :: 32 word) \<in> {0..16}"
    using move_values_in_range [OF a t' _ nan_relative] by (simp add: abs_set_pre_def limit_defs word_sle_eq)
  then show ?thesis using a nan_relative by (simp add: i4_at_def f4_at_def f32_nan_def f32_mag_def inf_mag_def)
qed

text \<open>C38: What the setters of an action wrote is what a later load reads.  After any sequence of calls of
  \<open>setX\<close>, \<open>setY\<close>, \<open>setWidth\<close> and \<open>setHeight\<close> of an absolute action, and of these and \<open>setId\<close> of a relative
  action, with values in the limits and an id from 1 to 16, the constructor reads from the tree exactly the
  object that the setters left, in a build with \<open>_M_FP_FAST\<close> (\<open>fast\<close>) and without; and that object holds the
  last value set for each coordinate and for the id, the others and the monitor name being as they were.\<close>

theorem move_values_round_trip:
  assumes "yaml_write_law Y" "yaml_frame_law Y"
    and "y_is_map Y t n" "makeAbsolute Y t n = Inr a" "\<forall>(i, v) \<in> set vs. i < 4 \<and> abs_set_pre i v"
      "abs_sets Y vs t a = Inr (t', a')"
    and "y_is_map Y u m" "makeRelative_build fast Y u m = Inr r" "list_all rel_op_ok ops" "rel_sets Y ops u r = Inr (u', r')"
  shows "makeAbsolute Y t' n = Inr a' \<and> lanes (abs_bounds a') = fold (\<lambda>(i, v) xs. xs[i := v]) vs (lanes (abs_bounds a)) \<and>
    makeRelative_build fast Y u' m = Inr r' \<and> rel_name r' = rel_name r \<and> rel_id r' = fold set_id ops (rel_id r) \<and>
    map f32_val (lanes (rel_bounds r')) = fold set_fraction ops (map f32_val (lanes (rel_bounds r)))"
  using abs_sets_synced [OF assms(1-6)] rel_sets_synced [OF assms(1,2,7-10)] by blast

lemma move_values_round_trip_witness:
  "\<exists>t' a' u' r'. abs_sets (demo_yaml (\<lambda>_. [])) [(0, -5), (3, 900), (0, 7)] [(rule1, YMap)]
       \<lparr>abs_node = rule1, abs_bounds = M128 0 0 640 400\<rparr> = Inr (t', a') \<and>
     rel_sets (demo_yaml (\<lambda>_. [])) [SetFraction 1 f32_one, SetId 2] nan_tree
       \<lparr>rel_node = rule1, rel_name = (kContains, []), rel_bounds = M128 f32_half f32_half 0x7FC00000 f32_one, rel_id = 0\<rparr>
       = Inr (u', r') \<and>
     makeAbsolute (demo_yaml (\<lambda>_. [])) t' rule1 = Inr a' \<and> lanes (abs_bounds a') = [7, 0, 640, 900] \<and>
     makeRelative_build True (demo_yaml (\<lambda>_. [])) u' rule1 = Inr r' \<and> rel_id r' = 2"
proof -
  let ?Y = "demo_yaml (\<lambda>_. [])" and ?t = "[(rule1, YMap)]"
  let ?a = "\<lparr>abs_node = rule1, abs_bounds = M128 0 0 640 400\<rparr>"
  let ?r = "\<lparr>rel_node = rule1, rel_name = (kContains, []), rel_bounds = M128 f32_half f32_half 0x7FC00000 f32_one, rel_id = 0\<rparr>"
  let ?ops = "[SetFraction 1 f32_one, SetId 2]"
  have a: "makeAbsolute ?Y ?t rule1 = Inr ?a" "y_is_map ?Y ?t rule1"
    by (simp_all add: makeAbsolute_def ReadLongFromNodeOrDefault_def demo_sel yt_invalid_def key_simps i4_make_def)
  have r: "y_is_map ?Y nan_tree rule1" by (simp add: demo_sel nan_tree_def)
  obtain t' a' where s: "abs_sets ?Y [(0, -5), (3, 900), (0, 7)] ?t ?a = Inr (t', a')"
    by (simp add: abs_setX_def abs_setHeight_def abs_set_def i4_at_def WriteLongToNode_def
        demo_sel key_simps numeral_3_eq_3 map_of_write yt_has_val_def)
  have ne: "\<not> f32_eq f32_half f32_one" by (simp add: f32_eq_finite f32_consts f32_consts_finite)
  obtain u' r' where q: "rel_sets ?Y ?ops nan_tree ?r = Inr (u', r')"
    using ne by (simp add: rel_setY_def rel_set_def rel_setId_def f4_at_def WriteFloatToNode_def WriteLongToNode_def
        demo_sel key_simps map_of_write yt_has_val_def nan_tree_def limit_defs)
  have ok: "\<forall>(i, v) \<in> set [(0, -5), (3, 900), (0, 7)]. i < 4 \<and> abs_set_pre i v" "list_all rel_op_ok ?ops"
    by (simp_all add: abs_pre_sint f32_consts f32_consts_finite)
  from move_values_round_trip [OF demo_yaml_write demo_yaml_frame a(2,1) ok(1) s r nan_relative ok(2) q] s q
  show ?thesis by simp
qed

section \<open>The rules of a document\<close>

text \<open>C15: Reading the rules of a document keeps exactly the rules that parse, in document order; each is
  well formed, tied to its node and numbered by its position from 1; and the logger receives one warning
  of the settings group, with \<open>E_INVALIDARG\<close>, for each rejected rule.  A rule without \<open>where\<close> or without
  \<open>then\<close> is one of those that are rejected, although \<open>docs/configuration.md\<close> lists both as optional, with
  no conditions and no action for the one that is left out.\<close>

theorem rules_of_document:
  assumes "readRules Y t now n (Some lg) = (Inr rs, lg')" "logger_wf lg"
    and "y_has_child Y t n kRules" "y_is_seq Y t (y_at Y t n kRules)"
    and "y_num_children Y t (y_at Y t n kRules) = length (y_children Y t (y_at Y t n kRules))"
  shows "rs = accepted Y t (y_children Y t (y_at Y t n kRules)) 1 \<and>
    (\<forall>r \<in> set rs. rule_wf Y t r \<and> (\<exists>i < length (y_children Y t (y_at Y t n kRules)).
       rnode r = y_children Y t (y_at Y t n kRules) ! i \<and> rindex r = 1 + of_nat i)) \<and>
    (\<forall>m. \<not> y_has_child Y t m kWhere \<or> \<not> y_has_child Y t m kThen \<longrightarrow> m \<notin> rnode ` set rs) \<and>
    (\<exists>ms. lg' = Some (fold (\<lambda>l lg. fst (addLog l lg)) ms lg) \<and>
       length ms = length (rejected Y t (y_children Y t (y_at Y t n kRules)) 1) \<and>
       (\<forall>m \<in> set ms. log_level m = LevelWarn \<and> log_group m = GroupSettings \<and> log_hresult m = E_INVALIDARG))"
proof -
  let ?ns = "y_children Y t (y_at Y t n kRules)"
  have run: "read_rules_loop Y t now ?ns 1 (Some lg) = (Inr rs, lg')"
    using assms(1,3-5) by (auto simp: readRules_def Let_def split: if_splits)
  note acc = read_rules_accepted [OF run]
  have "rule_wf Y t r \<and> (\<exists>i < length ?ns. rnode r = ?ns ! i \<and> rindex r = 1 + of_nat i)" if "r \<in> set rs" for r
    using accepted_wf [OF that [unfolded acc]] accepted_index [OF that [unfolded acc]] by (rule conjI)
  moreover from this have "\<forall>m. \<not> y_has_child Y t m kWhere \<or> \<not> y_has_child Y t m kThen \<longrightarrow> m \<notin> rnode ` set rs"
    by (auto simp: rule_wf_def)
  ultimately show ?thesis using acc read_rules_logged [OF run assms(2)] by (intro conjI ballI) simp_all
qed

lemma demo_rule1:
  "makeRule (demo_yaml p) demo_tree rule1 1 = Inr
     \<lparr>rnode = rule1, rname = widen ''edit'',
      rfilter = \<lparr>fnode = rule1 @ [Key ''where''], process_image_name = (kContains, []),
        window_class = (kEquals, widen ''Notepad''), window_title = (kContains, [])\<rparr>,
      rindex = 1, rtriggers = kWindowFocus,
      raction = \<lparr>anode = rule1 @ [Key ''then''], atype = kRelativeMoveAndResize\<rparr>\<rparr>"
proof -
  have c: "ConvertUtf8Value (demo_yaml p) kid s = Inr (widen s)" if "ascii s" "s \<noteq> []" for kid s
    using that ConvertUtf8ToUtf16_ok [of "demo_yaml p" s "widen s" "[]"]
    by (simp add: ConvertUtf8Value_def mb_outputs_def demo_sel demo_mb_to_wc_def widen_def)
  have name: "ReadStringFromNode (demo_yaml p) demo_tree (rule1 @ [Key ''name'']) KeyName = Inr (widen ''edit'')"
    using c [of "''edit''" KeyName] by (simp add: ReadStringFromNode_def demo_sel demo_tree_def yt_invalid_def yt_has_val_def
        yt_val_def yt_text_def null_text_def ascii_def)
  have cls: "ReadStringAndMatchTypeFromNode (demo_yaml p) demo_tree (rule1 @ [Key ''where'', Key ''class'']) KeyWindowClass
      = Inr (kEquals, widen ''Notepad'')"
    using c [of "''Notepad''" KeyWindowClass]
    by (simp add: ReadStringAndMatchTypeFromNode_def demo_sel demo_tree_def yt_invalid_def yt_has_val_def
        yt_val_def yt_text_def null_text_def ascii_def split_match_def)
  have none: "ReadStringAndMatchTypeFromNode (demo_yaml p) demo_tree (rule1 @ [Key ''where'', Key k]) kid = Inr (kContains, [])"
    if "k \<noteq> ''class''" for k kid
    using that by (simp add: ReadStringAndMatchTypeFromNode_def demo_sel demo_tree_def yt_invalid_def)
  have f: "makeFilter (demo_yaml p) demo_tree (rule1 @ [Key ''where'']) = Inr \<lparr>fnode = rule1 @ [Key ''where''],
      process_image_name = (kContains, []), window_class = (kEquals, widen ''Notepad''), window_title = (kContains, [])\<rparr>"
  proof -
    have "checkFilterNode (demo_yaml p) demo_tree (rule1 @ [Key ''where'']) = Inr ()"
      by (simp add: checkFilterNode_def demo_sel demo_tree_def)
    then show ?thesis
      using cls none [of "''process''" KeyProcessImageName] none [of "''title''" KeyWindowTitle]
      by (simp add: makeFilter_def key_simps demo_sel)
  qed
  have w: "ReadTriggerFlagsFromNode (demo_yaml p) demo_tree rule1 = Inr kWindowFocus"
    by (simp add: ReadTriggerFlagsFromNode_def demo_sel demo_tree_def key_simps yt_children_def yt_child_def
        yt_has_val_def yt_val_def yt_text_def toTriggerFlags_def toOptionalTriggerFlags_def trigger_names_def
        lower_def kAllTriggerFlags_def)
  have a: "makeAction (demo_yaml p) demo_tree (rule1 @ [Key ''then'']) =
      Inr \<lparr>anode = rule1 @ [Key ''then''], atype = kRelativeMoveAndResize\<rparr>"
    by (simp add: makeAction_def checkActionNode_def ReadActionTypeFromNode_def demo_sel demo_tree_def key_simps
        yt_children_def yt_child_def yt_has_val_def yt_val_def yt_text_def toActionType_def action_names_def
        action_values_def lower_def)
  have "checkRuleNode (demo_yaml p) demo_tree rule1 = Inr ()"
    by (simp add: checkRuleNode_def demo_sel demo_tree_def key_simps)
  then show ?thesis using name f w a by (simp add: makeRule_def key_simps demo_sel)
qed

lemma demo_rules:
  "readRules (demo_yaml p) demo_tree now [] (Some (makeLogger False)) =
     (Inr [the (case makeRule (demo_yaml p) demo_tree rule1 1 of Inr r \<Rightarrow> Some r | Inl _ \<Rightarrow> None)],
          log_warn now GroupSettings (widen ''Required key \"where\" is missing in rule #2'') E_INVALIDARG
            (Some (makeLogger False)))"
proof -
  have ch: "yt_children demo_tree [Key ''rules''] = [rule1, rule2]"
    by (simp add: yt_children_def yt_child_def demo_tree_def)
  have seq: "map_of demo_tree [Key ''rules''] = Some YSeq" by (simp add: demo_tree_def)
  have bad: "makeRule (demo_yaml p) demo_tree rule2 2 = Inl (ParseErr (mkParseError kMissingRequiredKey KeyWhere))"
    by (simp add: makeRule_def checkRuleNode_def demo_sel demo_tree_def key_simps)
  have nm: "makeRuleDisplayName (demo_yaml p) demo_tree rule2 (mkParseError kMissingRequiredKey KeyWhere) 2
      = Inr (widen ''#2'')"
    by (simp add: makeRuleDisplayName_def demo_sel demo_tree_def key_simps wformat_uint_def nat_dec.simps)
  have msg: "makeParseErrorMessage (demo_yaml p) (mkParseError kMissingRequiredKey KeyWhere) (widen ''#2'')
      = Inr (widen ''Required key \"where\" is missing in rule #2'')"
    by (simp add: makeParseErrorMessage_def mkParseError_def widen_def)
  show ?thesis
    using ch bad nm msg demo_rule1 [of p] seq
    by (simp add: readRules_def demo_sel key_simps Let_def)
qed

lemma rules_of_document_witness:
  "length (accepted (demo_yaml (\<lambda>_. [])) demo_tree [rule1, rule2] 1) = 1 \<and>
   length (rejected (demo_yaml (\<lambda>_. [])) demo_tree [rule1, rule2] 1) = 1"
proof -
  let ?Y = "demo_yaml (\<lambda>_. [])"
  have ch: "y_children ?Y demo_tree (y_at ?Y demo_tree [] kRules) = [rule1, rule2]"
    by (simp add: yt_children_def yt_child_def demo_tree_def demo_sel key_simps)
  have c: "y_has_child ?Y demo_tree [] kRules" "y_is_seq ?Y demo_tree (y_at ?Y demo_tree [] kRules)"
    by (simp_all add: demo_tree_def demo_sel key_simps)
  have n: "y_num_children ?Y demo_tree (y_at ?Y demo_tree [] kRules) = length (y_children ?Y demo_tree (y_at ?Y demo_tree [] kRules))"
    by (simp add: demo_sel)
  note r = rules_of_document [OF demo_rules makeLogger_wf c n, unfolded ch]
  have "rejected ?Y demo_tree [rule1, rule2] 1 = [mkParseError kMissingRequiredKey KeyWhere]"
    using demo_rule1 [of "\<lambda>_. []"] by (simp add: makeRule_def [of _ _ rule2] checkRuleNode_def demo_sel demo_tree_def key_simps)
  then show ?thesis using r by (metis One_nat_def length_Cons list.size(3))
qed

section \<open>Loading and saving\<close>

text \<open>C14: Replacing a settings file is all or nothing: when it succeeds the file holds exactly the new
  content, when it fails at any step (create, write, flush, close, rename) the file holds what it held
  before, and no path but the file and its temporary is touched.\<close>

theorem WriteFileAtomic_all_or_nothing:
  assumes "fs_law A files hpath" "length content < 2 ^ 32"
    and "WriteFileAtomic A filepath content w = (hr, w')"
  shows "(\<not> FAILED hr \<longrightarrow> files w' filepath = Some content) \<and>
    (FAILED hr \<longrightarrow> files w' filepath = files w filepath) \<and>
    (\<forall>q. q \<noteq> filepath \<longrightarrow> q \<noteq> filepath @ tmp_suffix \<longrightarrow> files w' q = files w q)"
  using assms by (rule WriteFileAtomic_effect)

lemma demo_write: "WriteFileAtomic demo_files p s empty_fs =
    (S_OK, empty_fs\<lparr>fs_files := [p \<mapsto> s], fs_handles := [1 \<mapsto> p @ tmp_suffix]\<rparr>)" if "length s < 2 ^ 32"
  using that by (auto simp: WriteFileAtomic_def demo_files_def empty_fs_def fun_eq_iff)

lemma WriteFileAtomic_all_or_nothing_witness:
  "fs_files (snd (WriteFileAtomic demo_files (widen ''C:/s'') ''a: 1'' empty_fs)) (widen ''C:/s'') = Some ''a: 1''"
  using WriteFileAtomic_all_or_nothing [OF demo_files_law, of "''a: 1''" "widen ''C:/s''" empty_fs S_OK]
    demo_write [of "''a: 1''" "widen ''C:/s''"] by simp


text \<open>C37: When a save succeeds, a later successful read of the settings file returns exactly the text the
  document was emitted as.\<close>

theorem save_then_read:
  assumes "fs_law A files hpath" "fs_read_law A files"
    and "doc_str Y (document st) = Inr s" "length s < 2 ^ 32 - 1"
    and "ResolveSettingsPath local_folder doc_fileName = Inr p"
    and "save A Y local_folder st w = Some (hr, w1)" "\<not> FAILED hr"
    and "ReadFile A p [] w1 = ((hr', bytes), w2)" "\<not> FAILED hr'"
  shows "bytes = s"
proof -
  have run: "WriteFileAtomic A p s w = (hr, w1)" using assms(3,5,6) by (simp add: save_def)
  have "length s < 2 ^ 32" using assms(4) by simp
  then have "files w1 p = Some s" using WriteFileAtomic_effect [OF assms(1) _ run] assms(7) by blast
  then show ?thesis using ReadFile_ok [OF assms(2,8,9) _ assms(4)] by simp
qed

lemma save_then_read_witness:
  "ReadFile demo_files (widen ''C:'' @ doc_fileName) [] (snd (the (save demo_files (demo_yaml (\<lambda>_. [])) (Inr (widen ''C:''))
     \<lparr>store_listeners = ([] :: nat list), document = \<lparr>doc_tree = demo_tree, doc_root = None\<rparr>, store_logger = None\<rparr> empty_fs)))
   = ((S_OK, ''# 11''), snd (ReadFile demo_files (widen ''C:'' @ doc_fileName) [] (empty_fs\<lparr>fs_files :=
       [widen ''C:'' @ doc_fileName \<mapsto> ''# 11''], fs_handles := [1 \<mapsto> (widen ''C:'' @ doc_fileName) @ tmp_suffix]\<rparr>)))"
proof -
  let ?st = "\<lparr>store_listeners = ([] :: nat list), document = \<lparr>doc_tree = demo_tree, doc_root = None\<rparr>, store_logger = None\<rparr>"
  let ?p = "widen ''C:'' @ doc_fileName" and ?Y = "demo_yaml (\<lambda>_. [])"
  let ?w = "empty_fs\<lparr>fs_files := [?p \<mapsto> ''# 11''], fs_handles := [1 \<mapsto> ?p @ tmp_suffix]\<rparr>"
  have e: "doc_str ?Y (document ?st) = Inr ''# 11''" 
  proof -
    have "nat_dec 11 = ''11''" by code_simp
    moreover have "length demo_tree = 11" by (simp add: demo_tree_def)
    ultimately show ?thesis by (simp add: doc_str_def demo_sel)
  qed
  have p: "ResolveSettingsPath (Inr (widen ''C:'')) doc_fileName = Inr ?p" by (simp add: ResolveSettingsPath_def)
  have s: "save demo_files ?Y (Inr (widen ''C:'')) ?st empty_fs = Some (S_OK, ?w)"
    using e p demo_write [of "''# 11''" ?p] by (simp add: save_def)
  obtain b w2 where r: "ReadFile demo_files ?p [] ?w = ((S_OK, b), w2)"
    by (simp add: ReadFile_def demo_files_def empty_fs_def unsigned_of_nat)
  have "b = ''# 11''"
    by (rule save_then_read [OF demo_files_law demo_files_read_law e _ p s _ r]) simp_all
  then show ?thesis using s r by simp
qed


section \<open>Text encodings\<close>

lemma utf8_fallback_same:
  assumes "text_law A" "w \<noteq> []"
  shows "ConvertUtf16ToUtf8_fallback A w u = ConvertUtf16ToUtf8 A w u"
proof -
  consider s where "wc_outputs A w s" | e where "wc_fails A w e"
    using assms unfolding text_law_def by blast
  then show ?thesis
    by cases (auto simp: ConvertUtf16ToUtf8_fallback_def ConvertUtf16ToUtf8_def wc_outputs_def wc_fails_def Let_def
        split: alloc.splits prod.splits)
qed

text \<open>C39: A text converted to UTF-8 and back is the same text, on both bodies of each conversion: the one that
  resizes and overwrites the string and the one for libraries without that call, which zero-fills it.  When
  one body converts a text to UTF-8, the other gives the same bytes, and both bodies of the conversion back
  give the text.\<close>

theorem utf16_round_trip:
  assumes "text_law A" "w \<noteq> []" "str_alloc A (length w) = AllocOk"
    and "ConvertUtf16ToUtf8 A w u = (S_OK, s) \<or> ConvertUtf16ToUtf8_fallback A w u = (S_OK, s)"
  shows "ConvertUtf16ToUtf8 A w u = (S_OK, s) \<and> ConvertUtf16ToUtf8_fallback A w u = (S_OK, s) \<and>
    ConvertUtf8ToUtf16 A s v = (S_OK, w) \<and> ConvertUtf8ToUtf16_fallback A s v = (S_OK, w)"
proof -
  have c: "ConvertUtf16ToUtf8 A w u = (S_OK, s)" "ConvertUtf16ToUtf8_fallback A w u = (S_OK, s)"
    using assms(4) utf8_fallback_same [OF assms(1,2)] by simp_all
  have out: "wc_outputs A w s"
  proof -
    consider s' where "wc_outputs A w s'" | e where "wc_fails A w e"
      using assms(1,2) unfolding text_law_def by blast
    then show ?thesis
    proof cases
      case 1
      then have "s' = s"
        using c(1) by (auto simp: ConvertUtf16ToUtf8_def wc_outputs_def split: alloc.splits prod.splits)
      then show ?thesis using 1 by simp
    next
      case 2
      then have "hr_of A e = 0" "e \<noteq> 0"
        using c(1) ConvertUtf16ToUtf8_fails [OF 2, of u] by (auto simp: wc_fails_def)
      moreover have "hr_law A" using assms(1) by (rule text_law_hr)
      ultimately show ?thesis using hr_law_simps(2) [of A e] by (simp add: FAILED_def)
    qed
  qed
  then have mb: "mb_outputs A s w" using assms(1) unfolding text_law_def by blast
  then show ?thesis
    using c ConvertUtf8ToUtf16_ok [OF mb assms(3)] assms(3)
    by (auto simp: ConvertUtf8ToUtf16_fallback_def mb_outputs_def Let_def split: prod.splits)
qed

lemma utf16_round_trip_witness:
  "ConvertUtf16ToUtf8_fallback demo_text (widen ''readme'') [] = (S_OK, ''readme'') \<and>
   ConvertUtf8ToUtf16_fallback demo_text ''readme'' [1, 2] = (S_OK, widen ''readme'')"
proof -
  have l: "text_law demo_text" by (rule demo_text_law) (simp_all add: demo_text_def)
  have o: "wc_outputs demo_text (widen ''readme'') ''readme''"
    by (rule demo_wc_widen) (simp_all add: demo_text_def ascii_def)
  have c: "ConvertUtf16ToUtf8 demo_text (widen ''readme'') [] = (S_OK, ''readme'')"
    by (rule ConvertUtf16ToUtf8_ok [OF o]) (simp add: demo_text_def)
  have a: "widen ''readme'' \<noteq> []" "str_alloc demo_text (length (widen ''readme'')) = AllocOk"
    by (simp_all add: demo_text_def widen_def)
  show ?thesis using utf16_round_trip [OF l a disjI1 [OF c], of "[1, 2]"] by simp
qed

end
