(* ===== verification/WindowEvents.thy ===== *)
theory WindowEvents
  imports Window
begin

text \<open>
  The cache of window states and the event hook, which is out of context: an event is queued when the
  desktop changes and delivered later, in order, to \<open>winEventProcStatic\<close>, which then sees the desktop
  as it is by then.  \<open>desk_step\<close> interleaves the changes of the desktop with the deliveries, and
  \<open>desk_inv\<close> is what is true of the cache in between.
\<close>

section \<open>What an event tells of\<close>

text \<open>An event with the window, the object and the child it is about.\<close>

type_synonym win_event = "dword \<times> handle \<times> dword \<times> dword"

definition location_events :: "dword set" where
  "location_events = {EVENT_OBJECT_LOCATIONCHANGE, EVENT_OBJECT_DESTROY}"

definition title_events :: "dword set" where
  "title_events = {EVENT_OBJECT_NAMECHANGE, EVENT_OBJECT_DESTROY}"

definition fixed_events :: "dword set" where "fixed_events = {EVENT_OBJECT_DESTROY}"

lemmas events_of = location_events_def title_events_def fixed_events_def

text \<open>\<open>told_by\<close>: the event tells of whatever changed about the windows \<open>H\<close> between two worlds.  Windows
  outside \<open>H\<close>, those that the cache does not hold, may change, appear and vanish.\<close>

fun told_by :: "('w, 'a) win_api_scheme \<Rightarrow> handle set \<Rightarrow> win_event \<Rightarrow> 'w \<Rightarrow> 'w \<Rightarrow> bool" where
  "told_by A H (event, hwnd, object_id, child_id) w w' \<longleftrightarrow>
     (\<forall>h \<in> H. let mine = (h = hwnd \<and> object_id = OBJID_WINDOW \<and> child_id = CHILDID_SELF) in
        (same_location A h w w' \<or> mine \<and> event \<in> location_events) \<and>
        (same_title A h w w' \<or> mine \<and> event \<in> title_events) \<and>
        (same_fixed A h w w' \<or> mine \<and> event \<in> fixed_events))"

text \<open>\<open>up_to\<close>: the entries are what the system answers, but for those that one of the events \<open>E\<close> tells of.\<close>

definition up_to :: "('w, 'a) win_api_scheme \<Rightarrow> simd_features \<Rightarrow> 'w \<Rightarrow> dword set \<Rightarrow> handle \<Rightarrow> WindowState \<Rightarrow> bool" where
  "up_to A F w E h s \<longleftrightarrow> ws_hwnd s = h \<and>
     (E \<inter> location_events = {} \<longrightarrow> coherent_location A F w s) \<and>
     (E \<inter> title_events = {} \<longrightarrow> coherent_title A w s) \<and>
     (E \<inter> fixed_events = {} \<longrightarrow> coherent_fixed A w s)"

definition pending :: "win_event list \<Rightarrow> handle \<Rightarrow> dword set" where
  "pending q h = {e. (e, h, OBJID_WINDOW, CHILDID_SELF) \<in> set q}"

lemma up_to_empty: "up_to A F w {} h s \<longleftrightarrow> coherent_entry A F w h s"
  by (simp add: up_to_def coherent_entry_def coherent_def)

lemma coherent_up_to: "coherent_entry A F w h s \<Longrightarrow> up_to A F w E h s"
  by (simp add: up_to_def coherent_entry_def coherent_def)

lemma pending_Nil [simp]: "pending [] h = {}"
  by (simp add: pending_def)

lemma pending_snoc:
  "pending (q @ [(e, k, obj, child)]) h =
     (if h = k \<and> obj = OBJID_WINDOW \<and> child = CHILDID_SELF then insert e (pending q h) else pending q h)"
  by (auto simp: pending_def)

lemma pending_Cons:
  "pending ((e, k, obj, child) # q) h =
     (if h = k \<and> obj = OBJID_WINDOW \<and> child = CHILDID_SELF then insert e (pending q h) else pending q h)"
  by (auto simp: pending_def)

text \<open>A change of the desktop leaves the entries as good as the queue with its event says.\<close>

lemma told_up_to:
  assumes "told_by A H ev w w'" "h \<in> H" "up_to A F w (pending q h) h s"
  shows "up_to A F w' (pending (q @ [ev]) h) h s"
proof -
  obtain e k obj child where ev: "ev = (e, k, obj, child)" by (cases ev)
  let ?mine = "h = k \<and> obj = OBJID_WINDOW \<and> child = CHILDID_SELF"
  have t: "same_location A h w w' \<or> ?mine \<and> e \<in> location_events"
    "same_title A h w w' \<or> ?mine \<and> e \<in> title_events"
    "same_fixed A h w w' \<or> ?mine \<and> e \<in> fixed_events"
    using assms(1,2) by (auto simp: ev Let_def)
  have h: "ws_hwnd s = h" using assms(3) by (simp add: up_to_def)
  show ?thesis
    using t assms(3) coherent_location_same [of A s w w' F] coherent_title_same [of A s w w']
      coherent_fixed_same [of A s w w']
    unfolding up_to_def ev pending_snoc h by (auto split: if_splits)
qed

section \<open>The cache's event handler\<close>

lemma invalidated_parts [simp]:
  "coherent_location A F w (invalidateWindowLocation s)"
  "coherent_title A w (invalidateWindowLocation s) = coherent_title A w s"
  "coherent_fixed A w (invalidateWindowLocation s) = coherent_fixed A w s"
  "coherent_location A F w (invalidateWindowTitle s) = coherent_location A F w s"
  "coherent_title A w (invalidateWindowTitle s)"
  "coherent_fixed A w (invalidateWindowTitle s) = coherent_fixed A w s"
  by (simp_all add: coherent_defs invalidateWindowLocation_def invalidateWindowTitle_def)

lemma invalidate_up_to:
  "up_to A F w (insert EVENT_OBJECT_LOCATIONCHANGE E) h s \<Longrightarrow> up_to A F w E h (invalidateWindowLocation s)"
  "up_to A F w (insert EVENT_OBJECT_NAMECHANGE E) h s \<Longrightarrow> up_to A F w E h (invalidateWindowTitle s)"
  "e \<noteq> EVENT_OBJECT_DESTROY \<Longrightarrow> e \<noteq> EVENT_OBJECT_LOCATIONCHANGE \<Longrightarrow> e \<noteq> EVENT_OBJECT_NAMECHANGE \<Longrightarrow>
     up_to A F w (insert e E) h s \<Longrightarrow> up_to A F w E h s"
  by (auto simp: up_to_def events_of event_defs)

text \<open>Handling an event makes the entries as good as they are without it.\<close>

lemma processWindowEvent_up_to:
  assumes run: "processWindowEvent event hwnd c = Some c'" and "cache_get c' h = Some s'"
    and old: "\<And>s. cache_get c h = Some s \<Longrightarrow> up_to A F w (if h = hwnd then insert event E else E) h s"
  shows "up_to A F w E h s'"
proof -
  consider "event = EVENT_OBJECT_DESTROY" "c' = cache_remove c hwnd"
    | f where "event = EVENT_OBJECT_LOCATIONCHANGE" "c' = cache_modify invalidateWindowLocation hwnd c"
    | f where "event = EVENT_OBJECT_NAMECHANGE" "c' = cache_modify invalidateWindowTitle hwnd c"
    | "event \<notin> {EVENT_OBJECT_DESTROY, EVENT_OBJECT_LOCATIONCHANGE, EVENT_OBJECT_NAMECHANGE}" "c' = c"
    using run by (auto simp: processWindowEvent_def split: if_splits)
  then show ?thesis
    using assms(2) old invalidate_up_to
    by cases (auto simp: caches.get_remove cache_modify_eq caches.get_modify split: if_splits)
qed

lemma processWindowEvent_ok: "processWindowEvent event hwnd c = Some c' \<Longrightarrow> cache_ok c \<Longrightarrow> cache_ok c'"
  by (auto simp: processWindowEvent_def cache_modify_eq split: if_splits intro: caches.ok_remove caches.ok_modify)

section \<open>Listeners\<close>

text \<open>A listener that only reads: it leaves the desktop, and it keeps an entry as good as it was.\<close>

definition reads_only ::
  "('w, 'a) win_api_scheme \<Rightarrow> simd_features \<Rightarrow>
   ('l \<Rightarrow> (WindowState \<times> 'w) option \<Rightarrow> (WindowState \<times> 'w) option) \<Rightarrow> bool" where
  "reads_only A F call \<longleftrightarrow> (\<forall>l s u s' u'. call l (Some (s, u)) = Some (s', u') \<longrightarrow>
     u' = u \<and> (\<forall>E h. up_to A F u E h s \<longrightarrow> up_to A F u E h s')) \<and> (\<forall>l. call l None = None)"

lemma shadowMargin_up_to:
  assumes "up_to A F w E h s" "shadowMargin A F w s = (r, s')"
  shows "up_to A F w E h s'"
proof -
  have "coherent_title A w s' = coherent_title A w s" "coherent_fixed A w s' = coherent_fixed A w s"
    "ws_hwnd s' = ws_hwnd s"
    using assms(2) by (auto simp: shadowMargin_def coherent_defs Let_def split: if_splits prod.splits sum.splits)
  moreover have "coherent_location A F w s \<Longrightarrow> coherent_location A F w s'"
    using assms(2) by (auto simp: shadowMargin_def coherent_defs margin_of_def Let_def split: if_splits prod.splits sum.splits)
  ultimately show ?thesis using assms(1) by (auto simp: up_to_def)
qed

lemma notify_reads_only:
  assumes "reads_only A F call" "notify call ls (Some (s, w)) = Some (s', w')"
  shows "w' = w \<and> (\<forall>E h. up_to A F w E h s \<longrightarrow> up_to A F w E h s')"
  using assms(2)
proof (induction ls arbitrary: s)
  case (Cons l ls)
  have n: "notify call ls None = None" using assms(1) by (induction ls) (simp_all add: reads_only_def)
  then obtain s1 u1 where c: "call l (Some (s, w)) = Some (s1, u1)" "notify call ls (Some (s1, u1)) = Some (s', w')"
    using Cons.prems by (cases "call l (Some (s, w))") auto
  have "u1 = w" "\<forall>E h. up_to A F w E h s \<longrightarrow> up_to A F w E h s1"
    using assms(1) c(1) unfolding reads_only_def by blast+
  then show ?case using Cons.IH c(2) by blast
qed simp

text \<open>A call of the listeners creates at most a new entry, which is empty, and keeps the others.\<close>

lemma dispatch_window_up_to:
  assumes run: "dispatch_window A room call ls hwnd (c, w) = Some (b, c', w')" and "cache_ok c" "reads_only A F call"
  shows "w' = w \<and> cache_ok c' \<and> (\<forall>h s'. cache_get c' h = Some s' \<longrightarrow>
    (\<forall>E. (\<forall>s. cache_get c h = Some s \<longrightarrow> up_to A F w E h s) \<longrightarrow> up_to A F w E h s'))"
proof -
  obtain v c1 where g: "getOrCreate (makeWindowState A) room hwnd c = Some (v, c1)"
    using run by (auto simp: dispatch_window_def split: option.splits)
  have fresh: "up_to A F w E h u" if "cache_get c1 h = Some u" "\<forall>s. cache_get c h = Some s \<longrightarrow> up_to A F w E h s" for E h u
  proof (cases "cache_get c h = Some u")
    case False
    then have "h = hwnd \<and> makeWindowState A hwnd = Some u"
      using g that(1) caches.get_emplace [of c hwnd _ h]
      by (auto simp: getOrCreate_def cache_get_def split: option.splits if_splits) (metis option.inject)
    then have "coherent_entry A F w h u"
      using makeWindowState_coherent [of A hwnd u F w] by (simp add: coherent_entry_def)
    then show ?thesis by (rule coherent_up_to)
  qed (use that in blast)
  have ok: "cache_ok c1" and v: "v \<noteq> None \<Longrightarrow> cache_get c1 hwnd = v" using getOrCreate_ok [OF g assms(2)] by blast+
  show ?thesis
  proof (cases v)
    case None
    then show ?thesis using run g ok fresh by (simp add: dispatch_window_def)
  next
    case (Some s)
    then obtain s' where n: "notify call ls (Some (s, w)) = Some (s', w')" "c' = cache_put c1 hwnd s'"
      using run g by (auto simp: dispatch_window_def)
    note r = notify_reads_only [OF assms(3) n(1)]
    have "up_to A F w E h u" if "cache_get c' h = Some u" "\<forall>s. cache_get c h = Some s \<longrightarrow> up_to A F w E h s" for E h u
      using that r fresh [of hwnd s E] fresh [of h u E] v Some
      by (auto simp: n(2) caches.get_put split: if_splits)
    then show ?thesis using r caches.ok_put [OF ok] n(2) by blast
  qed
qed

text \<open>The event procedure: an event of a root window makes that window's entries as good as they are
  without it; an event that is dropped keeps them as they are.\<close>

lemma winEventProcStatic_up_to:
  assumes run: "winEventProcStatic A room on_foreground on_show ls e h obj child (c, w) = Some (c', w')"
    and ok: "cache_ok c" and reads: "reads_only A F on_foreground" "reads_only A F on_show"
  shows "w' = w \<and> cache_ok c' \<and> (\<forall>k s' E. cache_get c' k = Some s' \<longrightarrow>
    (\<forall>s. cache_get c k = Some s \<longrightarrow> up_to A F w
       (if k = h \<and> obj = OBJID_WINDOW \<and> child = CHILDID_SELF \<and> IsRootWindow A h w then insert e E else E) k s) \<longrightarrow>
    up_to A F w E k s')"
proof -
  let ?mine = "obj = OBJID_WINDOW \<and> child = CHILDID_SELF \<and> IsRootWindow A h w"
  have other: "up_to A F w (if b then insert e E else E) k s = up_to A F w E k s"
    if "e \<in> {EVENT_SYSTEM_FOREGROUND, EVENT_OBJECT_SHOW}" for b E k s
    using that by (auto simp: up_to_def events_of event_defs)
  consider b where "e = EVENT_SYSTEM_FOREGROUND" "dispatch_window A room on_foreground ls h (c, w) = Some (b, c', w')"
    | b where "e = EVENT_OBJECT_SHOW" "dispatch_window A room on_show ls h (c, w) = Some (b, c', w')"
    | "\<not> ?mine" "c' = c" "w' = w"
    | "?mine" "w' = w" "processWindowEvent e h c = Some c'"
  proof (cases "e = EVENT_SYSTEM_FOREGROUND")
    case True
    then obtain b c1 w1 where d: "dispatch_window A room on_foreground ls h (c, w) = Some (b, c1, w1)"
      using run by (auto simp: winEventProcStatic_def split: option.splits)
    have "c' = c1 \<and> w' = w1"
      using run d True by (cases b) (simp_all add: winEventProcStatic_def processWindowEvent_def event_defs split: if_splits)
    then show ?thesis using that(1) True d by blast
  next
    case False
    show ?thesis
    proof (cases ?mine)
      case mine: True
      show ?thesis
      proof (cases "e = EVENT_OBJECT_SHOW")
        case True
        then obtain b c1 w1 where d: "dispatch_window A room on_show ls h (c, w) = Some (b, c1, w1)" "(c', w') = (c1, w1)"
          using run mine False unfolding winEventProcStatic_def by (auto simp only: if_False if_True refl simp_thms map_option_eq_Some
              option.case prod.case bool.case snd_conv)
        then show ?thesis using that(2) True by blast
      next
        case no_show: False
        then have "processWindowEvent e h c = Some c' \<and> w' = w"
          using run mine False by (simp add: winEventProcStatic_def)
        then show ?thesis using that(4) mine by blast
      qed
    next
      case other_object: False
      then have "c' = c \<and> w' = w" using run False by (simp add: winEventProcStatic_def split: if_splits)
      then show ?thesis using that(3) other_object by blast
    qed
  qed
  then show ?thesis
  proof cases
    case 1
    then show ?thesis using dispatch_window_up_to [OF 1(2) ok reads(1)] other by simp
  next
    case 2
    then show ?thesis using dispatch_window_up_to [OF 2(2) ok reads(2)] other by simp
  next
    case 3
    then show ?thesis using ok by (auto split: if_splits)
  next
    case 4
    have "(k = h \<and> obj = OBJID_WINDOW \<and> child = CHILDID_SELF \<and> IsRootWindow A h w) = (k = h)" for k
      using 4(1) by blast
    then show ?thesis
      using processWindowEvent_ok [OF 4(3) ok] 4(2)
      by (intro conjI allI impI) (simp_all only: processWindowEvent_up_to [OF 4(3)])
  qed
qed

text \<open>A window that has been destroyed is no root window any more when the event that tells of it is
  delivered: the procedure returns before it removes the entry.\<close>

lemma destroyed_window_stays_cached:
  "\<not> IsRootWindow A hwnd w \<Longrightarrow> winEventProcStatic A room on_foreground on_show ls EVENT_OBJECT_DESTROY hwnd
     OBJID_WINDOW CHILDID_SELF (c, w) = Some (c, w)"
  by (simp add: winEventProcStatic_def event_defs)

section \<open>Changes and deliveries\<close>

text \<open>The windows of which an event was dropped because they were no root windows when it was delivered.\<close>

fun lost_after :: "('w, 'a) win_api_scheme \<Rightarrow> win_event \<Rightarrow> 'w \<Rightarrow> handle set \<Rightarrow> handle set" where
  "lost_after A (event, hwnd, object_id, child_id) w L =
     (if object_id \<noteq> OBJID_WINDOW \<or> child_id \<noteq> CHILDID_SELF then L
      else if \<not> IsRootWindow A hwnd w then insert hwnd L
      else if event = EVENT_OBJECT_DESTROY then L - {hwnd} else L)"

inductive desk_step ::
  "('w, 'a) win_api_scheme \<Rightarrow> bool \<Rightarrow>
   ('l \<Rightarrow> (WindowState \<times> 'w) option \<Rightarrow> (WindowState \<times> 'w) option) \<Rightarrow>
   ('l \<Rightarrow> (WindowState \<times> 'w) option \<Rightarrow> (WindowState \<times> 'w) option) \<Rightarrow> 'l list \<Rightarrow>
   WindowStateCache \<times> win_event list \<times> handle set \<times> 'w \<Rightarrow>
   WindowStateCache \<times> win_event list \<times> handle set \<times> 'w \<Rightarrow> bool"
  for A room on_foreground on_show ls where
  changes: "told_by A (dom (cache_get c)) ev w w' \<Longrightarrow>
    desk_step A room on_foreground on_show ls (c, q, L, w) (c, q @ [ev], L, w')"
| delivered: "winEventProcStatic A room on_foreground on_show ls e h obj child (c, w) = Some (c', w') \<Longrightarrow>
    desk_step A room on_foreground on_show ls (c, (e, h, obj, child) # q, L, w)
      (c', q, lost_after A (e, h, obj, child) w L, w')"

fun desk_inv :: "('w, 'a) win_api_scheme \<Rightarrow> simd_features \<Rightarrow> WindowStateCache \<times> win_event list \<times> handle set \<times> 'w \<Rightarrow> bool" where
  "desk_inv A F (c, q, L, w) \<longleftrightarrow> cache_ok c \<and>
     (\<forall>h s. cache_get c h = Some s \<longrightarrow> h \<notin> L \<longrightarrow> up_to A F w (pending q h) h s)"

lemma desk_step_inv:
  assumes "desk_step A room on_foreground on_show ls x y" "desk_inv A F x" 
    and fg: "reads_only A F on_foreground" and sh: "reads_only A F on_show"
  shows "desk_inv A F y"
  using assms(1)
proof cases
  case (changes c ev w w' q L)
  have "up_to A F w' (pending (q @ [ev]) h) h s" if "cache_get c h = Some s" "h \<notin> L" for h s
    using assms(2) that told_up_to [OF changes(3), of h F q s] by (auto simp: changes(1))
  then show ?thesis using assms(2) by (simp add: changes(1,2))
next
  case (delivered e h obj child c w c' w' q L)
  have inv: "cache_ok c" "\<And>k s. cache_get c k = Some s \<Longrightarrow> k \<notin> L \<Longrightarrow> up_to A F w (pending ((e, h, obj, child) # q) k) k s"
    using assms(2) by (auto simp: delivered(1))
  note u = winEventProcStatic_up_to [OF delivered(3) inv(1) fg sh]
  have gone: "cache_get c' h = None" if "e = EVENT_OBJECT_DESTROY" "obj = OBJID_WINDOW" "child = CHILDID_SELF" "IsRootWindow A h w"
    using delivered(3) that caches.get_remove [of c h h]
    by (auto simp: winEventProcStatic_def processWindowEvent_def event_defs)
  have "up_to A F w' (pending q k) k s" if s: "cache_get c' k = Some s" "k \<notin> lost_after A (e, h, obj, child) w L" for k s
  proof -
    have "up_to A F w (if k = h \<and> obj = OBJID_WINDOW \<and> child = CHILDID_SELF \<and> IsRootWindow A h w
        then insert e (pending q k) else pending q k) k s0" if "cache_get c k = Some s0" for s0
    proof -
      have "k \<notin> L" using s gone by (auto split: if_splits)
      then show ?thesis using inv(2) [OF that] s(2) by (auto simp: pending_Cons split: if_splits)
    qed
    then show ?thesis using u s(1) by blast
  qed
  then show ?thesis using u by (simp add: delivered(2))
qed

lemma desk_run_inv:
  assumes "(desk_step A room on_foreground on_show ls)\<^sup>*\<^sup>* x y" "desk_inv A F x"
    and "reads_only A F on_foreground" "reads_only A F on_show"
  shows "desk_inv A F y"
  using assms(1,2) by induction (use desk_step_inv assms(3,4) in blast)+

lemma desk_inv_start: "desk_inv A F ([], [], L, w)"
  by (simp add: cache_ok_def cache_get_def)

end
