(* ===== verification/Window_Properties.thy ===== *)
theory Window_Properties
  imports Settings_Properties WindowEvents
begin

text \<open>
  The properties of the desktop side: the name of a window's process, the cached window and monitor
  states, where an operation puts a window and what the rule engine does on an event.  Each property
  with hypotheses is followed by its application to the desktop of \<open>Instances\<close>.
\<close>

section \<open>The process of a window\<close>

abbreviation demo_place :: desk where "demo_place \<equiv> (100, 50, 640, 400)"

text \<open>The image name of a process is queried with buffers that grow from the string's capacity to
  32768 characters; the loop ends, and a buffer is reported as too small only when more than 8192
  characters did not suffice.\<close>

lemma image_name_buffers:
  assumes "image_name_loop A h b res w = Inr (e, path)" "b \<le> 32768"
  shows "e \<noteq> ERROR_INSUFFICIENT_BUFFER \<or>
    (\<exists>b' \<le> 32768. 8192 < b' \<and>
       GetProcessImageNameFromHANDLEWithBufferSize A h (b' - 1) w = Inr (ERROR_INSUFFICIENT_BUFFER, path))"
  using assms by (rule image_name_result)

text \<open>A desktop on which no buffer is large enough.\<close>

definition long_desk :: "desk eng_api" where
  "long_desk = demo_desk\<lparr>QueryFullProcessImageName := (\<lambda>h n w. (False, [], ERROR_INSUFFICIENT_BUFFER))\<rparr>"

lemma align_down_power: "align_down_4x128 (128 * 4 ^ k) = 128 * 4 ^ k"
proof -
  have "128 \<le> 128 * (4 :: nat) ^ k" by simp
  then obtain j where j: "align_down_4x128 (128 * 4 ^ k) = 128 * 4 ^ j" "(4 :: nat) ^ j \<le> 4 ^ k" "(4 :: nat) ^ k < 4 ^ Suc j"
    using align_down_steps by fastforce
  have "j \<le> k" "k < Suc j"
    using power_le_imp_le_exp [OF _ j(2)] power_less_imp_less_exp [OF _ j(3)] by simp_all
  then show ?thesis using j(1) by simp
qed

lemmas align_down_steps_of_query = align_down_power [of 1, simplified] align_down_power [of 2, simplified]
  align_down_power [of 3, simplified] align_down_power [of 4, simplified] align_down_power [of 5, simplified]

lemma image_name_buffers_witness:
  "\<exists>b'. 8192 < b' \<and> b' \<le> 32768 \<and> GetProcessImageNameFromHANDLEWithBufferSize long_desk 1 (b' - 1) demo_place =
     Inr (ERROR_INSUFFICIENT_BUFFER, [])"
proof -
  have "GetProcessImageNameFromHANDLEWithBufferSize long_desk 1 n demo_place = Inr (ERROR_INSUFFICIENT_BUFFER, [])" for n
    by (simp add: GetProcessImageNameFromHANDLEWithBufferSize_def long_desk_def demo_desk_def)
  then have "image_name_loop long_desk 1 128 (ERROR_SUCCESS, []) demo_place = Inr (ERROR_INSUFFICIENT_BUFFER, [])"
    by (simp add: image_name_loop.simps align_down_steps_of_query)
  from image_name_buffers [OF this] show ?thesis by auto
qed

text \<open>The search for the core window among the children of a frame window returns, when the chain of
  siblings ends, the first one of the class \<open>Windows.UI.Core.CoreWindow\<close>, or a null handle if there is none.\<close>

lemma core_window_found:
  assumes "parent \<noteq> 0" "chain A w (GetChildWindow A parent w) cs"
  shows "GetCoreWindowFromParent A parent w =
    Some (case filter (\<lambda>d. is_core_window A d w) cs of [] \<Rightarrow> 0 | d # _ \<Rightarrow> d)"
  using assms by (simp add: GetCoreWindowFromParent_def core_window_walk_chain)

text \<open>Three siblings 8, 9 and 10 under window 7, the second of which is a core window.\<close>

definition sibling_desk :: "desk eng_api" where
  "sibling_desk = demo_desk\<lparr>GetChildWindow := (\<lambda>h w. 8),
     GetNextWindow := (\<lambda>h w. if h = 8 then 9 else if h = 9 then 10 else 0),
     GetClassName := (\<lambda>h n w. if h = 9 then (int (length kCoreWindowClass), kCoreWindowClass, 0)
                               else (int (length demo_class), demo_class, 0))\<rparr>"

lemma core_window_found_witness: "GetCoreWindowFromParent sibling_desk 7 demo_place = Some 9"
proof -
  have "is_core_window sibling_desk 9 demo_place" "\<not> is_core_window sibling_desk 8 demo_place"
    by (simp_all add: is_core_window_def sibling_desk_def kCoreWindowClass_def demo_class_def)
  then show ?thesis
    using core_window_found [of 7 sibling_desk demo_place "[8, 9, 10]"] by (simp add: sibling_desk_def)
qed

section \<open>Window states\<close>

text \<open>C24: A getter of a window state whose cached entries are what the system answers returns the system's
  answer now, the title, class, image name, monitor and shadow margin alike, whether it was cached or
  is queried, and errors included; and the state keeps that property.\<close>

theorem getters_answer:
  assumes "coherent A F w s"
    and "windowClass A w s = (c, s1)" "windowTitle A w s1 = (t, s2)" "processImageName A w s2 = Some (i, s3)"
    and "hMonitor A w s3 = (m, s4)" "shadowMargin A F w s4 = (g, s5)"
  shows "c = class_of A (ws_hwnd s) w \<and> t = title_of A (ws_hwnd s) w \<and>
    Some i = map_option (\<lambda>r. rbind r (\<lambda>info. Inr (proc_filepath info))) (info_of A (ws_hwnd s) w) \<and>
    m = MonitorFromWindow A (ws_hwnd s) w \<and> g = margin_of A F (ws_hwnd s) w \<and> coherent A F w s5"
proof -
  note g1 = getters_coherent(1) [OF assms(1,2)]
  note g2 = getters_coherent(2) [OF conjunct1 [OF g1] assms(3)]
  note g3 = getters_coherent(3) [OF conjunct1 [OF g2] assms(4)]
  note g4 = hMonitor_coherent [OF conjunct1 [OF g3] assms(5)]
  note g5 = shadowMargin_coherent [OF conjunct1 [OF g4] assms(6)]
  have n: "coherent_names A w v" if "coherent A F w v" for v using that by (simp add: coherent_parts)
  have l: "location_part s1 = location_part s" "location_part s2 = location_part s1" "location_part s3 = location_part s2"
    using windowClass_names [OF n [OF assms(1)] assms(2)] windowTitle_names [OF n [OF conjunct1 [OF g1]] assms(3)]
      processImageName_names [OF n [OF conjunct1 [OF g2]] assms(4)] by blast+
  have h: "ws_hwnd s1 = ws_hwnd s" "ws_hwnd s2 = ws_hwnd s" "ws_hwnd s3 = ws_hwnd s" "ws_hwnd s4 = ws_hwnd s"
    using l [THEN location_part_hwnd] conjunct2 [OF conjunct2 [OF g4]] by simp_all
  show ?thesis using g1 g2 g3 g4 g5 unfolding h by blast
qed


lemma getters_answer_witness:
  "\<exists>s1 s2 s3. windowClass demo_desk demo_place demo_window = (Inr demo_class, s1) \<and>
     windowTitle demo_desk demo_place s1 = (Inr demo_title, s2) \<and>
     processImageName demo_desk demo_place s2 = Some (Inr demo_image, s3) \<and>
     coherent demo_desk (feature_tags True True True True) demo_place s3"
proof -
  let ?F = "feature_tags True True True True" and ?w = demo_place
  note coh = demo_window_coherent [of ?F ?w]
  obtain c s1 where c: "windowClass demo_desk ?w demo_window = (c, s1)" by fastforce
  obtain t s2 where t: "windowTitle demo_desk ?w s1 = (t, s2)" by fastforce
  note g1 = getters_coherent(1) [OF coh c]
  note g2 = getters_coherent(2) [OF conjunct1 [OF g1] t]
  have n: "coherent_names demo_desk ?w v" if "coherent demo_desk ?F ?w v" for v using that by (simp add: coherent_parts)
  have "location_part s2 = location_part demo_window"
    using windowClass_names [OF n [OF coh] c] windowTitle_names [OF n [OF conjunct1 [OF g1]] t] by (simp only:)
  then have h: "ws_hwnd s2 = 7" using location_part_hwnd demo_window_new(2) by metis
  obtain res where "GetProcessInfoFromHWND demo_desk 7 ?w = Some res"
    using demo_info [of ?w] by (auto simp: info_of_def simp del: split_paired_Ex)
  then have "updateProcessInfo demo_desk ?w s2 \<noteq> None"
    by (simp add: updateProcessInfo_def h Let_def case_prod_unfold)
  then obtain i s3 where i: "processImageName demo_desk ?w s2 = Some (i, s3)"
    by (cases "ws_info_loaded s2") (auto simp: processImageName_def)
  obtain m s4 where m: "hMonitor demo_desk ?w s3 = (m, s4)" by fastforce
  obtain g s5 where g: "shadowMargin demo_desk ?F ?w s4 = (g, s5)" by fastforce
  note r = getters_answer [OF coh c t i m g, unfolded demo_window_new(2)]
  have "c = Inr demo_class" "t = Inr demo_title" "i = Inr demo_image"
    using r demo_answers [of ?w] demo_info [of ?w] by (auto simp: answers_def)
  then show ?thesis using c t i getters_coherent(3) [OF conjunct1 [OF g2] i] by blast
qed






text \<open>A foreground event for a top-level window always reaches the cache's event handler after the
  listeners, where the code assumes that it does not: the behaviour of the program is then undefined.\<close>

lemma foreground_event_undefined:
  assumes "IsRootWindow A hwnd w'" "dispatch_window A room on_foreground ls hwnd st = Some (True, cache', w')"
  shows "winEventProcStatic A room on_foreground on_show ls EVENT_SYSTEM_FOREGROUND hwnd
     OBJID_WINDOW CHILDID_SELF st = None"
  using assms by (rule foreground_reaches_assume)

lemma foreground_event_undefined_witness:
  "winEventProcStatic demo_desk True (\<lambda>(_ :: unit) x. x) (\<lambda>_ x. x) [] EVENT_SYSTEM_FOREGROUND 7 OBJID_WINDOW CHILDID_SELF
     ([(7, demo_window)], demo_place) = None"
  by (rule foreground_event_undefined [of _ _ demo_place])
    (simp_all add: IsRootWindow_def demo_desk_def dispatch_window_def getOrCreate_def cache_put_def)

section \<open>Monitors\<close>

text \<open>C22: When the refresh of the monitor cache succeeds with at least one monitor, the cache holds one
  state per distinct display area, for the first monitor of each in the order of the enumeration, with
  its friendly name if one is known; the listeners are called with the new states exactly when they
  differ from the old ones, and then the old ones are replaced.\<close>

theorem monitors_refreshed:
  assumes "cache_initialize A now call mc w = (hr, mc', w')" "\<not> FAILED hr" "hr_law A" "0 < GetMonitorCount A w"
    and "GetMonitorFriendlyNames A [] w = (hr1, names, w1)"
    and "EnumMonitors A w1 = (ms, enum_ok)" "enum_monitors_law A w1 ms"
    and "states = map (\<lambda>(h, r). (h, state_of A w1 names h)) (unique_areas ms [])"
  shows "mon_storage mc' = (if states_eq (mon_storage mc) states then mon_storage mc else states) \<and>
    w' = (if states_eq (mon_storage mc) states then w1
          else invoke (\<lambda>f c. call f c states) (mon_callbacks mc) w1) \<and> names_ok names"
proof -
  have "names_ok ([] :: MonitorFriendlyNameContainer)" by (simp add: names_ok_def)
  then show ?thesis
    using cache_initialize_ok [OF assms(1-7)] GetMonitorFriendlyNames_ok [OF assms(5)] assms(8) by simp
qed

text \<open>A refresh of the monitor cache that fails, in the enumeration or for want of memory, keeps the
  monitor states and calls no listener.\<close>

lemma monitors_kept_on_failure:
  assumes "cache_initialize A now call mc w = (hr, mc', w')" "FAILED hr"
  shows "mon_storage mc' = mon_storage mc \<and> (w' = w \<or> w' = snd (snd (GetMonitorFriendlyNames A [] w)))"
  using assms by (rule cache_initialize_failed)

text \<open>The query of the display configuration ends after at most three attempts; it gives up only when
  every attempt found its buffers too small, when a query failed for another reason, or when the sizes
  themselves were reported as too small.\<close>

lemma display_query_gives_up:
  assumes "display_config_loop A kDisplayConfigMaxRetries w = (Inr (Inl hr), w')"
  shows "too_small A kDisplayConfigMaxRetries w w' \<or>
    (\<exists>rc. rc \<notin> {ERROR_SUCCESS, ERROR_INSUFFICIENT_BUFFER} \<and> hr = HResultFromWin32 A rc) \<or>
    (\<exists>w0 p w1. GetDisplayConfigBufferSizes A w0 = ((ERROR_INSUFFICIENT_BUFFER, p), w1))"
  using assms by (rule display_config_loop_retries) (simp add: kDisplayConfigMaxRetries_def)

lemma demo_friendly_names: "GetMonitorFriendlyNames demo_desk [] w = (S_OK, [(1, widen ''Panel'')], w)"
proof -
  have id: "GetMonitorDeviceId (szDevice demo_monitor) = 1"
    by (simp add: GetMonitorDeviceId_def demo_monitor_def) code_simp
  show ?thesis
    by (simp add: GetMonitorFriendlyNames_def display_config_loop.simps kDisplayConfigMaxRetries_def)
      (simp add: demo_desk_def id try_emplace_def)
qed

abbreviation demo_cache :: "(unit, unit) MonitorStateCache" where
  "demo_cache \<equiv> \<lparr>mon_storage = [], mon_callbacks = [((), ())], mon_log = None\<rparr>"

text \<open>The callback moves the window to the origin.\<close>

abbreviation demo_call :: "unit \<Rightarrow> unit \<Rightarrow> MonitorStates \<Rightarrow> desk \<Rightarrow> desk" where
  "demo_call \<equiv> \<lambda>_ _ _ _. (0, 0, 640, 400)"

lemma demo_initialize:
  "cache_initialize demo_desk 0 demo_call demo_cache demo_place =
     (S_OK, demo_cache\<lparr>mon_storage := [(3, state_of demo_desk demo_place [(1, widen ''Panel'')] 3)]\<rparr>, (0, 0, 640, 400))"
proof -
  have e: "EnumMonitors demo_desk w = ([(3, (0, 0, 1920, 1080))], True)" "0 < GetMonitorCount demo_desk w"
    "map_room demo_desk k" for w k
    by (simp_all add: demo_desk_def GetMonitorCount_def)
  define s0 where "s0 = snd (monitor_initialize demo_desk demo_place (makeMonitorState 3 (M128 0 0 0 0)))"
  have i: "monitor_initialize demo_desk demo_place (makeMonitorState 3 a) = (S_OK, s0)" for a
    by (simp add: s0_def monitor_initialize_def makeMonitorState_def demo_desk_def)
  have cb: "EnumDisplayMonitorsCallback demo_desk demo_place 3 (0, 0, 1920, 1080)
      \<lparr>cb_friendly_names = ns, cb_states = [], cb_hresult = E_FAIL\<rparr> =
      (True, \<lparr>cb_friendly_names = ns, cb_states = [(3, state_of demo_desk demo_place ns 3)], cb_hresult = E_FAIL\<rparr>)" for ns
    using i by (simp add: EnumDisplayMonitorsCallback_def e try_emplace_def cache_put_def state_of_def Let_def
        split: option.split)
  show ?thesis
    unfolding cache_initialize_def demo_friendly_names e(1) Let_def prod.case
    using e(2) [of demo_place] by (simp add: e(3) cb states_eq_def)
qed

lemma monitors_refreshed_witness:
  "mon_storage (fst (snd (cache_initialize demo_desk 0 demo_call demo_cache demo_place))) =
     [(3, state_of demo_desk demo_place [(1, widen ''Panel'')] 3)] \<and>
   snd (snd (cache_initialize demo_desk 0 demo_call demo_cache demo_place)) = (0, 0, 640, 400)"
proof -
  have e: "EnumMonitors demo_desk demo_place = ([(3, (0, 0, 1920, 1080))], True)" "0 < GetMonitorCount demo_desk demo_place"
    by (simp_all add: demo_desk_def GetMonitorCount_def)
  have l: "enum_monitors_law demo_desk demo_place [(3, (0, 0, 1920, 1080))]"
    by (simp add: enum_monitors_law_def demo_desk_def demo_monitor_def)
  note r = monitors_refreshed [OF demo_initialize _ demo_desk_hr e(2) demo_friendly_names e(1) l refl]
  show ?thesis using r by (simp add: demo_initialize states_eq_def)
qed

lemma monitors_kept_on_failure_witness:
  "mon_storage (fst (snd (cache_initialize (demo_desk\<lparr>MonitorCountMetric := (\<lambda>w. 1), map_room := (\<lambda>_. False)\<rparr>) 0 demo_call
     (demo_cache\<lparr>mon_storage := [(3, makeMonitorState 3 (M128 0 0 0 0))]\<rparr>) demo_place))) =
   [(3, makeMonitorState 3 (M128 0 0 0 0))]"
proof -
  let ?A = "demo_desk\<lparr>MonitorCountMetric := (\<lambda>w. 1), map_room := (\<lambda>_. False)\<rparr>"
  let ?mc = "demo_cache\<lparr>mon_storage := [(3, makeMonitorState 3 (M128 0 0 0 0))]\<rparr>"
  have run: "cache_initialize ?A 0 demo_call ?mc demo_place = (E_OUTOFMEMORY, ?mc, demo_place)"
    by (simp add: cache_initialize_def GetMonitorCount_def)
  show ?thesis using monitors_kept_on_failure [OF run] unfolding run by simp
qed

definition busy_desk :: "desk eng_api" where
  "busy_desk = demo_desk\<lparr>QueryDisplayConfig := (\<lambda>p m w. ((ERROR_INSUFFICIENT_BUFFER, []), w))\<rparr>"

lemma display_query_gives_up_witness:
  "display_config_loop busy_desk kDisplayConfigMaxRetries demo_place =
     (Inr (Inl (HResultFromWin32 busy_desk ERROR_INSUFFICIENT_BUFFER)), demo_place) \<and>
   (too_small busy_desk kDisplayConfigMaxRetries demo_place demo_place \<or>
    (\<exists>rc. rc \<notin> {ERROR_SUCCESS, ERROR_INSUFFICIENT_BUFFER} \<and>
       HResultFromWin32 busy_desk ERROR_INSUFFICIENT_BUFFER = HResultFromWin32 busy_desk rc) \<or>
    (\<exists>w0 p w1. GetDisplayConfigBufferSizes busy_desk w0 = ((ERROR_INSUFFICIENT_BUFFER, p), w1)))"
proof -
  have run: "display_config_loop busy_desk kDisplayConfigMaxRetries demo_place =
      (Inr (Inl (HResultFromWin32 busy_desk ERROR_INSUFFICIENT_BUFFER)), demo_place)"
    by (simp add: busy_desk_def display_config_loop.simps kDisplayConfigMaxRetries_def demo_desk_def HResultFromWin32_def)
  show ?thesis by (rule conjI [OF run display_query_gives_up [OF run]])
qed

section \<open>Where a window is put\<close>

text \<open>C2: The first execution of a relative operation, with fractions from 0 to 1 and any work area and
  margin of ordinary size, gives the window an area of whole pixels that lies within the work area of its
  monitor, plus the shadow margin, computed without overflow or rounding on every instruction set.\<close>

theorem window_placed_in_work_area:
  assumes "op_dirty op" "cache_get monitors (op_hmonitor op) = Some st" "mon_work_area st = rect_area (l, t, r, b)"
    and "desktop_rect (l, t, r, b)" "unit_lanes (op_relative op)"
    and "shadowMargin A F w s = (Inr (i4_to_f4 m), s')" "desktop_margin m"
  shows "\<exists>x y cw ch hr w' op'. relative_execute A F monitors op s w = Some (hr, op', s', w') \<and>
    op_bounds op' = lift2 (+) (M128 (of_int x) (of_int y) (of_int cw) (of_int ch)) m \<and>
    0 \<le> cw \<and> 0 \<le> ch \<and> sint l \<le> x \<and> x + cw \<le> sint r \<and> sint t \<le> y \<and> y + ch \<le> sint b \<and>
    applyWindowRect A (ws_hwnd s') (op_bounds op') w = (hr, w')"
proof -
  obtain x y cw ch where p: "f4_ltrunc (f4_add (expected_area F (rect_area (l, t, r, b)) (op_relative op)) (i4_to_f4 m)) =
      lift2 (+) (M128 (of_int x) (of_int y) (of_int cw) (of_int ch)) m"
    "0 \<le> cw" "0 \<le> ch" "sint l \<le> x" "x + cw \<le> sint r" "sint t \<le> y" "y + ch \<le> sint b"
    using placed_bounds [OF assms(4,7,5)] by blast
  then show ?thesis
    using relative_execute_dirty [OF assms(1,2,6)] assms(3) by fastforce
qed

text \<open>The margin is added where the outer frame has to be moved back by it: the visible frame of a
  window that is given an area plus its margin lies twice the margin's insets to the right of and below
  the area.\<close>

lemma visible_frame_off_by_margin:
  assumes "\<not> FAILED hr" "GetWindowRect A hwnd w = (True, (l, t, r, b), err)"
    and "DwmExtendedFrameBounds A hwnd w = (hr, (l', t', r', b'))"
  shows "\<exists>m. GetWindowShadowMargin A F hwnd m0 w = (S_OK, m) \<and>
    visible_frame (lift2 (+) (M128 x y cw ch) m) m = M128 (x + 2 * (l' - l)) (y + 2 * (t' - t)) cw ch"
  using GetWindowShadowMargin_lanes [OF assms(2,3,1)] by (simp add: visible_frame_shift)

text \<open>Only the first window is measured: a later execution of the same operation, on any window and after
  any change of the monitors, applies the bounds computed for the first one without consulting the
  monitors or the shadow margin.\<close>

lemma later_windows_reuse_bounds:
  assumes "relative_execute A F monitors op s w = Some (hr, op', s', w')"
    and "cache_get monitors (op_hmonitor op) \<noteq> None"
  shows "relative_execute A' F' monitors' op' u v =
    (let (hr', v') = applyWindowRect A' (ws_hwnd u) (op_bounds op') v in Some (hr', op', u, v'))"
proof -
  have "\<not> op_dirty op'"
    using assms by (auto simp: relative_execute_def Let_def split: if_splits prod.splits sum.splits)
  then show ?thesis by (rule relative_execute_clean)
qed

lemma demo_margin: "\<exists>s'. shadowMargin demo_desk F demo_place demo_window = (Inr (i4_to_f4 (M128 7 0 14 7)), s')"
proof -
  have "GetWindowShadowMargin demo_desk F 7 (M128 0 0 0 0) demo_place = (S_OK, M128 7 0 14 7)"
    using GetWindowShadowMargin_lanes [of demo_desk 7 demo_place 100 50 740 450 0 0 107 50 733 443 F]
    by (simp add: demo_desk_def)
  moreover have "ws_margin_dirty demo_window"
    by (simp add: demo_window_def makeWindowState_def demo_desk_def)
  ultimately show ?thesis by (simp add: shadowMargin_def demo_window_new(2))
qed

abbreviation demo_op :: RelativeOperation where
  "demo_op \<equiv> \<lparr>op_hmonitor = 3, op_bounds = M128 0 0 0 0, op_relative = M128 f32_half f32_half f32_one f32_one,
     op_dirty = True\<rparr>"

abbreviation demo_monitors :: MonitorStates where
  "demo_monitors \<equiv> [(3, state_of demo_desk demo_place [] 3)]"

lemma demo_work_area: "mon_work_area (state_of demo_desk demo_place [] 3) = rect_area (0, 0, 1920, 1040)"
  by (simp add: state_of_def monitor_initialize_def makeMonitorState_def demo_desk_def demo_monitor_def)

lemma window_placed_in_work_area_witness:
  "\<exists>x y cw ch hr w' op' s'. relative_execute demo_desk (feature_tags True True True True) demo_monitors demo_op
      demo_window demo_place = Some (hr, op', s', w') \<and>
    op_bounds op' = lift2 (+) (M128 (of_int x) (of_int y) (of_int cw) (of_int ch)) (M128 7 0 14 7) \<and>
    0 \<le> cw \<and> 0 \<le> ch \<and> 0 \<le> x \<and> x + cw \<le> 1920 \<and> 0 \<le> y \<and> y + ch \<le> 1040"
proof -
  obtain s' where m: "shadowMargin demo_desk (feature_tags True True True True) demo_place demo_window =
      (Inr (i4_to_f4 (M128 7 0 14 7)), s')"
    using demo_margin by blast
  have g: "cache_get demo_monitors (op_hmonitor demo_op) = Some (state_of demo_desk demo_place [] 3)"
    by (simp add: cache_get_def)
  have d: "desktop_rect (0, 0, 1920, 1040)" "unit_lanes (op_relative demo_op)" "desktop_margin (M128 7 0 14 7)"
    by (simp_all add: desktop_rect_def unit_lanes_def desktop_margin_def f32_consts f32_consts_finite)
  show ?thesis
    using window_placed_in_work_area [OF _ g demo_work_area d(1,2) m d(3)] by simp blast
qed

lemma visible_frame_off_by_margin_witness:
  "GetWindowShadowMargin demo_desk (feature_tags True True True True) 7 (M128 0 0 0 0) demo_place = (S_OK, M128 7 0 14 7) \<and>
   visible_frame (lift2 (+) (M128 200 200 640 400) (M128 7 0 14 7)) (M128 7 0 14 7) = M128 214 200 640 400"
proof -
  let ?F = "feature_tags True True True True"
  obtain m where "GetWindowShadowMargin demo_desk ?F 7 (M128 0 0 0 0) demo_place = (S_OK, m)"
    "visible_frame (lift2 (+) (M128 200 200 640 400) m) m = M128 214 200 640 400"
    using visible_frame_off_by_margin [of 0 demo_desk 7 demo_place 100 50 740 450 0 107 50 733 443 ?F "M128 0 0 0 0" 200 200 640 400]
    by (auto simp: demo_desk_def)
  moreover have "GetWindowShadowMargin demo_desk ?F 7 (M128 0 0 0 0) demo_place = (S_OK, M128 7 0 14 7)"
    using GetWindowShadowMargin_lanes [of demo_desk 7 demo_place 100 50 740 450 0 0 107 50 733 443 ?F]
    by (simp add: demo_desk_def)
  ultimately show ?thesis by simp
qed

lemma later_windows_reuse_bounds_witness:
  "\<exists>op'. (\<exists>hr s' w'. relative_execute demo_desk (feature_tags True True True True) demo_monitors demo_op demo_window
       demo_place = Some (hr, op', s', w')) \<and>
     relative_execute demo_desk (feature_tags True True True True) [] op' (demo_window\<lparr>ws_hwnd := 8\<rparr>) demo_place =
       Some (win32_hr 1400, op', demo_window\<lparr>ws_hwnd := 8\<rparr>, demo_place)"
proof -
  let ?F = "feature_tags True True True True"
  obtain s' where m: "shadowMargin demo_desk ?F demo_place demo_window = (Inr (i4_to_f4 (M128 7 0 14 7)), s')"
    using demo_margin by blast
  have g: "cache_get demo_monitors (op_hmonitor demo_op) = Some (state_of demo_desk demo_place [] 3)"
    by (simp add: cache_get_def)
  obtain hr op' w' where run: "relative_execute demo_desk ?F demo_monitors demo_op demo_window demo_place = Some (hr, op', s', w')"
    using relative_execute_dirty [OF _ g m] by auto
  have g': "cache_get demo_monitors (op_hmonitor demo_op) \<noteq> None" using g by simp
  have "applyWindowRect demo_desk 8 b demo_place = (win32_hr 1400, demo_place)" for b
    by (simp add: applyWindowRect_def demo_desk_def LastErrorAsHResult_def HResultFromWin32_def)
  then have "relative_execute demo_desk ?F [] op' (demo_window\<lparr>ws_hwnd := 8\<rparr>) demo_place =
      Some (win32_hr 1400, op', demo_window\<lparr>ws_hwnd := 8\<rparr>, demo_place)"
    using later_windows_reuse_bounds [OF run g', of demo_desk ?F "[]" "demo_window\<lparr>ws_hwnd := 8\<rparr>" demo_place] by simp
  then show ?thesis using run by blast
qed

section \<open>The rule engine\<close>

text \<open>C1: On a focus or show event the engine does what the specification says: it executes, in the order of
  the settings, the operation of each rule that has the event's trigger and whose filter matches the
  window's image name, class and title, and of no other; a rule whose operation fails does not stop the
  later ones.\<close>

theorem events_run_matching_rules:
  assumes "coherent_names A w s" "answers A (ws_hwnd s) w img cls title" "move_keeps_names A (ws_hwnd s)"
    and "operation_context eng" "rule_set eng = map (engine_rule A) rs"
  shows "map_option (\<lambda>(e, s', w'). (map er_operation (rule_set e), location_part s', w'))
      (onForegroundEvent A F monitors eng s w) =
    map_option (\<lambda>(ops, s', w'). (ops, location_part s', w'))
      (run_matching A F monitors kWindowFocus img cls title rs s w) \<and>
    map_option (\<lambda>(e, s', w'). (map er_operation (rule_set e), location_part s', w')) (onShowEvent A F monitors eng s w) =
    map_option (\<lambda>(ops, s', w'). (ops, location_part s', w'))
      (run_matching A F monitors kWindowShow img cls title rs s w)"
proof -
  have "map_option (\<lambda>(e, s', w'). (map er_operation (rule_set e), location_part s', w'))
      (checkRules A F monitors trigger eng s w) =
    map_option (\<lambda>(ops, s', w'). (ops, location_part s', w')) (run_matching A F monitors trigger img cls title rs s w)"
    for trigger
    using check_rules_matching [OF assms(1-3), of F monitors trigger rs] assms(4,5)
    by (simp add: checkRules_def option.map_comp comp_def case_prod_unfold)
  then show ?thesis by (simp add: onForegroundEvent_def onShowEvent_def)
qed

text \<open>C23: Compiling the rules of a document without an error gives, in their order, one engine rule for each
  rule whose action asks for an operation, with the rule's trigger and the predicates of its filter: an
  absolute action asks for its bounds, a relative one for its fractions on the monitor its id names, the
  primary one for 0 and otherwise the first with that id.  A rule without an action type or for a
  monitor that is not there is left out.\<close>

theorem compiled_rule_set:
  assumes "CompileRule A Y monitors w doc = Inr rules" "doc_root doc = Some us"
  shows "rules = concat (map (compiled A Y (doc_tree doc) monitors w) (urules us))"
proof -
  have "compile_rules A Y (doc_tree doc) monitors w (urules us) [] = Inr rules"
    using assms by (simp add: CompileRule_def)
  then show ?thesis using compile_rules_Inr by fastforce
qed

text \<open>A rule that constrains the process, the class and the title of a window at once needs three
  predicates where there is room for two: compiling it fails as if memory were exhausted, the engine
  logs that and keeps all its old rules.\<close>

lemma three_constraints_rejected:
  assumes "doc_root doc = Some us" "urules us = pre @ r # post" "operation_context eng"
    and "compile_rules A Y (doc_tree doc) monitors w pre [] = Inr rules"
    and "CompileAction A Y (doc_tree doc) monitors w (raction r) = Inr (Some op)" "constraint_count (rfilter r) = 3"
  shows "onSettingsChanged A Y now monitors w doc eng =
    Some (eng\<lparr>re_logger := log_error now GroupEngine kRuleCompilationOutOfMemory E_OUTOFMEMORY (re_logger eng)\<rparr>)"
  using compile_rules_bad_filter [OF assms(4-6)] assms(1-3) by (simp add: onSettingsChanged_def CompileRule_def)

text \<open>A document whose rules all parse can still end the process: the numbers of an action are read only
  when the rule is compiled, and the error for one that is out of range leaves a \<open>noexcept\<close> function.\<close>

lemma bad_action_ends_process:
  assumes "doc_root doc = Some us" "urules us = pre @ r # post" "operation_context eng"
    and "compile_rules A Y (doc_tree doc) monitors w pre [] = Inr rules"
    and "CompileAction A Y (doc_tree doc) monitors w (raction r) = Inl (ParseErr err)"
  shows "onSettingsChanged A Y now monitors w doc eng = None"
  using compile_rules_bad_action [OF assms(4,5)] assms(1-3) by (simp add: onSettingsChanged_def CompileRule_def)

text \<open>A rule on the class \<open>Notepad\<close> and one on another class, on the demo window.\<close>

definition notepad_filter :: "ypath Filter" where
  "notepad_filter = \<lparr>fnode = [], process_image_name = (kContains, []), window_class = (kEquals, demo_class),
     window_title = (kContains, [])\<rparr>"

definition demo_engine :: "desk RuleEngine" where
  "demo_engine = \<lparr>operation_context = True, re_logger = None, rule_set = List.map (engine_rule demo_desk)
     [(2, AbsoluteOp (M128 1 2 3 4), notepad_filter\<lparr>window_class := (kStartsWith, widen ''X'')\<rparr>),
      (6, AbsoluteOp (M128 10 20 300 200), notepad_filter)]\<rparr>"

lemma demo_names: "coherent_names demo_desk w demo_window"
  using demo_window_coherent [of "feature_tags True True True True" w] by (simp add: coherent_parts)

lemma events_run_matching_rules_witness:
  "map_option (\<lambda>(e, s', w'). w') (onForegroundEvent demo_desk (feature_tags True True True True) [] demo_engine
     demo_window demo_place) = Some (10, 20, 300, 200)"
proof -
  let ?F = "feature_tags True True True True"
  let ?rs = "[(2, AbsoluteOp (M128 1 2 3 4), notepad_filter\<lparr>window_class := (kStartsWith, widen ''X'')\<rparr>),
      (6, AbsoluteOp (M128 10 20 300 200), notepad_filter)]"
  have ans: "answers demo_desk (ws_hwnd demo_window) demo_place demo_image demo_class demo_title"
    using demo_answers by (simp add: demo_window_new(2))
  have move: "move_keeps_names demo_desk (ws_hwnd demo_window)" using demo_desk_move by (simp add: demo_window_new(2))
  have eng: "operation_context demo_engine" "rule_set demo_engine = List.map (engine_rule demo_desk) ?rs"
    by (simp_all add: demo_engine_def)
  note r = conjunct1 [OF events_run_matching_rules [OF demo_names ans move eng, of ?F "[]"]]
  have m: "filter_matches notepad_filter demo_image demo_class demo_title"
    "\<not> filter_matches (notepad_filter\<lparr>window_class := (kStartsWith, widen ''X'')\<rparr>) demo_image demo_class demo_title"
    by (simp_all add: filter_matches_def notepad_filter_def constrains_defs demo_class_def widen_def)
  have e: "execute demo_desk ?F [] (AbsoluteOp (M128 10 20 300 200)) demo_window demo_place =
      Some (S_OK, AbsoluteOp (M128 10 20 300 200), demo_window, (10, 20, 300, 200))"
    by (simp add: absolute_execute_def applyWindowRect_def demo_window_new(2) i4_at_def) (simp add: demo_desk_def)
  have "enum_flags_test demo_desk 2 kWindowFocus" "enum_flags_test demo_desk 6 kWindowFocus"
    by (simp_all add: demo_desk_def kWindowFocus_def)
  then have "map_option (\<lambda>(ops, s', w'). (ops, location_part s', w'))
      (run_matching demo_desk ?F [] kWindowFocus demo_image demo_class demo_title ?rs demo_window demo_place) =
    Some ([AbsoluteOp (M128 1 2 3 4), AbsoluteOp (M128 10 20 300 200)], location_part demo_window, (10, 20, 300, 200))"
    using m e by simp
  then show ?thesis using r by (auto simp: case_prod_unfold)
qed

text \<open>A document of one rule.\<close>

definition one_rule_doc :: "ytree \<Rightarrow> ypath Filter \<Rightarrow> ypath Action \<Rightarrow> (ytree, ypath) UserSettingsDocument" where
  "one_rule_doc t f a = \<lparr>doc_tree = t, doc_root = Some \<lparr>unode = [], urules =
     [\<lparr>rnode = rule1, rname = [], rfilter = f, rindex = 1, rtriggers = 2, raction = a\<rparr>]\<rparr>\<rparr>"

definition move_tree :: ytree where
  "move_tree = [(rule1, YMap), (rule1 @ [Key ''where''], YMap), (rule1 @ [Key ''then''], YMap),
     (rule1 @ [Key ''then'', Key ''type''], YScalar ''absolute_move_and_resize'')]"

abbreviation move_action :: "ypath Action" where
  "move_action \<equiv> \<lparr>anode = rule1 @ [Key ''then''], atype = kAbsoluteMoveAndResize\<rparr>"

lemma move_action_compiled:
  "CompileAction demo_desk (demo_yaml p) move_tree [] w move_action = Inr (Some (AbsoluteOp (M128 0 0 640 400)))"
proof -
  have "makeAbsolute (demo_yaml p) move_tree (rule1 @ [Key ''then'']) =
      Inr \<lparr>abs_node = rule1 @ [Key ''then''], abs_bounds = M128 0 0 640 400\<rparr>"
    by (simp add: makeAbsolute_def ReadLongFromNodeOrDefault_def demo_sel yt_invalid_def key_simps i4_make_def
        move_tree_def)
  then show ?thesis
    by (simp add: CompileAction_def as_absolute_def makeAbsoluteOperation_def) (simp add: demo_desk_def)
qed

lemma compiled_rule_set_witness:
  "\<exists>rules. CompileRule demo_desk (demo_yaml (\<lambda>_. [])) [] demo_place (one_rule_doc move_tree notepad_filter move_action) = Inr rules \<and>
     List.map er_operation rules = [AbsoluteOp (M128 0 0 640 400)]"
proof -
  let ?Y = "demo_yaml (\<lambda>_. [])"
  let ?doc = "one_rule_doc move_tree notepad_filter move_action"
  let ?r = "\<lparr>rnode = rule1, rname = [], rfilter = notepad_filter, rindex = 1, rtriggers = 2, raction = move_action\<rparr>"
  have f: "CompileFilter demo_desk notepad_filter = Inr (predicates_of demo_desk notepad_filter)"
    by (simp add: CompileFilter_eq constraint_count_def constrains_defs notepad_filter_def)
  have v: "vec_alloc demo_desk k = AllocOk" for k by (simp add: demo_desk_def)
  obtain rules where c: "CompileRule demo_desk ?Y [] demo_place ?doc = Inr rules"
    using move_action_compiled f v by (simp add: CompileRule_def one_rule_doc_def)
  have root: "doc_root ?doc = Some \<lparr>unode = [], urules = [?r]\<rparr>" by (simp add: one_rule_doc_def)
  have "rules = compiled demo_desk ?Y move_tree [] demo_place ?r"
    using compiled_rule_set [OF c root] by (simp add: one_rule_doc_def)
  then show ?thesis using c CompileAction_asked [OF move_action_compiled, symmetric] by (simp add: compiled_def)
qed

lemma three_constraints_rejected_witness:
  "onSettingsChanged demo_desk (demo_yaml (\<lambda>_. [])) 0 [] demo_place (one_rule_doc move_tree
     (notepad_filter\<lparr>process_image_name := (kContains, widen ''np''), window_title := (kContains, widen ''read'')\<rparr>) move_action)
     demo_engine = Some demo_engine"
proof -
  let ?f = "notepad_filter\<lparr>process_image_name := (kContains, widen ''np''), window_title := (kContains, widen ''read'')\<rparr>"
  let ?r = "\<lparr>rnode = rule1, rname = [], rfilter = ?f, rindex = 1, rtriggers = 2, raction = move_action\<rparr>"
  have root: "doc_root (one_rule_doc move_tree ?f move_action) = Some \<lparr>unode = [], urules = [?r]\<rparr>"
    by (simp add: one_rule_doc_def)
  have c: "constraint_count (rfilter ?r) = 3"
    by (simp add: constraint_count_def constrains_defs notepad_filter_def widen_def)
  have a: "CompileAction demo_desk (demo_yaml (\<lambda>_. [])) (doc_tree (one_rule_doc move_tree ?f move_action)) [] demo_place
      (raction ?r) = Inr (Some (AbsoluteOp (M128 0 0 640 400)))"
    using move_action_compiled by (simp add: one_rule_doc_def)
  show ?thesis
    using three_constraints_rejected [OF root _ _ _ a c, of "[]" "[]" demo_engine "[]" 0]
    by (simp add: demo_engine_def log_error_def helper_log_def)
qed

text \<open>A rule that is accepted although its \<open>x\<close> is out of range.\<close>

definition far_tree :: ytree where
  "far_tree = move_tree @ [(rule1 @ [Key ''then'', Key ''x''], YLong 99999)]"

definition no_filter :: "ypath Filter" where
  "no_filter = \<lparr>fnode = rule1 @ [Key ''where''], process_image_name = (kContains, []),
     window_class = (kContains, []), window_title = (kContains, [])\<rparr>"

lemma bad_action_ends_process_witness:
  "makeRule (demo_yaml (\<lambda>_. [])) far_tree rule1 1 = Inr \<lparr>rnode = rule1, rname = [], rfilter = no_filter, rindex = 1,
     rtriggers = 0, raction = move_action\<rparr> \<and>
   onSettingsChanged demo_desk (demo_yaml (\<lambda>_. [])) 0 [] demo_place (one_rule_doc far_tree no_filter move_action)
     demo_engine = None"
proof
  let ?Y = "demo_yaml (\<lambda>_. [])"
  let ?r = "\<lparr>rnode = rule1, rname = [], rfilter = no_filter, rindex = 1, rtriggers = 2, raction = move_action\<rparr>"
  have t: "map_of far_tree rule1 = Some YMap" "map_of far_tree (rule1 @ [Key ''where'']) = Some YMap"
    "map_of far_tree (rule1 @ [Key ''then'']) = Some YMap"
    "map_of far_tree (rule1 @ [Key ''then'', Key ''type'']) = Some (YScalar ''absolute_move_and_resize'')"
    "map_of far_tree (rule1 @ [Key ''then'', Key ''x'']) = Some (YLong 99999)"
    by (simp_all add: far_tree_def move_tree_def)
  have n: "map_of far_tree (rule1 @ [Key ''name'']) = None" "map_of far_tree (rule1 @ [Key ''when'']) = None"
    "map_of far_tree (rule1 @ [Key ''where'', Key k]) = None" for k
    by (simp_all add: far_tree_def move_tree_def)
  have ch: "yt_children far_tree (rule1 @ [Key ''then'', Key ''type'']) = []"
    by (simp add: yt_children_def yt_child_def far_tree_def move_tree_def)
  show "makeRule ?Y far_tree rule1 1 = Inr \<lparr>rnode = rule1, rname = [], rfilter = no_filter, rindex = 1,
     rtriggers = 0, raction = move_action\<rparr>"
    using t n ch
    by (simp add: makeRule_def checkRuleNode_def makeFilter_def checkFilterNode_def makeAction_def checkActionNode_def
        ReadStringFromNode_def ReadStringAndMatchTypeFromNode_def ReadTriggerFlagsFromNode_def ReadActionTypeFromNode_def
        demo_sel key_simps yt_invalid_def yt_has_val_def yt_val_def yt_text_def no_filter_def kTriggerNone_def
        toActionType_def action_names_def action_values_def lower_def)
  have root: "doc_root (one_rule_doc far_tree no_filter move_action) = Some \<lparr>unode = [], urules = [?r]\<rparr>"
    by (simp add: one_rule_doc_def)
  obtain err where a: "CompileAction demo_desk ?Y (doc_tree (one_rule_doc far_tree no_filter move_action)) [] demo_place
      (raction ?r) = Inl (ParseErr err)"
    using t(5) by (simp add: CompileAction_def as_absolute_def makeAbsolute_def ReadLongFromNodeOrDefault_def one_rule_doc_def
        demo_sel key_simps yt_invalid_def yt_has_val_def limit_defs)
  show "onSettingsChanged demo_desk ?Y 0 [] demo_place (one_rule_doc far_tree no_filter move_action) demo_engine = None"
    using bad_action_ends_process [OF root _ _ _ a, of "[]" "[]" demo_engine "[]" 0] by (simp add: demo_engine_def)
qed

end
