(* ===== verification/Utility.thy ===== *)
theory Utility
  imports Float32
begin

text \<open>
  \<open>utility/random.h\<close>, \<open>utility/backoff/\<close> and \<open>utility/RetryState\<close>: the generators, the delays
  between attempts and the count of attempts that the thread controllers and the start of the
  application use.  A result of \<open>None\<close> is undefined behaviour: the conversion to \<open>uint32_t\<close> of a
  \<open>float\<close> that is out of range.  \<open>std::uniform_int_distribution\<close>, whose algorithm the standard leaves
  open, is a parameter; \<open>uniform_law\<close> is its documented range.  The concept \<open>BackoffPolicy\<close> is the
  locale \<open>backoff_policy\<close>, and \<open>IRetryState\<close> is the locale \<open>retry_state\<close> over a record of its virtual
  functions.
\<close>

section \<open>utility/random.h\<close>

(* @ app/utility/random.h:22-24 xorshift32::xorshift32 *)
definition xorshift32_make :: "32 word \<Rightarrow> 32 word" where
  "xorshift32_make seed = (if seed = 0 then 2463534242 else seed)"

text \<open>A generator is its state; a call returns the new state, which is also the number drawn.\<close>

(* @ app/utility/random.h:26-32 xorshift32::operator() *)
definition xorshift32_next :: "32 word \<Rightarrow> 32 word" where
  "xorshift32_next x =
     (let x1 = x XOR push_bit 13 x;
          x2 = x1 XOR drop_bit 17 x1
      in x2 XOR push_bit 5 x2)"

(* @ app/utility/random.h:48-50 xorshift64::xorshift64 *)
definition xorshift64_make :: "64 word \<Rightarrow> 64 word" where
  "xorshift64_make seed = (if seed = 0 then 88172645463325252 else seed)"

(* @ app/utility/random.h:52-58 xorshift64::operator() *)
definition xorshift64_next :: "64 word \<Rightarrow> 64 word" where
  "xorshift64_next x =
     (let x1 = x XOR push_bit 13 x;
          x2 = x1 XOR drop_bit 7 x1
      in x2 XOR push_bit 17 x2)"

(* @ app/utility/random.h:76-85 make_seed32 *)
definition make_seed32 :: "64 word \<Rightarrow> 32 word \<Rightarrow> 32 word" where
  "make_seed32 tsc64 thread_id =
     (let tsc32 = ucast tsc64 :: 32 word;
          s0 = tsc32 XOR (thread_id * 0x9e3779b9);
          s1 = s0 XOR drop_bit 16 s0;
          s2 = s1 * 0x85ebca6b;
          s3 = s2 XOR drop_bit 13 s2;
          s4 = s3 * 0xc2b2ae35
      in s4 XOR drop_bit 16 s4)"

(* @ app/utility/random.h:96-104 make_seed64 *)
definition make_seed64 :: "64 word \<Rightarrow> 32 word \<Rightarrow> 64 word" where
  "make_seed64 tsc64 thread_id =
     (let s0 = tsc64 XOR (ucast thread_id * 0x9e3779b97f4a7c15);
          s1 = s0 XOR drop_bit 30 s0;
          s2 = s1 * 0xbf58476d1ce4e5b9;
          s3 = s2 XOR drop_bit 27 s2;
          s4 = s3 * 0x94d049bb133111eb
      in s4 XOR drop_bit 31 s4)"

text \<open>\<open>arch32\<close> is the macro \<open>ROXYG_ARCH_32BIT\<close>; \<open>size_t\<close> is read as 64 bits.\<close>

(* @ app/utility/random.h:112-118 make_preferred_seed *)
definition make_preferred_seed :: "bool \<Rightarrow> 64 word \<Rightarrow> 32 word \<Rightarrow> 64 word" where
  "make_preferred_seed arch32 tsc64 thread_id =
     (if arch32 then ucast (make_seed32 tsc64 thread_id) else make_seed64 tsc64 thread_id)"

text \<open>The \<open>preferred_xorshift\<close> generator of the build.\<close>

(* @ app/utility/backoff/jitter.h:68-72 preferred_xorshift_jitter_generator *)
datatype rng = Xorshift32 "32 word" | Xorshift64 "64 word"

(* @ app/utility/backoff/jitter.h:68-72 preferred_xorshift_jitter_generator *)
definition preferred_rng :: "bool \<Rightarrow> 64 word \<Rightarrow> rng" where
  "preferred_rng arch32 seed =
     (if arch32 then Xorshift32 (xorshift32_make (ucast seed)) else Xorshift64 (xorshift64_make seed))"

section \<open>utility/backoff/jitter.h\<close>

text \<open>The template argument \<open>Ratio\<close> is the bits of a \<open>float\<close>; \<open>jitter_generator<void, 0.f>\<close> is
  \<open>NoJitter\<close>.\<close>

(* @ app/utility/backoff/jitter.h:6-8 jitter *)
datatype jitter = NoJitter | Jitter f32

definition f32_to_u32 :: "f32 \<Rightarrow> dword option" where
  "f32_to_u32 a =
     (if f32_finite a \<and> 0 \<le> rtrunc (f32_val a) \<and> rtrunc (f32_val a) < 2 ^ 32
      then Some (of_int (rtrunc (f32_val a))) else None)"

(* @ app/utility/backoff/jitter.h:17-33 jitter_generator::random *)
definition jitter_split :: "f32 \<Rightarrow> dword \<Rightarrow> (dword \<times> dword) option" where
  "jitter_split ratio mx =
     (if ratio = 0x3E800000 then let smax = drop_bit 2 mx in Some (mx - smax, smax)
      else if ratio = 0x3F000000 then let smax = drop_bit 1 mx in Some (mx - smax, smax)
      else if ratio = 0x3F400000 then let base = drop_bit 2 mx in Some (base, mx - base)
      else if ratio = 0x3F800000 then Some (0, mx)
      else map_option (\<lambda>smax. (mx - smax, smax)) (f32_to_u32 (f32_mul ratio (f32_of_int (uint mx)))))"

type_synonym uniform = "dword \<Rightarrow> rng \<Rightarrow> dword \<times> rng"

(* @ app/utility/backoff/jitter.h:17-38 jitter_generator::random *)
definition jitter_random :: "uniform \<Rightarrow> f32 \<Rightarrow> dword \<Rightarrow> rng \<Rightarrow> (dword \<times> rng) option" where
  "jitter_random uni ratio mx g =
     map_option (\<lambda>(base, smax). let (r, g') = uni smax g in (base + r, g')) (jitter_split ratio mx)"

definition uniform_law :: "uniform \<Rightarrow> bool" where
  "uniform_law uni \<longleftrightarrow> (\<forall>smax g. fst (uni smax g) \<le> smax)"

section \<open>utility/backoff/exponential.h\<close>

abbreviation (input) UINT32_MAX :: dword where "UINT32_MAX \<equiv> 0xFFFFFFFF"

text \<open>A specialisation whose \<open>requires\<close> clause fails is not chosen: the primary template, which
  computes in \<open>float\<close>, is.  The comments give the \<open>float\<close> constants the bits stand for.\<close>

(* @ app/utility/backoff/exponential.h:8-118 scale_and_clamp *)
definition scale_and_clamp :: "f32 \<Rightarrow> dword \<Rightarrow> dword \<Rightarrow> dword option" where
  "scale_and_clamp Scale MaxVal v =
     (if Scale = 0x3F900000 \<and> MaxVal \<le> UINT32_MAX div 9 then Some (min (drop_bit 3 (v * 9)) MaxVal)
      else if Scale = 0x3FA00000 \<and> MaxVal \<le> UINT32_MAX div 5 then Some (min (drop_bit 2 (v * 5)) MaxVal)
      else if Scale = 0x3FB00000 \<and> MaxVal \<le> UINT32_MAX div 11 then Some (min (drop_bit 3 (v * 11)) MaxVal)
      else if Scale = 0x3FC00000 \<and> MaxVal \<le> UINT32_MAX div 3 then Some (min (drop_bit 1 (v * 3)) MaxVal)
      else if Scale = 0x3FD00000 \<and> MaxVal \<le> UINT32_MAX div 13 then Some (min (drop_bit 3 (v * 13)) MaxVal)
      else if Scale = 0x3FE00000 \<and> MaxVal \<le> UINT32_MAX div 7 then Some (min (drop_bit 2 (v * 7)) MaxVal)
      else if Scale = 0x3FF00000 \<and> MaxVal \<le> UINT32_MAX div 15 then Some (min (drop_bit 3 (v * 15)) MaxVal)
      else if Scale = 0x40000000 \<and> MaxVal \<le> UINT32_MAX div 2 then Some (min (push_bit 1 v) MaxVal)
      else if Scale = 0x40200000 \<and> MaxVal \<le> UINT32_MAX div 5 then Some (min (drop_bit 1 (v * 5)) MaxVal)
      else if Scale = 0x40400000 \<and> MaxVal \<le> UINT32_MAX div 3 then Some (min (v * 3) MaxVal)
      else if Scale = 0x40600000 \<and> MaxVal \<le> UINT32_MAX div 7 then Some (min (drop_bit 1 (v * 7)) MaxVal)
      else if Scale = 0x40800000 \<and> MaxVal \<le> UINT32_MAX div 4 then Some (min (push_bit 2 v) MaxVal)
      else map_option (\<lambda>s. min s MaxVal) (f32_to_u32 (f32_mul (f32_of_int (uint v)) Scale)))"

(* @ app/utility/backoff/exponential.h:127-138 exponential_backoff *)
record exp_params =
  MinDelay :: dword
  MaxDelay :: dword
  Factor :: f32
  JitterGenerator :: jitter

(* @ app/utility/backoff/exponential.h:167-168 exponential_backoff::current_ *)
record exponential_backoff =
  xb_current :: dword
  xb_rng :: rng

(* @ app/utility/backoff/exponential.h:140-143 exponential_backoff::exponential_backoff *)
definition exp_make :: "exp_params \<Rightarrow> rng \<Rightarrow> exponential_backoff" where
  "exp_make p g = \<lparr>xb_current = MinDelay p, xb_rng = g\<rparr>"

(* @ app/utility/backoff/exponential.h:145-147 exponential_backoff::reset *)
definition exp_reset :: "exp_params \<Rightarrow> exponential_backoff \<Rightarrow> exponential_backoff" where
  "exp_reset p b = b\<lparr>xb_current := MinDelay p\<rparr>"

(* @ app/utility/backoff/exponential.h:149-151 exponential_backoff::current *)
definition exp_current :: "exponential_backoff \<Rightarrow> dword" where
  "exp_current b = xb_current b"

(* @ app/utility/backoff/exponential.h:153-165 exponential_backoff::next *)
definition exp_next :: "uniform \<Rightarrow> exp_params \<Rightarrow> exponential_backoff \<Rightarrow> (dword \<times> exponential_backoff) option" where
  "exp_next uni p b =
     (case scale_and_clamp (Factor p) (MaxDelay p) (xb_current b) of
        None \<Rightarrow> None
      | Some nxt \<Rightarrow>
          let clamp = min nxt (MaxDelay p); b1 = b\<lparr>xb_current := clamp\<rparr> in
          (case JitterGenerator p of
             NoJitter \<Rightarrow> Some (clamp, b1)
           | Jitter ratio \<Rightarrow>
               map_option (\<lambda>(r, g). (min r (MaxDelay p), b1\<lparr>xb_rng := g\<rparr>))
                 (jitter_random uni ratio clamp (xb_rng b1))))"

section \<open>utility/backoff/fixed.h\<close>

text \<open>The policy has no state: an object is \<open>()\<close>.\<close>

(* @ app/utility/backoff/fixed.h:11-11 fixed_backoff::reset *)
definition fixed_reset :: "unit \<Rightarrow> unit" where
  "fixed_reset b = b"

(* @ app/utility/backoff/fixed.h:13-15 fixed_backoff::current *)
definition fixed_current :: "dword \<Rightarrow> unit \<Rightarrow> dword" where
  "fixed_current Delay b = Delay"

(* @ app/utility/backoff/fixed.h:17-19 fixed_backoff::next *)
definition fixed_next :: "dword \<Rightarrow> unit \<Rightarrow> (dword \<times> unit) option" where
  "fixed_next Delay b = Some (Delay, b)"

section \<open>utility/RetryState\<close>

text \<open>The record of the virtual functions of \<open>IRetryState\<close> over the states \<open>'s\<close> of an implementation.\<close>

(* @ app/utility/RetryState.h:8-39 IRetryState *)
record 's IRetryState =
  advanceAttempt :: "'s \<Rightarrow> 's"
  available :: "'s \<Rightarrow> bool"
  expired :: "'s \<Rightarrow> bool"
  forceExpire :: "'s \<Rightarrow> 's"
  nextDelay :: "'s \<Rightarrow> (dword \<times> 's) option"

(* @ app/utility/RetryState.inl:57-59 RetryState *)
record 'b RetryState =
  rs_attempts :: dword
  rs_backoff :: 'b

(* @ app/utility/RetryState.inl:24-27 RetryState::RetryState *)
definition rs_make :: "'b \<Rightarrow> 'b RetryState" where
  "rs_make backoff = \<lparr>rs_attempts = 0, rs_backoff = backoff\<rparr>"

(* @ app/utility/RetryState.inl:29-32 RetryState::reset *)
definition rs_reset :: "('b \<Rightarrow> 'b) \<Rightarrow> 'b RetryState \<Rightarrow> 'b RetryState" where
  "rs_reset reset s = s\<lparr>rs_attempts := 0, rs_backoff := reset (rs_backoff s)\<rparr>"

(* @ app/utility/RetryState.inl:34-36 RetryState::advanceAttempt *)
definition rs_advanceAttempt :: "'b RetryState \<Rightarrow> 'b RetryState" where
  "rs_advanceAttempt s = s\<lparr>rs_attempts := rs_attempts s + 1\<rparr>"

(* @ app/utility/RetryState.inl:37-39 RetryState::currentDelay *)
definition rs_currentDelay :: "('b \<Rightarrow> dword) \<Rightarrow> 'b RetryState \<Rightarrow> dword" where
  "rs_currentDelay current s = current (rs_backoff s)"

(* @ app/utility/RetryState.inl:40-42 RetryState::forceExpire *)
definition rs_forceExpire :: "dword \<Rightarrow> 'b RetryState \<Rightarrow> 'b RetryState" where
  "rs_forceExpire MaxAttempts s = s\<lparr>rs_attempts := MaxAttempts\<rparr>"

(* @ app/utility/RetryState.inl:43-45 RetryState::nextDelay *)
definition rs_nextDelay :: "('b \<Rightarrow> (dword \<times> 'b) option) \<Rightarrow> 'b RetryState \<Rightarrow> (dword \<times> 'b RetryState) option" where
  "rs_nextDelay nxt s = map_option (\<lambda>(d, b). (d, s\<lparr>rs_backoff := b\<rparr>)) (nxt (rs_backoff s))"

(* @ app/utility/RetryState.inl:47-49 RetryState::available *)
definition rs_available :: "dword \<Rightarrow> 'b RetryState \<Rightarrow> bool" where
  "rs_available MaxAttempts s \<longleftrightarrow> rs_attempts s < MaxAttempts"

(* @ app/utility/RetryState.inl:50-52 RetryState::expired *)
definition rs_expired :: "dword \<Rightarrow> 'b RetryState \<Rightarrow> bool" where
  "rs_expired MaxAttempts s \<longleftrightarrow> rs_attempts s \<ge> MaxAttempts"

(* @ app/utility/RetryState.inl:17-60 RetryState *)
definition RetryState_vt :: "dword \<Rightarrow> ('b \<Rightarrow> (dword \<times> 'b) option) \<Rightarrow> 'b RetryState IRetryState" where
  "RetryState_vt MaxAttempts nxt =
     \<lparr>advanceAttempt = rs_advanceAttempt, available = rs_available MaxAttempts,
      expired = rs_expired MaxAttempts, forceExpire = rs_forceExpire MaxAttempts,
      nextDelay = rs_nextDelay nxt\<rparr>"

lemmas rs_defs = rs_make_def rs_reset_def rs_advanceAttempt_def rs_currentDelay_def
  rs_forceExpire_def rs_nextDelay_def rs_available_def rs_expired_def

section \<open>Generators and seeds\<close>

lemma odd_constants:
  "x * 0x85ebca6b = y * 0x85ebca6b \<longleftrightarrow> x = y"
  "x * 0xc2b2ae35 = y * 0xc2b2ae35 \<longleftrightarrow> x = y" for x y :: "32 word"
  using mult_odd_inj [where c = "0x85ebca6b" and i = "0xa5cb9243" and x = x and y = y] mult_odd_inj [where c = "0xc2b2ae35" and i = "0x7ed1b41d" and x = x and y = y] by simp_all

lemma odd_constants64:
  "x * 0xbf58476d1ce4e5b9 = y * 0xbf58476d1ce4e5b9 \<longleftrightarrow> x = y"
  "x * 0x94d049bb133111eb = y * 0x94d049bb133111eb \<longleftrightarrow> x = y" for x y :: "64 word"
  using mult_odd_inj [where c = "0xbf58476d1ce4e5b9" and i = "0x96de1b173f119089" and x = x and y = y] mult_odd_inj [where c = "0x94d049bb133111eb" and i = "0x319642b2d24d8ec3" and x = x and y = y]
  by simp_all

lemma xorshift32_next_inj: "xorshift32_next x = xorshift32_next y \<longleftrightarrow> x = y"
  by (simp only: xorshift32_next_def Let_def xor_push_inj xor_drop_inj zero_less_numeral)

lemma xorshift64_next_inj: "xorshift64_next x = xorshift64_next y \<longleftrightarrow> x = y"
  by (simp only: xorshift64_next_def Let_def xor_push_inj xor_drop_inj zero_less_numeral)

lemma make_seed32_inj: "make_seed32 t i = make_seed32 t' i \<longleftrightarrow> (ucast t :: 32 word) = ucast t'"
  by (simp only: make_seed32_def Let_def xor_drop_inj odd_constants xor_left_inj zero_less_numeral)

lemma make_seed64_inj: "make_seed64 t i = make_seed64 t' i \<longleftrightarrow> t = t'"
  by (simp only: make_seed64_def Let_def xor_drop_inj odd_constants64 xor_left_inj zero_less_numeral)

lemma xorshift_0: "xorshift32_next 0 = 0" "xorshift64_next 0 = 0"
  by (simp_all add: xorshift32_next_def xorshift64_next_def)

text \<open>The generators cannot get stuck.  Whatever counter and thread the seed is made of, no number of
  draws takes a generator of either width to the state 0 in which it would answer 0 for ever; the
  step functions lose no state, and the seeds of one thread differ whenever the counter (its low 32
  bits on a 32-bit build) does.\<close>

lemma generators_never_stuck:
  "(xorshift32_next ^^ n) (xorshift32_make (ucast (make_preferred_seed True t i))) \<noteq> 0 \<and>
   (xorshift64_next ^^ n) (xorshift64_make (make_preferred_seed False t i)) \<noteq> 0 \<and>
   inj xorshift32_next \<and> inj xorshift64_next \<and>
   (make_seed32 t i = make_seed32 t' i \<longleftrightarrow> (ucast t :: 32 word) = ucast t') \<and>
   (make_seed64 t i = make_seed64 t' i \<longleftrightarrow> t = t')"
proof (intro conjI injI)
  have "xorshift32_make s \<noteq> 0" "xorshift64_make s' \<noteq> 0" for s s'
    by (simp_all add: xorshift32_make_def xorshift64_make_def)
  then show "(xorshift32_next ^^ n) (xorshift32_make (ucast (make_preferred_seed True t i))) \<noteq> 0"
    and "(xorshift64_next ^^ n) (xorshift64_make (make_preferred_seed False t i)) \<noteq> 0"
    using iterate_inj [OF xorshift32_next_inj, of n _ 0] iterate_inj [OF xorshift64_next_inj, of n _ 0]
    by (simp_all add: iterate_fix xorshift_0)
qed (simp_all add: xorshift32_next_inj xorshift64_next_inj make_seed32_inj make_seed64_inj)

section \<open>Scaling\<close>

lemma scale_word:
  assumes "unat v * num < 2 ^ 32" "num < 2 ^ 32"
  shows "unat (drop_bit s (v * of_nat num) :: dword) = unat v * num div 2 ^ s"
proof -
  have "unat (v * of_nat num) = unat v * num"
    using assms by (simp add: unat_word_ariths(2) unat_of_nat take_bit_nat_eq_self)
  then show ?thesis by (simp only: unat_drop)
qed

text \<open>The specialised factors as \<open>num / 2 ^ sh\<close>.\<close>

definition scales :: "(f32 \<times> nat \<times> nat) list" where
  "scales = [(0x3F900000, 9, 3), (0x3FA00000, 5, 2), (0x3FB00000, 11, 3), (0x3FC00000, 3, 1),
             (0x3FD00000, 13, 3), (0x3FE00000, 7, 2), (0x3FF00000, 15, 3), (0x40000000, 2, 0),
             (0x40200000, 5, 1), (0x40400000, 3, 0), (0x40600000, 7, 1), (0x40800000, 4, 0)]"

lemma scale_fits:
  assumes "v \<le> M" "M \<le> UINT32_MAX div of_nat num" "0 < num" "num < 2 ^ 32"
  shows "unat v * num < 2 ^ 32"
proof -
  have "unat (of_nat num :: dword) = num" using assms by (simp add: unat_of_nat take_bit_nat_eq_self)
  then have "unat M \<le> 4294967295 div num"
    using assms(2) by (simp add: word_le_nat_alt unat_div)
  with assms(1) have "unat v \<le> 4294967295 div num" by (simp add: word_le_nat_alt)
  then have "unat v * num \<le> 4294967295" using assms(3) by (metis div_times_less_eq_dividend le_trans mult_le_mono1)
  then show ?thesis by simp
qed

lemma in_set_ConsE: "x \<in> set (y # ys) \<Longrightarrow> (x = y \<Longrightarrow> P) \<Longrightarrow> (x \<in> set ys \<Longrightarrow> P) \<Longrightarrow> P"
  by auto

lemma scale_special:
  assumes "(S, num, sh) \<in> set scales" "v \<le> M" "M \<le> UINT32_MAX div of_nat num"
  shows "scale_and_clamp S M v = Some (min (drop_bit sh (v * of_nat num)) M)"
  using assms(1,3) unfolding scales_def
  apply (elim in_set_ConsE)
  apply (simp_all only: prod.inject list.set empty_iff)
  apply (simp_all add: scale_and_clamp_def push_bit_eq_mult)
  done

lemma scales_pos: "(S, num, sh) \<in> set scales \<Longrightarrow> 0 < num \<and> num < 16 \<and> 2 ^ sh \<le> num \<and> f32_val S = of_nat num / 2 ^ sh"
  apply (auto simp: scales_def)
  apply (simp_all add: f32_val_def f32_mag_def f32_sign_def mag_val_def power_int_def power_one_over)
  done

lemma scale_nat:
  assumes "(S, num, sh) \<in> set scales" "v \<le> M" "M \<le> UINT32_MAX div of_nat num"
  obtains r where "scale_and_clamp S M v = Some r" "unat r = min (unat v * num div 2 ^ sh) (unat M)"
proof
  have "0 < num" "num < 2 ^ 32" using scales_pos [OF assms(1)] by simp_all
  then have "unat (drop_bit sh (v * of_nat num) :: dword) = unat v * num div 2 ^ sh"
    using scale_fits [OF assms(2,3)] scale_word by blast
  then show "unat (min (drop_bit sh (v * of_nat num)) M) = min (unat v * num div 2 ^ sh) (unat M)"
    by (simp add: unat_min)
qed (rule scale_special [OF assms])

text \<open>C32: Each specialisation of \<open>scale_and_clamp\<close>, written with a multiplication and a shift of
  \<open>uint32_t\<close>, computes the exact product of a value that is at most \<open>MaxVal\<close> with its \<open>float\<close> factor, rounded
  down and limited to \<open>MaxVal\<close>: under its \<open>requires\<close> clause nothing wraps around for such a value.  The
  program's only caller, \<open>exponential_backoff::next\<close>, passes such values alone; the clause itself does not ask
  for it, and a larger value can wrap (\<open>scaling_wraps\<close>).\<close>

theorem scaling_is_exact:
  assumes "(S, num, sh) \<in> set scales" "v \<le> M" "M \<le> UINT32_MAX div of_nat num"
  shows "\<exists>r. scale_and_clamp S M v = Some r \<and> int (unat r) = min \<lfloor>of_nat (unat v) * f32_val S\<rfloor> (int (unat M))"
proof -
  have val: "f32_val S = of_nat num / 2 ^ sh" using scales_pos [OF assms(1)] by blast
  have "\<lfloor>of_nat (unat v) * f32_val S\<rfloor> = int (unat v * num div 2 ^ sh)"
    unfolding val using floor_divide_of_nat_eq [of "unat v * num" "2 ^ sh", where 'a = rat] by simp
  then show ?thesis using scale_nat [OF assms] by (metis of_nat_min)
qed

lemma scaling_is_exact_witness:
  "\<exists>r. scale_and_clamp 0x3FC00000 10000 1001 = Some r \<and>
     int (unat r) = min \<lfloor>of_nat (unat (1001 :: dword)) * f32_val 0x3FC00000\<rfloor> (int (unat (10000 :: dword)))"
  by (rule scaling_is_exact [of _ 3 1]) (simp_all add: scales_def)

text \<open>Above \<open>MaxVal\<close>: \<open>scale_and_clamp<uint32_t, 0x3FFFFFFF, 4.f>\<close> gives 4 for \<open>0x40000001\<close>.\<close>

lemma scaling_wraps:
  "(0x40800000, 4, 0) \<in> set scales" "(0x3FFFFFFF :: dword) \<le> UINT32_MAX div of_nat 4"
  "scale_and_clamp 0x40800000 0x3FFFFFFF 0x40000001 = Some 4"
  by (simp_all add: scales_def scale_and_clamp_def)

text \<open>The primary template accepts limits for which its conversion to \<open>uint32_t\<close> is undefined, because
  it converts the operand to \<open>float\<close> first; no instance of the program has such a limit.\<close>

lemma expo_31: "2147483648 \<le> x \<Longrightarrow> x < 4294967296 \<Longrightarrow> expo x = 31"
  by (rule expo_unique) (simp_all add: power_int_def)

lemma round_expo_31:
  assumes "2147483648 \<le> x" "x < 4294967296" "\<bar>of_int k - x / 256\<bar> < 1 / 2"
  shows "f32_finite (f32_round False x)" "f32_val (f32_round False x) = of_int k * 256"
proof -
  have "x < two_to 127" by (rule less_trans [OF assms(2)]) (simp add: power_int_def)
  note fin = round_mag_finite [OF this]
  have u: "ulp_exp x = 8" using expo_31 [OF assms(1,2)] by (simp add: ulp_exp_def)
  have t: "two_to 8 = 256" by (simp add: power_int_def)
  have "rne (x / 256) = k" using rne_error [of "x / 256"] assms(3) by linarith
  then have "mag_val (round_mag x) = of_int k * 256"
    using mag_val_round_mag [OF _ fin] assms(1) by (simp add: u t)
  then show "f32_val (f32_round False x) = of_int k * 256" using assms(1) by (simp add: f32_val_round)
  show "f32_finite (f32_round False x)"
    by (rule f32_finite_round) (use assms in \<open>simp add: power_int_def\<close>)
qed

text \<open>The \<open>requires\<close> clause of the primary template, in \<open>double\<close>: the product of a 32-bit integer and a
  \<open>float\<close> is rounded to 53 bits.\<close>

definition dbl_round :: "rat \<Rightarrow> rat" where
  "dbl_round x = of_int (rne (x / two_to (expo x - 52))) * two_to (expo x - 52)"

(* @ app/utility/backoff/exponential.h:8-13 scale_and_clamp *)
definition scale_requires :: "f32 \<Rightarrow> dword \<Rightarrow> bool" where
  "scale_requires Scale MaxVal \<longleftrightarrow>
     1 < f32_val Scale \<and> dbl_round (of_nat (unat MaxVal) * f32_val Scale) \<le> of_nat (unat UINT32_MAX)"

lemma next_float: "f32_val 0x3F800001 = 8388609 / 8388608" "f32_finite 0x3F800001" "\<not> f32_sign 0x3F800001"
  by (simp_all add: f32_val_def f32_finite_def inf_mag_def f32_mag_def f32_sign_def mag_val_def power_int_def power_one_over)

lemma generic_scale_overflows:
  "scale_requires 0x3F800001 4294966783 \<and> scale_and_clamp 0x3F800001 4294966783 4294966783 = None"
proof
  let ?p = "4294966783 * (8388609 / 8388608) :: rat"
  have e: "expo ?p = 31" by (rule expo_31) simp_all
  have t: "two_to (- 21) = 1 / 2097152" by (simp add: power_int_def power_one_over)
  have "?p / (1 / 2097152) \<le> of_int (4294967295 * 2097152)" by simp
  then have "rne (?p / (1 / 2097152)) \<le> 4294967295 * 2097152" by (rule rne_bounds_int)
  then have "of_int (rne (?p / (1 / 2097152))) * (1 / 2097152) \<le> (4294967295 :: rat)" by linarith
  then show "scale_requires 0x3F800001 4294966783"
    unfolding scale_requires_def dbl_round_def next_float using e t by simp
  let ?f = "f32_of_int 4294966783"
  have f: "f32_finite ?f" "f32_val ?f = 4294966784"
    using round_expo_31 [of 4294966783 16777214] by (simp_all add: f32_of_int_def)
  have "f32_val (f32_round s (4294966784 * (8388609 / 8388608))) = 4294967296" for s
    using round_expo_31 [of "4294966784 * (8388609 / 8388608)" 16777216] by (simp add: f32_val_round)
  then have "f32_val (f32_mul ?f 0x3F800001) = 4294967296"
    by (simp add: f32_mul_def f next_float)
  then show "scale_and_clamp 0x3F800001 4294966783 4294966783 = None"
    by (simp add: scale_and_clamp_def f32_to_u32_def rtrunc_def)
qed

section \<open>The delays of a sequence of attempts\<close>

text \<open>\<open>jitter_low\<close> is the least delay a generator may answer for the delay \<open>c\<close>.\<close>

fun jitter_low :: "jitter \<Rightarrow> nat \<Rightarrow> nat" where
  "jitter_low NoJitter c = c"
| "jitter_low (Jitter ratio) c =
     (if ratio = 0x3E800000 then c - c div 4
      else if ratio = 0x3F000000 then c - c div 2
      else if ratio = 0x3F400000 then c div 4
      else 0)"

definition jitter_ok :: "jitter \<Rightarrow> bool" where
  "jitter_ok j \<longleftrightarrow> j \<in> {NoJitter, Jitter 0x3E800000, Jitter 0x3F000000, Jitter 0x3F400000, Jitter 0x3F800000}"

lemma jitter_split_ok:
  assumes "jitter_ok (Jitter ratio)"
  obtains base smax where "jitter_split ratio mx = Some (base, smax)"
    "unat base = jitter_low (Jitter ratio) (unat mx)" "unat base + unat smax = unat mx"
proof -
  have le: "drop_bit k mx \<le> mx" for k
    by (simp only: word_le_nat_alt unat_drop div_le_dividend)
  have un: "unat (mx - drop_bit k mx) = unat mx - unat mx div 2 ^ k" "unat (drop_bit k mx) = unat mx div 2 ^ k" for k
    using le [of k] by (simp_all only: unat_sub unat_drop)
  have half: "unat mx div n \<le> unat mx" for n by simp
  from assms consider "ratio = 0x3E800000" | "ratio = 0x3F000000" | "ratio = 0x3F400000" | "ratio = 0x3F800000"
    by (auto simp: jitter_ok_def)
  then show thesis
  proof cases
    case 1
    show ?thesis by (rule that [of "mx - drop_bit 2 mx" "drop_bit 2 mx"]) (simp_all add: 1 jitter_split_def Let_def un)
  next
    case 2
    show ?thesis by (rule that [of "mx - drop_bit 1 mx" "drop_bit 1 mx"]) (simp_all add: 2 jitter_split_def Let_def un)
  next
    case 3
    show ?thesis by (rule that [of "drop_bit 2 mx" "mx - drop_bit 2 mx"]) (simp_all add: 3 jitter_split_def Let_def un)
  next
    case 4
    show ?thesis by (rule that [of 0 mx]) (simp_all add: 4 jitter_split_def)
  qed
qed

lemma jitter_random_ok:
  assumes "uniform_law uni" "jitter_ok (Jitter ratio)"
  obtains r g' where "jitter_random uni ratio mx g = Some (r, g')"
    "jitter_low (Jitter ratio) (unat mx) \<le> unat r" "r \<le> mx"
proof -
  obtain base smax where s: "jitter_split ratio mx = Some (base, smax)"
    "unat base = jitter_low (Jitter ratio) (unat mx)" "unat base + unat smax = unat mx"
    by (rule jitter_split_ok [OF assms(2)])
  obtain r g' where r: "uni smax g = (r, g')" by fastforce
  then have "r \<le> smax" using assms(1) unfolding uniform_law_def by (metis fst_conv)
  then have le: "unat base + unat r \<le> unat mx" using s(3) by (simp add: word_le_nat_alt)
  then have sum: "unat (base + r) = unat base + unat r"
  proof -
    have "unat mx < 2 ^ LENGTH(32)" by (rule unsigned_less)
    then show ?thesis using le by (simp add: unat_plus_if_size word_size)
  qed
  show thesis
    by (rule that [of "base + r" g']) (use s r le sum in \<open>simp_all add: jitter_random_def word_le_nat_alt\<close>)
qed


definition exp_ok :: "exp_params \<Rightarrow> nat \<Rightarrow> nat \<Rightarrow> bool" where
  "exp_ok p num sh \<longleftrightarrow> (Factor p, num, sh) \<in> set scales \<and> MinDelay p \<le> MaxDelay p \<and>
     MaxDelay p \<le> UINT32_MAX div of_nat num \<and> jitter_ok (JitterGenerator p)"

definition grow :: "nat \<Rightarrow> nat \<Rightarrow> nat \<Rightarrow> nat \<Rightarrow> nat" where
  "grow num sh mx c = min (c * num div 2 ^ sh) mx"

lemma exp_next_ok:
  assumes "uniform_law uni" "exp_ok p num sh" "xb_current b \<le> MaxDelay p"
  obtains d b' where "exp_next uni p b = Some (d, b')"
    "unat (xb_current b') = grow num sh (unat (MaxDelay p)) (unat (xb_current b))"
    "xb_current b' \<le> MaxDelay p"
    "jitter_low (JitterGenerator p) (unat (xb_current b')) \<le> unat d" "d \<le> xb_current b'"
proof -
  have s: "(Factor p, num, sh) \<in> set scales" "MaxDelay p \<le> UINT32_MAX div of_nat num"
    "jitter_ok (JitterGenerator p)" using assms(2) by (simp_all add: exp_ok_def)
  obtain r where r: "scale_and_clamp (Factor p) (MaxDelay p) (xb_current b) = Some r"
    "unat r = grow num sh (unat (MaxDelay p)) (unat (xb_current b))"
    using scale_nat [OF s(1) assms(3) s(2)] by (auto simp: grow_def)
  then have le: "r \<le> MaxDelay p" by (simp add: grow_def word_le_nat_alt)
  show thesis
  proof (cases "JitterGenerator p")
    case NoJitter
    show ?thesis
      by (rule that [of r "b\<lparr>xb_current := r\<rparr>"]) (use r le NoJitter in \<open>simp_all add: exp_next_def min_absorb1\<close>)
  next
    case (Jitter ratio)
    then obtain d g' where d: "jitter_random uni ratio r (xb_rng b) = Some (d, g')"
      "jitter_low (Jitter ratio) (unat r) \<le> unat d" "d \<le> r"
      using jitter_random_ok [OF assms(1)] s(3) by metis
    then have "d \<le> MaxDelay p" using le by simp
    then show ?thesis
      by (intro that [of d "b\<lparr>xb_current := r, xb_rng := g'\<rparr>"])
        (use r le d Jitter in \<open>simp_all add: exp_next_def min_absorb1 del: jitter_low.simps\<close>)
  qed
qed

section \<open>Back-off policies and retry states as interfaces\<close>

text \<open>What the concept \<open>BackoffPolicy\<close> asks for, with the range of the delays: \<open>ok\<close> is an invariant of the
  policy's objects.\<close>

locale backoff_policy =
  fixes reset :: "'b \<Rightarrow> 'b" and current :: "'b \<Rightarrow> dword" and nxt :: "'b \<Rightarrow> (dword \<times> 'b) option"
    and ok :: "'b \<Rightarrow> bool" and hi :: dword
  assumes reset_ok: "ok b \<Longrightarrow> ok (reset b)"
    and current_le: "ok b \<Longrightarrow> current b \<le> hi"
    and next_ok: "ok b \<Longrightarrow> \<exists>d b'. nxt b = Some (d, b') \<and> d \<le> hi \<and> ok b'"

text \<open>The contract of \<open>IRetryState\<close> towards its clients: \<open>left s\<close> more attempts are available.\<close>

locale retry_state =
  fixes R :: "'s IRetryState" and ok :: "'s \<Rightarrow> bool" and left :: "'s \<Rightarrow> nat" and hi :: dword
  assumes available_left: "available R s \<longleftrightarrow> 0 < left s"
    and expired_left: "expired R s \<longleftrightarrow> left s = 0"
    and advance_left: "available R s \<Longrightarrow> left (advanceAttempt R s) = left s - 1"
    and advance_ok: "ok s \<Longrightarrow> ok (advanceAttempt R s)"
    and force_left: "left (forceExpire R s) = 0"
    and force_ok: "ok s \<Longrightarrow> ok (forceExpire R s)"
    and next_delay: "ok s \<Longrightarrow> \<exists>d s'. nextDelay R s = Some (d, s') \<and> d \<le> hi \<and> ok s' \<and> left s' = left s"

definition rs_left :: "dword \<Rightarrow> 'b RetryState \<Rightarrow> nat" where
  "rs_left MaxAttempts s = unat MaxAttempts - unat (rs_attempts s)"

lemma rs_advance_left:
  assumes "rs_attempts s < M"
  shows "rs_left M (rs_advanceAttempt s) = rs_left M s - 1"
proof -
  have "unat (rs_attempts s) < unat M" using assms by (simp add: word_less_nat_alt)
  moreover have "unat M < 2 ^ LENGTH(32)" by (rule unsigned_less)
  ultimately have "unat (rs_attempts s + 1) = unat (rs_attempts s) + 1"
    by (simp add: unat_plus_if_size word_size)
  then show ?thesis by (simp add: rs_defs rs_left_def)
qed

sublocale backoff_policy \<subseteq> retry: retry_state "RetryState_vt M nxt" "\<lambda>s. ok (rs_backoff s)" "rs_left M" hi for M
proof
  fix s :: "'b RetryState"
  assume ok: "ok (rs_backoff s)"
  show "\<exists>d s'. nextDelay (RetryState_vt M nxt) s = Some (d, s') \<and> d \<le> hi \<and> ok (rs_backoff s') \<and> rs_left M s' = rs_left M s"
    using next_ok [OF ok] by (auto simp: RetryState_vt_def rs_defs rs_left_def)
qed (auto simp: RetryState_vt_def rs_defs rs_left_def word_less_nat_alt word_le_nat_alt
    rs_advance_left [unfolded rs_left_def rs_defs, simplified])

interpretation fixed: backoff_policy fixed_reset "fixed_current d" "fixed_next d" "\<lambda>_. True" d for d
  by unfold_locales (simp_all add: fixed_reset_def fixed_current_def fixed_next_def)

definition exp_inv :: "uniform \<Rightarrow> exp_params \<Rightarrow> exponential_backoff \<Rightarrow> bool" where
  "exp_inv uni p b \<longleftrightarrow> uniform_law uni \<and> (\<exists>num sh. exp_ok p num sh) \<and> xb_current b \<le> MaxDelay p"

interpretation exponential: backoff_policy "exp_reset p" exp_current "exp_next uni p" "exp_inv uni p" "MaxDelay p"
  for p uni
proof
  fix b assume inv: "exp_inv uni p b"
  then obtain num sh where ok: "uniform_law uni" "exp_ok p num sh" "xb_current b \<le> MaxDelay p"
    by (auto simp: exp_inv_def)
  then show "exp_inv uni p (exp_reset p b)" "exp_current b \<le> MaxDelay p"
    by (auto simp: exp_inv_def exp_reset_def exp_current_def exp_ok_def)
  show "\<exists>d b'. exp_next uni p b = Some (d, b') \<and> d \<le> MaxDelay p \<and> exp_inv uni p b'"
    using exp_next_ok [OF ok] ok unfolding exp_inv_def by (metis order_trans)
qed

section \<open>The sequence of delays\<close>

fun exp_run :: "uniform \<Rightarrow> exp_params \<Rightarrow> nat \<Rightarrow> exponential_backoff \<Rightarrow> (dword list \<times> exponential_backoff) option" where
  "exp_run uni p 0 b = Some ([], b)"
| "exp_run uni p (Suc n) b =
     (case exp_next uni p b of
        None \<Rightarrow> None
      | Some (d, b') \<Rightarrow> map_option (\<lambda>(ds, b''). (d # ds, b'')) (exp_run uni p n b'))"

lemma exp_run_ok:
  assumes "uniform_law uni" "exp_ok p num sh" "xb_current b \<le> MaxDelay p"
  shows "\<exists>ds b'. exp_run uni p n b = Some (ds, b') \<and> length ds = n \<and>
    (\<forall>i<n. let c = (grow num sh (unat (MaxDelay p)) ^^ Suc i) (unat (xb_current b))
            in jitter_low (JitterGenerator p) c \<le> unat (ds ! i) \<and> unat (ds ! i) \<le> c)"
  using assms(3)
proof (induction n arbitrary: b)
  case (Suc n)
  let ?g = "grow num sh (unat (MaxDelay p))"
  obtain d b1 where n: "exp_next uni p b = Some (d, b1)" "unat (xb_current b1) = ?g (unat (xb_current b))"
    "xb_current b1 \<le> MaxDelay p" "jitter_low (JitterGenerator p) (unat (xb_current b1)) \<le> unat d"
    "d \<le> xb_current b1" by (rule exp_next_ok [OF assms(1,2) Suc.prems])
  obtain ds b' where r: "exp_run uni p n b1 = Some (ds, b')" "length ds = n"
    "\<forall>i<n. let c = (?g ^^ Suc i) (unat (xb_current b1))
            in jitter_low (JitterGenerator p) c \<le> unat (ds ! i) \<and> unat (ds ! i) \<le> c"
    using Suc.IH [OF n(3)] by blast
  have "let c = (?g ^^ Suc i) (unat (xb_current b))
        in jitter_low (JitterGenerator p) c \<le> unat ((d # ds) ! i) \<and> unat ((d # ds) ! i) \<le> c"
    if "i < Suc n" for i
  proof (cases i)
    case 0
    then show ?thesis using n(2,4,5) by (simp add: word_le_nat_alt)
  next
    case (Suc j)
    then show ?thesis using r(3) that n(2) by (simp add: funpow_swap1)
  qed
  then show ?case using n(1) r(1,2) by auto
qed simp

lemma doubling:
  assumes "c \<le> mx"
  shows "(grow 2 0 mx ^^ n) c = min (c * 2 ^ n) mx"
  by (induction n) (use assms in \<open>auto simp: grow_def min_def\<close>)

text \<open>C31: The delays between attempts.  For an exponential back-off with factor 2 whose limit fits,
  the \<open>i\<close>-th delay (from 0) is computed without wrap-around and lies between
  \<open>jitter_low c\<close> and \<open>c\<close>, where \<open>c\<close> is the smaller of \<open>MinDelay * 2 ^ (i + 1)\<close> and \<open>MaxDelay\<close>; without
  jitter it is exactly \<open>c\<close>, with equal jitter at least half of it.\<close>

theorem delays_double:
  assumes "uniform_law uni" "Factor p = 0x40000000" "MinDelay p \<le> MaxDelay p"
    and "MaxDelay p \<le> UINT32_MAX div 2" "jitter_ok (JitterGenerator p)"
  shows "\<exists>ds b. exp_run uni p n (exp_make p g) = Some (ds, b) \<and> length ds = n \<and>
    (\<forall>i<n. let c = min (unat (MinDelay p) * 2 ^ Suc i) (unat (MaxDelay p))
            in jitter_low (JitterGenerator p) c \<le> unat (ds ! i) \<and> unat (ds ! i) \<le> c)"
proof -
  have ok: "exp_ok p 2 0" using assms by (simp add: exp_ok_def scales_def)
  have mk: "xb_current (exp_make p g) = MinDelay p" by (simp add: exp_make_def)
  have le: "unat (MinDelay p) \<le> unat (MaxDelay p)" using assms(3) by (simp add: word_le_nat_alt)
  show ?thesis
    using exp_run_ok [OF assms(1) ok, of "exp_make p g" n] assms(3)
    unfolding mk doubling [OF le] by blast
qed

lemma delays_double_witness:
  "\<exists>ds b. exp_run (\<lambda>smax g. (smax div 3, g))
       \<lparr>MinDelay = 1000, MaxDelay = 10000, Factor = 0x40000000, JitterGenerator = Jitter 0x3F000000\<rparr> 5
       (exp_make \<lparr>MinDelay = 1000, MaxDelay = 10000, Factor = 0x40000000, JitterGenerator = Jitter 0x3F000000\<rparr>
          (Xorshift64 88172645463325252)) = Some (ds, b) \<and>
     length ds = 5 \<and> 1000 \<le> unat (ds ! 0) \<and> unat (ds ! 0) \<le> 2000 \<and> 5000 \<le> unat (ds ! 4) \<and> unat (ds ! 4) \<le> 10000"
proof -
  let ?p = "\<lparr>MinDelay = 1000, MaxDelay = 10000, Factor = 0x40000000, JitterGenerator = Jitter 0x3F000000\<rparr>"
  have law: "uniform_law (\<lambda>smax g. (smax div 3, g))"
    by (simp add: uniform_law_def word_le_nat_alt unat_div)
  have ok: "Factor ?p = 0x40000000" "MinDelay ?p \<le> MaxDelay ?p" "MaxDelay ?p \<le> UINT32_MAX div 2"
    "jitter_ok (JitterGenerator ?p)"
    by (simp_all add: jitter_ok_def)
  obtain ds b where r: "exp_run (\<lambda>smax g. (smax div 3, g)) ?p 5 (exp_make ?p (Xorshift64 88172645463325252)) = Some (ds, b)"
    "length ds = 5"
    "\<forall>i<5. let c = min (unat (MinDelay ?p) * 2 ^ Suc i) (unat (MaxDelay ?p))
            in jitter_low (JitterGenerator ?p) c \<le> unat (ds ! i) \<and> unat (ds ! i) \<le> c"
    using delays_double [OF law, of ?p 5 "Xorshift64 88172645463325252"] ok by blast
  show ?thesis using r(1,2) r(3) [rule_format, of 0] r(3) [rule_format, of 4] by simp
qed

end
