(* ===== verification/Threads.thy ===== *)
theory Threads
  imports Utility Logging WinString
begin

text \<open>
  \<open>win32/ThreadContext.h\<close>, \<open>win32/MessageLoopThreadController\<close> and its two users: the worker threads
  that own the event hook and the message window.  The calls into Win32 and the C runtime act on a
  world \<open>'w\<close>; a handle of \<open>None\<close> is \<open>INVALID_HANDLE_VALUE\<close>.  A call ends in one of the outcomes of
  \<open>outcome\<close>: the process may be ended by \<open>utility::fastfail\<close>, and a wait for a notification
  may never end.  The locks serialise the operations, so each is one step of the controller's state
  machine; the worker's part is modelled up to its first notification and from the end of its message
  loop, and what happens in between is the world's.
\<close>

datatype 'a outcome = Returned 'a | FastFailed | Blocked | Undefined

fun obind :: "'a outcome \<Rightarrow> ('a \<Rightarrow> 'b outcome) \<Rightarrow> 'b outcome" where
  "obind (Returned x) f = f x"
| "obind FastFailed f = FastFailed"
| "obind Blocked f = Blocked"
| "obind Undefined f = Undefined"

lemma obind_Returned: "obind m f = Returned y \<longleftrightarrow> (\<exists>x. m = Returned x \<and> f x = Returned y)"
  by (cases m) auto

record 'w thread_api = sys +
  begin_thread :: "'w \<Rightarrow> handle \<times> dword \<times> dword \<times> int \<times> 'w"
  wait_object :: "handle \<Rightarrow> dword \<Rightarrow> 'w \<Rightarrow> dword \<times> dword \<times> 'w"
  current_thread :: "'w \<Rightarrow> dword"
  exit_code_thread :: "handle \<Rightarrow> 'w \<Rightarrow> bool \<times> dword \<times> dword"
  close_thread :: "handle \<Rightarrow> 'w \<Rightarrow> bool \<times> dword \<times> 'w"
  post_thread_quit :: "dword \<Rightarrow> 'w \<Rightarrow> bool \<times> dword \<times> 'w"
  post_close :: "handle \<Rightarrow> 'w \<Rightarrow> bool \<times> dword \<times> 'w"
  set_event_hook :: "dword \<Rightarrow> dword \<Rightarrow> 'w \<Rightarrow> handle \<times> dword \<times> 'w"
  unhook_event :: "handle \<Rightarrow> 'w \<Rightarrow> bool \<times> dword \<times> 'w"
  register_class :: "wstr \<Rightarrow> 'w \<Rightarrow> bool \<times> dword \<times> 'w"
  unregister_class :: "wstr \<Rightarrow> 'w \<Rightarrow> bool \<times> dword \<times> 'w"
  create_window :: "wstr \<Rightarrow> dword \<Rightarrow> dword \<Rightarrow> handle \<Rightarrow> 'w \<Rightarrow> handle \<times> dword \<times> 'w"
  module_handle :: "'w \<Rightarrow> handle \<times> dword"
  new_ok :: "'w \<Rightarrow> bool"
  tsc :: "'w \<Rightarrow> 64 word"
  now_of :: "'w \<Rightarrow> nat"
  arch32 :: bool
  uniform_of :: uniform

abbreviation (input) WAIT_OBJECT_0 :: dword where "WAIT_OBJECT_0 \<equiv> 0"
abbreviation (input) WAIT_TIMEOUT :: dword where "WAIT_TIMEOUT \<equiv> 258"
abbreviation (input) EXIT_FAILURE :: dword where "EXIT_FAILURE \<equiv> 1"

section \<open>Retry states and factories of the program\<close>

text \<open>The instances of \<open>RetryStateFactory\<close> and \<open>RetryState\<close>: the template arguments come first.\<close>

datatype retry_factory =
    FixedFactory dword dword
  | ExpFactory dword exp_params exponential_backoff

datatype retry_obj =
    FixedRetry dword dword "unit RetryState"
  | ExpRetry dword exp_params "exponential_backoff RetryState"

(* @ app/utility/RetryState.inl:72-74 RetryStateFactory::make *)
fun factory_make :: "retry_factory \<Rightarrow> retry_obj" where
  "factory_make (FixedFactory M d) = FixedRetry M d (rs_make ())"
| "factory_make (ExpFactory M p b) = ExpRetry M p (rs_make b)"

text \<open>The virtual calls, dispatched on the dynamic type.\<close>

fun retry_map :: "(dword \<Rightarrow> unit RetryState \<Rightarrow> unit RetryState) \<Rightarrow>
    (dword \<Rightarrow> exponential_backoff RetryState \<Rightarrow> exponential_backoff RetryState) \<Rightarrow> retry_obj \<Rightarrow> retry_obj" where
  "retry_map f g (FixedRetry M d s) = FixedRetry M d (f M s)"
| "retry_map f g (ExpRetry M p s) = ExpRetry M p (g M s)"

fun retry_available :: "retry_obj \<Rightarrow> bool" where
  "retry_available (FixedRetry M d s) = rs_available M s"
| "retry_available (ExpRetry M p s) = rs_available M s"

fun retry_expired :: "retry_obj \<Rightarrow> bool" where
  "retry_expired (FixedRetry M d s) = rs_expired M s"
| "retry_expired (ExpRetry M p s) = rs_expired M s"

fun retry_nextDelay :: "uniform \<Rightarrow> retry_obj \<Rightarrow> (dword \<times> retry_obj) option" where
  "retry_nextDelay uni (FixedRetry M d s) =
     map_option (\<lambda>(t, s'). (t, FixedRetry M d s')) (rs_nextDelay (fixed_next d) s)"
| "retry_nextDelay uni (ExpRetry M p s) =
     map_option (\<lambda>(t, s'). (t, ExpRetry M p s')) (rs_nextDelay (exp_next uni p) s)"

definition retry_vt :: "uniform \<Rightarrow> retry_obj IRetryState" where
  "retry_vt uni =
     \<lparr>advanceAttempt = retry_map (\<lambda>M. rs_advanceAttempt) (\<lambda>M. rs_advanceAttempt),
      available = retry_available, expired = retry_expired,
      forceExpire = retry_map rs_forceExpire rs_forceExpire,
      nextDelay = retry_nextDelay uni\<rparr>"

fun retry_left :: "retry_obj \<Rightarrow> nat" where
  "retry_left (FixedRetry M d s) = rs_left M s"
| "retry_left (ExpRetry M p s) = rs_left M s"

lemma retry_vt_simps [simp]:
  "available (retry_vt uni) s \<longleftrightarrow> 0 < retry_left s"
  "expired (retry_vt uni) s \<longleftrightarrow> retry_left s = 0"
  "retry_left (forceExpire (retry_vt uni) s) = 0"
  by (cases s; simp add: retry_vt_def rs_defs rs_left_def word_less_nat_alt word_le_nat_alt)+

lemma retry_vt_advance:
  "0 < retry_left s \<Longrightarrow> retry_left (advanceAttempt (retry_vt uni) s) = retry_left s - 1"
  by (cases s) (simp_all add: retry_vt_def rs_left_def rs_advance_left [unfolded rs_left_def] word_less_nat_alt)

lemma retry_vt_next_left:
  "nextDelay (retry_vt uni) s = Some (d, s') \<Longrightarrow> retry_left s' = retry_left s"
  by (cases s) (auto simp: retry_vt_def rs_left_def rs_nextDelay_def)

section \<open>win32/ThreadContext.h\<close>

text \<open>The atomic \<open>hr_\<close> starts as \<open>E_PENDING\<close>; \<open>wait_and_load\<close> returns the first value other than that.\<close>

(* @ app/win32/ThreadContext.h:9-11 ThreadContext::ThreadContext *)
definition ctx_initial :: hresult where "ctx_initial = E_PENDING"

(* @ app/win32/ThreadContext.h:13-16 ThreadContext::notify *)
definition ctx_notify :: "hresult \<Rightarrow> hresult \<Rightarrow> hresult" where
  "ctx_notify hr ctx = hr"

(* @ app/win32/ThreadContext.h:18-23 ThreadContext::notifyLastError *)
definition ctx_notifyLastError :: "'a sys_scheme \<Rightarrow> dword \<Rightarrow> hresult \<Rightarrow> hresult \<times> dword" where
  "ctx_notifyLastError A err ctx = (ctx_notify (LastErrorAsHResult A err) ctx, EXIT_FAILURE)"

(* @ app/win32/ThreadContext.h:25-32 ThreadContext::wait_and_load *)
definition ctx_wait_and_load :: "hresult \<Rightarrow> hresult outcome" where
  "ctx_wait_and_load ctx = (if ctx = E_PENDING then Blocked else Returned ctx)"

section \<open>win32/MessageLoopThreadController\<close>

(* @ app/win32/MessageLoopThreadController.h:9-12 ThreadStopFailurePolicy *)
datatype ThreadStopFailurePolicy = kReturnTimeout | kFailFast

(* @ app/win32/MessageLoopThreadController.h:19-23 MessageLoopThreadController::State *)
datatype ThreadState = kReady | kRunning | kStopping

(* @ app/win32/MessageLoopThreadController.h:88-94 MessageLoopThreadController *)
record MessageLoopThreadController =
  ct_hthread :: "handle option"
  ct_thread_id :: dword
  ct_retry_factory :: retry_factory
  ct_logger :: "Logger option"
  ct_state :: ThreadState
  ct_policy :: ThreadStopFailurePolicy

(* @ app/win32/MessageLoopThreadController.cc:34-44 MessageLoopThreadController::MessageLoopThreadController *)
definition makeController :: "ThreadStopFailurePolicy \<Rightarrow> retry_factory \<Rightarrow> MessageLoopThreadController" where
  "makeController stop_failure_policy factory =
     \<lparr>ct_hthread = None, ct_thread_id = 0, ct_retry_factory = factory, ct_logger = None,
      ct_state = kReady, ct_policy = stop_failure_policy\<rparr>"

text \<open>The default factory of the other constructors.\<close>

(* @ app/win32/MessageLoopThreadController.cc:46-58 MessageLoopThreadController::MessageLoopThreadController *)
definition default_factory :: retry_factory where
  "default_factory = FixedFactory 1 1000"

definition ct_note ::
  "(nat \<Rightarrow> LogGroup \<Rightarrow> wstr \<Rightarrow> hresult \<Rightarrow> Logger option \<Rightarrow> Logger option) \<Rightarrow> ('w, 'a) thread_api_scheme \<Rightarrow> 'w \<Rightarrow>
   string \<Rightarrow> hresult \<Rightarrow> 'c MessageLoopThreadController_scheme \<Rightarrow> 'c MessageLoopThreadController_scheme" where
  "ct_note level A w msg hr c = c\<lparr>ct_logger := level (now_of A w) GroupWin32 (widen msg) hr (ct_logger c)\<rparr>"

(* @ app/win32/MessageLoopThreadController.cc:60-71 MessageLoopThreadController::~MessageLoopThreadController *)
definition controller_destroy :: "'c MessageLoopThreadController_scheme \<Rightarrow> unit outcome" where
  "controller_destroy c = (if ct_hthread c = None then Returned () else FastFailed)"

text \<open>\<open>_doserrno\<close> and \<open>errno\<close> have been cleared before the call.\<close>

definition EACCES :: int where "EACCES = 13"
definition EAGAIN :: int where "EAGAIN = 11"
definition EINVAL :: int where "EINVAL = 22"

(* @ app/win32/MessageLoopThreadController.cc:102-121 MessageLoopThreadController::start *)
definition begin_status :: "dword \<Rightarrow> int \<Rightarrow> dword" where
  "begin_status doserrno errno =
     (if doserrno = ERROR_SUCCESS then
        (if errno = EINVAL then ERROR_INVALID_PARAMETER
         else if errno = EAGAIN then ERROR_TOO_MANY_THREADS
         else if errno = EACCES then ERROR_ACCESS_DENIED
         else ERROR_FUNCTION_FAILED)
      else doserrno)"

(* @ app/win32/MessageLoopThreadController.cc:73-131 MessageLoopThreadController::start *)
definition controller_start ::
  "('w, 'a) thread_api_scheme \<Rightarrow> bool \<Rightarrow> 'c MessageLoopThreadController_scheme \<Rightarrow> 'w \<Rightarrow>
   hresult \<times> 'c MessageLoopThreadController_scheme \<times> 'w" where
  "controller_start A proc_null c w =
     (if proc_null then (E_INVALIDARG, c, w)
      else if ct_state c \<noteq> kReady then (kErrorInvalidOperation A, c, w)
      else if ct_hthread c \<noteq> None then (kErrorInvalidOperation A, c, w)
      else
        let (raw_thread, thread_id, doserrno, errno, w1) = begin_thread A w in
        if raw_thread = 0 then (HResultFromWin32 A (begin_status doserrno errno), c, w1)
        else (S_OK, c\<lparr>ct_hthread := Some raw_thread, ct_thread_id := thread_id, ct_state := kRunning\<rparr>, w1))"

(* @ app/win32/MessageLoopThreadController.cc:249-272 MessageLoopThreadController::reapThread *)
definition reapThread ::
  "('w, 'a) thread_api_scheme \<Rightarrow> handle \<Rightarrow> 'c MessageLoopThreadController_scheme \<Rightarrow> 'w \<Rightarrow>
   hresult \<times> 'c MessageLoopThreadController_scheme \<times> 'w" where
  "reapThread A hthread c w =
     (let (rc, exit_code, err) = exit_code_thread A hthread w;
          hr = (if \<not> rc then LastErrorAsHResult A err else exit_code);
          (rc2, err2, w1) = close_thread A hthread w
      in if \<not> rc2 then (LastErrorAsHResult A err2, c, w1)
         else (hr, c\<lparr>ct_hthread := None, ct_thread_id := 0, ct_state := kReady\<rparr>, w1))"

(* @ app/win32/MessageLoopThreadController.cc:11-11 kStartFailureReapTimeoutMs *)
definition kStartFailureReapTimeoutMs :: dword where "kStartFailureReapTimeoutMs = 1000"

(* @ app/win32/MessageLoopThreadController.cc:133-161 MessageLoopThreadController::reapThreadAfterStartFailure *)
definition reapThreadAfterStartFailure ::
  "('w, 'a) thread_api_scheme \<Rightarrow> handle \<Rightarrow> 'c MessageLoopThreadController_scheme \<Rightarrow> 'w \<Rightarrow>
   (hresult \<times> 'c MessageLoopThreadController_scheme \<times> 'w) outcome" where
  "reapThreadAfterStartFailure A hthread c w =
     (let c1 = c\<lparr>ct_state := kStopping\<rparr>;
          (wait_status, err, w1) = wait_object A hthread kStartFailureReapTimeoutMs w
      in if wait_status \<noteq> WAIT_OBJECT_0 then
           let (hr, c2) =
             (if wait_status = WAIT_TIMEOUT
              then (kErrorTimeout A,
                    ct_note log_error A w1 ''The wait for the thread to exit timed out.'' (kErrorTimeout A) c1)
              else (LastErrorAsHResult A err,
                    ct_note log_error A w1 ''Failed to wait for the thread to exit.'' (LastErrorAsHResult A err) c1))
           in if ct_policy c = kFailFast then FastFailed else Returned (hr, c2, w1)
         else Returned (reapThread A hthread c1 w1))"

(* @ app/win32/MessageLoopThreadController.cc:163-173 MessageLoopThreadController::validateThreadAccess *)
definition validateThreadAccess ::
  "('w, 'a) thread_api_scheme \<Rightarrow> 'c MessageLoopThreadController_scheme \<Rightarrow> 'w \<Rightarrow> hresult" where
  "validateThreadAccess A c w =
     HResultFromWin32 A
       (if ct_hthread c = None then ERROR_INVALID_OPERATION
        else if current_thread A w = ct_thread_id c then ERROR_POSSIBLE_DEADLOCK
        else ERROR_SUCCESS)"

text \<open>One pass of the loop of \<open>stopThread\<close>: \<open>post\<close> is the virtual \<open>postStopMessage\<close> on its target.  The
  first component of the result tells whether the pass ended without a \<open>break\<close>.\<close>

(* @ app/win32/MessageLoopThreadController.cc:189-235 MessageLoopThreadController::stopThread *)
definition stop_attempt ::
  "('w, 'a) thread_api_scheme \<Rightarrow> ('w \<Rightarrow> bool \<times> dword \<times> 'w) \<Rightarrow> handle \<Rightarrow>
   retry_obj \<times> 'c MessageLoopThreadController_scheme \<times> 'w \<Rightarrow>
   (bool \<times> hresult \<times> retry_obj \<times> 'c MessageLoopThreadController_scheme \<times> 'w) option" where
  "stop_attempt A post hthread = (\<lambda>(retry, c, w).
     let R = retry_vt (uniform_of A);
         (rc, lasterr, w1) = post w;
         retryable = (rc \<or> lasterr = ERROR_NOT_ENOUGH_QUOTA);
         (hr, c1) =
           (if rc then (S_OK, c)
            else if lasterr = ERROR_NOT_ENOUGH_QUOTA then
              (kErrorNotEnoughQuota A,
               ct_note log_notice A w1 ''Failed to post a stop message to the thread. Not enough quota is available.''
                 (kErrorNotEnoughQuota A) c)
            else (HResultFromWin32 A lasterr,
                  ct_note log_error A w1 ''Failed to post a stop message to the thread.'' (HResultFromWin32 A lasterr) c))
     in case (if retryable then nextDelay R retry else Some (0, retry)) of
          None \<Rightarrow> None
        | Some (delay, retry1) \<Rightarrow>
            let (wait_status, err, w2) = wait_object A hthread delay w1 in
            if wait_status = WAIT_OBJECT_0 then Some (False, S_OK, retry1, c1, w2)
            else
              let (wait_hr, c2) =
                (if wait_status = WAIT_TIMEOUT
                 then (kErrorTimeout A,
                       ct_note log_error A w2 ''The wait for the thread to exit timed out.'' (kErrorTimeout A) c1)
                 else (LastErrorAsHResult A err,
                       ct_note log_error A w2 ''Failed to wait for the thread to exit.'' (LastErrorAsHResult A err) c1));
                  hr2 = (if hr = S_OK then wait_hr else hr)
              in if retryable then Some (True, hr2, advanceAttempt R retry1, c2, w2)
                 else Some (False, hr2, forceExpire R retry1, c2, w2))"

text \<open>The loop after a pass: \<open>None\<close> is the undefined conversion of a back-off with invalid parameters.\<close>

(* @ app/win32/MessageLoopThreadController.cc:188-235 MessageLoopThreadController::stopThread *)
function stop_loop ::
  "('w, 'a) thread_api_scheme \<Rightarrow> ('w \<Rightarrow> bool \<times> dword \<times> 'w) \<Rightarrow> handle \<Rightarrow>
   hresult \<Rightarrow> retry_obj \<Rightarrow> 'c MessageLoopThreadController_scheme \<Rightarrow> 'w \<Rightarrow>
   (hresult \<times> retry_obj \<times> 'c MessageLoopThreadController_scheme \<times> 'w) option" where
  "stop_loop A post hthread hr retry c w =
     (if \<not> available (retry_vt (uniform_of A)) retry then Some (hr, retry, c, w)
      else case stop_attempt A post hthread (retry, c, w) of
             None \<Rightarrow> None
           | Some (True, hr1, retry1, c1, w1) \<Rightarrow> stop_loop A post hthread hr1 retry1 c1 w1
           | Some (False, hr1, retry1, c1, w1) \<Rightarrow> Some (hr1, retry1, c1, w1))"
  by pat_completeness auto

lemma stop_attempt_left:
  "stop_attempt A post h (retry, c, w) = Some (True, hr, retry', c', w') \<Longrightarrow> 0 < retry_left retry \<Longrightarrow>
   retry_left retry' = retry_left retry - 1"
  by (auto simp: stop_attempt_def Let_def retry_vt_advance dest!: retry_vt_next_left
      split: prod.splits if_splits option.splits)

termination stop_loop
  by (relation "measure (\<lambda>(A, post, h, hr, retry, c, w). retry_left retry)")
    (auto dest: stop_attempt_left)

declare stop_loop.simps [simp del]

(* @ app/win32/MessageLoopThreadController.cc:175-247 MessageLoopThreadController::stopThread *)
definition stopThread ::
  "('w, 'a) thread_api_scheme \<Rightarrow> ('w \<Rightarrow> bool \<times> dword \<times> 'w) \<Rightarrow> handle \<Rightarrow>
   'c MessageLoopThreadController_scheme \<Rightarrow> 'w \<Rightarrow> (hresult \<times> 'c MessageLoopThreadController_scheme \<times> 'w) outcome" where
  "stopThread A post hthread c w =
     (if \<not> new_ok A w then FastFailed
      else
        let retry = factory_make (ct_retry_factory c) in
        case (case stop_attempt A post hthread (retry, c, w) of
                None \<Rightarrow> None
              | Some (True, hr1, retry1, c1, w1) \<Rightarrow> stop_loop A post hthread hr1 retry1 c1 w1
              | Some (False, hr1, retry1, c1, w1) \<Rightarrow> Some (hr1, retry1, c1, w1)) of
          None \<Rightarrow> Undefined
        | Some (hr, retry', c', w') \<Rightarrow>
            if expired (retry_vt (uniform_of A)) retry' then
              (if ct_policy c' = kFailFast then FastFailed else Returned (hr, c', w'))
            else Returned (reapThread A hthread c' w'))"

section \<open>win32/WinEventHookController\<close>

text \<open>\<open>GetMessageW\<close> answers with the elements of a list; the loop ends at the first answer that is not
  positive and is still running when the list ends.\<close>

(* @ app/win32/WinEventHookController.cc:50-53 WinEventHookWorker *)
fun message_loop :: "('m \<Rightarrow> 'w \<Rightarrow> 'w) \<Rightarrow> (int \<times> 'm \<times> dword) list \<Rightarrow> 'w \<Rightarrow> (int \<times> 'm \<times> dword \<times> 'w) option" where
  "message_loop dispatch [] w = None"
| "message_loop dispatch ((rc, msg, err) # answers) w =
     (if rc > 0 then message_loop dispatch answers (dispatch msg w) else Some (rc, msg, err, w))"

text \<open>Up to its notification the worker ends with an exit code (\<open>Inl\<close>) or owns a hook (\<open>Inr\<close>).\<close>

(* @ app/win32/WinEventHookController.cc:32-45 WinEventHookWorker *)
definition hook_prologue ::
  "('w, 'a) thread_api_scheme \<Rightarrow> dword \<Rightarrow> dword \<Rightarrow> hresult \<Rightarrow> 'w \<Rightarrow> hresult \<times> (dword + handle) \<times> 'w" where
  "hook_prologue A event_min event_max ctx w =
     (let (hook, err, w1) = set_event_hook A event_min event_max w in
      if hook = 0 then let (ctx', code) = ctx_notifyLastError A err ctx in (ctx', Inl code, w1)
      else (ctx_notify S_OK ctx, Inr hook, w1))"

(* @ app/win32/WinEventHookController.cc:54-64 WinEventHookWorker *)
definition hook_epilogue :: "('w, 'a) thread_api_scheme \<Rightarrow> handle \<Rightarrow> int \<Rightarrow> dword \<Rightarrow> 'w \<Rightarrow> dword \<times> 'w" where
  "hook_epilogue A hook rc err w =
     (let hr = (if rc = -1 then LastErrorAsHResult A err else S_OK);
          (rc2, _, w1) = unhook_event A hook w
      in (if \<not> rc2 \<and> hr = S_OK then E_FAIL else hr, w1))"

(* @ app/win32/WinEventHookController.cc:32-65 WinEventHookWorker *)
definition WinEventHookWorker ::
  "('w, 'a) thread_api_scheme \<Rightarrow> dword \<Rightarrow> dword \<Rightarrow> ('m \<Rightarrow> 'w \<Rightarrow> 'w) \<Rightarrow> (int \<times> 'm \<times> dword) list \<Rightarrow> 'w \<Rightarrow>
   hresult \<times> dword option \<times> 'w" where
  "WinEventHookWorker A event_min event_max dispatch answers w =
     (case hook_prologue A event_min event_max ctx_initial w of
        (ctx, Inl code, w1) \<Rightarrow> (ctx, Some code, w1)
      | (ctx, Inr hook, w1) \<Rightarrow>
          (case message_loop dispatch answers w1 of
             None \<Rightarrow> (ctx, None, w1)
           | Some (rc, msg, err, w2) \<Rightarrow>
               let (code, w3) = hook_epilogue A hook rc err w2 in (ctx, Some code, w3)))"

(* @ app/win32/WinEventHookController.cc:19-23 WinEventHookExitBackoff *)
definition WinEventHookExitBackoff :: exp_params where
  "WinEventHookExitBackoff =
     \<lparr>MinDelay = 1000, MaxDelay = 10000, Factor = 0x40000000, JitterGenerator = Jitter 0x3F000000\<rparr>"

(* @ app/win32/WinEventHookController.cc:98-109 WinEventHookController::start *)
definition exit_factory :: "('w, 'a) thread_api_scheme \<Rightarrow> dword \<Rightarrow> 'w \<Rightarrow> retry_factory" where
  "exit_factory A thread_id w =
     (let seed = make_preferred_seed (arch32 A) (tsc A w) thread_id in
      ExpFactory 5 WinEventHookExitBackoff (exp_make WinEventHookExitBackoff (preferred_rng (arch32 A) seed)))"

(* @ app/win32/WinEventHookController.cc:71-73 WinEventHookController::WinEventHookController *)
definition makeWinEventHookController :: MessageLoopThreadController where
  "makeWinEventHookController = makeController kFailFast default_factory"

(* @ app/win32/WinEventHookController.cc:75-116 WinEventHookController::start *)
definition hook_start ::
  "('w, 'a) thread_api_scheme \<Rightarrow> dword \<Rightarrow> dword \<Rightarrow> 'c MessageLoopThreadController_scheme \<Rightarrow> 'w \<Rightarrow>
   (hresult \<times> 'c MessageLoopThreadController_scheme \<times> 'w) outcome" where
  "hook_start A event_min event_max c w =
     (let (hr, c1, w1) = controller_start A False c w in
      if FAILED hr then Returned (hr, c1, w1)
      else
        let (ctx, _, w2) = hook_prologue A event_min event_max ctx_initial w1 in
        obind (ctx_wait_and_load ctx) (\<lambda>hr.
          if hr \<noteq> S_OK then
            obind (reapThreadAfterStartFailure A (the (ct_hthread c1)) c1 w2) (\<lambda>(_, c2, w3). Returned (hr, c2, w3))
          else if \<not> new_ok A w2 then FastFailed
          else Returned (hr, c1\<lparr>ct_retry_factory := exit_factory A (ct_thread_id c1) w2\<rparr>, w2)))"

(* @ app/win32/WinEventHookController.cc:118-138 WinEventHookController::stop *)
definition hook_stop ::
  "('w, 'a) thread_api_scheme \<Rightarrow> 'c MessageLoopThreadController_scheme \<Rightarrow> 'w \<Rightarrow>
   (hresult \<times> 'c MessageLoopThreadController_scheme \<times> 'w) outcome" where
  "hook_stop A c w =
     (if ct_state c \<noteq> kRunning \<and> ct_state c \<noteq> kStopping then Returned (kErrorInvalidOperation A, c, w)
      else if FAILED (validateThreadAccess A c w) then Returned (validateThreadAccess A c w, c, w)
      else stopThread A (post_thread_quit A (ct_thread_id c)) (the (ct_hthread c)) (c\<lparr>ct_state := kStopping\<rparr>) w)"

section \<open>win32/WindowController\<close>

(* @ app/win32/WindowController.h:8-12 WindowStartParams *)
record WindowStartParams =
  class_name :: wstr
  parent_hwnd :: handle
  window_exstyle :: dword
  window_style :: dword

(* @ app/win32/WindowController.h:38-38 WindowController *)
record WindowController = MessageLoopThreadController +
  wc_hwnd :: handle

(* @ app/win32/WindowController.cc:138-144 WindowController::WindowController *)
definition makeWindowController :: WindowController where
  "makeWindowController = MessageLoopThreadController.extend (makeController kFailFast default_factory) \<lparr>wc_hwnd = 0\<rparr>"

text \<open>\<open>hinstance_\<close> is a static member, passed and returned.\<close>

(* @ app/win32/WindowController.cc:146-159 WindowController::initialize *)
definition window_controller_initialize :: "('w, 'a) thread_api_scheme \<Rightarrow> handle \<Rightarrow> 'w \<Rightarrow> hresult \<times> handle" where
  "window_controller_initialize A hinstance w =
     (if hinstance \<noteq> 0 then (S_OK, hinstance)
      else let (h, err) = module_handle A w in
        if h = 0 then (LastErrorAsHResult A err, 0) else (S_OK, h))"

text \<open>The prologue also answers the value stored in \<open>atomic_hwnd\<close>, 0 until it is set.\<close>

(* @ app/win32/WindowController.cc:72-116 WindowWorker *)
definition window_prologue ::
  "('w, 'a) thread_api_scheme \<Rightarrow> WindowStartParams \<Rightarrow> hresult \<Rightarrow> 'w \<Rightarrow> hresult \<times> handle \<times> dword option \<times> 'w" where
  "window_prologue A params ctx w =
     (let (rc, err, w1) = register_class A (class_name params) w in
      if \<not> rc then let (ctx', code) = ctx_notifyLastError A err ctx in (ctx', 0, Some code, w1)
      else
        let (hwnd, err2, w2) =
          create_window A (class_name params) (window_exstyle params) (window_style params) (parent_hwnd params) w1
        in if hwnd = 0 then
             let hr = LastErrorAsHResult A err2; (_, _, w3) = unregister_class A (class_name params) w2
             in (ctx_notify hr ctx, 0, Some EXIT_FAILURE, w3)
           else (ctx_notify S_OK ctx, hwnd, None, w2))"

text \<open>\<open>msg\<close> is the message and its \<open>wParam\<close>; \<open>WM_QUIT\<close> is \<open>0x12\<close>.\<close>

(* @ app/win32/WindowController.cc:123-136 WindowWorker *)
definition window_epilogue ::
  "('w, 'a) thread_api_scheme \<Rightarrow> WindowStartParams \<Rightarrow> int \<Rightarrow> dword \<times> 64 word \<Rightarrow> dword \<Rightarrow> 'w \<Rightarrow> dword \<times> 'w" where
  "window_epilogue A params rc msg err w =
     (let hr = (if rc = -1 then LastErrorAsHResult A err
                else if rc = 0 \<and> fst msg = 0x12 then ucast (snd msg) else S_OK);
          (rc2, err2, w1) = unregister_class A (class_name params) w
      in (if \<not> rc2 \<and> hr = S_OK then LastErrorAsHResult A err2 else hr, w1))"

(* @ app/win32/WindowController.cc:72-136 WindowWorker *)
definition WindowWorker ::
  "('w, 'a) thread_api_scheme \<Rightarrow> WindowStartParams \<Rightarrow> (dword \<times> 64 word \<Rightarrow> 'w \<Rightarrow> 'w) \<Rightarrow>
   (int \<times> (dword \<times> 64 word) \<times> dword) list \<Rightarrow> 'w \<Rightarrow> hresult \<times> dword option \<times> 'w" where
  "WindowWorker A params dispatch answers w =
     (case window_prologue A params ctx_initial w of
        (ctx, _, Some code, w1) \<Rightarrow> (ctx, Some code, w1)
      | (ctx, _, None, w1) \<Rightarrow>
          (case message_loop dispatch answers w1 of
             None \<Rightarrow> (ctx, None, w1)
           | Some (rc, msg, err, w2) \<Rightarrow>
               let (code, w3) = window_epilogue A params rc msg err w2 in (ctx, Some code, w3)))"

text \<open>A null \<open>hinstance_\<close> violates an unchecked assertion.\<close>

(* @ app/win32/WindowController.cc:161-203 WindowController::start *)
definition window_start ::
  "('w, 'a) thread_api_scheme \<Rightarrow> handle \<Rightarrow> WindowStartParams \<Rightarrow> 'c WindowController_scheme \<Rightarrow> 'w \<Rightarrow>
   (hresult \<times> 'c WindowController_scheme \<times> 'w) outcome" where
  "window_start A hinstance params c w =
     (if hinstance = 0 then Undefined
      else
        let (hr, c1, w1) = controller_start A False c w in
        if FAILED hr then Returned (hr, c1, w1)
        else
          let (ctx, hwnd, _, w2) = window_prologue A params ctx_initial w1 in
          obind (ctx_wait_and_load ctx) (\<lambda>hr.
            if hr \<noteq> S_OK then
              obind (reapThreadAfterStartFailure A (the (ct_hthread c1)) c1 w2) (\<lambda>(_, c2, w3). Returned (hr, c2, w3))
            else if \<not> new_ok A w2 then FastFailed
            else Returned (S_OK, c1\<lparr>ct_retry_factory := exit_factory A (ct_thread_id c1) w2, wc_hwnd := hwnd\<rparr>, w2)))"

(* @ app/win32/WindowController.cc:205-236 WindowController::stop *)
definition window_stop ::
  "('w, 'a) thread_api_scheme \<Rightarrow> 'c WindowController_scheme \<Rightarrow> 'w \<Rightarrow>
   (hresult \<times> 'c WindowController_scheme \<times> 'w) outcome" where
  "window_stop A c w =
     (if ct_state c \<noteq> kRunning \<and> ct_state c \<noteq> kStopping then Returned (kErrorInvalidOperation A, c, w)
      else if FAILED (validateThreadAccess A c w) then Returned (validateThreadAccess A c w, c, w)
      else if wc_hwnd c = 0 then Returned (kErrorInvalidOperation A, c, w)
      else
        obind (stopThread A (post_close A (wc_hwnd c)) (the (ct_hthread c)) (c\<lparr>ct_state := kStopping\<rparr>) w)
          (\<lambda>(hr, c1, w1). if FAILED hr then Returned (hr, c1, w1) else Returned (hr, c1\<lparr>wc_hwnd := 0\<rparr>, w1)))"

section \<open>Retry states keep the contract\<close>

fun retry_ok :: "uniform \<Rightarrow> dword \<Rightarrow> retry_obj \<Rightarrow> bool" where
  "retry_ok uni hi (FixedRetry M d s) \<longleftrightarrow> d \<le> hi"
| "retry_ok uni hi (ExpRetry M p s) \<longleftrightarrow> MaxDelay p \<le> hi \<and> exp_inv uni p (rs_backoff s)"

interpretation thread_retry: retry_state "retry_vt uni" "retry_ok uni hi" retry_left hi for uni hi
proof
  fix s assume ok: "retry_ok uni hi s"
  show "\<exists>d s'. nextDelay (retry_vt uni) s = Some (d, s') \<and> d \<le> hi \<and> retry_ok uni hi s' \<and> retry_left s' = retry_left s"
  proof (cases s)
    case (FixedRetry M d r)
    then show ?thesis using ok by (auto simp: retry_vt_def RetryState_vt_def rs_nextDelay_def fixed_next_def rs_left_def)
  next
    case (ExpRetry M p r)
    then obtain t r' where "nextDelay (RetryState_vt M (exp_next uni p)) r = Some (t, r')" "t \<le> MaxDelay p"
      "exp_inv uni p (rs_backoff r')" "rs_left M r' = rs_left M r"
      using ok exponential.retry.next_delay [of uni p r M] by auto
    then show ?thesis using ok ExpRetry by (auto simp: retry_vt_def RetryState_vt_def)
  qed
  show "retry_ok uni hi (advanceAttempt (retry_vt uni) s)" "retry_ok uni hi (forceExpire (retry_vt uni) s)"
    using ok by (cases s; simp add: retry_vt_def rs_defs)+
qed (simp_all add: retry_vt_advance)

fun factory_ok :: "uniform \<Rightarrow> dword \<Rightarrow> retry_factory \<Rightarrow> bool" where
  "factory_ok uni hi (FixedFactory M d) \<longleftrightarrow> d \<le> hi"
| "factory_ok uni hi (ExpFactory M p b) \<longleftrightarrow> MaxDelay p \<le> hi \<and> exp_inv uni p b"

fun factory_attempts :: "retry_factory \<Rightarrow> nat" where
  "factory_attempts (FixedFactory M d) = unat M"
| "factory_attempts (ExpFactory M p b) = unat M"

lemma factory_make_ok [simp]:
  "retry_ok uni hi (factory_make f) \<longleftrightarrow> factory_ok uni hi f"
  "retry_left (factory_make f) = factory_attempts f"
  by (cases f; simp add: rs_make_def rs_left_def)+

lemma exit_factory_ok:
  assumes "uniform_law (uniform_of A)"
  shows "factory_ok (uniform_of A) 10000 (exit_factory A i w)" "factory_attempts (exit_factory A i w) = 5"
proof -
  have "exp_ok WinEventHookExitBackoff 2 0"
    by (simp add: exp_ok_def scales_def WinEventHookExitBackoff_def jitter_ok_def)
  then have "exp_inv (uniform_of A) WinEventHookExitBackoff (exp_make WinEventHookExitBackoff g)" for g
    using assms by (auto simp: exp_inv_def exp_make_def WinEventHookExitBackoff_def)
  then show "factory_ok (uniform_of A) 10000 (exit_factory A i w)" "factory_attempts (exit_factory A i w) = 5"
    by (simp_all add: exit_factory_def Let_def WinEventHookExitBackoff_def)
qed

section \<open>The stop loop\<close>

lemma ct_note_sel [simp]:
  "ct_hthread (ct_note f A w msg hr c) = ct_hthread c" "ct_state (ct_note f A w msg hr c) = ct_state c"
  "ct_policy (ct_note f A w msg hr c) = ct_policy c" "ct_thread_id (ct_note f A w msg hr c) = ct_thread_id c"
  "ct_retry_factory (ct_note f A w msg hr c) = ct_retry_factory c"
  by (simp_all add: ct_note_def)

definition same_thread :: "'c MessageLoopThreadController_scheme \<Rightarrow> 'd MessageLoopThreadController_scheme \<Rightarrow> bool" where
  "same_thread c c' \<longleftrightarrow> ct_hthread c' = ct_hthread c \<and> ct_thread_id c' = ct_thread_id c \<and>
     ct_retry_factory c' = ct_retry_factory c \<and> ct_state c' = ct_state c \<and> ct_policy c' = ct_policy c"

lemma same_thread_refl [simp]: "same_thread c c" by (simp add: same_thread_def)
lemma same_thread_trans [trans]: "same_thread a b \<Longrightarrow> same_thread b c \<Longrightarrow> same_thread a c"
  by (simp add: same_thread_def)
lemma same_thread_note [simp]: "same_thread c (ct_note f A w msg hr d) \<longleftrightarrow> same_thread c d"
  by (simp add: same_thread_def)

text \<open>What the attempts of a stop cost: \<open>posts\<close> counts the messages posted, \<open>spent\<close> the milliseconds
  waited.  A wait takes at most its time-out.\<close>

definition stop_clock ::
  "('w, 'a) thread_api_scheme \<Rightarrow> ('w \<Rightarrow> bool \<times> dword \<times> 'w) \<Rightarrow> ('w \<Rightarrow> nat) \<Rightarrow> ('w \<Rightarrow> nat) \<Rightarrow> bool" where
  "stop_clock A post posts spent \<longleftrightarrow>
     (\<forall>w rc e w'. post w = (rc, e, w') \<longrightarrow> posts w' = posts w + 1 \<and> spent w' = spent w) \<and>
     (\<forall>h d w s e w'. wait_object A h d w = (s, e, w') \<longrightarrow> posts w' = posts w \<and> spent w' \<le> spent w + unat d) \<and>
     (\<forall>h w rc e w'. close_thread A h w = (rc, e, w') \<longrightarrow> posts w' = posts w \<and> spent w' = spent w)"

lemma stop_attempt_cases:
  assumes "stop_attempt A post h (retry, c, w) = Some (cont, hr, retry', c', w')"
    and "nextDelay (retry_vt (uniform_of A)) retry = Some (d, r1)"
  shows "same_thread c c'"
    and "retry' \<in> {r1, advanceAttempt (retry_vt (uniform_of A)) r1, forceExpire (retry_vt (uniform_of A)) retry, retry}"
    and "\<exists>rc err w1 d' s e. post w = (rc, err, w1) \<and> (d' = d \<or> d' = 0) \<and> wait_object A h d' w1 = (s, e, w')"
  using assms
  by (auto simp: stop_attempt_def Let_def split: prod.splits if_splits option.splits)

lemma stop_attempt_returns:
  assumes "nextDelay (retry_vt (uniform_of A)) retry = Some (d, r1)"
  shows "stop_attempt A post h (retry, c, w) \<noteq> None"
  using assms
  by (auto simp: stop_attempt_def Let_def split: prod.splits if_splits option.splits)

lemma stop_attempt_runs:
  assumes "retry_ok (uniform_of A) hi retry"
  obtains cont hr retry' c' w' where "stop_attempt A post h (retry, c, w) = Some (cont, hr, retry', c', w')"
    "retry_ok (uniform_of A) hi retry'" "same_thread c c'"
    "stop_clock A post posts spent \<Longrightarrow> posts w' = posts w + 1 \<and> spent w' \<le> spent w + unat hi"
proof -
  obtain d r1 where d: "nextDelay (retry_vt (uniform_of A)) retry = Some (d, r1)" "d \<le> hi"
    "retry_ok (uniform_of A) hi r1"
    using thread_retry.next_delay [OF assms] by blast
  obtain cont hr retry' c' w' where r: "stop_attempt A post h (retry, c, w) = Some (cont, hr, retry', c', w')"
    using stop_attempt_returns [OF d(1)] by (metis not_None_eq prod_cases5)
  note cs = stop_attempt_cases [OF r d(1)]
  have "retry_ok (uniform_of A) hi retry'"
    using cs(2) assms d(3) thread_retry.advance_ok thread_retry.force_ok by blast
  moreover have "posts w' = posts w + 1 \<and> spent w' \<le> spent w + unat hi" if "stop_clock A post posts spent"
  proof -
    obtain rc err w1 d' s e where p: "post w = (rc, err, w1)" "d' = d \<or> d' = 0" "wait_object A h d' w1 = (s, e, w')"
      using cs(3) by blast
    then have "unat d' \<le> unat hi" using d(2) by (auto simp: word_le_nat_alt)
    then show ?thesis using that p unfolding stop_clock_def by fastforce
  qed
  ultimately show thesis using that r cs(1) by blast
qed

lemma stop_loop_runs:
  assumes "retry_ok (uniform_of A) hi retry"
  shows "\<exists>hr' retry' c' w'. stop_loop A post h hr retry c w = Some (hr', retry', c', w') \<and> same_thread c c' \<and>
    (stop_clock A post posts spent \<longrightarrow>
       posts w' \<le> posts w + retry_left retry \<and> spent w' \<le> spent w + retry_left retry * unat hi)"
  using assms
proof (induction "retry_left retry" arbitrary: hr retry c w rule: less_induct)
  case less
  show ?case
  proof (cases "retry_left retry = 0")
    case True
    then show ?thesis by (simp add: stop_loop.simps [of A post h hr retry c w])
  next
    case False
    obtain cont hr1 r1 c1 w1 where a: "stop_attempt A post h (retry, c, w) = Some (cont, hr1, r1, c1, w1)"
      "retry_ok (uniform_of A) hi r1" "same_thread c c1"
      "stop_clock A post posts spent \<Longrightarrow> posts w1 = posts w + 1 \<and> spent w1 \<le> spent w + unat hi"
      using stop_attempt_runs [OF less.prems, of post h c w posts spent] by metis
    show ?thesis
    proof (cases cont)
      case True
      then have left: "retry_left r1 = retry_left retry - 1" using a(1) False by (auto dest: stop_attempt_left)
      obtain hr' r' c' w' where ih: "stop_loop A post h hr1 r1 c1 w1 = Some (hr', r', c', w')" "same_thread c1 c'"
        "stop_clock A post posts spent \<Longrightarrow>
           posts w' \<le> posts w1 + retry_left r1 \<and> spent w' \<le> spent w1 + retry_left r1 * unat hi"
        using less.hyps [OF _ a(2), of hr1 c1 w1] left False by auto
      have mult: "unat hi + (retry_left retry - 1) * unat hi = retry_left retry * unat hi"
        using False by (cases "retry_left retry") simp_all
      show ?thesis
        using a ih left False True same_thread_trans [OF a(3) ih(2)] mult
        by (fastforce simp: stop_loop.simps [of A post h hr retry c w])
    next
      case cont: False
      have "1 \<le> retry_left retry" using False by simp
      then have hi: "unat hi \<le> retry_left retry * unat hi" by simp
      have "stop_loop A post h hr retry c w = Some (hr1, r1, c1, w1)"
        using a(1) cont False by (simp add: stop_loop.simps [of A post h hr retry c w])
      moreover have "posts w1 \<le> posts w + retry_left retry \<and> spent w1 \<le> spent w + retry_left retry * unat hi"
        if "stop_clock A post posts spent"
        using a(4) [OF that] hi False by linarith
      ultimately show ?thesis using a(3) by blast
    qed
  qed
qed

text \<open>\<open>exited w h\<close>: the thread of \<open>h\<close> has ended.  \<open>WAIT_OBJECT_0\<close> says so, and closing a handle does not
  start a thread again.\<close>

definition exit_law :: "('w, 'a) thread_api_scheme \<Rightarrow> ('w \<Rightarrow> handle \<Rightarrow> bool) \<Rightarrow> bool" where
  "exit_law A exited \<longleftrightarrow>
     (\<forall>h d w e w'. wait_object A h d w = (WAIT_OBJECT_0, e, w') \<longrightarrow> exited w' h) \<and>
     (\<forall>h h' w rc e w'. close_thread A h w = (rc, e, w') \<longrightarrow> exited w h' \<longrightarrow> exited w' h')"

lemma stop_attempt_exited:
  assumes "exit_law A exited" "stop_attempt A post h (retry, c, w) = Some (False, hr, retry', c', w')"
    "retry_left retry' \<noteq> 0"
  shows "exited w' h"
  using assms by (auto simp: stop_attempt_def exit_law_def Let_def split: prod.splits if_splits option.splits)

lemma stop_loop_exited:
  assumes "exit_law A exited" "stop_loop A post h hr retry c w = Some (hr', retry', c', w')" "retry_left retry' \<noteq> 0"
  shows "exited w' h"
  using assms(2)
proof (induction "retry_left retry" arbitrary: hr retry c w rule: less_induct)
  case less
  have left: "retry_left retry \<noteq> 0"
  proof
    assume "retry_left retry = 0"
    then have "retry' = retry" using less.prems by (simp add: stop_loop.simps [of A post h hr retry c w])
    then show False using \<open>retry_left retry = 0\<close> assms(3) by simp
  qed
  obtain cont hr1 r1 c1 w1 where a: "stop_attempt A post h (retry, c, w) = Some (cont, hr1, r1, c1, w1)"
    using less.prems left by (auto simp: stop_loop.simps [of A post h hr retry c w] split: option.splits prod.splits)
  show ?case
  proof (cases cont)
    case True
    then have "retry_left r1 < retry_left retry" using a left by (auto dest: stop_attempt_left)
    then show ?thesis
      using less.hyps less.prems a True left by (auto simp: stop_loop.simps [of A post h hr retry c w])
  next
    case False
    then show ?thesis
      using less.prems a left stop_attempt_exited [OF assms(1)] assms(3)
      by (auto simp: stop_loop.simps [of A post h hr retry c w])
  qed
qed

definition reaped :: "'c MessageLoopThreadController_scheme \<Rightarrow> 'c MessageLoopThreadController_scheme \<Rightarrow> bool" where
  "reaped c c' \<longleftrightarrow> ct_hthread c' = None \<and> ct_state c' = kReady \<and> ct_policy c' = ct_policy c \<and>
     ct_retry_factory c' = ct_retry_factory c"

lemma reapThread_cases:
  assumes "reapThread A h c w = (hr, c', w')"
  shows "(\<exists>rc e. close_thread A h w = (rc, e, w')) \<and> (c' = c \<or> reaped c c')"
  using assms by (auto simp: reapThread_def reaped_def Let_def split: prod.splits if_splits)

lemma stopThread_runs:
  assumes "factory_ok (uniform_of A) hi (ct_retry_factory c)" "0 < factory_attempts (ct_retry_factory c)"
  shows "stopThread A post h c w = FastFailed \<or>
    (\<exists>hr c' w'. stopThread A post h c w = Returned (hr, c', w') \<and> (same_thread c c' \<or> reaped c c') \<and>
      (stop_clock A post posts spent \<longrightarrow>
         posts w' \<le> posts w + factory_attempts (ct_retry_factory c) \<and>
         spent w' \<le> spent w + factory_attempts (ct_retry_factory c) * unat hi) \<and>
      (exit_law A exited \<longrightarrow> ct_policy c = kFailFast \<longrightarrow> exited w' h))"
proof (cases "new_ok A w")
  case True
  let ?n = "factory_attempts (ct_retry_factory c)" and ?retry = "factory_make (ct_retry_factory c)"
  have ok: "retry_ok (uniform_of A) hi ?retry" using assms by simp
  obtain cont hr1 r1 c1 w1 where a: "stop_attempt A post h (?retry, c, w) = Some (cont, hr1, r1, c1, w1)"
    "retry_ok (uniform_of A) hi r1" "same_thread c c1"
    "stop_clock A post posts spent \<Longrightarrow> posts w1 = posts w + 1 \<and> spent w1 \<le> spent w + unat hi"
    using stop_attempt_runs [OF ok, of post h c w posts spent] by metis
  have mult: "unat hi + (?n - 1) * unat hi = ?n * unat hi"
    using assms(2) by (cases ?n) simp_all
  define loop where "loop = (if cont then stop_loop A post h hr1 r1 c1 w1 else Some (hr1, r1, c1, w1))"
  have stop: "stopThread A post h c w =
      (case loop of None \<Rightarrow> Undefined
       | Some (hr, r', c', w') \<Rightarrow>
           if expired (retry_vt (uniform_of A)) r' then (if ct_policy c' = kFailFast then FastFailed else Returned (hr, c', w'))
           else Returned (reapThread A h c' w'))"
    using True a(1) by (simp add: stopThread_def loop_def split: bool.splits)
  have "\<exists>hr2 r2 c2 w2. loop = Some (hr2, r2, c2, w2) \<and> same_thread c c2 \<and>
      (stop_clock A post posts spent \<longrightarrow> posts w2 \<le> posts w + ?n \<and> spent w2 \<le> spent w + ?n * unat hi)"
  proof (cases cont)
    case True
    then have left: "retry_left r1 = ?n - 1" using stop_attempt_left [of A post h ?retry c w] a(1) assms(2) by simp
    show ?thesis
      using stop_loop_runs [OF a(2), of post h hr1 c1 w1 posts spent] True left a(3,4) mult assms(2)
        same_thread_trans [OF a(3)] unfolding loop_def by fastforce
  next
    case False
    then show ?thesis using a(3,4) assms(2) mult unfolding loop_def by fastforce
  qed
  then obtain hr2 r2 c2 w2 where l: "loop = Some (hr2, r2, c2, w2)" "same_thread c c2"
    "stop_clock A post posts spent \<Longrightarrow> posts w2 \<le> posts w + ?n \<and> spent w2 \<le> spent w + ?n * unat hi" by blast
  show ?thesis
  proof (cases "retry_left r2 = 0")
    case True
    then show ?thesis using stop l by (auto simp: same_thread_def)
  next
    case False
    obtain hr3 c3 w3 where r: "reapThread A h c2 w2 = (hr3, c3, w3)" by (metis prod_cases3)
    note rc = reapThread_cases [OF r]
    have ex: "exited w2 h" if "exit_law A exited"
      using that False l(1) a(1) stop_attempt_exited [OF that] stop_loop_exited [OF that]
      unfolding loop_def by (auto split: if_splits)
    have "same_thread c c3 \<or> reaped c c3" using rc l(2) by (auto simp: same_thread_def reaped_def)
    then show ?thesis
      using stop l r False rc ex by (auto simp: stop_clock_def exit_law_def)
  qed
qed (simp add: stopThread_def)

end
