(* ===== verification/Threads_Properties.thy ===== *)
theory Threads_Properties
  imports Threads
begin

text \<open>
  The properties of the thread controllers: the states the event-hook controller can reach, the end
  of a stop and what a start leaves behind.  The reachable states are those of any sequence of calls
  in any worlds; the witnesses run the controller in a world whose worker ends after two messages.
\<close>

section \<open>The life of a controller\<close>

definition ctl_wf :: "uniform \<Rightarrow> 'c MessageLoopThreadController_scheme \<Rightarrow> bool" where
  "ctl_wf uni c \<longleftrightarrow> (ct_state c = kReady \<longleftrightarrow> ct_hthread c = None) \<and> ct_policy c = kFailFast \<and>
     factory_ok uni 10000 (ct_retry_factory c) \<and> factory_attempts (ct_retry_factory c) \<in> {1, 5}"

lemma ctl_wf_reaped: "ctl_wf uni c \<Longrightarrow> reaped c c' \<Longrightarrow> ctl_wf uni c'"
  by (simp add: ctl_wf_def reaped_def)

lemma ctl_wf_same: "ctl_wf uni c \<Longrightarrow> same_thread c c' \<Longrightarrow> ctl_wf uni c'"
  by (simp add: ctl_wf_def same_thread_def)

lemma makeController_wf: "ctl_wf uni (makeController kFailFast default_factory)"
  by (simp add: ctl_wf_def makeController_def default_factory_def word_le_nat_alt)

lemma begin_status_nz: "begin_status d e \<noteq> 0"
  by (simp add: begin_status_def)

lemma controller_start_cases:
  assumes "hr_law A" "controller_start A False c w = (hr, c', w')"
  shows "FAILED hr \<and> c' = c \<or>
    hr = S_OK \<and> ct_state c = kReady \<and> ct_state c' = kRunning \<and> ct_hthread c' \<noteq> None \<and>
    ct_policy c' = ct_policy c \<and> ct_retry_factory c' = ct_retry_factory c"
  using assms begin_status_nz
  by (auto simp: controller_start_def kError_defs hr_law_simps Let_def split: prod.splits if_splits)

lemma reapAfter_cases:
  assumes "reapThreadAfterStartFailure A h c w = Returned (hr, c', w')" "ct_policy c = kFailFast"
  shows "reaped c c' \<or> same_thread (c\<lparr>ct_state := kStopping\<rparr>) c'"
  using assms reapThread_cases
  by (fastforce simp: reapThreadAfterStartFailure_def reaped_def same_thread_def Let_def split: prod.splits if_splits)

lemma ctl_wf_running:
  assumes "ctl_wf uni c" "ct_hthread c' \<noteq> None" "ct_state c' \<noteq> kReady" "ct_policy c' = ct_policy c"
    "ct_retry_factory c' = ct_retry_factory c"
  shows "ctl_wf uni c'"
  using assms by (simp add: ctl_wf_def)

lemma ctl_wf_exit_factory:
  assumes "ctl_wf (uniform_of A) c" "uniform_law (uniform_of A)"
  shows "ctl_wf (uniform_of A) (c\<lparr>ct_retry_factory := exit_factory A i w\<rparr>)"
  using assms exit_factory_ok [OF assms(2)] by (simp add: ctl_wf_def)

text \<open>What both kinds of controller do after a successful start of the thread: wait for the worker, reap
  it if it failed.\<close>

lemma start_failure_wf:
  assumes "ctl_wf uni c1" "ct_hthread c1 \<noteq> None"
    and "reapThreadAfterStartFailure A h c1 w = Returned (hr, c2, w')"
  shows "ctl_wf uni c2"
proof -
  have "ct_policy c1 = kFailFast" using assms(1) by (simp add: ctl_wf_def)
  then consider "reaped c1 c2" | "same_thread (c1\<lparr>ct_state := kStopping\<rparr>) c2"
    using reapAfter_cases [OF assms(3)] by blast
  then show ?thesis
  proof cases
    case 2
    have "ctl_wf uni (c1\<lparr>ct_state := kStopping\<rparr>)"
      using assms(1,2) by (simp add: ctl_wf_def)
    then show ?thesis using 2 by (rule ctl_wf_same)
  qed (rule ctl_wf_reaped [OF assms(1)])
qed

lemma hook_start_wf:
  assumes "hr_law A" "uniform_law (uniform_of A)" "ctl_wf (uniform_of A) c"
    and "hook_start A event_min event_max c w = Returned (hr, c', w')"
  shows "ctl_wf (uniform_of A) c'"
proof -
  obtain hr1 c1 w1 where s: "controller_start A False c w = (hr1, c1, w1)" by (metis prod_cases3)
  show ?thesis
  proof (cases "FAILED hr1")
    case True
    then show ?thesis using assms s controller_start_cases [OF assms(1) s] by (auto simp: hook_start_def)
  next
    case False
    then have c1: "ct_state c1 = kRunning" "ct_hthread c1 \<noteq> None" "ct_policy c1 = ct_policy c"
      "ct_retry_factory c1 = ct_retry_factory c"
      using controller_start_cases [OF assms(1) s] by auto
    then have wf: "ctl_wf (uniform_of A) c1" using ctl_wf_running [OF assms(3), of c1] by simp
    show ?thesis
      using assms(4) s False start_failure_wf [OF wf c1(2)] ctl_wf_exit_factory [OF wf assms(2)]
      by (auto simp: hook_start_def obind_Returned ctx_wait_and_load_def split: prod.splits if_splits)
  qed
qed

lemma stop_wf:
  assumes "ctl_wf (uniform_of A) c" "ct_hthread c \<noteq> None"
    and "stopThread A post h (c\<lparr>ct_state := kStopping\<rparr>) w = Returned (hr, c', w')"
  shows "ctl_wf (uniform_of A) c'"
proof -
  let ?c = "c\<lparr>ct_state := kStopping\<rparr>"
  have wf: "ctl_wf (uniform_of A) ?c" using assms(1,2) by (simp add: ctl_wf_def)
  then have "factory_ok (uniform_of A) 10000 (ct_retry_factory ?c)" "0 < factory_attempts (ct_retry_factory ?c)"
    by (auto simp: ctl_wf_def)
  then have "same_thread ?c c' \<or> reaped ?c c'"
    using stopThread_runs [of A 10000 ?c post h w] assms(3) by fastforce
  then show ?thesis using ctl_wf_same [OF wf] ctl_wf_reaped [OF wf] by blast
qed

lemma hook_stop_wf:
  assumes "ctl_wf (uniform_of A) c" "hook_stop A c w = Returned (hr, c', w')"
  shows "ctl_wf (uniform_of A) c'"
proof (cases "ct_state c = kReady")
  case False
  then have "ct_hthread c \<noteq> None" using assms(1) by (simp add: ctl_wf_def)
  then show ?thesis using assms stop_wf [OF assms(1)] by (auto simp: hook_stop_def split: if_splits)
qed (use assms in \<open>auto simp: hook_stop_def\<close>)

text \<open>The states the event-hook controller can be in: any sequence of calls, in any worlds.\<close>

inductive hook_reach :: "('w, 'a) thread_api_scheme \<Rightarrow> MessageLoopThreadController \<Rightarrow> bool" for A where
  new: "hook_reach A makeWinEventHookController"
| start: "hook_reach A c \<Longrightarrow> hook_start A event_min event_max c w = Returned (hr, c', w') \<Longrightarrow> hook_reach A c'"
| stop: "hook_reach A c \<Longrightarrow> hook_stop A c w = Returned (hr, c', w') \<Longrightarrow> hook_reach A c'"

lemma hook_reach_wf:
  assumes "hook_reach A c" "hr_law A" "uniform_law (uniform_of A)"
  shows "ctl_wf (uniform_of A) c"
  using assms
proof (induction rule: hook_reach.induct)
  case new
  show ?case unfolding makeWinEventHookController_def by (rule makeController_wf)
qed (blast intro: hook_start_wf hook_stop_wf)+

text \<open>C18: The states of the event-hook controller.  In every state that a sequence of starts and stops
  can reach, whatever the system answered, the controller is ready exactly when it holds no thread
  handle, and exactly then it can be destroyed without ending the process; a start in another state and
  a stop in the ready state are refused and change nothing.\<close>

theorem controller_lifecycle:
  assumes "hook_reach A c" "hr_law A" "uniform_law (uniform_of A)"
  shows "(ct_state c = kReady \<longleftrightarrow> ct_hthread c = None) \<and>
    (controller_destroy c = Returned () \<longleftrightarrow> ct_state c = kReady) \<and>
    (ct_state c \<noteq> kReady \<longrightarrow> hook_start A event_min event_max c w = Returned (kErrorInvalidOperation A, c, w)) \<and>
    (ct_state c = kReady \<longrightarrow> hook_stop A c w = Returned (kErrorInvalidOperation A, c, w))"
  using hook_reach_wf [OF assms] assms(2)
  by (auto simp: ctl_wf_def controller_destroy_def hook_start_def hook_stop_def controller_start_def
      kErrorInvalidOperation_def hr_law_simps)

text \<open>C17: Stopping ends.  From any reachable state with a thread, a stop called on another thread neither
  blocks nor computes anything undefined: it posts at most 5 messages and waits at most 50 seconds in
  all, and then either the process is ended by \<open>fastfail\<close> or the call returns after the thread has
  ended; it never returns while the thread may still run.\<close>

theorem stop_ends:
  assumes "hook_reach A c" "hr_law A" "uniform_law (uniform_of A)"
    and "ct_hthread c = Some h" "current_thread A w \<noteq> ct_thread_id c"
    and "stop_clock A (post_thread_quit A (ct_thread_id c)) posts spent" "exit_law A exited"
  shows "hook_stop A c w = FastFailed \<or>
    (\<exists>hr c' w'. hook_stop A c w = Returned (hr, c', w') \<and> exited w' h \<and>
       posts w' \<le> posts w + 5 \<and> spent w' \<le> spent w + 5 * 10000)"
proof -
  let ?c = "c\<lparr>ct_state := kStopping\<rparr>"
  have wf: "ctl_wf (uniform_of A) c" by (rule hook_reach_wf [OF assms(1-3)])
  then have st: "ct_state c \<noteq> kReady" using assms(4) by (simp add: ctl_wf_def)
  have f: "factory_ok (uniform_of A) 10000 (ct_retry_factory ?c)" "0 < factory_attempts (ct_retry_factory ?c)"
    and n: "factory_attempts (ct_retry_factory c) \<le> 5" and pol: "ct_policy c = kFailFast"
    using wf by (auto simp: ctl_wf_def)
  have "hook_stop A c w = stopThread A (post_thread_quit A (ct_thread_id c)) h ?c w"
    using st assms(2,4,5) by (cases "ct_state c") (simp_all add: hook_stop_def validateThreadAccess_def HResultFromWin32_def hr_law_simps)
  moreover have "factory_attempts (ct_retry_factory c) * 10000 \<le> 5 * 10000"
    using n by (rule mult_le_mono1)
  ultimately show ?thesis
    using stopThread_runs [OF f, of "post_thread_quit A (ct_thread_id c)" h w posts spent exited] assms(6,7) n pol
    by fastforce
qed

section \<open>Starting and stopping\<close>

text \<open>C25: A start whose worker installs its hook answers \<open>S_OK\<close> and leaves the controller running with the
  5-attempt exponential policy; a later stop whose first message is obeyed returns the exit code
  of the worker and the controller is ready again, with that policy kept.\<close>

theorem start_then_stop:
  assumes "hr_law A" "uniform_law (uniform_of A)" "ct_state c = kReady" "ct_hthread c = None" "ct_thread_id c = 0"
    and "begin_thread A w = (h, tid, e1, e2, w1)" "h \<noteq> 0"
    and "set_event_hook A event_min event_max w1 = (hook, e3, w2)" "hook \<noteq> 0" "new_ok A w2"
    and "new_ok A w3" "current_thread A w3 \<noteq> tid" "post_thread_quit A tid w3 = (True, e4, w4)"
    and "\<And>d. wait_object A h d w4 = (WAIT_OBJECT_0, e5, w5)"
    and "exit_code_thread A h w5 = (True, code, e6)" "close_thread A h w5 = (True, e7, w6)"
  shows "\<exists>c1. hook_start A event_min event_max c w = Returned (S_OK, c1, w2) \<and> ct_state c1 = kRunning \<and>
    hook_stop A c1 w3 = Returned (code, c\<lparr>ct_retry_factory := exit_factory A tid w2\<rparr>, w6)"
proof -
  define c1 where "c1 = c\<lparr>ct_hthread := Some h, ct_thread_id := tid, ct_state := kRunning,
    ct_retry_factory := exit_factory A tid w2\<rparr>"
  have start: "hook_start A event_min event_max c w = Returned (S_OK, c1, w2)"
    using assms(3,4,6-10)
    by (simp add: hook_start_def controller_start_def hook_prologue_def ctx_notify_def ctx_wait_and_load_def c1_def)
  let ?c = "c1\<lparr>ct_state := kStopping\<rparr>"
  have ok: "retry_ok (uniform_of A) 10000 (factory_make (ct_retry_factory ?c))" "retry_left (factory_make (ct_retry_factory ?c)) = 5"
    using exit_factory_ok [OF assms(2)] by (simp_all add: c1_def)
  then obtain d r where d: "nextDelay (retry_vt (uniform_of A)) (factory_make (ct_retry_factory ?c)) = Some (d, r)"
    "retry_left r = 5"
    using thread_retry.next_delay [OF ok(1)] by auto
  have att: "stop_attempt A (post_thread_quit A tid) h (factory_make (ct_retry_factory ?c), ?c, w3) = Some (False, S_OK, r, ?c, w5)"
    using assms(13,14) d(1) by (simp add: stop_attempt_def)
  have "stopThread A (post_thread_quit A tid) h ?c w3 = Returned (reapThread A h ?c w5)"
    using assms(11) att d(2) by (simp add: stopThread_def)
  also have "reapThread A h ?c w5 = (code, c\<lparr>ct_retry_factory := exit_factory A tid w2\<rparr>, w6)"
    using assms(3-5,15,16) by (simp add: reapThread_def c1_def)
  finally have "hook_stop A c1 w3 = Returned (code, c\<lparr>ct_retry_factory := exit_factory A tid w2\<rparr>, w6)"
    using assms(1,12)
    by (simp add: hook_stop_def validateThreadAccess_def HResultFromWin32_def hr_law_simps c1_def)
  then show ?thesis using start by (auto simp: c1_def)
qed

text \<open>C26: A start whose worker cannot install its hook answers the worker's error, after reaping the
  thread, and leaves the controller exactly as it was, so that it can be started again.\<close>

theorem failed_start_recovers:
  assumes "hr_law A" "ct_state c = kReady" "ct_hthread c = None" "ct_thread_id c = 0"
    and "begin_thread A w = (h, tid, e1, e2, w1)" "h \<noteq> 0"
    and "set_event_hook A event_min event_max w1 = (0, err, w2)" "err \<noteq> 0" "hr_of A err \<noteq> E_PENDING"
    and "wait_object A h 1000 w2 = (WAIT_OBJECT_0, e3, w3)" "close_thread A h w3 = (True, e4, w4)"
  shows "hook_start A event_min event_max c w = Returned (hr_of A err, c, w4) \<and> FAILED (hr_of A err)"
proof -
  have "FAILED (hr_of A err)" using assms(1,8) by (simp add: hr_law_simps)
  moreover have "hr_of A err \<noteq> 0" using calculation by auto
  moreover obtain rc code e where "exit_code_thread A h w3 = (rc, code, e)" by (metis prod_cases3)
  ultimately show ?thesis
    using assms
    by (simp add: hook_start_def controller_start_def hook_prologue_def ctx_notifyLastError_def ctx_notify_def
        ctx_wait_and_load_def LastErrorAsHResult_def HResultFromWin32_def reapThreadAfterStartFailure_def
        reapThread_def kStartFailureReapTimeoutMs_def)
qed

section \<open>A world for the witnesses\<close>

text \<open>The worker of handle 7 ends after the second message it is sent.\<close>

record demo_threads =
  demo_posts :: nat
  demo_spent :: nat

definition demo_post :: "demo_threads \<Rightarrow> bool \<times> dword \<times> demo_threads" where
  "demo_post w = (True, 0, w\<lparr>demo_posts := demo_posts w + 1\<rparr>)"

definition demo_wait :: "nat \<Rightarrow> dword \<Rightarrow> demo_threads \<Rightarrow> dword \<times> dword \<times> demo_threads" where
  "demo_wait h d w =
     (if 2 \<le> demo_posts w then (WAIT_OBJECT_0, 0, w)
      else (WAIT_TIMEOUT, 0, w\<lparr>demo_spent := demo_spent w + unat d\<rparr>))"

definition demo_thread_api :: "handle \<Rightarrow> demo_threads thread_api" where
  "demo_thread_api hook =
     \<lparr>hr_of = win32_hr, begin_thread = (\<lambda>w. (7, 42, 0, 0, w)), wait_object = demo_wait,
      current_thread = (\<lambda>w. 41), exit_code_thread = (\<lambda>h w. (True, 0, 0)), close_thread = (\<lambda>h w. (True, 0, w)),
      post_thread_quit = (\<lambda>t. demo_post), post_close = (\<lambda>h. demo_post),
      set_event_hook = (\<lambda>a b w. (hook, 5, w)), unhook_event = (\<lambda>h w. (True, 0, w)),
      register_class = (\<lambda>n w. (True, 0, w)), unregister_class = (\<lambda>n w. (True, 0, w)),
      create_window = (\<lambda>n a b p w. (9, 0, w)), module_handle = (\<lambda>w. (3, 0)),
      new_ok = (\<lambda>w. True), tsc = (\<lambda>w. 1), now_of = (\<lambda>w. 0), arch32 = False,
      uniform_of = (\<lambda>smax g. (smax, g))\<rparr>"

lemma demo_thread_api_sel [simp]:
  "hr_of (demo_thread_api k) = win32_hr" "begin_thread (demo_thread_api k) = (\<lambda>w. (7, 42, 0, 0, w))"
  "wait_object (demo_thread_api k) = demo_wait" "current_thread (demo_thread_api k) = (\<lambda>w. 41)"
  "exit_code_thread (demo_thread_api k) = (\<lambda>h w. (True, 0, 0))" "close_thread (demo_thread_api k) = (\<lambda>h w. (True, 0, w))"
  "post_thread_quit (demo_thread_api k) = (\<lambda>t. demo_post)" "post_close (demo_thread_api k) = (\<lambda>h. demo_post)"
  "set_event_hook (demo_thread_api k) = (\<lambda>a b w. (k, 5, w))" "new_ok (demo_thread_api k) = (\<lambda>w. True)"
  "uniform_of (demo_thread_api k) = (\<lambda>smax g. (smax, g))"
  by (simp_all add: demo_thread_api_def)

lemma demo_wait_2: "demo_wait h d \<lparr>demo_posts = 2, demo_spent = s\<rparr> = (WAIT_OBJECT_0, 0, \<lparr>demo_posts = 2, demo_spent = s\<rparr>)"
  unfolding demo_wait_def by simp

lemma demo_thread_laws:
  "hr_law (demo_thread_api k)" "uniform_law (uniform_of (demo_thread_api k))"
  "stop_clock (demo_thread_api k) demo_post demo_posts demo_spent"
  "exit_law (demo_thread_api k) (\<lambda>w h. 2 \<le> demo_posts w)"
  by (auto simp: hr_law_def uniform_law_def stop_clock_def exit_law_def demo_post_def demo_wait_def split: if_splits)

definition demo_idle :: MessageLoopThreadController where "demo_idle = makeWinEventHookController"
definition demo_running :: MessageLoopThreadController where
  "demo_running = demo_idle\<lparr>ct_hthread := Some 7, ct_thread_id := 42, ct_state := kRunning,
     ct_retry_factory := exit_factory (demo_thread_api 5) 42 \<lparr>demo_posts = 0, demo_spent = 0\<rparr>\<rparr>"

lemma demo_idle_sel [simp]:
  "ct_state demo_idle = kReady" "ct_hthread demo_idle = None" "ct_thread_id demo_idle = 0"
  by (simp_all add: demo_idle_def makeWinEventHookController_def makeController_def)

lemma demo_running_reach: "hook_reach (demo_thread_api 5) demo_running"
proof -
  have "hook_start (demo_thread_api 5) 3 32780 demo_idle \<lparr>demo_posts = 0, demo_spent = 0\<rparr> =
    Returned (S_OK, demo_running, \<lparr>demo_posts = 0, demo_spent = 0\<rparr>)"
    by (simp add: hook_start_def controller_start_def hook_prologue_def ctx_notify_def ctx_wait_and_load_def demo_running_def)
  then show ?thesis using hook_reach.start hook_reach.new demo_idle_def by metis
qed

lemma controller_lifecycle_witness:
  "controller_destroy demo_running \<noteq> Returned () \<and>
   hook_start (demo_thread_api 5) 3 32780 demo_running \<lparr>demo_posts = 0, demo_spent = 0\<rparr> =
     Returned (kErrorInvalidOperation (demo_thread_api 5), demo_running, \<lparr>demo_posts = 0, demo_spent = 0\<rparr>)"
  using controller_lifecycle [OF demo_running_reach demo_thread_laws(1,2), of 3 32780 "\<lparr>demo_posts = 0, demo_spent = 0\<rparr>"]
  by (simp add: demo_running_def)

lemma stop_ends_witness:
  "hook_stop (demo_thread_api 5) demo_running \<lparr>demo_posts = 0, demo_spent = 0\<rparr> = FastFailed \<or>
   (\<exists>hr c' w'. hook_stop (demo_thread_api 5) demo_running \<lparr>demo_posts = 0, demo_spent = 0\<rparr> = Returned (hr, c', w') \<and>
      2 \<le> demo_posts w' \<and> demo_posts w' \<le> 5 \<and> demo_spent w' \<le> 50000)"
  using stop_ends [OF demo_running_reach demo_thread_laws(1,2), of 7 "\<lparr>demo_posts = 0, demo_spent = 0\<rparr>"
      demo_posts demo_spent "\<lambda>w h. 2 \<le> demo_posts w"] demo_thread_laws(3,4) [of 5]
  by (simp add: demo_running_def)

lemma start_then_stop_witness:
  "\<exists>c1. hook_start (demo_thread_api 5) 3 32780 demo_idle \<lparr>demo_posts = 0, demo_spent = 0\<rparr> =
       Returned (S_OK, c1, \<lparr>demo_posts = 0, demo_spent = 0\<rparr>) \<and> ct_state c1 = kRunning \<and>
     hook_stop (demo_thread_api 5) c1 \<lparr>demo_posts = 1, demo_spent = 0\<rparr> =
       Returned (0, demo_idle\<lparr>ct_retry_factory := exit_factory (demo_thread_api 5) 42 \<lparr>demo_posts = 0, demo_spent = 0\<rparr>\<rparr>,
                 \<lparr>demo_posts = 2, demo_spent = 0\<rparr>)"
  by (rule start_then_stop [OF demo_thread_laws(1,2), where h = 7 and tid = 42 and hook = 5 and ?e1.0 = 0 and ?e2.0 = 0
        and ?w1.0 = "\<lparr>demo_posts = 0, demo_spent = 0\<rparr>" and ?w4.0 = "\<lparr>demo_posts = 2, demo_spent = 0\<rparr>"
        and ?w5.0 = "\<lparr>demo_posts = 2, demo_spent = 0\<rparr>" and ?e3.0 = 5 and ?e4.0 = 0 and ?e5.0 = 0 and ?e6.0 = 0 and ?e7.0 = 0])
    (simp_all add: demo_post_def demo_wait_2)

lemma failed_start_recovers_witness:
  "hook_start (demo_thread_api 0) 3 32780 demo_idle \<lparr>demo_posts = 2, demo_spent = 0\<rparr> =
     Returned (hr_of (demo_thread_api 0) 5, demo_idle, \<lparr>demo_posts = 2, demo_spent = 0\<rparr>) \<and> FAILED (hr_of (demo_thread_api 0) 5)"
  by (rule failed_start_recovers [OF demo_thread_laws(1), where h = 7 and tid = 42 and ?e1.0 = 0 and ?e2.0 = 0
        and ?w1.0 = "\<lparr>demo_posts = 2, demo_spent = 0\<rparr>" and ?w2.0 = "\<lparr>demo_posts = 2, demo_spent = 0\<rparr>"
        and ?w3.0 = "\<lparr>demo_posts = 2, demo_spent = 0\<rparr>" and ?e3.0 = 0 and ?e4.0 = 0])
    (simp_all add: demo_wait_2 win32_hr_def)

text \<open>A worker whose exit code is a failure leaves the handle of the destroyed window behind.\<close>

lemma window_stop_keeps_hwnd:
  assumes "stopThread A (post_close A (wc_hwnd c)) (the (ct_hthread c)) (c\<lparr>ct_state := kStopping\<rparr>) w = Returned (hr, c1, w1)"
    and "FAILED hr" "ct_state c = kRunning" "\<not> FAILED (validateThreadAccess A c w)" "wc_hwnd c \<noteq> 0"
  shows "window_stop A c w = Returned (hr, c1, w1)"
  using assms by (simp add: window_stop_def)

end
