(* ===== verification/TrayIcon.thy ===== *)
theory TrayIcon
  imports Threads Registry
begin

text \<open>
  \<open>win32/TrayIcon\<close> and \<open>message/MessageWindow\<close>: the icon in the notification area and the window that
  owns it.  An object is known by its address \<open>this\<close>; \<open>that\<close> is the thread-local pointer to the icon
  attached by the thread, and the other static members are the record \<open>message_statics\<close>.  \<open>msg_api\<close>
  extends the calls of the thread controllers; a call that fails also returns the last error.
\<close>

section \<open>win32/TrayIcon\<close>

text \<open>The argument of \<open>Shell_NotifyIconW\<close>: what \<open>NIM_DELETE\<close> and \<open>NIM_SETFOCUS\<close> read of it is the window,
  the icon's number being always \<open>kTrayIconId\<close>.\<close>

record tray_data =
  td_hwnd :: handle
  td_flags :: dword
  td_callback :: dword
  td_icon :: handle
  td_tip :: wstr

datatype notify_icon = NimAdd tray_data | NimSetVersion tray_data | NimDelete handle | NimSetFocus handle

type_synonym wparam = "64 word"
type_synonym lparam = "64 word"

record 'w msg_api = "'w thread_api" +
  shell_notify :: "notify_icon \<Rightarrow> 'w \<Rightarrow> bool \<times> 'w"
  set_foreground :: "handle \<Rightarrow> 'w \<Rightarrow> bool \<times> 'w"
  set_msg_hook :: "dword \<Rightarrow> 'w \<Rightarrow> handle \<times> dword \<times> 'w"
  unhook_msg :: "handle \<Rightarrow> 'w \<Rightarrow> bool \<times> dword \<times> 'w"
  call_next_hook :: "handle \<Rightarrow> int \<Rightarrow> wparam \<Rightarrow> lparam \<Rightarrow> 'w \<Rightarrow> 64 word \<times> 'w"
  track_popup :: "handle \<Rightarrow> int \<Rightarrow> int \<Rightarrow> handle \<Rightarrow> 'w \<Rightarrow> bool \<times> dword \<times> 'w"
  post_null :: "handle \<Rightarrow> 'w \<Rightarrow> bool \<times> dword \<times> 'w"
  register_message :: "wstr \<Rightarrow> 'w \<Rightarrow> dword \<times> dword \<times> 'w"
  load_icon :: "handle \<Rightarrow> dword \<Rightarrow> 'w \<Rightarrow> handle \<times> dword"
  load_menu :: "handle \<Rightarrow> dword \<Rightarrow> 'w \<Rightarrow> handle \<times> 'w"
  get_sub_menu :: "handle \<Rightarrow> 'w \<Rightarrow> handle"
  destroy_window :: "handle \<Rightarrow> 'w \<Rightarrow> 'w"
  post_quit :: "hresult \<Rightarrow> 'w \<Rightarrow> 'w"
  set_last_error :: "dword \<Rightarrow> 'w \<Rightarrow> 'w"
  def_window_proc :: "handle \<Rightarrow> dword \<Rightarrow> wparam \<Rightarrow> lparam \<Rightarrow> 'w \<Rightarrow> 64 word \<times> 'w"
  set_user_data :: "handle \<Rightarrow> handle \<Rightarrow> 'w \<Rightarrow> handle \<times> dword \<times> 'w"
  get_user_data :: "handle \<Rightarrow> 'w \<Rightarrow> handle"
  create_params :: "lparam \<Rightarrow> handle"

(* @ app/win32/TrayIcon.h:10-15 TrayIconConfig *)
record TrayIconConfig =
  cfg_flags :: dword
  cfg_callback_message :: dword
  cfg_icon_handle :: handle
  cfg_message :: "wstr option"

(* @ app/win32/TrayIcon.h:56-60 TrayIconBase *)
record TrayIcon =
  ti_hwnd :: handle
  ti_hhook :: handle
  ti_logger :: "Logger option"

(* @ app/win32/TrayIcon.cc:63-67 TrayIconBase::TrayIconBase *)
definition makeTrayIcon :: TrayIcon where
  "makeTrayIcon = \<lparr>ti_hwnd = 0, ti_hhook = 0, ti_logger = None\<rparr>"

definition ti_note ::
  "(nat \<Rightarrow> LogGroup \<Rightarrow> wstr \<Rightarrow> hresult \<Rightarrow> Logger option \<Rightarrow> Logger option) \<Rightarrow> ('w, 'a) thread_api_scheme \<Rightarrow> 'w \<Rightarrow>
   string \<Rightarrow> hresult \<Rightarrow> TrayIcon \<Rightarrow> TrayIcon" where
  "ti_note level A w msg hr t = t\<lparr>ti_logger := level (now_of A w) GroupWin32 (widen msg) hr (ti_logger t)\<rparr>"

text \<open>\<open>wcsncpy_s\<close> copies the whole message, which the static assertions of the template keep below 128
  characters.\<close>

(* @ app/win32/TrayIcon.cc:91-108 TrayIconBase::attach *)
definition tray_data_of :: "TrayIconConfig \<Rightarrow> handle \<Rightarrow> tray_data" where
  "tray_data_of config hwnd =
     \<lparr>td_hwnd = hwnd, td_flags = cfg_flags config, td_callback = cfg_callback_message config,
      td_icon = cfg_icon_handle config, td_tip = (case cfg_message config of None \<Rightarrow> [] | Some m \<Rightarrow> m)\<rparr>"

text \<open>The result: the returned value, the icon, the thread-local pointer and the world.\<close>

(* @ app/win32/TrayIcon.cc:75-132 TrayIconBase::attach *)
definition base_attach ::
  "('w, 'a) msg_api_scheme \<Rightarrow> handle \<Rightarrow> TrayIconConfig \<Rightarrow> handle \<Rightarrow> bool \<Rightarrow> TrayIcon \<Rightarrow> handle \<Rightarrow> 'w \<Rightarrow>
   hresult \<times> TrayIcon \<times> handle \<times> 'w" where
  "base_attach A this config hwnd force t that w =
     (if ti_hwnd t \<noteq> 0 \<and> ti_hwnd t \<noteq> hwnd then
        (E_UNEXPECTED,
         ti_note log_error A w ''Failed to attach the tray icon because it is already attached to a different window.''
           E_UNEXPECTED t, that, w)
      else if \<not> force \<and> ti_hwnd t \<noteq> 0 then (S_OK, t, that, w)
      else if that \<noteq> 0 \<and> that \<noteq> this then
        (kErrorAlreadyExists A,
         ti_note log_error A w ''Failed to attach the tray icon because another tray icon is already attached to this thread.''
           (kErrorAlreadyExists A) t, that, w)
      else
        let data = tray_data_of config hwnd;
            (rc, w1) = shell_notify A (NimAdd data) w
        in if \<not> rc then
             (E_FAIL, ti_note log_error A w1 ''Failed to add the tray icon to the notification area.'' E_FAIL t, that, w1)
           else
             let (rc2, w2) = shell_notify A (NimSetVersion data) w1 in
             if \<not> rc2 then
               let (rc3, w3) = shell_notify A (NimDelete hwnd) w2;
                   t1 = ti_note log_error A w3 ''Failed to set the tray icon notification version.'' E_FAIL t
               in if \<not> rc3 then
                    (E_FAIL,
                     ti_note log_error A w3 ''Failed to remove the tray icon after notification version setup failed.''
                       E_FAIL (t1\<lparr>ti_hwnd := hwnd\<rparr>), this, w3)
                  else (E_FAIL, t1, that, w3)
             else (S_OK, t\<lparr>ti_hwnd := hwnd\<rparr>, this, w2))"

(* @ app/win32/TrayIcon.cc:134-161 TrayIconBase::detach *)
definition base_detach ::
  "('w, 'a) msg_api_scheme \<Rightarrow> handle \<Rightarrow> TrayIcon \<Rightarrow> handle \<Rightarrow> 'w \<Rightarrow> hresult \<times> TrayIcon \<times> handle \<times> 'w" where
  "base_detach A this t that w =
     (if ti_hwnd t = 0 then (S_OK, t, that, w)
      else if that = 0 \<or> that \<noteq> this then
        (kErrorInvalidOperation A,
         ti_note log_error A w ''Failed to detach the tray icon because it is not attached to this thread.''
           (kErrorInvalidOperation A) t, that, w)
      else
        let (rc, w1) = shell_notify A (NimDelete (ti_hwnd t)) w in
        if \<not> rc then
          (E_FAIL, ti_note log_error A w1 ''Failed to delete the tray icon from the notification area.'' E_FAIL t, that, w1)
        else (S_OK, t\<lparr>ti_hwnd := 0\<rparr>, 0, w1))"

(* @ app/win32/TrayIcon.cc:163-176 TrayIconBase::restoreFocusToNotificationArea *)
definition restoreFocusToNotificationArea ::
  "('w, 'a) msg_api_scheme \<Rightarrow> TrayIcon \<Rightarrow> 'w \<Rightarrow> hresult \<times> TrayIcon \<times> 'w" where
  "restoreFocusToNotificationArea A t w =
     (let (rc, w1) = shell_notify A (NimSetFocus (ti_hwnd t)) w in
      if \<not> rc then
        (E_FAIL, ti_note log_error A w1 ''Failed to restore focus to the notification area.'' E_FAIL t, w1)
      else (S_OK, t, w1))"

text \<open>\<open>icon\<close> is the icon \<open>that_\<close> points to, if any; \<open>escape\<close> tells whether the message is
  \<open>WM_KEYDOWN\<close> of \<open>VK_ESCAPE\<close>.  \<open>MSGF_MENU\<close> is 2.\<close>

(* @ app/win32/TrayIcon.cc:178-191 TrayIconBase::menuMessageProc *)
definition menuMessageProc ::
  "('w, 'a) msg_api_scheme \<Rightarrow> int \<Rightarrow> bool \<Rightarrow> wparam \<Rightarrow> lparam \<Rightarrow> TrayIcon option \<Rightarrow> 'w \<Rightarrow>
   64 word \<times> TrayIcon option \<times> 'w" where
  "menuMessageProc A code escape wparam lparam icon w =
     (case icon of
        None \<Rightarrow> (0, None, w)
      | Some t \<Rightarrow>
          let (t1, w1) = (if code = 2 \<and> escape then snd (restoreFocusToNotificationArea A t w) else (t, w));
              (res, w2) = call_next_hook A (ti_hhook t1) code wparam lparam w1
          in (res, Some t1, w2))"

(* @ app/win32/TrayIcon.cc:193-209 TrayIconBase::tryUnhookMessageProc *)
definition tryUnhookMessageProc ::
  "('w, 'a) msg_api_scheme \<Rightarrow> handle \<Rightarrow> TrayIcon \<Rightarrow> 'w \<Rightarrow> hresult \<times> TrayIcon \<times> 'w" where
  "tryUnhookMessageProc A hhook t w =
     (let (rc, lasterr, w1) = unhook_msg A hhook w in
      if \<not> rc \<and> lasterr \<noteq> ERROR_INVALID_HOOK_HANDLE then
        (HResultFromWin32 A lasterr,
         ti_note log_error A w1 ''Failed to remove the tray menu focus hook.'' (HResultFromWin32 A lasterr) t, w1)
      else (S_OK, t\<lparr>ti_hhook := 0\<rparr>, w1))"

(* @ app/win32/TrayIcon.cc:15-20 LongPtrToPoint *)
definition LongPtrToPoint :: "lparam \<Rightarrow> int \<times> int" where
  "LongPtrToPoint lparam =
     (sint (ucast lparam :: 16 word), sint (ucast (drop_bit 16 lparam) :: 16 word))"

(* @ app/win32/TrayIcon.cc:211-262 TrayIconBase::showMenu *)
definition showMenu ::
  "('w, 'a) msg_api_scheme \<Rightarrow> handle \<Rightarrow> handle \<Rightarrow> wparam \<Rightarrow> dword \<Rightarrow> TrayIcon \<Rightarrow> 'w \<Rightarrow> hresult \<times> TrayIcon \<times> 'w" where
  "showMenu A hmenu hwnd wparam thread_id t w =
     (let (hr, t1, w1) = (if ti_hhook t \<noteq> 0 then tryUnhookMessageProc A (ti_hhook t) t w else (S_OK, t, w)) in
      if FAILED hr then (hr, t1, w1)
      else
        let (rc, w2) = set_foreground A hwnd w1 in
        if \<not> rc then
          (E_FAIL, ti_note log_error A w2 ''Failed to bring the tray menu owner window to the foreground.'' E_FAIL t1, w2)
        else
          let (hhook, err, w3) = set_msg_hook A thread_id w2;
              t2 = (if hhook = 0
                    then ti_note log_warn A w3 ''Failed to install the optional tray menu focus hook.''
                           (LastErrorAsHResult A err) t1
                    else t1\<lparr>ti_hhook := hhook\<rparr>);
              (x, y) = LongPtrToPoint wparam;
              (rc2, err2, w4) = track_popup A hmenu x y hwnd w3;
              (hr2, t3) =
                (if \<not> rc2
                 then (LastErrorAsHResult A err2,
                       ti_note log_error A w4 ''Failed to display the tray menu.'' (LastErrorAsHResult A err2) t2)
                 else (hr, t2));
              (hr3, t4, w5) =
                (if hhook \<noteq> 0 then
                   let (unhook_hr, t', w') = tryUnhookMessageProc A hhook t3 w4
                   in (if FAILED unhook_hr \<and> hr2 = S_OK then unhook_hr else hr2, t', w')
                 else (hr2, t3, w4));
              (rc3, err3, w6) = post_null A hwnd w5;
              t5 = (if \<not> rc3
                    then ti_note log_warn A w6 ''Failed to post a message after showing the tray menu.''
                           (LastErrorAsHResult A err3) t4
                    else t4)
          in (hr3, t5, w6))"

text \<open>\<open>WM_NULL\<close> is 0; the argument is the static \<open>kTaskbarCreatedWindowCommand\<close>.\<close>

(* @ app/win32/TrayIcon.cc:270-282 TrayIconBase::initialize *)
definition base_initialize :: "('w, 'a) msg_api_scheme \<Rightarrow> dword \<Rightarrow> 'w \<Rightarrow> hresult \<times> dword \<times> 'w" where
  "base_initialize A taskbar w =
     (if taskbar \<noteq> 0 then (S_OK, taskbar, w)
      else
        let (taskbar_created, err, w1) = register_message A (widen ''TaskbarCreated'') w in
        if taskbar_created = 0 then (LastErrorAsHResult A err, taskbar, w1)
        else (S_OK, taskbar_created, w1))"

text \<open>The template arguments \<open>CallbackMessage\<close>, \<open>IconId\<close> and the message.\<close>

(* @ app/win32/TrayIcon.h:74-79 TrayIcon *)
record tray_params =
  CallbackMessage :: dword
  IconId :: dword
  MessageText :: "wstr option"

(* @ app/win32/TrayIcon.h:93-113 TrayIcon::attach *)
definition tray_attach ::
  "('w, 'a) msg_api_scheme \<Rightarrow> tray_params \<Rightarrow> handle \<Rightarrow> handle \<Rightarrow> handle \<Rightarrow> bool \<Rightarrow> TrayIcon \<Rightarrow> handle \<Rightarrow> 'w \<Rightarrow>
   hresult \<times> TrayIcon \<times> handle \<times> 'w" where
  "tray_attach A P icon_handle this hwnd force t that w =
     (if IconId P \<noteq> 0 \<and> icon_handle = 0 then (E_UNEXPECTED, t, that, w)
      else
        let flags = (0x01 OR (if IconId P \<noteq> 0 then 0x02 else 0)) OR
              (if MessageText P \<noteq> None then 0x04 OR 0x80 else 0)
        in base_attach A this
             \<lparr>cfg_flags = flags, cfg_callback_message = CallbackMessage P, cfg_icon_handle = icon_handle,
              cfg_message = MessageText P\<rparr> hwnd force t that w)"

(* @ app/win32/TrayIcon.h:115-129 TrayIcon::initialize *)
definition tray_initialize ::
  "('w, 'a) msg_api_scheme \<Rightarrow> tray_params \<Rightarrow> handle \<Rightarrow> handle \<Rightarrow> dword \<Rightarrow> 'w \<Rightarrow> hresult \<times> handle \<times> dword \<times> 'w" where
  "tray_initialize A P hinstance icon_handle taskbar w =
     (let (icon, err) = (if IconId P \<noteq> 0 \<and> icon_handle = 0 then load_icon A hinstance (IconId P) w else (icon_handle, 0))
      in if IconId P \<noteq> 0 \<and> icon = 0 then (LastErrorAsHResult A err, icon_handle, taskbar, w)
         else
           let (hr, taskbar', w1) = base_initialize A taskbar w in (hr, icon, taskbar', w1))"

end
