(* ===== verification/MessageWindow.thy ===== *)
theory MessageWindow
  imports TrayIcon
begin

text \<open>
  \<open>message/MessageWindow\<close> and the window procedure of \<open>win32/WindowController.cc\<close>: the messages of the
  hidden window, its notification icon and its listeners.  \<open>call ev l\<close> is the effect on the world of a
  listener's handler for the event \<open>ev\<close>.  Messages that the menu's own loop dispatches while it is
  open are not modelled.  The second half shows that the icon is tracked: what the
  notification area shows for a window is always reachable from an attached icon of the thread.
\<close>

(* @ app/message/IMessageListener.h:5-12 IMessageListener *)
datatype message_event = onAppExitRequested | onDisplayChangedMessage | onShowSettingsRequested

(* @ app/message/MessageWindow.h:46-47 Window *)
record 'l MessageWindow = WindowController +
  mw_tray :: TrayIcon
  mw_listeners :: "'l list"

text \<open>The static members: \<open>hinstance_\<close>, \<open>icon_handle_\<close>, \<open>kTaskbarCreatedWindowCommand\<close> and \<open>hmenu_\<close>.\<close>

record message_statics =
  ms_hinstance :: handle
  ms_icon :: handle
  ms_taskbar :: dword
  ms_hmenu :: handle

(* @ app/message/MessageWindow.h:17-17 kMessageWindowMessageTrayCommand *)
definition kMessageWindowMessageTrayCommand :: dword where "kMessageWindowMessageTrayCommand = 0x8001"

(* @ app/message/MessageWindow.h:24-28 Window::TrayIcon *)
definition message_tray :: tray_params where
  "message_tray =
     \<lparr>CallbackMessage = kMessageWindowMessageTrayCommand, IconId = 101, MessageText = Some (widen ''Roxy Glance'')\<rparr>"

(* @ app/message/MessageWindow.cc:9-14 kMessageWindowStartParams *)
definition kMessageWindowStartParams :: WindowStartParams where
  "kMessageWindowStartParams =
     \<lparr>class_name = widen ''Mntone.RoxyGlance.MessageWindow'', parent_hwnd = 0,
      window_exstyle = 0x00000004 OR 0x00200000 OR 0x08000000, window_style = 0x80000000 OR 0x08000000\<rparr>"

(* @ app/message/MessageWindow.cc:28-31 Window::Window *)
definition makeMessageWindow :: "'l MessageWindow" where
  "makeMessageWindow =
     WindowController.extend makeWindowController \<lparr>mw_tray = makeTrayIcon, mw_listeners = []\<rparr>"

(* @ app/message/MessageWindow.cc:33-58 Window::initialize *)
definition message_initialize ::
  "('w, 'a) msg_api_scheme \<Rightarrow> message_statics \<Rightarrow> 'w \<Rightarrow> hresult \<times> message_statics \<times> 'w" where
  "message_initialize A st w =
     (if ms_hmenu st \<noteq> 0 then (S_OK, st, w)
      else
        let (hr, hinstance) = window_controller_initialize A (ms_hinstance st) w;
            st1 = st\<lparr>ms_hinstance := hinstance\<rparr>
        in if FAILED hr then (hr, st1, w)
           else
             let (hr2, icon, taskbar, w1) = tray_initialize A message_tray hinstance (ms_icon st1) (ms_taskbar st1) w;
                 st2 = st1\<lparr>ms_icon := icon, ms_taskbar := taskbar\<rparr>
             in if FAILED hr2 then (hr2, st2, w1)
                else
                  let (hmenu, w2) = load_menu A hinstance 103 w1 in
                  if hmenu = 0 then (E_FAIL, st2, w2) else (S_OK, st2\<lparr>ms_hmenu := hmenu\<rparr>, w2))"

(* @ app/message/MessageWindow.cc:60-62 Window::start *)
definition message_start ::
  "('w, 'a) msg_api_scheme \<Rightarrow> message_statics \<Rightarrow> 'l MessageWindow \<Rightarrow> 'w \<Rightarrow> (hresult \<times> 'l MessageWindow \<times> 'w) outcome" where
  "message_start A st mw w = window_start A (ms_hinstance st) kMessageWindowStartParams mw w"

text \<open>The messages by their numbers in \<open>winuser.h\<close>.\<close>

definition WM_CREATE :: dword where "WM_CREATE = 0x0001"
definition WM_DESTROY :: dword where "WM_DESTROY = 0x0002"
definition WM_CLOSE :: dword where "WM_CLOSE = 0x0010"
definition WM_CONTEXTMENU :: "64 word" where "WM_CONTEXTMENU = 0x007B"
definition WM_DISPLAYCHANGE :: dword where "WM_DISPLAYCHANGE = 0x007E"
definition WM_COMMAND :: dword where "WM_COMMAND = 0x0111"
definition WM_LBUTTONUP :: "64 word" where "WM_LBUTTONUP = 0x0202"

lemmas wm_defs = WM_CREATE_def WM_DESTROY_def WM_CLOSE_def WM_CONTEXTMENU_def WM_DISPLAYCHANGE_def
  WM_COMMAND_def WM_LBUTTONUP_def kMessageWindowMessageTrayCommand_def

(* @ app/message/MessageWindowResource.h:19-24 command *)
definition kTrayExit :: "64 word" where "kTrayExit = 40300 + 1"
(* @ app/message/MessageWindowResource.h:19-24 command *)
definition kTraySettings :: "64 word" where "kTraySettings = 40300 + 2"

definition LOWORD :: "64 word \<Rightarrow> 64 word" where "LOWORD x = x AND 0xFFFF"

text \<open>The last lines of the procedure, reached by every \<open>break\<close> of its switch.\<close>

(* @ app/message/MessageWindow.cc:119-123 Window::windowProc *)
definition window_proc_default ::
  "('w, 'a) msg_api_scheme \<Rightarrow> handle \<Rightarrow> message_statics \<Rightarrow> handle \<Rightarrow> dword \<Rightarrow> wparam \<Rightarrow> lparam \<Rightarrow>
   'l MessageWindow \<Rightarrow> handle \<Rightarrow> 'w \<Rightarrow> 64 word \<times> 'l MessageWindow \<times> handle \<times> 'w" where
  "window_proc_default A this st hwnd message wparam lparam mw that w =
     (if message = ms_taskbar st then
        let (_, t, that', w1) = tray_attach A message_tray (ms_icon st) this hwnd True (mw_tray mw) that w
        in (0, mw\<lparr>mw_tray := t\<rparr>, that', w1)
      else
        let (res, w1) = def_window_proc A hwnd message wparam lparam w in (res, mw, that, w1))"

(* @ app/message/MessageWindow.cc:64-124 Window::windowProc *)
definition windowProc ::
  "('w, 'a) msg_api_scheme \<Rightarrow> handle \<Rightarrow> message_statics \<Rightarrow> (message_event \<Rightarrow> 'l \<Rightarrow> 'w \<Rightarrow> 'w) \<Rightarrow>
   handle \<Rightarrow> dword \<Rightarrow> wparam \<Rightarrow> lparam \<Rightarrow> 'l MessageWindow \<Rightarrow> handle \<Rightarrow> 'w \<Rightarrow>
   64 word \<times> 'l MessageWindow \<times> handle \<times> 'w" where
  "windowProc A this st call hwnd message wparam lparam mw that w =
     (let default = window_proc_default A this st hwnd message wparam lparam;
          fire = (\<lambda>ev w. notify (call ev) (mw_listeners mw) w);
          focus = (\<lambda>w. let (_, t, w1) = restoreFocusToNotificationArea A (mw_tray mw) w in (mw\<lparr>mw_tray := t\<rparr>, w1))
      in if message = kMessageWindowMessageTrayCommand then
           (if LOWORD lparam = WM_CONTEXTMENU then
              let popup_menu = get_sub_menu A (ms_hmenu st) w in
              if popup_menu \<noteq> 0 then
                let (_, t, w1) = showMenu A popup_menu hwnd wparam (ct_thread_id mw) (mw_tray mw) w
                in (0, mw\<lparr>mw_tray := t\<rparr>, that, w1)
              else (0, mw, that, w)
            else if LOWORD lparam = WM_LBUTTONUP then (0, mw, that, fire onShowSettingsRequested w)
            else default mw that w)
         else if message = WM_COMMAND then
           (if LOWORD wparam = kTrayExit then
              let (mw1, w1) = focus w in (0, mw1, that, fire onAppExitRequested w1)
            else if LOWORD wparam = kTraySettings then
              let (mw1, w1) = focus w in (0, mw1, that, fire onShowSettingsRequested w1)
            else default mw that w)
         else if message = WM_CREATE then
           (let (hr, t, that', w1) = tray_attach A message_tray (ms_icon st) this hwnd False (mw_tray mw) that w;
                mw1 = mw\<lparr>mw_tray := t\<rparr>
            in if FAILED hr then (-1, mw1, that', set_last_error A (HResultToWin32 hr ERROR_CAN_NOT_COMPLETE) w1)
               else (0, mw1, that', w1))
         else if message = WM_DESTROY then
           (let (hr, t, that', w1) = base_detach A this (mw_tray mw) that w
            in (0, mw\<lparr>mw_tray := t\<rparr>, that', post_quit A hr w1))
         else if message = WM_DISPLAYCHANGE then default mw that (fire onDisplayChangedMessage w)
         else if message = WM_CLOSE then (0, mw, that, destroy_window A hwnd w)
         else default mw that w)"

text \<open>The registered procedure finds the controller in the window's user data; \<open>proc\<close> is the virtual
  \<open>windowProc\<close> of the controller at an address.  \<open>None\<close>: \<open>throw_last_error\<close> in a \<open>noexcept\<close> function.\<close>

(* @ app/win32/WindowController.cc:30-55 WindowProc *)
definition WindowProc ::
  "('w, 'a) msg_api_scheme \<Rightarrow> (handle \<Rightarrow> handle \<Rightarrow> dword \<Rightarrow> wparam \<Rightarrow> lparam \<Rightarrow> 'w \<Rightarrow> 64 word \<times> 'w) \<Rightarrow>
   handle \<Rightarrow> dword \<Rightarrow> wparam \<Rightarrow> lparam \<Rightarrow> 'w \<Rightarrow> (64 word \<times> 'w) option" where
  "WindowProc A proc hwnd message wparam lparam w =
     (if message = WM_CREATE then
        let controller = create_params A lparam;
            (rc, lasterr, w1) = set_user_data A hwnd controller w
        in if rc = 0 \<and> lasterr \<noteq> ERROR_SUCCESS then None
           else Some (proc controller hwnd message wparam lparam w1)
      else
        let controller = get_user_data A hwnd w in
        if controller \<noteq> 0 then Some (proc controller hwnd message wparam lparam w)
        else Some (def_window_proc A hwnd message wparam lparam w))"

section \<open>The icons of a thread\<close>

text \<open>\<open>shown w\<close> is the set of windows whose icon the notification area shows.\<close>

definition tray_law :: "('w, 'a) msg_api_scheme \<Rightarrow> ('w \<Rightarrow> handle set) \<Rightarrow> bool" where
  "tray_law A shown \<longleftrightarrow>
     (\<forall>d w rc w'. shell_notify A (NimAdd d) w = (rc, w') \<longrightarrow>
        shown w' = (if rc then insert (td_hwnd d) (shown w) else shown w)) \<and>
     (\<forall>d w rc w'. shell_notify A (NimSetVersion d) w = (rc, w') \<longrightarrow> shown w' = shown w) \<and>
     (\<forall>h w rc w'. shell_notify A (NimDelete h) w = (rc, w') \<longrightarrow>
        shown w' = (if rc then shown w - {h} else shown w)) \<and>
     (\<forall>h w rc w'. shell_notify A (NimSetFocus h) w = (rc, w') \<longrightarrow> shown w' = shown w)"

lemma tray_lawD:
  assumes "tray_law A shown"
  shows "shell_notify A (NimAdd d) w = (rc, w') \<Longrightarrow> shown w' = (if rc then insert (td_hwnd d) (shown w) else shown w)"
    and "shell_notify A (NimSetVersion d) w = (rc, w') \<Longrightarrow> shown w' = shown w"
    and "shell_notify A (NimDelete h) w = (rc, w') \<Longrightarrow> shown w' = (if rc then shown w - {h} else shown w)"
    and "shell_notify A (NimSetFocus h) w = (rc, w') \<Longrightarrow> shown w' = shown w"
  using assms unfolding tray_law_def by metis+

lemma ti_note_sel [simp]:
  "ti_hwnd (ti_note f A w msg hr t) = ti_hwnd t" "ti_hhook (ti_note f A w msg hr t) = ti_hhook t"
  by (simp_all add: ti_note_def)

text \<open>Any number of icons may be used on the thread; between the calls the shell may lose icons, as when
  it is restarted.\<close>

inductive tray_reach ::
  "('w, 'a) msg_api_scheme \<Rightarrow> ('w \<Rightarrow> handle set) \<Rightarrow> (handle \<Rightarrow> TrayIcon) \<Rightarrow> handle \<Rightarrow> 'w \<Rightarrow> bool" for A shown where
  init: "shown w = {} \<Longrightarrow> tray_reach A shown (\<lambda>_. makeTrayIcon) 0 w"
| shell: "tray_reach A shown icons that w \<Longrightarrow> shown w' \<subseteq> shown w \<Longrightarrow> tray_reach A shown icons that w'"
| attach: "tray_reach A shown icons that w \<Longrightarrow> this \<noteq> 0 \<Longrightarrow> hwnd \<noteq> 0 \<Longrightarrow>
    tray_attach A P icon this hwnd force (icons this) that w = (hr, t, that', w') \<Longrightarrow>
    tray_reach A shown (icons(this := t)) that' w'"
| detach: "tray_reach A shown icons that w \<Longrightarrow> this \<noteq> 0 \<Longrightarrow>
    base_detach A this (icons this) that w = (hr, t, that', w') \<Longrightarrow>
    tray_reach A shown (icons(this := t)) that' w'"
| focus: "tray_reach A shown icons that w \<Longrightarrow> this \<noteq> 0 \<Longrightarrow>
    restoreFocusToNotificationArea A (icons this) w = (hr, t, w') \<Longrightarrow>
    tray_reach A shown (icons(this := t)) that w'"

definition tray_inv :: "('w \<Rightarrow> handle set) \<Rightarrow> (handle \<Rightarrow> TrayIcon) \<Rightarrow> handle \<Rightarrow> 'w \<Rightarrow> bool" where
  "tray_inv shown icons that w \<longleftrightarrow>
     (\<forall>i. ti_hwnd (icons i) \<noteq> 0 \<longleftrightarrow> i = that \<and> i \<noteq> 0) \<and> (\<forall>h\<in>shown w. that \<noteq> 0 \<and> h = ti_hwnd (icons that))"

lemma base_attach_cases:
  assumes "base_attach A this config hwnd force t that w = (hr, t', that', w')"
    and "shell_notify A (NimAdd (tray_data_of config hwnd)) w = (rc1, w1)"
    and "shell_notify A (NimSetVersion (tray_data_of config hwnd)) w1 = (rc2, w2)"
    and "shell_notify A (NimDelete hwnd) w2 = (rc3, w3)"
  shows "ti_hwnd t' = ti_hwnd t \<and> that' = that \<and>
      (w' = w \<or> \<not> rc1 \<and> w' = w1 \<or> rc1 \<and> \<not> rc2 \<and> rc3 \<and> w' = w3) \<or>
    (that = 0 \<or> that = this) \<and> (ti_hwnd t = 0 \<or> ti_hwnd t = hwnd) \<and> rc1 \<and> ti_hwnd t' = hwnd \<and> that' = this \<and>
      (rc2 \<and> w' = w2 \<or> \<not> rc2 \<and> \<not> rc3 \<and> w' = w3)"
proof -
  consider (refused) "ti_hwnd t \<noteq> 0 \<and> ti_hwnd t \<noteq> hwnd \<or> \<not> force \<and> ti_hwnd t \<noteq> 0 \<or> that \<noteq> 0 \<and> that \<noteq> this"
    | (tried) "ti_hwnd t = 0 \<or> ti_hwnd t = hwnd" "force \<or> ti_hwnd t = 0" "that = 0 \<or> that = this" by argo
  then show ?thesis
  proof cases
    case refused
    then have "ti_hwnd t' = ti_hwnd t \<and> that' = that \<and> w' = w"
      using assms(1) unfolding base_attach_def by (simp split: if_splits; auto)
    then show ?thesis by simp
  next
    case tried
    then have n: "\<not> (ti_hwnd t \<noteq> 0 \<and> ti_hwnd t \<noteq> hwnd)" "\<not> (\<not> force \<and> ti_hwnd t \<noteq> 0)" "\<not> (that \<noteq> 0 \<and> that \<noteq> this)"
      by argo+
    from assms(1) have "(hr, t', that', w') = base_attach A this config hwnd force t that w" by (rule sym)
    then show ?thesis
      unfolding base_attach_def if_not_P [OF n(1)] if_not_P [OF n(2)] if_not_P [OF n(3)] Let_def assms(2-4) prod.case
      using tried(1,3) by (cases rc1; cases rc2; cases rc3; simp)
  qed
qed

lemma attach_cases:
  assumes "tray_law A shown" "tray_attach A P icon this hwnd force t that w = (hr, t', that', w')"
  shows "ti_hwnd t' = ti_hwnd t \<and> that' = that \<and> shown w' \<subseteq> shown w \<or>
    (that = 0 \<or> that = this) \<and> (ti_hwnd t = 0 \<or> ti_hwnd t = hwnd) \<and>
      ti_hwnd t' = hwnd \<and> that' = this \<and> shown w' \<subseteq> insert hwnd (shown w)"
proof (cases "IconId P \<noteq> 0 \<and> icon = 0")
  case True
  then have "t' = t \<and> that' = that \<and> w' = w" using assms(2) by (simp add: tray_attach_def)
  then show ?thesis by simp
next
  case False
  then obtain config where a: "base_attach A this config hwnd force t that w = (hr, t', that', w')"
    using assms(2) by (auto simp: tray_attach_def Let_def)
  obtain rc1 w1 where n1: "shell_notify A (NimAdd (tray_data_of config hwnd)) w = (rc1, w1)" by fastforce
  obtain rc2 w2 where n2: "shell_notify A (NimSetVersion (tray_data_of config hwnd)) w1 = (rc2, w2)" by fastforce
  obtain rc3 w3 where n3: "shell_notify A (NimDelete hwnd) w2 = (rc3, w3)" by fastforce
  have "shown w1 = (if rc1 then insert hwnd (shown w) else shown w)" "shown w2 = shown w1"
    "shown w3 = (if rc3 then shown w2 - {hwnd} else shown w2)"
    using tray_lawD(1) [OF assms(1) n1] tray_lawD(2) [OF assms(1) n2] tray_lawD(3) [OF assms(1) n3]
    by (simp_all add: tray_data_of_def)
  then have "rc1 \<Longrightarrow> shown w2 \<subseteq> insert hwnd (shown w)" "rc1 \<Longrightarrow> shown w3 \<subseteq> insert hwnd (shown w)"
    "\<not> rc1 \<Longrightarrow> shown w1 \<subseteq> shown w" "rc1 \<Longrightarrow> rc3 \<Longrightarrow> shown w3 \<subseteq> shown w"
    by (simp_all split: if_splits) blast+
  then show ?thesis using base_attach_cases [OF a n1 n2 n3] by blast
qed

lemma detach_cases:
  assumes "tray_law A shown" "base_detach A this t that w = (hr, t', that', w')"
  shows "ti_hwnd t' = ti_hwnd t \<and> that' = that \<and> shown w' = shown w \<or>
    ti_hwnd t' = 0 \<and> that = this \<and> that' = 0 \<and> shown w' = shown w - {ti_hwnd t}"
proof -
  obtain rc w1 where n: "shell_notify A (NimDelete (ti_hwnd t)) w = (rc, w1)" by fastforce
  have "ti_hwnd t' = ti_hwnd t \<and> that' = that \<and> (w' = w \<or> \<not> rc \<and> w' = w1) \<or>
    ti_hwnd t' = 0 \<and> that = this \<and> that' = 0 \<and> rc \<and> w' = w1"
    using assms(2) n by (auto simp: base_detach_def split: if_splits)
  then show ?thesis using tray_lawD(3) [OF assms(1) n] by metis
qed

lemma tray_inv_attach:
  assumes "tray_law A shown" "tray_inv shown icons that w" "this \<noteq> 0" "hwnd \<noteq> 0"
    and "tray_attach A P icon this hwnd force (icons this) that w = (hr, t, that', w')"
  shows "tray_inv shown (icons(this := t)) that' w'"
  using attach_cases [OF assms(1,5)] assms(2-4) unfolding tray_inv_def by (auto split: if_splits)

lemma tray_inv_detach:
  assumes "tray_law A shown" "tray_inv shown icons that w" "this \<noteq> 0"
    and "base_detach A this (icons this) that w = (hr, t, that', w')"
  shows "tray_inv shown (icons(this := t)) that' w'"
  using detach_cases [OF assms(1,4)] assms(2,3) unfolding tray_inv_def by (auto split: if_splits)

lemma focus_cases:
  assumes "tray_law A shown" "restoreFocusToNotificationArea A t w = (hr, t', w')"
  shows "ti_hwnd t' = ti_hwnd t \<and> shown w' = shown w"
  using assms(2) by (auto simp: restoreFocusToNotificationArea_def Let_def split: prod.splits if_splits
      dest!: tray_lawD [OF assms(1)])

lemma tray_reach_inv:
  assumes "tray_reach A shown icons that w" "tray_law A shown"
  shows "tray_inv shown icons that w"
  using assms
proof (induction rule: tray_reach.induct)
  case (focus icons that w this hr t w')
  then show ?case using focus_cases [OF focus.prems focus.hyps(3)] by (auto simp: tray_inv_def)
next
  case (attach icons that w this hwnd P icon force hr t that' w')
  show ?case
    by (rule tray_inv_attach [OF attach.prems attach.IH [OF attach.prems] attach.hyps(2-4)])
next
  case (detach icons that w this hr t that' w')
  show ?case by (rule tray_inv_detach [OF detach.prems detach.IH [OF detach.prems] detach.hyps(2,3)])
qed (auto simp: tray_inv_def makeTrayIcon_def)

text \<open>C30: The icons of a thread.  Whatever icons are attached, detached or given the focus in whatever
  order, and whatever the shell answers, at most one icon is attached to the thread; an icon the notification area
  shows belongs to the window of the attached one, so it can still be removed; and detaching an attached
  icon is never refused: it deletes the icon and fails only when the shell fails.\<close>

theorem one_icon_and_no_orphan:
  assumes "tray_reach A shown icons that w" "tray_law A shown"
  shows "(ti_hwnd (icons i) \<noteq> 0 \<longrightarrow> ti_hwnd (icons j) \<noteq> 0 \<longrightarrow> i = j) \<and>
    (h \<in> shown w \<longrightarrow> that \<noteq> 0 \<and> ti_hwnd (icons that) = h) \<and>
    (ti_hwnd (icons i) \<noteq> 0 \<longrightarrow>
       base_detach A i (icons i) that w =
         (let (rc, w') = shell_notify A (NimDelete (ti_hwnd (icons i))) w in
          if rc then (S_OK, (icons i)\<lparr>ti_hwnd := 0\<rparr>, 0, w')
          else (E_FAIL, ti_note log_error A w' ''Failed to delete the tray icon from the notification area.'' E_FAIL (icons i),
                that, w')))"
proof -
  have inv: "ti_hwnd (icons i) \<noteq> 0 \<longleftrightarrow> i = that \<and> i \<noteq> 0" "h \<in> shown w \<Longrightarrow> that \<noteq> 0 \<and> h = ti_hwnd (icons that)" for i h
    using tray_reach_inv [OF assms] unfolding tray_inv_def by blast+
  have det: "base_detach A i (icons i) that w =
         (let (rc, w') = shell_notify A (NimDelete (ti_hwnd (icons i))) w in
          if rc then (S_OK, (icons i)\<lparr>ti_hwnd := 0\<rparr>, 0, w')
          else (E_FAIL, ti_note log_error A w' ''Failed to delete the tray icon from the notification area.'' E_FAIL (icons i),
                that, w'))" if "ti_hwnd (icons i) \<noteq> 0"
  proof -
    have "i = that" "i \<noteq> 0" using inv(1) [of i] \<open>ti_hwnd (icons i) \<noteq> 0\<close> by blast+
    then show ?thesis
      using \<open>ti_hwnd (icons i) \<noteq> 0\<close> unfolding base_detach_def
      by (cases "shell_notify A (NimDelete (ti_hwnd (icons i))) w") simp
  qed
  show ?thesis
  proof (intro conjI impI)
    show "i = j" if "ti_hwnd (icons i) \<noteq> 0" "ti_hwnd (icons j) \<noteq> 0"
      using that inv(1) [of i] inv(1) [of j] by metis
    show "that \<noteq> 0" "ti_hwnd (icons that) = h" if "h \<in> shown w"
      using inv(2) [OF that] by simp_all
  qed (rule det)
qed


text \<open>A notification area that is a set of windows.\<close>

definition demo_notify :: "notify_icon \<Rightarrow> handle set \<Rightarrow> bool \<times> handle set" where
  "demo_notify n w =
     (case n of NimAdd d \<Rightarrow> (True, insert (td_hwnd d) w) | NimSetVersion d \<Rightarrow> (True, w)
      | NimDelete h \<Rightarrow> (h \<in> w, w - {h}) | NimSetFocus h \<Rightarrow> (h \<in> w, w))"

definition demo_msg_api :: "handle set msg_api" where
  "demo_msg_api =
     \<lparr>hr_of = win32_hr, begin_thread = (\<lambda>w. (7, 42, 0, 0, w)), wait_object = (\<lambda>h d w. (0, 0, w)),
      current_thread = (\<lambda>w. 41), exit_code_thread = (\<lambda>h w. (True, 0, 0)), close_thread = (\<lambda>h w. (True, 0, w)),
      post_thread_quit = (\<lambda>t w. (True, 0, w)), post_close = (\<lambda>h w. (True, 0, w)),
      set_event_hook = (\<lambda>a b w. (5, 0, w)), unhook_event = (\<lambda>h w. (True, 0, w)),
      register_class = (\<lambda>n w. (True, 0, w)), unregister_class = (\<lambda>n w. (True, 0, w)),
      create_window = (\<lambda>n a b p w. (9, 0, w)), module_handle = (\<lambda>w. (3, 0)),
      new_ok = (\<lambda>w. True), tsc = (\<lambda>w. 1), now_of = (\<lambda>w. 0), arch32 = False,
      uniform_of = (\<lambda>smax g. (smax, g)),
      shell_notify = demo_notify, set_foreground = (\<lambda>h w. (True, w)), set_msg_hook = (\<lambda>t w. (6, 0, w)),
      unhook_msg = (\<lambda>h w. (True, 0, w)), call_next_hook = (\<lambda>h c wp lp w. (0, w)),
      track_popup = (\<lambda>m x y h w. (True, 0, w)), post_null = (\<lambda>h w. (True, 0, w)),
      register_message = (\<lambda>n w. (0xC001, 0, w)), load_icon = (\<lambda>h n w. (11, 0)), load_menu = (\<lambda>h n w. (12, w)),
      get_sub_menu = (\<lambda>m w. 13), destroy_window = (\<lambda>h w. w), post_quit = (\<lambda>hr w. w),
      set_last_error = (\<lambda>e w. w), def_window_proc = (\<lambda>h m wp lp w. (0, w)),
      set_user_data = (\<lambda>h c w. (1, 0, w)), get_user_data = (\<lambda>h w. 0), create_params = (\<lambda>lp. 1)\<rparr>"

lemma demo_msg_api_sel [simp]:
  "shell_notify demo_msg_api = demo_notify" "post_quit demo_msg_api = (\<lambda>hr w. w)"
  "destroy_window demo_msg_api = (\<lambda>h w. w)" "set_last_error demo_msg_api = (\<lambda>e w. w)"
  by (simp_all add: demo_msg_api_def)

lemma demo_tray_law: "tray_law demo_msg_api (\<lambda>w. w)"
  by (auto simp: tray_law_def demo_notify_def)

definition demo_icon :: TrayIcon where "demo_icon = makeTrayIcon\<lparr>ti_hwnd := 9\<rparr>"

lemma demo_attached: "tray_reach demo_msg_api (\<lambda>w. w) ((\<lambda>_. makeTrayIcon)(1 := demo_icon)) 1 {9}"
proof (rule tray_reach.attach)
  show "tray_reach demo_msg_api (\<lambda>w. w) (\<lambda>_. makeTrayIcon) 0 {}" by (rule tray_reach.init) simp
  show "tray_attach demo_msg_api message_tray 11 1 9 False makeTrayIcon 0 {} = (S_OK, demo_icon, 1, {9})"
    by (simp add: tray_attach_def base_attach_def message_tray_def makeTrayIcon_def demo_notify_def tray_data_of_def
        demo_icon_def)
qed simp_all

lemma one_icon_and_no_orphan_witness:
  "base_detach demo_msg_api 1 demo_icon 1 {9} = (S_OK, demo_icon\<lparr>ti_hwnd := 0\<rparr>, 0, {})"
proof -
  let ?icons = "(\<lambda>_. makeTrayIcon)(1 := demo_icon)"
  have at: "ti_hwnd (?icons 1) \<noteq> 0" by (simp add: demo_icon_def)
  have not: "demo_notify (NimDelete 9) {9} = (True, {})" by (simp add: demo_notify_def)
  have ic: "?icons 1 = demo_icon" "ti_hwnd demo_icon = 9" by (simp_all add: demo_icon_def)
  show ?thesis
    using one_icon_and_no_orphan [OF demo_attached demo_tray_law, of 1 1 9] at
    unfolding ic demo_msg_api_sel not Let_def prod.case if_True by blast
qed

end
