(* ===== verification/App.thy ===== *)
theory App
  imports MessageWindow UserSettings Monitor
begin

text \<open>
  \<open>context/AppContext\<close>, \<open>context/OperationContext\<close> and \<open>window/WindowStateWatcher\<close>'s worker: how the
  components are wired, started and stopped.  The one logger of the application is lent to a
  component for the duration of a call and taken back after it; the other threads' use of it is not
  modelled.  The three records of calls act on one world.
\<close>

section \<open>The objects\<close>

text \<open>The listeners of the store, of the message window and of the window-state watcher by what they are.\<close>

datatype app_listener = RuleEngineListener | MonitorListener | WindowEventLogAdapterListener

(* @ app/context/AppContext.h:28-38 AppContext *)
record ('t, 'n, 'f, 'c) AppContext =
  app_monitor :: "('f, 'c) MonitorStateCache"
  app_logger :: Logger
  app_store :: "('t, 'n, app_listener) UserSettingsStore"
  app_window :: "app_listener MessageWindow"
  app_statics :: message_statics
  app_watcher :: MessageLoopThreadController
  app_watcher_listeners :: "app_listener list"

text \<open>The constructor; the loggers of the components are lent when they are called.\<close>

(* @ app/context/AppContext.cc:34-53 AppContext::AppContext *)
definition makeAppContext ::
  "bool \<Rightarrow> ('t, 'n) UserSettingsDocument \<Rightarrow> message_statics \<Rightarrow> MessageLoopThreadController \<Rightarrow>
   app_listener list \<Rightarrow> ('t, 'n, 'f, 'c) AppContext" where
  "makeAppContext debug doc statics watcher watcher_listeners =
     \<lparr>app_monitor = \<lparr>mon_storage = [], mon_callbacks = [], mon_log = None\<rparr>,
      app_logger = makeLogger debug,
      app_store = \<lparr>store_listeners = snd (addListener RuleEngineListener []), document = doc, store_logger = None\<rparr>,
      app_window = makeMessageWindow\<lparr>mw_listeners := snd (addListener MonitorListener [])\<rparr>,
      app_statics = statics,
      app_watcher = watcher,
      app_watcher_listeners =
        (let ls = snd (addListener RuleEngineListener watcher_listeners) in
         if debug then snd (addListener WindowEventLogAdapterListener ls) else ls)\<rparr>"

definition app_note ::
  "('w, 'a) thread_api_scheme \<Rightarrow> 'w \<Rightarrow> string \<Rightarrow> hresult \<Rightarrow> ('t, 'n, 'f, 'c) AppContext \<Rightarrow> ('t, 'n, 'f, 'c) AppContext" where
  "app_note T w msg hr a =
     a\<lparr>app_logger := the (log_error (now_of T w) GroupContext (widen msg) hr (Some (app_logger a)))\<rparr>"

section \<open>The calls of initialize\<close>

(* @ app/context/OperationContext.cc:6-8 OperationContext::initialize *)
definition operation_context_initialize ::
  "('w, 'm) mon_api_scheme \<Rightarrow> ('w, 'a) thread_api_scheme \<Rightarrow> ('f \<Rightarrow> 'c \<Rightarrow> MonitorStates \<Rightarrow> 'w \<Rightarrow> 'w) \<Rightarrow>
   ('t, 'n, 'f, 'c) AppContext \<Rightarrow> 'w \<Rightarrow> hresult \<times> ('t, 'n, 'f, 'c) AppContext \<times> 'w" where
  "operation_context_initialize M T call a w =
     (let (hr, mc, w') = cache_initialize M (now_of T w) call ((app_monitor a)\<lparr>mon_log := Some (app_logger a)\<rparr>) w
      in (hr, a\<lparr>app_monitor := mc\<lparr>mon_log := None\<rparr>, app_logger := the (mon_log mc)\<rparr>, w'))"

text \<open>\<open>load\<close>, with the logger lent to the store; \<open>on_changed\<close> is the effect of a listener.\<close>

record ('w, 't, 'n) settings_env =
  env_local_folder :: "exn + path"
  env_on_changed :: "app_listener \<Rightarrow> ('t, 'n) UserSettingsDocument \<Rightarrow> 'w \<Rightarrow> 'w"
  env_sleep :: "dword \<Rightarrow> 'w \<Rightarrow> 'w"

definition app_load ::
  "('w, 'b) file_api_scheme \<Rightarrow> ('t, 'n, 'y) ryml_scheme \<Rightarrow> ('w, 'a) thread_api_scheme \<Rightarrow> ('w, 't, 'n) settings_env \<Rightarrow>
   ('t, 'n, 'f, 'c) AppContext \<Rightarrow> 'w \<Rightarrow> (hresult \<times> ('t, 'n, 'f, 'c) AppContext \<times> 'w) option" where
  "app_load Fi Y T E a w =
     map_option (\<lambda>(hr, st, w'). (hr, a\<lparr>app_store := st\<lparr>store_logger := None\<rparr>, app_logger := the (store_logger st)\<rparr>, w'))
       (load Fi Y (env_local_folder E) (now_of T w) (env_on_changed E)
          ((app_store a)\<lparr>store_logger := Some (app_logger a)\<rparr>) w)"

(* @ app/context/AppContext.cc:72-72 AppContext::initialize *)
definition settings_backoff :: exp_params where
  "settings_backoff = \<lparr>MinDelay = 1000, MaxDelay = 10000, Factor = 0x40000000, JitterGenerator = NoJitter\<rparr>"

(* @ app/context/AppContext.cc:72-72 AppContext::initialize *)
definition settings_attempts :: dword where "settings_attempts = 3"

text \<open>The loop that loads the settings.  It returns the last \<open>hr\<close> and the retry state; \<open>FastFailed\<close> is an
  exception that ends the process inside \<open>load\<close>.\<close>

(* @ app/context/AppContext.cc:73-91 AppContext::initialize *)
function load_loop ::
  "('w, 'b) file_api_scheme \<Rightarrow> ('t, 'n, 'y) ryml_scheme \<Rightarrow> ('w, 'a) thread_api_scheme \<Rightarrow> ('w, 't, 'n) settings_env \<Rightarrow>
   exponential_backoff RetryState \<Rightarrow> ('t, 'n, 'f, 'c) AppContext \<Rightarrow> 'w \<Rightarrow>
   (hresult \<times> exponential_backoff RetryState \<times> ('t, 'n, 'f, 'c) AppContext \<times> 'w) outcome" where
  "load_loop Fi Y T E retry a w =
     (case app_load Fi Y T E a w of
        None \<Rightarrow> FastFailed
      | Some (hr, a1, w1) \<Rightarrow>
          if SUCCEEDED hr then Returned (hr, retry, a1, w1)
          else if \<not> IsTransientReadError Fi hr then
            Returned (hr, rs_forceExpire settings_attempts retry, a1, w1)
          else
            let retry1 = rs_advanceAttempt retry in
            if \<not> rs_available settings_attempts retry1 then Returned (hr, retry1, a1, w1)
            else
              let delay = rs_currentDelay exp_current retry1; w2 = env_sleep E delay w1 in
              (case rs_nextDelay (exp_next (uniform_of T) settings_backoff) retry1 of
                 None \<Rightarrow> Undefined
               | Some (_, retry2) \<Rightarrow> load_loop Fi Y T E retry2 a1 w2))"
  by pat_completeness auto

text \<open>Only available states are retried, so the attempts left before the next advance decrease.\<close>

lemma load_loop_measure:
  assumes "rs_available settings_attempts (rs_advanceAttempt r)"
    and "rs_nextDelay f (rs_advanceAttempt r) = Some (d, r')"
  shows "3 - unat (rs_attempts r' + 1) < 3 - unat (rs_attempts r + 1)"
proof -
  have lt: "unat (rs_attempts r + 1) < 3"
    using assms(1) by (simp add: rs_defs settings_attempts_def word_less_nat_alt)
  have "rs_attempts r' = rs_attempts r + 1" using assms(2) by (auto simp: rs_defs)
  moreover have "unat (x + 1) = unat x + 1" if "unat x < 3" for x :: dword
    using that by (simp add: unat_plus_if_size word_size)
  note this [OF lt]
  ultimately show ?thesis using lt by simp
qed

termination load_loop
  by (relation "measure (\<lambda>(Fi, Y, T, E, retry, a, w). 3 - unat (rs_attempts retry + 1))")
    (auto simp del: rs_defs intro: load_loop_measure)

declare load_loop.simps [simp del]

(* @ app/context/AppContext.cc:72-97 AppContext::initialize *)
definition app_load_settings ::
  "('w, 'b) file_api_scheme \<Rightarrow> ('t, 'n, 'y) ryml_scheme \<Rightarrow> ('w, 'a) thread_api_scheme \<Rightarrow> ('w, 't, 'n) settings_env \<Rightarrow>
   ('t, 'n, 'f, 'c) AppContext \<Rightarrow> 'w \<Rightarrow> (('t, 'n, 'f, 'c) AppContext \<times> 'w) outcome" where
  "app_load_settings Fi Y T E a w =
     obind (load_loop Fi Y T E (rs_make (exp_make settings_backoff (Xorshift32 0))) a w) (\<lambda>(hr, retry, a1, w1).
       if rs_expired settings_attempts retry then
         (if hr = kErrorNotEnoughMemory Fi then FastFailed
          else Returned (app_note T w1 ''Failed to load the user settings.'' hr a1, w1))
       else Returned (a1, w1))"

section \<open>Starting and stopping\<close>

text \<open>The window and the watcher with the logger lent to them, and the logger taken back.\<close>

definition lend_window :: "('t, 'n, 'f, 'c) AppContext \<Rightarrow> app_listener MessageWindow" where
  "lend_window a = (app_window a)\<lparr>ct_logger := Some (app_logger a)\<rparr>"

definition return_window :: "app_listener MessageWindow \<Rightarrow> ('t, 'n, 'f, 'c) AppContext \<Rightarrow> ('t, 'n, 'f, 'c) AppContext" where
  "return_window mw a = a\<lparr>app_window := mw\<lparr>ct_logger := None\<rparr>, app_logger := the (ct_logger mw)\<rparr>"

definition lend_watcher :: "('t, 'n, 'f, 'c) AppContext \<Rightarrow> MessageLoopThreadController" where
  "lend_watcher a = (app_watcher a)\<lparr>ct_logger := Some (app_logger a)\<rparr>"

definition return_watcher :: "MessageLoopThreadController \<Rightarrow> ('t, 'n, 'f, 'c) AppContext \<Rightarrow> ('t, 'n, 'f, 'c) AppContext" where
  "return_watcher c a = a\<lparr>app_watcher := c\<lparr>ct_logger := None\<rparr>, app_logger := the (ct_logger c)\<rparr>"

definition app_window_start ::
  "('w, 'a) msg_api_scheme \<Rightarrow> ('t, 'n, 'f, 'c) AppContext \<Rightarrow> 'w \<Rightarrow> (hresult \<times> ('t, 'n, 'f, 'c) AppContext \<times> 'w) outcome" where
  "app_window_start T a w =
     obind (message_start T (app_statics a) (lend_window a) w) (\<lambda>(hr, mw, w1). Returned (hr, return_window mw a, w1))"

definition app_window_stop ::
  "('w, 'a) msg_api_scheme \<Rightarrow> ('t, 'n, 'f, 'c) AppContext \<Rightarrow> 'w \<Rightarrow> (hresult \<times> ('t, 'n, 'f, 'c) AppContext \<times> 'w) outcome" where
  "app_window_stop T a w =
     obind (window_stop T (lend_window a) w) (\<lambda>(hr, mw, w1). Returned (hr, return_window mw a, w1))"

(* @ app/window/WindowStateWatcher.cc:12-18 StateWatcher::start *)
definition watcher_start ::
  "('w, 'a) msg_api_scheme \<Rightarrow> ('t, 'n, 'f, 'c) AppContext \<Rightarrow> 'w \<Rightarrow> (hresult \<times> ('t, 'n, 'f, 'c) AppContext \<times> 'w) outcome" where
  "watcher_start T a w =
     obind (hook_start T EVENT_SYSTEM_FOREGROUND EVENT_OBJECT_NAMECHANGE (lend_watcher a) w)
       (\<lambda>(hr, c, w1). Returned (hr, return_watcher c a, w1))"

(* @ app/window/WindowStateWatcher.cc:20-22 StateWatcher::stop *)
definition watcher_stop ::
  "('w, 'a) msg_api_scheme \<Rightarrow> ('t, 'n, 'f, 'c) AppContext \<Rightarrow> 'w \<Rightarrow> (hresult \<times> ('t, 'n, 'f, 'c) AppContext \<times> 'w) outcome" where
  "watcher_stop T a w =
     obind (hook_stop T (lend_watcher a) w) (\<lambda>(hr, c, w1). Returned (hr, return_watcher c a, w1))"

(* @ app/context/AppContext.cc:99-120 AppContext::initialize *)
definition app_start_threads ::
  "('w, 'a) msg_api_scheme \<Rightarrow> ('t, 'n, 'f, 'c) AppContext \<Rightarrow> 'w \<Rightarrow> (hresult \<times> ('t, 'n, 'f, 'c) AppContext \<times> 'w) outcome" where
  "app_start_threads T a w =
     obind (app_window_start T a w) (\<lambda>(hr, a1, w1).
       if FAILED hr then Returned (hr, app_note T w1 ''Failed to start the message window.'' hr a1, w1)
       else
         obind (watcher_start T a1 w1) (\<lambda>(hr, a2, w2).
           if FAILED hr then
             let a3 = app_note T w2 ''Failed to start the window state watcher.'' hr a2 in
             obind (app_window_stop T a3 w2) (\<lambda>(msgstop_hr, a4, w3).
               Returned (hr,
                 (if FAILED msgstop_hr
                  then app_note T w3 ''Failed to stop the message window after initialization failed.'' msgstop_hr a4
                  else a4), w3))
           else Returned (S_OK, a2, w2)))"

(* @ app/context/AppContext.cc:59-120 AppContext::initialize *)
definition app_initialize ::
  "('w, 'm) mon_api_scheme \<Rightarrow> ('w, 'b) file_api_scheme \<Rightarrow> ('t, 'n, 'y) ryml_scheme \<Rightarrow> ('w, 'a) msg_api_scheme \<Rightarrow>
   ('w, 't, 'n) settings_env \<Rightarrow> ('f \<Rightarrow> 'c \<Rightarrow> MonitorStates \<Rightarrow> 'w \<Rightarrow> 'w) \<Rightarrow> ('t, 'n, 'f, 'c) AppContext \<Rightarrow> 'w \<Rightarrow>
   (hresult \<times> ('t, 'n, 'f, 'c) AppContext \<times> 'w) outcome" where
  "app_initialize M Fi Y T E call a w =
     (let (hr, a1, w1) = operation_context_initialize M T call a w in
      if FAILED hr then Returned (hr, app_note T w1 ''Failed to initialize the operation context.'' hr a1, w1)
      else
        let (hr, st, w2) = message_initialize T (app_statics a1) w1; a2 = a1\<lparr>app_statics := st\<rparr> in
        if FAILED hr then Returned (hr, app_note T w2 ''Failed to initialize the message window.'' hr a2, w2)
        else obind (app_load_settings Fi Y T E a2 w2) (\<lambda>(a3, w3). app_start_threads T a3 w3))"

(* @ app/context/AppContext.cc:122-136 AppContext::exit *)
definition app_exit ::
  "('w, 'a) msg_api_scheme \<Rightarrow> ('t, 'n, 'f, 'c) AppContext \<Rightarrow> 'w \<Rightarrow> (hresult \<times> ('t, 'n, 'f, 'c) AppContext \<times> 'w) outcome" where
  "app_exit T a w =
     obind (watcher_stop T a w) (\<lambda>(hr, a1, w1).
       let a2 = (if FAILED hr then app_note T w1 ''Failed to stop the window state watcher.'' hr a1 else a1) in
       obind (app_window_stop T a2 w1) (\<lambda>(hr, a3, w2).
         Returned (S_OK,
           (if FAILED hr then app_note T w2 ''Failed to stop the message window.'' hr a3 else a3), w2)))"

section \<open>The debug listener\<close>

text \<open>\<open>std::format\<close> of \<open>{:#010x}\<close>: the prefix \<open>0x\<close> and at least 8 hexadecimal digits, a negative number
  with its sign in front.\<close>

fun hex_digits :: "nat \<Rightarrow> string" where
  "hex_digits n =
     (let d = (''0123456789abcdef'' ! (n mod 16)) in if n < 16 then [d] else hex_digits (n div 16) @ [d])"

declare hex_digits.simps [simp del]

definition hex_010 :: "nat \<Rightarrow> string" where
  "hex_010 n = ''0x'' @ replicate (8 - length (hex_digits n)) (CHR ''0'') @ hex_digits n"

text \<open>The arguments of \<open>format\<close> are evaluated in the order of the text; the method is \<open>noexcept\<close>, so an
  exception of a getter ends the process (\<open>None\<close>).  A handle is positive as an \<open>intptr_t\<close>.\<close>

(* @ app/debug/WindowEventLogAdapter.cc:8-18 WindowEventLogAdapter::handleEvent *)
definition handleEvent ::
  "('w, 'a) win_api_scheme \<Rightarrow> nat \<Rightarrow> string \<Rightarrow> 'w \<Rightarrow> WindowState \<Rightarrow> Logger option \<Rightarrow> (WindowState \<times> Logger option) option" where
  "handleEvent A now event_name w s lg =
     (case windowTitle A w s of
        (Inl _, _) \<Rightarrow> None
      | (Inr title, s1) \<Rightarrow>
          (case processId A w s1 of
             Some (Inr pid, s2) \<Rightarrow>
               (case processImageName A w s2 of
                  Some (Inr image_name, s3) \<Rightarrow>
                    (case windowClass A w s3 of
                       (Inl _, _) \<Rightarrow> None
                     | (Inr cls, s4) \<Rightarrow>
                         Some (s4, log_trace now GroupDebug
                           (title @ widen ('' (hwnd='' @ hex_010 (ws_hwnd s4) @ '', pid='' @ nat_dec (unat pid) @ '', image_name='') @
                            image_name @ widen '', class='' @ cls @ widen (''): '' @ event_name)) S_FALSE lg))
                | _ \<Rightarrow> None)
           | _ \<Rightarrow> None))"

(* @ app/debug/WindowEventLogAdapter.h:16-18 WindowEventLogAdapter::onForegroundEvent *)
definition log_adapter_onForegroundEvent where
  "log_adapter_onForegroundEvent A now = handleEvent A now ''EVENT_SYSTEM_FOREGROUND''"

(* @ app/debug/WindowEventLogAdapter.h:20-22 WindowEventLogAdapter::onShowEvent *)
definition log_adapter_onShowEvent where
  "log_adapter_onShowEvent A now = handleEvent A now ''EVENT_OBJECT_SHOW''"

end
