(* ===== verification/Startup.thy ===== *)
theory Startup
  imports App Threads_Properties
begin

text \<open>
  What the start of the two worker threads leaves behind.  \<open>running w\<close> is the set of the threads, by
  their handles, that have been begun and have not ended; \<open>thread_law\<close> says how the calls of a controller
  change it, \<open>quiet_law\<close> that no other call of the start-up begins a thread.
\<close>

section \<open>The laws\<close>

definition no_new :: "('w \<Rightarrow> handle set) \<Rightarrow> ('w \<Rightarrow> 'w) \<Rightarrow> bool" where
  "no_new running f \<longleftrightarrow> (\<forall>w. running (f w) \<subseteq> running w)"

lemma no_newD: "no_new running f \<Longrightarrow> running w \<subseteq> S \<Longrightarrow> running (f w) \<subseteq> S"
  unfolding no_new_def by blast

text \<open>Beginning a thread adds it, a wait that is answered by \<open>WAIT_OBJECT_0\<close> shows that the thread has
  ended, and the other calls begin none.\<close>

definition thread_law :: "('w, 'a) thread_api_scheme \<Rightarrow> ('w \<Rightarrow> handle set) \<Rightarrow> bool" where
  "thread_law A running \<longleftrightarrow>
     (\<forall>w h i e1 e2 w'. begin_thread A w = (h, i, e1, e2, w') \<longrightarrow>
        running w' \<subseteq> (if h = 0 then running w else insert h (running w))) \<and>
     (\<forall>h d w s e w'. wait_object A h d w = (s, e, w') \<longrightarrow>
        running w' \<subseteq> (if s = WAIT_OBJECT_0 then running w - {h} else running w)) \<and>
     (\<forall>h. no_new running (\<lambda>w. snd (snd (close_thread A h w)))) \<and>
     (\<forall>h. no_new running (\<lambda>w. snd (snd (post_close A h w)))) \<and>
     (\<forall>a b. no_new running (\<lambda>w. snd (snd (set_event_hook A a b w)))) \<and>
     (\<forall>n. no_new running (\<lambda>w. snd (snd (register_class A n w)))) \<and>
     (\<forall>n. no_new running (\<lambda>w. snd (snd (unregister_class A n w)))) \<and>
     (\<forall>n x y p. no_new running (\<lambda>w. snd (snd (create_window A n x y p w))))"

lemma thread_lawD:
  assumes "thread_law A running"
  shows "begin_thread A w = (h, i, e1, e2, w') \<Longrightarrow> running w' \<subseteq> (if h = 0 then running w else insert h (running w))"
    and "wait_object A k d w = (s, e, w') \<Longrightarrow> running w' \<subseteq> (if s = WAIT_OBJECT_0 then running w - {k} else running w)"
    and "close_thread A k w = (rc, e, w') \<Longrightarrow> running w' \<subseteq> running w"
    and "post_close A k w = (rc, e, w') \<Longrightarrow> running w' \<subseteq> running w"
    and "set_event_hook A a b w = (k, e, w') \<Longrightarrow> running w' \<subseteq> running w"
    and "register_class A n w = (rc, e, w') \<Longrightarrow> running w' \<subseteq> running w"
    and "unregister_class A n w = (rc, e, w') \<Longrightarrow> running w' \<subseteq> running w"
    and "create_window A n x y p w = (k, e, w') \<Longrightarrow> running w' \<subseteq> running w"
  using assms unfolding thread_law_def no_new_def by (metis snd_conv)+

text \<open>The calls of the worker's prologue fail with an error code, and the thread that starts the
  workers is none of them.\<close>

definition start_law :: "('w, 'a) thread_api_scheme \<Rightarrow> bool" where
  "start_law A \<longleftrightarrow>
     (\<forall>n w e w'. register_class A n w = (False, e, w') \<longrightarrow> e \<noteq> 0) \<and>
     (\<forall>n x y p w e w'. create_window A n x y p w = (0, e, w') \<longrightarrow> e \<noteq> 0) \<and>
     (\<forall>w h i e1 e2 w1 w'. begin_thread A w = (h, i, e1, e2, w1) \<longrightarrow> current_thread A w' \<noteq> i)"

lemma start_lawD:
  assumes "start_law A"
  shows "register_class A n w = (False, e, w') \<Longrightarrow> e \<noteq> 0"
    and "create_window A n x y p w = (0, e, w') \<Longrightarrow> e \<noteq> 0"
    and "begin_thread A w = (h, i, e1, e2, w1) \<Longrightarrow> current_thread A w2 \<noteq> i"
  using assms unfolding start_law_def by metis+

section \<open>One controller\<close>

lemma controller_start_running:
  assumes "thread_law A running" "hr_law A" "controller_start A False c w = (hr, c', w')"
  shows "FAILED hr \<and> c' = c \<and> running w' \<subseteq> running w \<or>
    hr = S_OK \<and> ct_state c = kReady \<and> ct_state c' = kRunning \<and> ct_policy c' = ct_policy c \<and>
    ct_retry_factory c' = ct_retry_factory c \<and>
    (\<exists>h e1 e2. begin_thread A w = (h, ct_thread_id c', e1, e2, w') \<and> ct_hthread c' = Some h \<and>
       running w' \<subseteq> insert h (running w))"
proof -
  obtain h i e1 e2 w1 where b: "begin_thread A w = (h, i, e1, e2, w1)" by (metis prod_cases5)
  show ?thesis
    using assms(3) begin_status_nz thread_lawD(1) [OF assms(1) b] assms(2)
    by (auto simp: controller_start_def kError_defs hr_law_simps b HResultFromWin32_def split: if_splits)
qed

lemma reapThread_running:
  assumes "thread_law A running" "reapThread A h c w = (hr, c', w')"
  shows "running w' \<subseteq> running w"
  using reapThread_cases [OF assms(2)] thread_lawD(3) [OF assms(1)] by blast

lemma reap_start_failure_running:
  assumes "thread_law A running" "reapThreadAfterStartFailure A h c w = Returned (hr, c', w')" "ct_policy c = kFailFast"
  shows "running w' \<subseteq> running w - {h} \<and> ct_state c' \<noteq> kRunning"
proof -
  obtain s e w1 where w: "wait_object A h kStartFailureReapTimeoutMs w = (s, e, w1)" by (metis prod_cases3)
  have r: "s = WAIT_OBJECT_0" "reapThread A h (c\<lparr>ct_state := kStopping\<rparr>) w1 = (hr, c', w')"
    using assms(2,3) by (auto simp: reapThreadAfterStartFailure_def w Let_def split: if_splits prod.splits)
  have "ct_state c' \<noteq> kRunning"
    using reapAfter_cases [OF assms(2,3)] by (auto simp: reaped_def same_thread_def)
  then show ?thesis
    using thread_lawD(2) [OF assms(1) w] reapThread_running [OF assms(1) r(2)] r(1) by auto
qed

text \<open>The loop that stops a thread begins none, and when it returns the thread has ended.\<close>

lemma stop_attempt_running:
  assumes "thread_law A running" "\<And>w rc e w'. post w = (rc, e, w') \<Longrightarrow> running w' \<subseteq> running w"
    and "stop_attempt A post h (retry, c, w) = Some (cont, hr, retry', c', w')"
  shows "running w' \<subseteq> running w"
proof -
  obtain rc err w1 where p: "post w = (rc, err, w1)" by (metis prod_cases3)
  obtain d s e where "wait_object A h d w1 = (s, e, w')"
    using assms(3) by (auto simp: stop_attempt_def Let_def p split: prod.splits if_splits option.splits)
  then have "running w' \<subseteq> running w1" using thread_lawD(2) [OF assms(1)] by (fastforce split: if_splits)
  then show ?thesis using assms(2) [OF p] by blast
qed

lemma stop_loop_running:
  assumes "thread_law A running" "\<And>w rc e w'. post w = (rc, e, w') \<Longrightarrow> running w' \<subseteq> running w"
    and "stop_loop A post h hr retry c w = Some (hr', retry', c', w')"
  shows "running w' \<subseteq> running w"
  using assms(3)
proof (induction "retry_left retry" arbitrary: hr retry c w rule: less_induct)
  case less
  show ?case
  proof (cases "0 < retry_left retry")
    case True
    then obtain cont hr1 r1 c1 w1 where a: "stop_attempt A post h (retry, c, w) = Some (cont, hr1, r1, c1, w1)"
      using less.prems by (auto simp: stop_loop.simps [of A post h hr retry c w] split: option.splits prod.splits)
    have w1: "running w1 \<subseteq> running w" by (rule stop_attempt_running [OF assms(1,2) a])
    show ?thesis
    proof (cases cont)
      case cont: True
      then have "retry_left r1 < retry_left retry" using a True by (auto dest: stop_attempt_left)
      moreover have "stop_loop A post h hr1 r1 c1 w1 = Some (hr', retry', c', w')"
        using less.prems a cont True by (simp add: stop_loop.simps [of A post h hr retry c w])
      ultimately have "running w' \<subseteq> running w1" by (rule less.hyps)
      then show ?thesis using w1 by blast
    next
      case False
      then have "w' = w1" using less.prems a True by (simp add: stop_loop.simps [of A post h hr retry c w])
      then show ?thesis using w1 by simp
    qed
  qed (use less.prems in \<open>simp add: stop_loop.simps [of A post h hr retry c w]\<close>)
qed

lemma stopThread_running:
  assumes "thread_law A running" "\<And>w rc e w'. post w = (rc, e, w') \<Longrightarrow> running w' \<subseteq> running w"
    and "factory_ok (uniform_of A) hi (ct_retry_factory c)" "0 < factory_attempts (ct_retry_factory c)" "ct_policy c = kFailFast"
    and "stopThread A post h c w = Returned (hr, c', w')"
  shows "running w' \<subseteq> running w - {h}"
proof -
  have ended: "exit_law A (\<lambda>w h. h \<notin> running w)"
    unfolding exit_law_def
  proof (intro conjI allI impI)
    show "k \<notin> running v'" if "wait_object A k d v = (WAIT_OBJECT_0, e, v')" for k d v e v'
      using thread_lawD(2) [OF assms(1) that] by auto
    show "k' \<notin> running v'" if "close_thread A k v = (rc, e, v')" "k' \<notin> running v" for k k' v rc e v'
      using thread_lawD(3) [OF assms(1) that(1)] that(2) by blast
  qed
  have h: "h \<notin> running w'"
    using stopThread_runs [OF assms(3,4), of post h w "\<lambda>_. 0" "\<lambda>_. 0" "\<lambda>w h. h \<notin> running w"] ended assms(5,6) by auto
  let ?retry = "factory_make (ct_retry_factory c)"
  obtain cont hr1 r1 c1 w1 where a: "stop_attempt A post h (?retry, c, w) = Some (cont, hr1, r1, c1, w1)"
    using assms(6) by (auto simp: stopThread_def Let_def split: if_splits option.splits prod.splits)
  have w1: "running w1 \<subseteq> running w" by (rule stop_attempt_running [OF assms(1,2) a])
  obtain hr2 r2 c2 w2 where l: "(if cont then stop_loop A post h hr1 r1 c1 w1 else Some (hr1, r1, c1, w1)) = Some (hr2, r2, c2, w2)"
    "w' = w2 \<or> (\<exists>hr c'. reapThread A h c2 w2 = (hr, c', w'))"
  proof -
    define loop where "loop = (if cont then stop_loop A post h hr1 r1 c1 w1 else Some (hr1, r1, c1, w1))"
    have "(case loop of None \<Rightarrow> Undefined
       | Some (hr, r', c', w') \<Rightarrow>
           if expired (retry_vt (uniform_of A)) r' then (if ct_policy c' = kFailFast then FastFailed else Returned (hr, c', w'))
           else Returned (reapThread A h c' w')) = Returned (hr, c', w')"
      using assms(6) a by (simp add: stopThread_def loop_def split: bool.splits if_splits)
    then show thesis using that unfolding loop_def [symmetric] by (auto split: option.splits if_splits)
  qed
  have "running w2 \<subseteq> running w1"
    using l(1) stop_loop_running [of A running post h hr1 r1 c1 w1, OF assms(1,2)] by (cases cont) auto
  moreover have "running w' \<subseteq> running w2" using l(2) reapThread_running [OF assms(1)] by blast
  ultimately show ?thesis using w1 h by blast
qed

section \<open>The two controllers\<close>

lemma window_prologue_running:
  assumes "hr_law A" "start_law A" "thread_law A running" "window_prologue A params ctx w = (hr, hwnd, code, w')"
  shows "running w' \<subseteq> running w \<and> (FAILED hr \<or> hr = S_OK \<and> hwnd \<noteq> 0 \<and>
    (\<exists>w1 e. create_window A (class_name params) (window_exstyle params) (window_style params) (parent_hwnd params) w1 = (hwnd, e, w')))"
proof -
  obtain rc e1 w1 where r: "register_class A (class_name params) w = (rc, e1, w1)" by (metis prod_cases3)
  obtain hw e2 w2 where c: "create_window A (class_name params) (window_exstyle params) (window_style params) (parent_hwnd params) w1
      = (hw, e2, w2)" by (metis prod_cases3)
  obtain rc3 e3 w3 where u: "unregister_class A (class_name params) w2 = (rc3, e3, w3)" by (metis prod_cases3)
  note mono = thread_lawD(6) [OF assms(3) r] thread_lawD(8) [OF assms(3) c] thread_lawD(7) [OF assms(3) u]
  show ?thesis
  proof (cases "rc \<and> hw \<noteq> 0")
    case True
    then have "hr = S_OK" "hwnd = hw" "w' = w2" using assms(4) by (simp_all add: window_prologue_def ctx_notify_def r c)
    then show ?thesis using mono True c by blast
  next
    case False
    then have "FAILED hr" "w' = w1 \<or> w' = w3"
      using assms(4) start_lawD(1) [OF assms(2)] start_lawD(2) [OF assms(2)] r c assms(1)
      by (auto simp: window_prologue_def ctx_notify_def ctx_notifyLastError_def LastErrorAsHResult_def HResultFromWin32_def
          hr_law_simps u Let_def split: if_splits)
    then show ?thesis using mono by blast
  qed
qed

lemma hook_start_running:
  assumes "hr_law A" "thread_law A running" "ctl_wf (uniform_of A) c" "ct_state c = kReady"
    and "hook_start A event_min event_max c w = Returned (hr, c', w')"
  shows "hr = S_OK \<and> ct_state c' = kRunning \<and>
      (\<exists>w1 hook e. set_event_hook A event_min event_max w1 = (hook, e, w') \<and> (hook \<noteq> 0 \<or> e = ERROR_SUCCESS)) \<or>
    FAILED hr \<and> ct_state c' \<noteq> kRunning \<and> running w' \<subseteq> running w"
proof -
  obtain hr1 c1 w1 where s: "controller_start A False c w = (hr1, c1, w1)" by (metis prod_cases3)
  note S = controller_start_running [OF assms(2,1) s]
  show ?thesis
  proof (cases "FAILED hr1")
    case True
    then show ?thesis using S assms(4,5) s by (auto simp: hook_start_def)
  next
    case False
    then obtain h where h: "ct_hthread c1 = Some h" "running w1 \<subseteq> insert h (running w)" "ct_state c1 = kRunning" "ct_policy c1 = kFailFast"
      using S assms(3) by (auto simp: ctl_wf_def)
    obtain hook e w2 where k: "set_event_hook A event_min event_max w1 = (hook, e, w2)" by (metis prod_cases3)
    have w2: "running w2 \<subseteq> insert h (running w)" using thread_lawD(5) [OF assms(2) k] h(2) by blast
    let ?ctx = "if hook = 0 then hr_of A e else S_OK"
    have run: "obind (ctx_wait_and_load ?ctx) (\<lambda>hr.
          if hr \<noteq> S_OK then
            obind (reapThreadAfterStartFailure A h c1 w2) (\<lambda>(_, c2, w3). Returned (hr, c2, w3))
          else if \<not> new_ok A w2 then FastFailed
          else Returned (hr, c1\<lparr>ct_retry_factory := exit_factory A (ct_thread_id c1) w2\<rparr>, w2)) = Returned (hr, c', w')"
    proof -
      have "the (ct_hthread c1) = h" by (simp add: h(1))
      show ?thesis
        unfolding \<open>the (ct_hthread c1) = h\<close> [symmetric]
        using assms(5) False
        by (cases "hook = 0") (simp_all add: hook_start_def s hook_prologue_def k ctx_notify_def ctx_notifyLastError_def
            LastErrorAsHResult_def HResultFromWin32_def)
    qed
    show ?thesis
    proof (cases "?ctx = S_OK")
      case True
      then have "hook \<noteq> 0 \<or> e = ERROR_SUCCESS" using hr_law_simps(2) [OF assms(1), of e] by (cases "hook = 0") simp_all
      then show ?thesis using run True h(3) k by (auto simp: ctx_wait_and_load_def split: if_splits)
    next
      case ne: False
      then have f: "FAILED ?ctx"
        using hr_law_simps(1) [OF assms(1)] hr_law_simps(2) [OF assms(1), of e] by (cases "hook = 0"; cases "e = 0") simp_all
      obtain x where "reapThreadAfterStartFailure A h c1 w2 = Returned (x, c', w')" "hr = ?ctx"
        using run ne by (auto simp: ctx_wait_and_load_def obind_Returned split: if_splits)
      then show ?thesis using reap_start_failure_running [OF assms(2) _ h(4)] w2 f by blast
    qed
  qed
qed

lemma window_start_running:
  assumes "hr_law A" "uniform_law (uniform_of A)" "thread_law A running" "start_law A" "ctl_wf (uniform_of A) c" "ct_state c = kReady"
    and "window_start A hinstance params c w = Returned (hr, c', w')"
  shows "hr = S_OK \<and> ct_state c' = kRunning \<and> wc_hwnd c' \<noteq> 0 \<and> ctl_wf (uniform_of A) c' \<and>
      (\<forall>w. current_thread A w \<noteq> ct_thread_id c') \<and> running w' \<subseteq> insert (the (ct_hthread c')) (running w) \<and>
      (\<exists>w1 e. create_window A (class_name params) (window_exstyle params) (window_style params) (parent_hwnd params) w1
         = (wc_hwnd c', e, w')) \<or>
    FAILED hr \<and> ct_state c' \<noteq> kRunning \<and> running w' \<subseteq> running w"
proof -
  obtain hr1 c1 w1 where s: "controller_start A False c w = (hr1, c1, w1)" by (metis prod_cases3)
  note S = controller_start_running [OF assms(3,1) s]
  show ?thesis
  proof (cases "FAILED hr1")
    case True
    then show ?thesis using S assms(6,7) s by (auto simp: window_start_def split: if_splits)
  next
    case False
    then obtain h e1 e2 where h: "ct_hthread c1 = Some h" "running w1 \<subseteq> insert h (running w)" "ct_state c1 = kRunning"
        "ct_policy c1 = kFailFast" "begin_thread A w = (h, ct_thread_id c1, e1, e2, w1)" "ctl_wf (uniform_of A) c1"
      using S assms(5) ctl_wf_running [OF assms(5), of c1] by (auto simp: ctl_wf_def)
    obtain ctx hwnd code w2 where p: "window_prologue A params ctx_initial w1 = (ctx, hwnd, code, w2)"
      by (metis prod_cases4)
    note P = window_prologue_running [OF assms(1,4,3) p]
    have run: "obind (ctx_wait_and_load ctx) (\<lambda>hr.
            if hr \<noteq> S_OK then
              obind (reapThreadAfterStartFailure A h c1 w2) (\<lambda>(_, c2, w3). Returned (hr, c2, w3))
            else if \<not> new_ok A w2 then FastFailed
            else Returned (S_OK, c1\<lparr>ct_retry_factory := exit_factory A (ct_thread_id c1) w2, wc_hwnd := hwnd\<rparr>, w2)) = Returned (hr, c', w')"
    proof -
      have "hinstance \<noteq> 0" "the (ct_hthread c1) = h" using assms(7) by (auto simp: window_start_def h(1) split: if_splits)
      then show ?thesis unfolding \<open>the (ct_hthread c1) = h\<close> [symmetric] using assms(7) False by (simp add: window_start_def s p)
    qed
    show ?thesis
    proof (cases "ctx = S_OK")
      case True
      then have r: "hr = S_OK" "c' = c1\<lparr>ct_retry_factory := exit_factory A (ct_thread_id c1) w2, wc_hwnd := hwnd\<rparr>" "w' = w2"
        using run by (auto simp: ctx_wait_and_load_def split: if_splits)
      have "ctl_wf (uniform_of A) c'"
        using h(6) exit_factory_ok [OF assms(2)] by (auto simp: r(2) ctl_wf_def)
      moreover have "running w' \<subseteq> insert h (running w)" using P h(2) r(3) by blast
      moreover have "hwnd \<noteq> 0 \<and> (\<exists>w1 e. create_window A (class_name params) (window_exstyle params) (window_style params)
          (parent_hwnd params) w1 = (hwnd, e, w'))"
        using P True r(3) by auto
      ultimately show ?thesis using h start_lawD(3) [OF assms(4) h(5)] by (simp add: r)
    next
      case ne: False
      then have f: "FAILED ctx" using P by blast
      obtain x where "reapThreadAfterStartFailure A h c1 w2 = Returned (x, c', w')" "hr = ctx"
        using run ne by (auto simp: ctx_wait_and_load_def obind_Returned split: if_splits)
      then show ?thesis using reap_start_failure_running [OF assms(3) _ h(4)] P h(2) f by blast
    qed
  qed
qed

lemma window_stop_running:
  assumes "hr_law A" "thread_law A running" "ctl_wf (uniform_of A) c" "ct_state c = kRunning" "wc_hwnd c \<noteq> 0"
    and "current_thread A w \<noteq> ct_thread_id c" "window_stop A c w = Returned (hr, c', w')"
  shows "ct_state c' \<noteq> kRunning \<and> running w' \<subseteq> running w - {the (ct_hthread c)}"
proof -
  let ?c = "c\<lparr>ct_state := kStopping\<rparr>" and ?post = "post_close A (wc_hwnd c)" and ?h = "the (ct_hthread c)"
  have f: "factory_ok (uniform_of A) 10000 (ct_retry_factory ?c)" "0 < factory_attempts (ct_retry_factory ?c)" "ct_policy ?c = kFailFast"
    and th: "ct_hthread c \<noteq> None"
    using assms(3,4) by (auto simp: ctl_wf_def)
  have v: "\<not> FAILED (validateThreadAccess A c w)"
    using th assms(1,6) by (simp add: validateThreadAccess_def HResultFromWin32_def hr_law_simps)
  have r: "obind (stopThread A ?post ?h ?c w)
      (\<lambda>(hr, c1, w1). if FAILED hr then Returned (hr, c1, w1) else Returned (hr, c1\<lparr>wc_hwnd := 0\<rparr>, w1)) = Returned (hr, c', w')"
    using assms(7) unfolding window_stop_def if_not_P [OF v] by (simp add: assms(4,5))
  then obtain hr1 c1 where s: "stopThread A ?post ?h ?c w = Returned (hr1, c1, w')" "c' = c1 \<or> c' = c1\<lparr>wc_hwnd := 0\<rparr>"
    by (auto simp: obind_Returned split: if_splits)
  then have "same_thread ?c c1 \<or> reaped ?c c1" using stopThread_runs [OF f(1,2), of ?post ?h w] by fastforce
  moreover have "running w' \<subseteq> running w - {?h}"
    by (rule stopThread_running [OF assms(2) thread_lawD(4) [OF assms(2)] f s(1)])
  ultimately show ?thesis using s(2) by (auto simp: same_thread_def reaped_def)
qed

section \<open>The rest of the start-up begins no thread\<close>

definition quiet_law ::
  "('w, 'm) mon_api_scheme \<Rightarrow> ('w, 'b) file_api_scheme \<Rightarrow> ('w, 'a) msg_api_scheme \<Rightarrow> ('w, 't, 'n) settings_env \<Rightarrow>
   ('f \<Rightarrow> 'c \<Rightarrow> MonitorStates \<Rightarrow> 'w \<Rightarrow> 'w) \<Rightarrow> ('w \<Rightarrow> handle set) \<Rightarrow> bool" where
  "quiet_law M Fi T E call running \<longleftrightarrow>
     (no_new running (\<lambda>w. snd (GetDisplayConfigBufferSizes M w)) \<and>
      (\<forall>p m. no_new running (\<lambda>w. snd (QueryDisplayConfig M p m w))) \<and>
      (\<forall>f c states. no_new running (call f c states))) \<and>
     ((\<forall>n. no_new running (\<lambda>w. snd (snd (register_message T n w)))) \<and>
      (\<forall>h n. no_new running (\<lambda>w. snd (load_menu T h n w)))) \<and>
     ((\<forall>p. no_new running (\<lambda>w. snd (snd (create_read Fi p w)))) \<and>
      (\<forall>h. no_new running (\<lambda>w. snd (snd (close_handle Fi h w)))) \<and>
      (\<forall>l d. no_new running (env_on_changed E l d)) \<and> (\<forall>d. no_new running (env_sleep E d)))"

lemma quiet_lawD:
  assumes "quiet_law M Fi T E call running"
  shows "running (snd (GetDisplayConfigBufferSizes M w)) \<subseteq> running w"
    and "running (snd (QueryDisplayConfig M p m w)) \<subseteq> running w"
    and "running (call f c states w) \<subseteq> running w"
    and "running (snd (snd (register_message T n w))) \<subseteq> running w"
    and "running (snd (load_menu T k i w)) \<subseteq> running w"
    and "running (snd (snd (create_read Fi path w))) \<subseteq> running w"
    and "running (snd (snd (close_handle Fi file w))) \<subseteq> running w"
    and "running (env_on_changed E l d w) \<subseteq> running w"
    and "running (env_sleep E ms w) \<subseteq> running w"
  using assms unfolding quiet_law_def no_new_def by simp_all

lemma display_config_loop_running:
  assumes "quiet_law M Fi T E call running"
  shows "running (snd (display_config_loop M n w)) \<subseteq> running w"
proof (induction n arbitrary: w rule: less_induct)
  case (less n)
  obtain rc pc mc w1 where g: "GetDisplayConfigBufferSizes M w = ((rc, pc, mc), w1)" by (metis prod_cases3 prod.exhaust)
  obtain rc2 paths w2 where q: "QueryDisplayConfig M pc mc w1 = ((rc2, paths), w2)" by (metis prod.exhaust)
  have "running w1 \<subseteq> running w" "running w2 \<subseteq> running w1"
    using quiet_lawD(1) [OF assms, of w] quiet_lawD(2) [OF assms, of pc mc w1] g q by simp_all
  moreover have "running (snd (display_config_loop M (n - 1) w2)) \<subseteq> running w2" if "1 < n"
    using less.IH [of "n - 1" w2] that by simp
  ultimately show ?case by (subst display_config_loop.simps) (auto simp: g q)
qed

lemma operation_context_initialize_running:
  assumes "quiet_law M Fi T E call running" "operation_context_initialize M T call a w = (hr, a', w')"
  shows "running w' \<subseteq> running w"
proof -
  have fire: "running (invoke (\<lambda>f c. call f c states) cbs v) \<subseteq> running v" for states cbs v
  proof (induction cbs arbitrary: v)
    case (Cons x cbs)
    then show ?case using quiet_lawD(3) [OF assms(1), of "fst x" "snd x" states v] by (cases x) fastforce
  qed simp
  obtain hr1 names w1 where g: "GetMonitorFriendlyNames M [] w = (hr1, names, w1)" by (metis prod_cases3)
  have "w1 = snd (display_config_loop M kDisplayConfigMaxRetries w)"
    using g by (auto simp: GetMonitorFriendlyNames_def split: prod.splits sum.splits)
  then have w1: "running w1 \<subseteq> running w" using display_config_loop_running [OF assms(1)] by simp
  obtain hr2 mc where c: "cache_initialize M (now_of T w) call ((app_monitor a)\<lparr>mon_log := Some (app_logger a)\<rparr>) w = (hr2, mc, w')"
    using assms(2) by (auto simp: operation_context_initialize_def split: prod.splits)
  have "w' \<in> {w, w1} \<or> (\<exists>states cbs v. v \<in> {w, w1} \<and> w' = invoke (\<lambda>f c. call f c states) cbs v)"
    using c by (auto simp: cache_initialize_def g Let_def split: if_splits prod.splits)
  then show ?thesis using fire w1 by blast
qed

lemma tray_initialize_running:
  assumes "quiet_law M Fi T E call running" "tray_initialize T P hinstance icon tb w = (hr, icon', tb', w')"
  shows "running w' \<subseteq> running w"
proof -
  have base: "running v' \<subseteq> running v" if "base_initialize T tb v = (hr, tb', v')" for hr tb' v v'
    using that quiet_lawD(4) [OF assms(1), of _ v]
    by (simp add: base_initialize_def Let_def split: if_splits prod.splits) (metis snd_conv)+
  show ?thesis
    using assms(2) base by (auto simp: tray_initialize_def Let_def split: if_splits prod.splits)
qed

lemma message_initialize_running:
  assumes "quiet_law M Fi T E call running" "message_initialize T st w = (hr, st', w')"
  shows "running w' \<subseteq> running w"
proof (cases "ms_hmenu st \<noteq> 0")
  case False
  obtain hr1 h where i: "window_controller_initialize T (ms_hinstance st) w = (hr1, h)" by fastforce
  obtain hr2 icon tb w1 where t: "tray_initialize T message_tray h (ms_icon st) (ms_taskbar st) w = (hr2, icon, tb, w1)"
    by (metis prod_cases4)
  obtain hmenu w2 where m: "load_menu T h 103 w1 = (hmenu, w2)" by fastforce
  have "w' \<in> {w, w1, w2}"
    using assms(2) False by (auto simp: message_initialize_def i t m Let_def split: if_splits)
  then show ?thesis
    using tray_initialize_running [OF assms(1) t] quiet_lawD(5) [OF assms(1), of h 103 w1] by (auto simp: m)
qed (use assms(2) in \<open>simp add: message_initialize_def\<close>)

lemma load_running:
  assumes "quiet_law M Fi T E call running" "load Fi Y lf now (env_on_changed E) st w = Some (hr, st', w')"
  shows "running w' \<subseteq> running w"
proof (cases "ResolveSettingsPath lf doc_fileName")
  case (Inl e)
  then show ?thesis using assms(2) by (auto simp: load_def)
next
  case (Inr p)
  obtain hr1 bytes w1 where r: "ReadFile Fi p [] w = ((hr1, bytes), w1)" by (metis surj_pair)
  obtain h e w0 where c: "create_read Fi p w = (h, e, w0)" by (metis prod_cases3)
  have "w1 = w0 \<or> (\<exists>k. w1 = snd (snd (close_handle Fi k w0)))"
    using r by (cases h) (auto simp: ReadFile_def c Let_def split: prod.splits intro!: exI [of _ "the h"])
  then have w1: "running w1 \<subseteq> running w"
    using quiet_lawD(6) [OF assms(1), of p w] quiet_lawD(7) [OF assms(1), of _ w0] by (fastforce simp: c)
  have n: "running (notify (\<lambda>l. env_on_changed E l d) ls v) \<subseteq> running v" for d ls v
  proof (induction ls arbitrary: v)
    case (Cons l ls)
    then show ?case using quiet_lawD(8) [OF assms(1), of l d v] by fastforce
  qed simp
  have "w' = w1 \<or> w' = notify_settings (env_on_changed E) st' w1"
    using assms(2) Inr r by (auto simp: load_def Let_def split: if_splits prod.splits option.splits)
  then show ?thesis using w1 n unfolding notify_settings_def by blast
qed

lemma app_load_running:
  assumes "quiet_law M Fi T E call running" "app_load Fi Y T E a w = Some (hr, a', w')"
  shows "running w' \<subseteq> running w"
proof -
  obtain st where "load Fi Y (env_local_folder E) (now_of T w) (env_on_changed E)
      ((app_store a)\<lparr>store_logger := Some (app_logger a)\<rparr>) w = Some (hr, st, w')"
    using assms(2) by (auto simp: app_load_def)
  then show ?thesis by (rule load_running [OF assms(1)])
qed

section \<open>Both threads\<close>

lemma ctl_wf_logger [simp]:
  "ctl_wf uni (c\<lparr>ct_logger := l\<rparr>) \<longleftrightarrow> ctl_wf uni c"
  by (simp add: ctl_wf_def)

text \<open>Both controllers as their constructors or a stop leave them.\<close>

definition app_idle :: "uniform \<Rightarrow> ('t, 'n, 'f, 'c) AppContext \<Rightarrow> bool" where
  "app_idle uni a \<longleftrightarrow> ctl_wf uni (app_window a) \<and> ct_state (app_window a) = kReady \<and>
     ctl_wf uni (app_watcher a) \<and> ct_state (app_watcher a) = kReady"

lemma app_note_sel [simp]:
  "app_window (app_note T w msg hr a) = app_window a" "app_watcher (app_note T w msg hr a) = app_watcher a"
  by (simp_all add: app_note_def)

text \<open>What a start-up that succeeded has in place: both controllers are running, the message window exists
  and the last call was the one that installed the hook.  \<open>SetWinEventHook\<close> documents no last error: when it
  fails and leaves the error 0 the worker reports success, which is the last disjunct.\<close>

definition started :: "('w, 'a) msg_api_scheme \<Rightarrow> ('t, 'n, 'f, 'c) AppContext \<Rightarrow> 'w \<Rightarrow> bool" where
  "started T a w \<longleftrightarrow> ct_state (app_window a) = kRunning \<and> ct_state (app_watcher a) = kRunning \<and>
     wc_hwnd (app_window a) \<noteq> 0 \<and>
     (\<exists>v e v'. create_window T (class_name kMessageWindowStartParams) (window_exstyle kMessageWindowStartParams)
        (window_style kMessageWindowStartParams) (parent_hwnd kMessageWindowStartParams) v = (wc_hwnd (app_window a), e, v')) \<and>
     (\<exists>v hook e. set_event_hook T EVENT_SYSTEM_FOREGROUND EVENT_OBJECT_NAMECHANGE v = (hook, e, w) \<and>
        (hook \<noteq> 0 \<or> e = ERROR_SUCCESS))"

lemma app_start_threads_running:
  assumes "hr_law T" "uniform_law (uniform_of T)" "start_law T" "thread_law T running" "app_idle (uniform_of T) a"
    and "app_start_threads T a w = Returned (hr, a', w')"
  shows "hr = S_OK \<and> started T a' w' \<or>
    FAILED hr \<and> ct_state (app_window a') \<noteq> kRunning \<and> ct_state (app_watcher a') \<noteq> kRunning \<and> running w' \<subseteq> running w"
proof -
  have idle: "ctl_wf (uniform_of T) (lend_window a)" "ct_state (lend_window a) = kReady"
    "ctl_wf (uniform_of T) (app_watcher a)" "ct_state (app_watcher a) = kReady"
    using assms(5) by (simp_all add: app_idle_def lend_window_def)
  obtain hr1 a1 w1 where s: "app_window_start T a w = Returned (hr1, a1, w1)"
    using assms(6) by (auto simp: app_start_threads_def obind_Returned)
  then obtain mw where m: "window_start T (ms_hinstance (app_statics a)) kMessageWindowStartParams (lend_window a) w = Returned (hr1, mw, w1)"
    "a1 = return_window mw a"
    by (auto simp: app_window_start_def message_start_def obind_Returned)
  note W = window_start_running [OF assms(1,2,4,3) idle(1,2) m(1)]
  have a1: "app_watcher a1 = app_watcher a" "app_window a1 = mw\<lparr>ct_logger := None\<rparr>" by (simp_all add: m(2) return_window_def)
  show ?thesis
  proof (cases "FAILED hr1")
    case True
    then show ?thesis using assms(6) s W a1 idle(4) by (auto simp: app_start_threads_def)
  next
    case False
    then have mw: "ct_state mw = kRunning" "wc_hwnd mw \<noteq> 0" "ctl_wf (uniform_of T) mw"
      "\<And>w. current_thread T w \<noteq> ct_thread_id mw" "running w1 \<subseteq> insert (the (ct_hthread mw)) (running w)"
      "\<exists>v e. create_window T (class_name kMessageWindowStartParams) (window_exstyle kMessageWindowStartParams)
        (window_style kMessageWindowStartParams) (parent_hwnd kMessageWindowStartParams) v = (wc_hwnd mw, e, w1)"
      using W by blast+
    obtain hr2 a2 w2 where t: "watcher_start T a1 w1 = Returned (hr2, a2, w2)"
      using assms(6) s False by (auto simp: app_start_threads_def obind_Returned)
    then obtain c where c: "hook_start T EVENT_SYSTEM_FOREGROUND EVENT_OBJECT_NAMECHANGE (lend_watcher a1) w1 = Returned (hr2, c, w2)"
      "a2 = return_watcher c a1"
      by (auto simp: watcher_start_def obind_Returned)
    have "ctl_wf (uniform_of T) (lend_watcher a1)" "ct_state (lend_watcher a1) = kReady"
      using idle(3,4) by (simp_all add: lend_watcher_def a1)
    note H = hook_start_running [OF assms(1,4) this c(1)]
    have a2: "app_window a2 = mw\<lparr>ct_logger := None\<rparr>" "app_watcher a2 = c\<lparr>ct_logger := None\<rparr>"
      by (simp_all add: c(2) return_watcher_def a1)
    show ?thesis
    proof (cases "FAILED hr2")
      case True
      let ?a = "app_note T w2 ''Failed to start the window state watcher.'' hr2 a2"
      obtain hr3 a3 where u: "app_window_stop T ?a w2 = Returned (hr3, a3, w')" "hr = hr2"
        "app_window a' = app_window a3" "app_watcher a' = app_watcher a3"
        using assms(6) s t False True by (auto simp: app_start_threads_def obind_Returned Let_def split: if_splits)
      obtain mw' where v: "window_stop T (lend_window ?a) w2 = Returned (hr3, mw', w')" "a3 = return_window mw' ?a"
        using u(1) by (auto simp: app_window_stop_def obind_Returned)
      have l: "ct_state (lend_window ?a) = kRunning" "wc_hwnd (lend_window ?a) \<noteq> 0" "ctl_wf (uniform_of T) (lend_window ?a)"
        "current_thread T w2 \<noteq> ct_thread_id (lend_window ?a)" "ct_hthread (lend_window ?a) = ct_hthread mw"
        using mw by (simp_all add: lend_window_def a2)
      note V = window_stop_running [OF assms(1,4) l(3,1,2,4) v(1)]
      have "running w2 \<subseteq> running w1" "ct_state c \<noteq> kRunning" using H True by auto
      then show ?thesis using V u v(2) mw(5) True l(5) by (auto simp: return_window_def a2)
    next
      case ok: False
      then have "hr = S_OK" "a' = a2" "w' = w2" using assms(6) s t False by (simp_all add: app_start_threads_def)
      then show ?thesis using H ok mw by (auto simp: started_def a2)
    qed
  qed
qed

end
