(* ===== verification/App_Properties.thy ===== *)
theory App_Properties
  imports Startup Instances
begin

text \<open>
  The properties of the start-up and of its retry loop.
\<close>

section \<open>Loading the settings\<close>

text \<open>The loop as a schedule: the waits are given, and the second result tells whether it gave up.\<close>

fun load_schedule ::
  "('w, 'b) file_api_scheme \<Rightarrow> ('t, 'n, 'y) ryml_scheme \<Rightarrow> ('w, 'a) thread_api_scheme \<Rightarrow> ('w, 't, 'n) settings_env \<Rightarrow>
   dword list \<Rightarrow> ('t, 'n, 'f, 'c) AppContext \<Rightarrow> 'w \<Rightarrow>
   (hresult \<times> bool \<times> ('t, 'n, 'f, 'c) AppContext \<times> 'w) outcome" where
  "load_schedule Fi Y T E [] a w =
     (case app_load Fi Y T E a w of
        None \<Rightarrow> FastFailed
      | Some (hr, a1, w1) \<Rightarrow> Returned (hr, FAILED hr, a1, w1))"
| "load_schedule Fi Y T E (d # ds) a w =
     (case app_load Fi Y T E a w of
        None \<Rightarrow> FastFailed
      | Some (hr, a1, w1) \<Rightarrow>
          if FAILED hr \<and> IsTransientReadError Fi hr then load_schedule Fi Y T E ds a1 (env_sleep E d w1)
          else Returned (hr, FAILED hr, a1, w1))"

text \<open>The retry state before the attempt \<open>n\<close>, with the delay that would follow it.\<close>

definition settings_retry :: "dword \<Rightarrow> dword \<Rightarrow> exponential_backoff RetryState" where
  "settings_retry n d = \<lparr>rs_attempts = n, rs_backoff = \<lparr>xb_current = d, xb_rng = Xorshift32 0\<rparr>\<rparr>"

lemma settings_next:
  "rs_nextDelay (exp_next uni settings_backoff) (settings_retry n 1000) = Some (2000, settings_retry n 2000)"
  "rs_nextDelay (exp_next uni settings_backoff) (settings_retry n 2000) = Some (4000, settings_retry n 4000)"
  by (simp_all add: rs_defs exp_next_def settings_backoff_def settings_retry_def scale_and_clamp_def min_def)

lemma settings_retry_sel [simp]:
  "rs_advanceAttempt (settings_retry n d) = settings_retry (n + 1) d"
  "rs_available settings_attempts (settings_retry n d) \<longleftrightarrow> n < 3"
  "rs_currentDelay exp_current (settings_retry n d) = d"
  "rs_expired settings_attempts (settings_retry n d) \<longleftrightarrow> 3 \<le> unat n"
  "rs_expired settings_attempts (rs_forceExpire settings_attempts r)"
  by (simp_all add: rs_defs settings_retry_def settings_attempts_def exp_current_def word_le_nat_alt)

definition scheduled ::
  "(hresult \<times> exponential_backoff RetryState \<times> 'a \<times> 'w) outcome \<Rightarrow> (hresult \<times> bool \<times> 'a \<times> 'w) outcome" where
  "scheduled m = obind m (\<lambda>(hr, retry, a, w). Returned (hr, rs_expired settings_attempts retry, a, w))"

lemma load_loop_3: "scheduled (load_loop Fi Y T E (settings_retry 2 4000) a w) = load_schedule Fi Y T E [] a w"
  by (subst load_loop.simps) (simp add: scheduled_def split: option.splits prod.splits)

lemma load_loop_2: "scheduled (load_loop Fi Y T E (settings_retry 1 2000) a w) = load_schedule Fi Y T E [2000] a w"
  by (subst load_loop.simps)
    (simp add: scheduled_def [of "Returned x" for x] scheduled_def [of FastFailed] settings_next load_loop_3
      split: option.splits prod.splits)

lemma load_loop_1: "scheduled (load_loop Fi Y T E (settings_retry 0 1000) a w) = load_schedule Fi Y T E [1000, 2000] a w"
  by (subst load_loop.simps)
    (simp add: scheduled_def [of "Returned x" for x] scheduled_def [of FastFailed] settings_next load_loop_2
      split: option.splits prod.splits)

lemma load_settings_eq:
  "app_load_settings Fi Y T E a w =
     obind (load_schedule Fi Y T E [1000, 2000] a w) (\<lambda>(hr, gave_up, a1, w1).
       if \<not> gave_up then Returned (a1, w1)
       else if hr = kErrorNotEnoughMemory Fi then FastFailed
       else Returned (app_note T w1 ''Failed to load the user settings.'' hr a1, w1))"
proof -
  have "rs_make (exp_make settings_backoff (Xorshift32 0)) = settings_retry 0 1000"
    by (simp add: rs_defs exp_make_def settings_backoff_def settings_retry_def)
  then show ?thesis
    unfolding app_load_settings_def load_loop_1 [symmetric]
    by (cases "load_loop Fi Y T E (settings_retry 0 1000) a w") (auto simp: scheduled_def)
qed


text \<open>C28: Loading the settings at start-up.  The retry loop with its exponential back-off is the schedule of
  at most three loads with waits of exactly 1000 and 2000 ms between them, repeated only after a transient read
  error; when the last load failed the error is logged and start-up goes on, and only memory exhaustion
  (by its Win32 code) or an exception ends the process.\<close>

theorem settings_load_schedule:
  "app_load_settings Fi Y T E a w =
     obind (load_schedule Fi Y T E [1000, 2000] a w) (\<lambda>(hr, gave_up, a1, w1).
       if \<not> gave_up then Returned (a1, w1)
       else if hr = kErrorNotEnoughMemory Fi then FastFailed
       else Returned (app_note T w1 ''Failed to load the user settings.'' hr a1, w1))"
  by (rule load_settings_eq)

text \<open>\<open>opens\<close> counts the files opened for reading, \<open>slept\<close> the milliseconds slept.\<close>

definition load_clock ::
  "('w, 'b) file_api_scheme \<Rightarrow> ('w, 't, 'n) settings_env \<Rightarrow> ('w \<Rightarrow> nat) \<Rightarrow> ('w \<Rightarrow> nat) \<Rightarrow> bool" where
  "load_clock Fi E opens slept \<longleftrightarrow>
     (\<forall>p w h e w'. create_read Fi p w = (h, e, w') \<longrightarrow> opens w' = opens w + 1 \<and> slept w' = slept w) \<and>
     (\<forall>h w rc e w'. close_handle Fi h w = (rc, e, w') \<longrightarrow> opens w' = opens w \<and> slept w' = slept w) \<and>
     (\<forall>l d w. opens (env_on_changed E l d w) = opens w \<and> slept (env_on_changed E l d w) = slept w) \<and>
     (\<forall>d w. opens (env_sleep E d w) = opens w \<and> slept (env_sleep E d w) = slept w + unat d)"

lemma load_clock_notify:
  assumes "load_clock Fi E opens slept"
  shows "opens (notify_settings (env_on_changed E) st w) = opens w \<and> slept (notify_settings (env_on_changed E) st w) = slept w"
proof -
  have "opens (notify (\<lambda>l. env_on_changed E l d) ls w) = opens w \<and> slept (notify (\<lambda>l. env_on_changed E l d) ls w) = slept w" for d ls
    using assms by (induction ls arbitrary: w) (simp_all add: load_clock_def)
  then show ?thesis by (simp add: notify_settings_def)
qed

lemma ReadFile_clock:
  assumes "load_clock Fi E opens slept" "ReadFile Fi p c w = (r, w')"
  shows "opens w' = opens w + 1 \<and> slept w' = slept w"
  using assms(2) assms(1) [unfolded load_clock_def, THEN conjunct1, rule_format]
    assms(1) [unfolded load_clock_def, THEN conjunct2, THEN conjunct1, rule_format]
  by (fastforce simp: ReadFile_def Let_def split: prod.splits option.splits)

lemma load_clock_load:
  assumes "load_clock Fi E opens slept" "load Fi Y lf now (env_on_changed E) st w = Some (hr, st', w')"
  shows "opens w' \<le> opens w + 1 \<and> slept w' = slept w"
proof (cases "ResolveSettingsPath lf doc_fileName")
  case (Inl e)
  then show ?thesis using assms(2) by (auto simp: load_def)
next
  case (Inr p)
  obtain hr1 bytes w1 where r: "ReadFile Fi p [] w = ((hr1, bytes), w1)" by (metis surj_pair)
  then have "opens w1 = opens w + 1 \<and> slept w1 = slept w" by (rule ReadFile_clock [OF assms(1)])
  moreover have "w' = w1 \<or> w' = notify_settings (env_on_changed E) st' w1"
    using assms(2) Inr r by (auto simp: load_def Let_def split: if_splits prod.splits option.splits)
  ultimately show ?thesis using load_clock_notify [OF assms(1)] by auto
qed

lemma app_load_cases:
  assumes "app_load Fi Y T E a w = Some (hr, a', w')"
  shows "app_window a' = app_window a \<and> app_watcher a' = app_watcher a"
    and "load_clock Fi E opens slept \<Longrightarrow> opens w' \<le> opens w + 1 \<and> slept w' = slept w"
  using assms by (auto simp: app_load_def dest: load_clock_load)

lemma load_schedule_cases:
  "load_schedule Fi Y T E ds a w = FastFailed \<or>
   (\<exists>hr g a' w'. load_schedule Fi Y T E ds a w = Returned (hr, g, a', w') \<and>
     app_window a' = app_window a \<and> app_watcher a' = app_watcher a \<and>
     (load_clock Fi E opens slept \<longrightarrow>
        opens w' \<le> opens w + (length ds + 1) \<and> slept w' \<le> slept w + sum_list (map unat ds)))"
proof (induction ds arbitrary: a w)
  case Nil
  show ?case
    by (cases "app_load Fi Y T E a w") (fastforce dest: app_load_cases(1) app_load_cases(2) [where opens = opens and slept = slept])+
next
  case (Cons d ds)
  show ?case
  proof (cases "app_load Fi Y T E a w")
    case (Some r)
    obtain hr a1 w1 where r: "r = (hr, a1, w1)" by (metis prod_cases3)
    note c = app_load_cases [OF Some [unfolded r]]
    have clk: "opens (env_sleep E d w1) = opens w1 \<and> slept (env_sleep E d w1) = slept w1 + unat d"
      if "load_clock Fi E opens slept" using that by (simp add: load_clock_def)
    show ?thesis
    proof (cases "FAILED hr \<and> IsTransientReadError Fi hr")
      case True
      then have "load_schedule Fi Y T E (d # ds) a w = load_schedule Fi Y T E ds a1 (env_sleep E d w1)"
        using Some r by simp
      then show ?thesis
        using Cons.IH [of a1 "env_sleep E d w1"] c(1) c(2) [of opens slept] clk by (elim disjE exE conjE) auto
    next
      case False
      then show ?thesis using Some r c(1) c(2) [of opens slept] by fastforce
    qed
  qed simp
qed

text \<open>C29: Loading the settings ends.  Whatever the file system and the document do, at most three files are
  opened and at most 3 seconds are slept before start-up goes on or the process is ended; nothing undefined is computed.\<close>

theorem settings_load_bounded:
  assumes "load_clock Fi E opens slept"
  shows "app_load_settings Fi Y T E a w = FastFailed \<or>
    (\<exists>a' w'. app_load_settings Fi Y T E a w = Returned (a', w') \<and> opens w' \<le> opens w + 3 \<and> slept w' \<le> slept w + 3000)"
proof -
  have "length [1000 :: dword, 2000] + 1 = 3" "sum_list (map unat [1000 :: dword, 2000]) = 3000" by simp_all
  then show ?thesis
    using load_schedule_cases [of Fi Y T E "[1000, 2000]" a w opens slept] assms
    unfolding load_settings_eq by (elim disjE exE conjE) simp_all
qed

section \<open>The start-up as a whole\<close>

lemma app_load_settings_cases:
  assumes "app_load_settings Fi Y T E a w = Returned (a', w')"
  shows "app_window a' = app_window a \<and> app_watcher a' = app_watcher a"
  using assms load_schedule_cases [of Fi Y T E "[1000, 2000]" a w "\<lambda>_. 0" "\<lambda>_. 0"]
  unfolding load_settings_eq by (auto split: if_splits)

lemma operation_context_initialize_sel:
  assumes "operation_context_initialize M T call a w = (hr, a', w')"
  shows "app_window a' = app_window a \<and> app_watcher a' = app_watcher a"
  using assms by (auto simp: operation_context_initialize_def split: prod.splits)

lemma load_schedule_running:
  assumes "quiet_law M Fi T E call running"
  shows "load_schedule Fi Y T E ds a w = Returned (hr, g, a', w') \<Longrightarrow> running w' \<subseteq> running w"
proof (induction ds arbitrary: a w)
  case Nil
  then obtain hr1 a1 w1 where l: "app_load Fi Y T E a w = Some (hr1, a1, w1)" "w' = w1"
    by (cases "app_load Fi Y T E a w") auto
  then show ?case by (simp add: app_load_running [OF assms l(1)])
next
  case (Cons d ds)
  then obtain hr1 a1 w1 where l: "app_load Fi Y T E a w = Some (hr1, a1, w1)"
    by (cases "app_load Fi Y T E a w") auto
  have w1: "running w1 \<subseteq> running w" by (rule app_load_running [OF assms l])
  show ?case
  proof (cases "FAILED hr1 \<and> IsTransientReadError Fi hr1")
    case True
    then have "running w' \<subseteq> running (env_sleep E d w1)" using Cons l by simp
    then show ?thesis using quiet_lawD(9) [OF assms, of d w1] w1 by blast
  next
    case False
    then show ?thesis using Cons.prems l w1 by auto
  qed
qed

lemma app_load_settings_running:
  assumes "quiet_law M Fi T E call running" "app_load_settings Fi Y T E a w = Returned (a', w')"
  shows "running w' \<subseteq> running w"
proof -
  obtain hr g a1 w1 where l: "load_schedule Fi Y T E [1000, 2000] a w = Returned (hr, g, a1, w1)" "w' = w1"
    using assms(2) unfolding load_settings_eq by (auto simp: obind_Returned simp del: load_schedule.simps split: if_splits)
  then show ?thesis by (simp add: load_schedule_running [OF assms(1) l(1)])
qed

text \<open>C27: Start-up is all or nothing.  When \<open>initialize\<close> of the application context returns, either it
  succeeded, both controllers are running, the message window exists and \<open>SetWinEventHook\<close> was called
  last and gave a hook (or failed without an error code, which the worker reports as a success); or it
  answers a failure, no controller is running and no thread that the start-up began is left: a message
  window that was started is stopped, and its thread has ended, when the watcher cannot start.  It
  relies on \<open>RegisterClass\<close> and \<open>CreateWindow\<close> failing with an error code, on the caller being no worker
  thread, and on which calls begin and end threads.\<close>

theorem startup_all_or_nothing:
  assumes "hr_law T" "uniform_law (uniform_of T)" "start_law T" "thread_law T running" "quiet_law M Fi T E call running"
    and "app_idle (uniform_of T) a" "app_initialize M Fi Y T E call a w = Returned (hr, a', w')"
  shows "hr = S_OK \<and> started T a' w' \<or>
    FAILED hr \<and> ct_state (app_window a') \<noteq> kRunning \<and> ct_state (app_watcher a') \<noteq> kRunning \<and> running w' \<subseteq> running w"
proof -
  obtain hr1 a1 w1 where o: "operation_context_initialize M T call a w = (hr1, a1, w1)" by (metis prod_cases3)
  obtain hr2 st w2 where m: "message_initialize T (app_statics a1) w1 = (hr2, st, w2)" by (metis prod_cases3)
  note a1 = operation_context_initialize_sel [OF o]
  have w1: "running w1 \<subseteq> running w" by (rule operation_context_initialize_running [OF assms(5) o])
  have w2: "running w2 \<subseteq> running w1" by (rule message_initialize_running [OF assms(5) m])
  have idle: "ct_state (app_window a) \<noteq> kRunning" "ct_state (app_watcher a) \<noteq> kRunning"
    using assms(6) by (simp_all add: app_idle_def)
  show ?thesis
  proof (cases "FAILED hr1 \<or> FAILED hr2")
    case True
    then show ?thesis using assms(7) o m a1 idle w1 w2 by (auto simp: app_initialize_def split: if_splits)
  next
    case False
    then obtain a3 w3 where s: "app_load_settings Fi Y T E (a1\<lparr>app_statics := st\<rparr>) w2 = Returned (a3, w3)"
      "app_start_threads T a3 w3 = Returned (hr, a', w')"
      using assms(7) o m by (auto simp: app_initialize_def obind_Returned)
    have "app_idle (uniform_of T) a3"
      using app_load_settings_cases [OF s(1)] a1 assms(6) by (simp add: app_idle_def)
    moreover have "running w3 \<subseteq> running w2" by (rule app_load_settings_running [OF assms(5) s(1)])
    ultimately show ?thesis using app_start_threads_running [OF assms(1-4) _ s(2)] w1 w2 by blast
  qed
qed


section \<open>An application for the witnesses\<close>

text \<open>Every call succeeds and leaves the world as it is; \<open>hook\<close> is what installing the event hook answers.\<close>

definition demo_calm_api :: "handle \<Rightarrow> 'w msg_api" where
  "demo_calm_api hook =
     \<lparr>hr_of = win32_hr, begin_thread = (\<lambda>w. (7, 42, 0, 0, w)), wait_object = (\<lambda>h d w. (0, 0, w)),
      current_thread = (\<lambda>w. 41), exit_code_thread = (\<lambda>h w. (True, 0, 0)), close_thread = (\<lambda>h w. (True, 0, w)),
      post_thread_quit = (\<lambda>t w. (True, 0, w)), post_close = (\<lambda>h w. (True, 0, w)),
      set_event_hook = (\<lambda>a b w. (hook, 5, w)), unhook_event = (\<lambda>h w. (True, 0, w)),
      register_class = (\<lambda>n w. (True, 0, w)), unregister_class = (\<lambda>n w. (True, 0, w)),
      create_window = (\<lambda>n a b p w. (9, 0, w)), module_handle = (\<lambda>w. (3, 0)),
      new_ok = (\<lambda>w. True), tsc = (\<lambda>w. 1), now_of = (\<lambda>w. 0), arch32 = False,
      uniform_of = (\<lambda>smax g. (smax, g)),
      shell_notify = (\<lambda>n w. (True, w)), set_foreground = (\<lambda>h w. (True, w)), set_msg_hook = (\<lambda>t w. (6, 0, w)),
      unhook_msg = (\<lambda>h w. (True, 0, w)), call_next_hook = (\<lambda>h c wp lp w. (0, w)),
      track_popup = (\<lambda>m x y h w. (True, 0, w)), post_null = (\<lambda>h w. (True, 0, w)),
      register_message = (\<lambda>n w. (0xC001, 0, w)), load_icon = (\<lambda>h n w. (11, 0)), load_menu = (\<lambda>h n w. (12, w)),
      get_sub_menu = (\<lambda>m w. 13), destroy_window = (\<lambda>h w. w), post_quit = (\<lambda>hr w. w),
      set_last_error = (\<lambda>e w. w), def_window_proc = (\<lambda>h m wp lp w. (0, w)),
      set_user_data = (\<lambda>h c w. (1, 0, w)), get_user_data = (\<lambda>h w. 0), create_params = (\<lambda>lp. 1)\<rparr>"

text \<open>No settings file can be opened: \<open>err\<close> is the error and \<open>tick\<close> the effect of trying.\<close>

definition demo_no_file :: "dword \<Rightarrow> ('w \<Rightarrow> 'w) \<Rightarrow> 'w file_api" where
  "demo_no_file err tick =
     \<lparr>hr_of = win32_hr, mb_to_wc = demo_mb_to_wc, wc_to_mb = demo_wc_to_mb,
      str_alloc = (\<lambda>_. AllocOk), load_string = (\<lambda>_. (0, [], 0)),
      create_read = (\<lambda>p w. (None, err, tick w)), get_file_size = (\<lambda>h w. (0, 0)), read_file = (\<lambda>h n w. (True, [], 0)),
      create_write = (\<lambda>p w. (None, err, w)), write_file = (\<lambda>h s w. (True, 0, w)), flush_file = (\<lambda>h w. (True, 0, w)),
      close_handle = (\<lambda>h w. (True, 0, w)), move_file = (\<lambda>p q w. (True, 0, w)), delete_file = (\<lambda>p w. w)\<rparr>"

definition demo_env :: "(dword \<Rightarrow> 'w \<Rightarrow> 'w) \<Rightarrow> ('w, ytree, ypath) settings_env" where
  "demo_env sl = \<lparr>env_local_folder = Inr (widen ''C:''), env_on_changed = (\<lambda>l d w. w), env_sleep = sl\<rparr>"

definition demo_app :: "(ytree, ypath, unit, unit) AppContext" where
  "demo_app = makeAppContext False \<lparr>doc_tree = [], doc_root = None\<rparr>
     \<lparr>ms_hinstance = 3, ms_icon = 11, ms_taskbar = 0xC001, ms_hmenu = 12\<rparr> makeWinEventHookController []"

definition demo_headless :: "desk eng_api" where
  "demo_headless = demo_desk\<lparr>MonitorCountMetric := (\<lambda>w. 0)\<rparr>"

lemma demo_calm_sel [simp]:
  "hr_of (demo_calm_api k) = win32_hr" "begin_thread (demo_calm_api k) = (\<lambda>w. (7, 42, 0, 0, w))"
  "wait_object (demo_calm_api k) = (\<lambda>h d w. (0, 0, w))" "current_thread (demo_calm_api k) = (\<lambda>w. 41)"
  "exit_code_thread (demo_calm_api k) = (\<lambda>h w. (True, 0, 0))" "close_thread (demo_calm_api k) = (\<lambda>h w. (True, 0, w))"
  "set_event_hook (demo_calm_api k) = (\<lambda>a b w. (k, 5, w))" "register_class (demo_calm_api k) = (\<lambda>n w. (True, 0, w))"
  "post_close (demo_calm_api k) = (\<lambda>h w. (True, 0, w))" "unregister_class (demo_calm_api k) = (\<lambda>n w. (True, 0, w))"
  "create_window (demo_calm_api k) = (\<lambda>n a b p w. (9, 0, w))" "new_ok (demo_calm_api k) = (\<lambda>w. True)"
  "uniform_of (demo_calm_api k) = (\<lambda>smax g. (smax, g))"
  by (simp_all add: demo_calm_api_def)

lemma demo_calm_laws:
  "hr_law (demo_calm_api k)" "uniform_law (uniform_of (demo_calm_api k))" "start_law (demo_calm_api k)"
  by (auto simp: hr_law_def uniform_law_def start_law_def)

lemma demo_no_file_sel [simp]:
  "hr_of (demo_no_file e t) = win32_hr" "create_read (demo_no_file e t) = (\<lambda>p w. (None, e, t w))"
  "close_handle (demo_no_file e t) = (\<lambda>h w. (True, 0, w))"
  by (simp_all add: demo_no_file_def)

lemma demo_env_sel [simp]:
  "env_local_folder (demo_env sl) = Inr (widen ''C:'')" "env_on_changed (demo_env sl) = (\<lambda>l d w. w)" "env_sleep (demo_env sl) = sl"
  by (simp_all add: demo_env_def)

lemma demo_app_idle: "app_idle (uniform_of (demo_calm_api k)) demo_app"
  using makeController_wf [of "\<lambda>smax g. (smax, g)"]
  by (simp add: app_idle_def demo_app_def makeAppContext_def makeMessageWindow_def makeWindowController_def
      makeWinEventHookController_def makeController_def WindowController.defs MessageLoopThreadController.defs ctl_wf_def)


lemma notify_same: "notify (\<lambda>l w. w) ls w = w"
  by (induction ls) simp_all

lemma demo_load:
  "\<exists>st. app_load (demo_no_file ERROR_FILE_NOT_FOUND (\<lambda>w. w)) (demo_yaml (\<lambda>_. [])) T (demo_env (\<lambda>d w. w)) demo_app w =
     Some (S_OK, demo_app\<lparr>app_store := st\<rparr>, w)"
  unfolding app_load_def load_def ResolveSettingsPath_def ReadFile_def IsFileMissing_def kError_defs
      LastErrorAsHResult_def HResultFromWin32_def notify_settings_def Let_def
  by (simp add: notify_same) blast

text \<open>Threads are counted in the first number of the desktop, and no window class can be registered.\<close>

definition demo_no_class_api :: "desk msg_api" where
  "demo_no_class_api = (demo_calm_api 5)\<lparr>
     begin_thread := (\<lambda>(x, r). (7, 42, 0, 0, (1, r))), wait_object := (\<lambda>h d (x, r). (0, 0, (0, r))),
     register_class := (\<lambda>n w. (False, 1410, w))\<rparr>"

definition demo_running :: "desk \<Rightarrow> handle set" where
  "demo_running = (\<lambda>(x, r). if x = 0 then {} else {7})"

lemma demo_no_class_laws:
  "hr_law demo_no_class_api" "uniform_law (uniform_of demo_no_class_api)" "start_law demo_no_class_api"
  "thread_law demo_no_class_api demo_running"
  using demo_calm_laws(1) [of 5]
  by (auto simp: demo_no_class_api_def hr_law_def uniform_law_def start_law_def thread_law_def no_new_def demo_running_def)

lemma demo_quiet:
  "quiet_law demo_headless (demo_no_file ERROR_FILE_NOT_FOUND (\<lambda>w. w)) demo_no_class_api (demo_env (\<lambda>d w. w)) (\<lambda>_ _ _ w. w) demo_running"
  by (simp add: quiet_law_def no_new_def demo_headless_def demo_desk_def demo_no_class_api_def demo_calm_api_def demo_no_file_def
      demo_env_def)

lemma demo_threads:
  "\<exists>a'. app_start_threads demo_no_class_api (demo_app\<lparr>app_store := st\<rparr>) (x, r) = Returned (win32_hr 1410, a', (0, r))"
  by (simp add: app_start_threads_def app_window_start_def message_start_def window_start_def controller_start_def
      lend_window_def demo_app_def makeAppContext_def makeMessageWindow_def makeWindowController_def makeController_def
      makeWinEventHookController_def WindowController.defs MessageLoopThreadController.defs window_prologue_def
      ctx_notify_def ctx_notifyLastError_def LastErrorAsHResult_def HResultFromWin32_def ctx_wait_and_load_def
      reapThreadAfterStartFailure_def reapThread_def demo_no_class_api_def Let_def) (simp add: win32_hr_def)

lemma startup_all_or_nothing_witness:
  "\<exists>hr a' w'. app_initialize demo_headless (demo_no_file ERROR_FILE_NOT_FOUND (\<lambda>w. w)) (demo_yaml (\<lambda>_. []))
       demo_no_class_api (demo_env (\<lambda>d w. w)) (\<lambda>_ _ _ w. w) demo_app (0, 0, 640, 400) = Returned (hr, a', w') \<and>
     FAILED hr \<and> ct_state (app_window a') \<noteq> kRunning \<and> ct_state (app_watcher a') \<noteq> kRunning \<and> demo_running w' = {}"
proof -
  let ?w = "(0, 0, 640, 400) :: desk" and ?Fi = "demo_no_file ERROR_FILE_NOT_FOUND (\<lambda>w. w)" and ?E = "demo_env (\<lambda>d w. w)"
  let ?T = "demo_no_class_api"
  obtain st where l: "app_load ?Fi (demo_yaml (\<lambda>_. [])) ?T ?E demo_app ?w = Some (S_OK, demo_app\<lparr>app_store := st\<rparr>, ?w)"
    using demo_load [of ?T ?w] by (elim exE)
  obtain a' where t: "app_start_threads ?T (demo_app\<lparr>app_store := st\<rparr>) ?w = Returned (win32_hr 1410, a', ?w)"
    using demo_threads [of st 0 "(0, 640, 400)"] by (elim exE)
  have s: "app_load_settings ?Fi (demo_yaml (\<lambda>_. [])) ?T ?E demo_app ?w = Returned (demo_app\<lparr>app_store := st\<rparr>, ?w)"
    unfolding load_settings_eq by (simp add: l)
  have i: "operation_context_initialize demo_headless ?T (\<lambda>_ _ _ w. w) demo_app ?w = (S_OK, demo_app, ?w)"
    "message_initialize ?T (app_statics demo_app) ?w = (S_OK, app_statics demo_app, ?w)"
    by (simp_all add: operation_context_initialize_def cache_initialize_def GetMonitorCount_def demo_headless_def
      demo_desk_def demo_app_def makeAppContext_def message_initialize_def)
  have "demo_app\<lparr>app_statics := app_statics demo_app\<rparr> = demo_app" by simp
  then have r: "app_initialize demo_headless ?Fi (demo_yaml (\<lambda>_. [])) ?T ?E (\<lambda>_ _ _ w. w) demo_app ?w = Returned (win32_hr 1410, a', ?w)"
    unfolding app_initialize_def i by (simp add: s t i)
  have "app_idle (uniform_of ?T) demo_app" using demo_app_idle [of 5] by (simp add: demo_no_class_api_def)
  moreover have "win32_hr 1410 \<noteq> S_OK" by (simp add: win32_hr_def)
  ultimately show ?thesis
    using startup_all_or_nothing [OF demo_no_class_laws demo_quiet _ r] r by (auto simp: demo_running_def)
qed

lemma demo_locked:
  assumes "store_logger (app_store a) = None"
  shows "app_load (demo_no_file 32 (\<lambda>(n, t). (Suc n, t))) Y T (demo_env sl) a (n, t :: nat) = Some (win32_hr 32, a, Suc n, t)"
proof -
  have "\<not> IsFileMissing (demo_no_file 32 tick) (win32_hr 32)" "FAILED (win32_hr 32)" for tick :: "nat \<times> nat \<Rightarrow> nat \<times> nat"
    by (simp_all add: IsFileMissing_def kError_defs) (simp add: win32_hr_def)
  then show ?thesis
    using assms by (simp add: app_load_def load_def ResolveSettingsPath_def ReadFile_def LastErrorAsHResult_def HResultFromWin32_def)
qed

lemma demo_load_clock:
  "load_clock (demo_no_file 32 (\<lambda>(n, t). (Suc n, t))) (demo_env (\<lambda>d (n, t). (n, t + unat d))) fst snd"
  by (auto simp: load_clock_def)

lemma settings_load_bounded_witness:
  "\<exists>a'. app_load_settings (demo_no_file 32 (\<lambda>(n, t). (Suc n, t))) (demo_yaml (\<lambda>_. [])) (demo_calm_api 5)
     (demo_env (\<lambda>d (n, t). (n, t + unat d))) demo_app (0, 0) = Returned (a', 3, 3000)"
proof -
  have n: "store_logger (app_store demo_app) = None" by (simp add: demo_app_def makeAppContext_def)
  have h: "FAILED (win32_hr 32)" "IsTransientReadError (demo_no_file 32 tick) (win32_hr 32)"
    "win32_hr 32 \<noteq> kErrorNotEnoughMemory (demo_no_file 32 tick)" for tick :: "nat \<times> nat \<Rightarrow> nat \<times> nat"
    by (simp_all add: IsTransientReadError_def kError_defs) (simp add: win32_hr_def)
  show ?thesis
    using settings_load_bounded [OF demo_load_clock, of "demo_yaml (\<lambda>_. [])" "demo_calm_api 5" demo_app "(0, 0)"]
    unfolding load_settings_eq
    by (simp add: demo_locked [OF n] h)
qed

end
