(* ===== verification/RuleEditor.thy ===== *)
theory RuleEditor
  imports UserSettings
begin

text \<open>
  \<open>winui3/ViewModels/Settings\<close>: the objects the rule editor is bound to.  A view model keeps what the
  editor shows beside the rule it edits; \<open>applyChanges\<close> writes it to the rule.  The rule and its tree
  are passed and returned.  A value of a WinRT enumeration is its number, which a binding does not
  check.  What a call notifies is its list of events, in order; the observers' own calls and the
  notifications of the library's vectors are not modelled.  A call that throws is an \<open>Inl\<close>, and what it
  has done by then is not described.
\<close>

section \<open>Holders\<close>

datatype prop_name = PAction | PActionType | PHasPendingChanges | PValueMatchType | PValue | PApplicationStarted
  | PWindowActivated | PWindowShown | PX | PY | PWidth | PHeight | PId | PSelectedItem

datatype vm_event = PropertyChanged prop_name | Callback

text \<open>\<open>eq\<close> is \<open>==\<close> of the property's type.\<close>

(* @ winui3/ViewModels/Holders/NotifyPropertyChangedHolder.h:31-40 NotifyPropertyChangedHolder::setProperty *)
definition setProperty :: "('v \<Rightarrow> 'v \<Rightarrow> bool) \<Rightarrow> 'v \<Rightarrow> 'v \<Rightarrow> prop_name \<Rightarrow> bool \<times> 'v \<times> vm_event list" where
  "setProperty eq storage val args =
     (if eq storage val then (False, storage, []) else (True, val, [PropertyChanged args]))"

text \<open>The body of the four \<open>HasPendingChanges(bool)\<close>, on the member.\<close>

(* @ winui3/ViewModels/Settings/StringFilterViewModel.cc:107-111 StringFilterViewModel::HasPendingChanges *)
definition set_pending :: "bool \<Rightarrow> bool \<Rightarrow> bool \<times> vm_event list" where
  "set_pending pending val =
     (let (changed, p, evs) = setProperty (=) pending val PHasPendingChanges
      in (p, if changed \<and> val then evs @ [Callback] else evs))"

text \<open>The body of a setter: the property, whether it changed, and the pending flag after it.\<close>

definition set_shown :: "('v \<Rightarrow> 'v \<Rightarrow> bool) \<Rightarrow> prop_name \<Rightarrow> 'v \<Rightarrow> bool \<Rightarrow> 'v \<Rightarrow> bool \<times> 'v \<times> bool \<times> vm_event list" where
  "set_shown eq p old pending new =
     (let (changed, v, evs) = setProperty eq old new p in
      if changed then let (pending', evs') = set_pending pending True in (True, v, pending', evs @ evs')
      else (False, v, pending, evs))"

section \<open>SettingsWinRTConverters\<close>

type_synonym winrt_enum = "32 word"

(* @ winui3/ViewModels/Settings/SettingsWinRTConverters.h:15-19 kAllFilterKey *)
definition kAllFilterKey :: "winrt_enum list" where "kAllFilterKey = [0, 1, 2]"

(* @ winui3/ViewModels/Settings/SettingsWinRTConverters.cc:12-14 hasFilterValue *)
definition hasFilterValue :: "StringAndMatchType \<Rightarrow> bool" where
  "hasFilterValue val \<longleftrightarrow> fst val \<noteq> kContains \<or> snd val \<noteq> []"

text \<open>The switch over the keys, as the value it selects.\<close>

definition filter_value :: "'n Filter \<Rightarrow> winrt_enum \<Rightarrow> exn + StringAndMatchType" where
  "filter_value f key =
     (if key = 0 then Inr (process_image_name f) else if key = 1 then Inr (window_class f)
      else if key = 2 then Inr (window_title f) else Inl (HrError E_INVALIDARG))"

(* @ winui3/ViewModels/Settings/SettingsWinRTConverters.cc:16-36 hasFilterForKey *)
definition hasFilterForKey :: "'n Filter \<Rightarrow> winrt_enum \<Rightarrow> exn + bool" where
  "hasFilterForKey f key = rbind (filter_value f key) (\<lambda>v. Inr (hasFilterValue v))"

(* @ winui3/ViewModels/Settings/SettingsWinRTConverters.cc:39-62 toSettingsStringMatchType *)
definition toSettingsStringMatchType :: "winrt_enum \<Rightarrow> exn + StringMatchType" where
  "toSettingsStringMatchType m =
     (if m = 0 then Inr kContains else if m = 1 then Inr kEquals else if m = 2 then Inr kStartsWith
      else if m = 3 then Inr kEndsWith else Inl (HrError E_INVALIDARG))"

(* @ winui3/ViewModels/Settings/SettingsWinRTConverters.cc:64-67 toSettingsStringAndMatch *)
definition toSettingsStringAndMatch :: "winrt_enum \<Rightarrow> wstr \<Rightarrow> exn + StringAndMatchType" where
  "toSettingsStringAndMatch type str = rbind (toSettingsStringMatchType type) (\<lambda>m. Inr (m, str))"

(* @ winui3/ViewModels/Settings/SettingsWinRTConverters.cc:69-92 setSettingsStringFilterValue *)
definition setSettingsStringFilterValue ::
  "('t, 'n, 'a) ryml_scheme \<Rightarrow> 't \<Rightarrow> 'n Filter \<Rightarrow> winrt_enum \<Rightarrow> winrt_enum \<Rightarrow> wstr \<Rightarrow> exn + 't \<times> 'n Filter" where
  "setSettingsStringFilterValue Y t f key type str =
     rbind (toSettingsStringAndMatch type str) (\<lambda>val.
       if key = 0 then setProcessImageName Y t f val
       else if key = 1 then setWindowClass Y t f val
       else if key = 2 then setWindowTitle Y t f val
       else Inl (HrError E_INVALIDARG))"

(* @ winui3/ViewModels/Settings/SettingsWinRTConverters.h:64-74 clearSettingsStringFilterValue *)
definition clearSettingsStringFilterValue ::
  "('t, 'n, 'a) ryml_scheme \<Rightarrow> 't \<Rightarrow> 'n Filter \<Rightarrow> winrt_enum \<Rightarrow> exn + 't \<times> 'n Filter" where
  "clearSettingsStringFilterValue Y t f key = setSettingsStringFilterValue Y t f key 0 []"

(* @ winui3/ViewModels/Settings/SettingsWinRTConverters.h:32-55 toSettingsActionType *)
definition toSettingsActionType :: "winrt_enum \<Rightarrow> exn + ActionType" where
  "toSettingsActionType a =
     (if a = 1 then Inr kAbsoluteMoveAndResize else if a = 2 then Inr kRelativeMoveAndResize
      else if a = 0 then Inr kInvalid else Inl (HrError E_INVALIDARG))"

section \<open>StringFilterViewModel\<close>

(* @ winui3/ViewModels/Settings/StringFilterViewModel.h:51-57 StringFilterViewModel *)
record StringFilterViewModel =
  sf_key :: winrt_enum
  sf_match :: winrt_enum
  sf_text :: wstr
  sf_pending :: bool

(* @ winui3/ViewModels/Settings/StringFilterViewModel.cc:32-57 toWinRTStringCompareType *)
fun toWinRTStringCompareType :: "StringMatchType \<Rightarrow> winrt_enum" where
  "toWinRTStringCompareType kContains = 0"
| "toWinRTStringCompareType kEquals = 1"
| "toWinRTStringCompareType kStartsWith = 2"
| "toWinRTStringCompareType kEndsWith = 3"

(* @ winui3/ViewModels/Settings/StringFilterViewModel.cc:59-78 toWinRTStringFilterValue *)
definition toWinRTStringFilterValue :: "'n Filter \<Rightarrow> winrt_enum \<Rightarrow> exn + winrt_enum \<times> wstr" where
  "toWinRTStringFilterValue f key =
     rbind (filter_value f key) (\<lambda>v. Inr (toWinRTStringCompareType (fst v), snd v))"

(* @ winui3/ViewModels/Settings/StringFilterViewModel.cc:83-105 StringFilterViewModel::StringFilterViewModel *)
definition makeStringFilterViewModel :: "'n Filter \<Rightarrow> winrt_enum \<Rightarrow> bool \<Rightarrow> exn + StringFilterViewModel" where
  "makeStringFilterViewModel f key new_elem =
     (if new_elem then Inr \<lparr>sf_key = key, sf_match = 0, sf_text = [], sf_pending = True\<rparr>
      else rbind (toWinRTStringFilterValue f key) (\<lambda>(m, s).
             Inr \<lparr>sf_key = key, sf_match = m, sf_text = s, sf_pending = False\<rparr>))"

(* @ winui3/ViewModels/Settings/StringFilterViewModel.cc:113-121 StringFilterViewModel::applyChanges *)
definition sf_applyChanges ::
  "('t, 'n, 'a) ryml_scheme \<Rightarrow> 't \<Rightarrow> 'n Filter \<Rightarrow> StringFilterViewModel \<Rightarrow>
   exn + bool \<times> 't \<times> 'n Filter \<times> StringFilterViewModel \<times> vm_event list" where
  "sf_applyChanges Y t f v =
     (if \<not> sf_pending v then Inr (False, t, f, v, [])
      else rbind (setSettingsStringFilterValue Y t f (sf_key v) (sf_match v) (sf_text v)) (\<lambda>(t', f').
             let (p, evs) = set_pending (sf_pending v) False in Inr (True, t', f', v\<lparr>sf_pending := p\<rparr>, evs)))"

(* @ winui3/ViewModels/Settings/StringFilterViewModel.cc:123-127 StringFilterViewModel::ValueMatchType *)
definition sf_ValueMatchType :: "winrt_enum \<Rightarrow> StringFilterViewModel \<Rightarrow> StringFilterViewModel \<times> vm_event list" where
  "sf_ValueMatchType compare v =
     (let (_, m, p, evs) = set_shown (=) PValueMatchType (sf_match v) (sf_pending v) compare
      in (v\<lparr>sf_match := m, sf_pending := p\<rparr>, evs))"

(* @ winui3/ViewModels/Settings/StringFilterViewModel.cc:129-133 StringFilterViewModel::Value *)
definition sf_Value :: "wstr \<Rightarrow> StringFilterViewModel \<Rightarrow> StringFilterViewModel \<times> vm_event list" where
  "sf_Value val v =
     (let (_, s, p, evs) = set_shown (=) PValue (sf_text v) (sf_pending v) val
      in (v\<lparr>sf_text := s, sf_pending := p\<rparr>, evs))"

section \<open>TriggersViewModel\<close>

text \<open>What the view models use of \<open>magic_enum\<close> and of formatted resources.\<close>

record ('t, 'n) editor_api = "('t, 'n) ryml" +
  flags_test :: "32 word \<Rightarrow> 32 word \<Rightarrow> bool"
  flags_cast :: "32 word \<Rightarrow> 32 word option"
  rule_name_format :: "32 word \<Rightarrow> exn + wstr"

(* @ winui3/ViewModels/Settings/TriggersViewModel.h:39-42 TriggersViewModel *)
record TriggersViewModel =
  tr_pending :: bool
  tr_started :: bool
  tr_activated :: bool
  tr_shown :: bool

(* @ winui3/ViewModels/Settings/TriggersViewModel.cc:30-41 TriggersViewModel::TriggersViewModel *)
definition makeTriggersViewModel :: "('t, 'n, 'a) editor_api_scheme \<Rightarrow> 'n Rule \<Rightarrow> TriggersViewModel" where
  "makeTriggersViewModel Y r =
     \<lparr>tr_pending = False, tr_started = flags_test Y (rtriggers r) kApplicationStart,
      tr_activated = flags_test Y (rtriggers r) kWindowFocus, tr_shown = flags_test Y (rtriggers r) kWindowShow\<rparr>"

text \<open>\<open>None\<close> stands for a loop of the writer that does not end.\<close>

(* @ winui3/ViewModels/Settings/TriggersViewModel.cc:54-65 TriggersViewModel::applyChanges *)
definition shown_triggers :: "('t, 'n, 'a) editor_api_scheme \<Rightarrow> TriggersViewModel \<Rightarrow> TriggerFlags" where
  "shown_triggers Y v =
     (let raw = kTriggerNone OR (if tr_started v then kApplicationStart else 0)
            OR (if tr_activated v then kWindowFocus else 0) OR (if tr_shown v then kWindowShow else 0)
      in case flags_cast Y raw of None \<Rightarrow> kTriggerNone | Some f \<Rightarrow> f)"

(* @ winui3/ViewModels/Settings/TriggersViewModel.cc:49-70 TriggersViewModel::applyChanges *)
definition tr_applyChanges ::
  "('t, 'n, 'a) editor_api_scheme \<Rightarrow> 't \<Rightarrow> 'n Rule \<Rightarrow> TriggersViewModel \<Rightarrow>
   (exn + bool \<times> 't \<times> 'n Rule \<times> TriggersViewModel \<times> vm_event list) option" where
  "tr_applyChanges Y t r v =
     (if \<not> tr_pending v then Some (Inr (False, t, r, v, []))
      else case setTriggerFlags Y t r (shown_triggers Y v) of
        None \<Rightarrow> None
      | Some (Inl e) \<Rightarrow> Some (Inl e)
      | Some (Inr (None, r')) \<Rightarrow> None
      | Some (Inr (Some t', r')) \<Rightarrow>
          (let (p, evs) = set_pending (tr_pending v) False in Some (Inr (True, t', r', v\<lparr>tr_pending := p\<rparr>, evs))))"

(* @ winui3/ViewModels/Settings/TriggersViewModel.cc:72-76 TriggersViewModel::ApplicationStarted *)
definition tr_ApplicationStarted :: "bool \<Rightarrow> TriggersViewModel \<Rightarrow> TriggersViewModel \<times> vm_event list" where
  "tr_ApplicationStarted flag v =
     (let (_, b, p, evs) = set_shown (=) PApplicationStarted (tr_started v) (tr_pending v) flag
      in (v\<lparr>tr_started := b, tr_pending := p\<rparr>, evs))"

(* @ winui3/ViewModels/Settings/TriggersViewModel.cc:78-82 TriggersViewModel::WindowActivated *)
definition tr_WindowActivated :: "bool \<Rightarrow> TriggersViewModel \<Rightarrow> TriggersViewModel \<times> vm_event list" where
  "tr_WindowActivated flag v =
     (let (_, b, p, evs) = set_shown (=) PWindowActivated (tr_activated v) (tr_pending v) flag
      in (v\<lparr>tr_activated := b, tr_pending := p\<rparr>, evs))"

(* @ winui3/ViewModels/Settings/TriggersViewModel.cc:84-88 TriggersViewModel::WindowShown *)
definition tr_WindowShown :: "bool \<Rightarrow> TriggersViewModel \<Rightarrow> TriggersViewModel \<times> vm_event list" where
  "tr_WindowShown flag v =
     (let (_, b, p, evs) = set_shown (=) PWindowShown (tr_shown v) (tr_pending v) flag
      in (v\<lparr>tr_shown := b, tr_pending := p\<rparr>, evs))"

section \<open>The two move-and-resize view models\<close>

text \<open>The members \<open>X_\<close>, \<open>Y_\<close>, \<open>Width_\<close>, \<open>Height_\<close> and their \<open>dirty\<close> flags are lists of four, in this order.\<close>

(* @ winui3/ViewModels/Settings/AbsoluteMoveAndResizeViewModel.h:37-45 AbsoluteMoveAndResizeViewModel *)
record 'n AbsoluteMoveAndResizeViewModel =
  av_action :: "'n AbsoluteMoveAndResize"
  av_vals :: "32 word list"
  av_dirty :: "bool list"
  av_pending :: bool

(* @ winui3/ViewModels/Settings/AbsoluteMoveAndResizeViewModel.cc:14-32 AbsoluteMoveAndResizeViewModel::AbsoluteMoveAndResizeViewModel *)
definition makeAbsoluteViewModel :: "'n AbsoluteMoveAndResize \<Rightarrow> bool \<Rightarrow> 'n AbsoluteMoveAndResizeViewModel" where
  "makeAbsoluteViewModel action new_type =
     \<lparr>av_action = action, av_vals = List.map (i4_at (abs_bounds action)) [0, 1, 2, 3],
      av_dirty = replicate 4 False, av_pending = new_type\<rparr>"

text \<open>One dirty member of \<open>applyChanges\<close>: its flag is cleared and it is written.\<close>

definition av_apply_one ::
  "('t \<Rightarrow> 'n AbsoluteMoveAndResize \<Rightarrow> 32 word \<Rightarrow> exn + 't \<times> 'n AbsoluteMoveAndResize) \<Rightarrow> nat \<Rightarrow>
   't \<times> 'n AbsoluteMoveAndResizeViewModel \<Rightarrow> exn + 't \<times> 'n AbsoluteMoveAndResizeViewModel" where
  "av_apply_one setter i = (\<lambda>(t, v).
     if av_dirty v ! i then
       rbind (setter t (av_action v) (av_vals v ! i)) (\<lambda>(t', a).
         Inr (t', v\<lparr>av_dirty := (av_dirty v)[i := False], av_action := a\<rparr>))
     else Inr (t, v))"

(* @ winui3/ViewModels/Settings/AbsoluteMoveAndResizeViewModel.cc:44-71 AbsoluteMoveAndResizeViewModel::applyChanges *)
definition av_applyChanges ::
  "('t, 'n, 'a) ryml_scheme \<Rightarrow> 't \<Rightarrow> 'n AbsoluteMoveAndResizeViewModel \<Rightarrow>
   exn + bool \<times> 't \<times> 'n AbsoluteMoveAndResizeViewModel \<times> vm_event list" where
  "av_applyChanges Y t v =
     (if \<not> av_pending v then Inr (False, t, v, [])
      else
        rbind (av_apply_one (abs_setX Y) 0 (t, v)) (\<lambda>s.
        rbind (av_apply_one (abs_setY Y) 1 s) (\<lambda>s.
        rbind (av_apply_one (abs_setWidth Y) 2 s) (\<lambda>s.
        rbind (av_apply_one (abs_setHeight Y) 3 s) (\<lambda>(t', v').
          let (p, evs) = set_pending (av_pending v') False in Inr (True, t', v'\<lparr>av_pending := p\<rparr>, evs))))))"

definition av_set ::
  "nat \<Rightarrow> prop_name \<Rightarrow> 32 word \<Rightarrow> 32 word \<Rightarrow> 32 word \<Rightarrow> 'n AbsoluteMoveAndResizeViewModel \<Rightarrow>
   exn + 'n AbsoluteMoveAndResizeViewModel \<times> vm_event list" where
  "av_set i p lo hi val v =
     (if val <s lo \<or> hi <s val then Inl (HrError E_INVALIDARG)
      else
        let (changed, x, pending, evs) = set_shown (=) p (av_vals v ! i) (av_pending v) val in
        Inr (v\<lparr>av_vals := (av_vals v)[i := x],
               av_dirty := (if changed then (av_dirty v)[i := True] else av_dirty v), av_pending := pending\<rparr>, evs))"

(* @ winui3/ViewModels/Settings/AbsoluteMoveAndResizeViewModel.cc:73-82 AbsoluteMoveAndResizeViewModel::X *)
definition av_X where "av_X = av_set 0 PX kAbsoluteCoordinateMin kAbsoluteCoordinateMax"
(* @ winui3/ViewModels/Settings/AbsoluteMoveAndResizeViewModel.cc:84-93 AbsoluteMoveAndResizeViewModel::Y *)
definition av_Y where "av_Y = av_set 1 PY kAbsoluteCoordinateMin kAbsoluteCoordinateMax"
(* @ winui3/ViewModels/Settings/AbsoluteMoveAndResizeViewModel.cc:95-104 AbsoluteMoveAndResizeViewModel::Width *)
definition av_Width where "av_Width = av_set 2 PWidth kAbsoluteLengthMin kAbsoluteLengthMax"
(* @ winui3/ViewModels/Settings/AbsoluteMoveAndResizeViewModel.cc:106-115 AbsoluteMoveAndResizeViewModel::Height *)
definition av_Height where "av_Height = av_set 3 PHeight kAbsoluteLengthMin kAbsoluteLengthMax"

(* @ winui3/ViewModels/Settings/RelativeMoveAndResizeViewModel.h:41-54 RelativeMoveAndResizeViewModel *)
record 'n RelativeMoveAndResizeViewModel =
  rvm_action :: "'n RelativeMoveAndResize"
  rvm_id :: "32 word"
  rvm_vals :: "f32 list"
  rvm_pending :: bool
  rvm_id_dirty :: bool
  rvm_dirty :: "bool list"

(* @ winui3/ViewModels/Settings/RelativeMoveAndResizeViewModel.cc:24-46 RelativeMoveAndResizeViewModel::RelativeMoveAndResizeViewModel *)
definition makeRelativeViewModel :: "'n RelativeMoveAndResize \<Rightarrow> bool \<Rightarrow> 'n RelativeMoveAndResizeViewModel" where
  "makeRelativeViewModel action new_type =
     \<lparr>rvm_action = action, rvm_id = rel_id action, rvm_vals = List.map (f4_at (rel_bounds action)) [0, 1, 2, 3],
      rvm_pending = new_type, rvm_id_dirty = False, rvm_dirty = replicate 4 False\<rparr>"

(* @ winui3/ViewModels/Settings/RelativeMoveAndResizeViewModel.cc:58-68 RelativeMoveAndResizeViewModel::Id *)
definition rvm_Id ::
  "32 word \<Rightarrow> 'n RelativeMoveAndResizeViewModel \<Rightarrow> exn + 'n RelativeMoveAndResizeViewModel \<times> vm_event list" where
  "rvm_Id val v =
     (if val \<noteq> kRelativeMonitorIdUnset \<and> (val <s kRelativeMonitorIdMin \<or> kRelativeMonitorIdMax <s val)
      then Inl (HrError E_INVALIDARG)
      else
        let (changed, x, pending, evs) = set_shown (=) PId (rvm_id v) (rvm_pending v) val in
        Inr (v\<lparr>rvm_id := x, rvm_id_dirty := (changed \<or> rvm_id_dirty v), rvm_pending := pending\<rparr>, evs))"

text \<open>As compiled without \<open>_M_FP_FAST\<close>.\<close>

definition rvm_set ::
  "nat \<Rightarrow> prop_name \<Rightarrow> f32 \<Rightarrow> 'n RelativeMoveAndResizeViewModel \<Rightarrow>
   exn + 'n RelativeMoveAndResizeViewModel \<times> vm_event list" where
  "rvm_set i p val v =
     (if \<not> f32_finite val then Inl (HrError E_INVALIDARG)
      else if f32_lt val kRelativeCoordinateMin \<or> f32_lt kRelativeCoordinateMax val then Inl (HrError E_INVALIDARG)
      else
        let (changed, x, pending, evs) = set_shown f32_eq p (rvm_vals v ! i) (rvm_pending v) val in
        Inr (v\<lparr>rvm_vals := (rvm_vals v)[i := x],
               rvm_dirty := (if changed then (rvm_dirty v)[i := True] else rvm_dirty v), rvm_pending := pending\<rparr>, evs))"

(* @ winui3/ViewModels/Settings/RelativeMoveAndResizeViewModel.cc:76-90 RelativeMoveAndResizeViewModel::X *)
definition rvm_X where "rvm_X = rvm_set 0 PX"
(* @ winui3/ViewModels/Settings/RelativeMoveAndResizeViewModel.cc:92-106 RelativeMoveAndResizeViewModel::Y *)
definition rvm_Y where "rvm_Y = rvm_set 1 PY"
(* @ winui3/ViewModels/Settings/RelativeMoveAndResizeViewModel.cc:108-122 RelativeMoveAndResizeViewModel::Width *)
definition rvm_Width where "rvm_Width = rvm_set 2 PWidth"
(* @ winui3/ViewModels/Settings/RelativeMoveAndResizeViewModel.cc:124-138 RelativeMoveAndResizeViewModel::Height *)
definition rvm_Height where "rvm_Height = rvm_set 3 PHeight"

definition rvm_apply_id ::
  "('t, 'n, 'a) ryml_scheme \<Rightarrow> 't \<times> 'n RelativeMoveAndResizeViewModel \<Rightarrow> exn + 't \<times> 'n RelativeMoveAndResizeViewModel" where
  "rvm_apply_id Y = (\<lambda>(t, v).
     if rvm_id_dirty v then
       rbind (rel_setId Y t (rvm_action v) (rvm_id v)) (\<lambda>(t', a).
         Inr (t', v\<lparr>rvm_id_dirty := False, rvm_action := a\<rparr>))
     else Inr (t, v))"

definition rvm_apply_one ::
  "('t \<Rightarrow> 'n RelativeMoveAndResize \<Rightarrow> f32 \<Rightarrow> exn + 't \<times> 'n RelativeMoveAndResize) \<Rightarrow> nat \<Rightarrow>
   't \<times> 'n RelativeMoveAndResizeViewModel \<Rightarrow> exn + 't \<times> 'n RelativeMoveAndResizeViewModel" where
  "rvm_apply_one setter i = (\<lambda>(t, v).
     if rvm_dirty v ! i then
       rbind (setter t (rvm_action v) (rvm_vals v ! i)) (\<lambda>(t', a).
         Inr (t', v\<lparr>rvm_dirty := (rvm_dirty v)[i := False], rvm_action := a\<rparr>))
     else Inr (t, v))"

(* @ winui3/ViewModels/Settings/RelativeMoveAndResizeViewModel.cc:140-172 RelativeMoveAndResizeViewModel::applyChanges *)
definition rvm_applyChanges ::
  "('t, 'n, 'a) ryml_scheme \<Rightarrow> 't \<Rightarrow> 'n RelativeMoveAndResizeViewModel \<Rightarrow>
   exn + bool \<times> 't \<times> 'n RelativeMoveAndResizeViewModel \<times> vm_event list" where
  "rvm_applyChanges Y t v =
     (if \<not> rvm_pending v then Inr (False, t, v, [])
      else
        rbind (rvm_apply_id Y (t, v)) (\<lambda>s.
        rbind (rvm_apply_one (rel_setX Y) 0 s) (\<lambda>s.
        rbind (rvm_apply_one (rel_setY Y) 1 s) (\<lambda>s.
        rbind (rvm_apply_one (rel_setWidth Y) 2 s) (\<lambda>s.
        rbind (rvm_apply_one (rel_setHeight Y) 3 s) (\<lambda>(t', v').
          let (p, evs) = set_pending (rvm_pending v') False in Inr (True, t', v'\<lparr>rvm_pending := p\<rparr>, evs)))))))"

section \<open>ActionViewModel\<close>

text \<open>The class hierarchy; a null \<open>com_ptr\<close> is \<open>None\<close>.\<close>

datatype 'n ActionViewModel =
    AbsoluteVM "'n AbsoluteMoveAndResizeViewModel" | RelativeVM "'n RelativeMoveAndResizeViewModel"

(* @ winui3/ViewModels/Settings/AbsoluteMoveAndResizeViewModel.cc:34-36 AbsoluteMoveAndResizeViewModel::HasPendingChanges *)
fun action_pending :: "'n ActionViewModel \<Rightarrow> bool" where
  "action_pending (AbsoluteVM v) = av_pending v"
| "action_pending (RelativeVM v) = rvm_pending v"

(* @ winui3/ViewModels/Settings/ActionViewModel.h:10-12 ActionViewModel::Type *)
fun action_vm_type :: "'n ActionViewModel \<Rightarrow> winrt_enum" where
  "action_vm_type (AbsoluteVM v) = 1"
| "action_vm_type (RelativeVM v) = 2"

fun action_applyChanges ::
  "('t, 'n, 'a) ryml_scheme \<Rightarrow> 't \<Rightarrow> 'n ActionViewModel \<Rightarrow> exn + bool \<times> 't \<times> 'n ActionViewModel \<times> vm_event list" where
  "action_applyChanges Y t (AbsoluteVM v) =
     rbind (av_applyChanges Y t v) (\<lambda>(ch, t', v', evs). Inr (ch, t', AbsoluteVM v', evs))"
| "action_applyChanges Y t (RelativeVM v) =
     rbind (rvm_applyChanges Y t v) (\<lambda>(ch, t', v', evs). Inr (ch, t', RelativeVM v', evs))"

(* @ winui3/ViewModels/Settings/RuleViewModel.cc:54-86 makeActionViewModel *)
definition makeActionViewModel ::
  "('t, 'n, 'a) ryml_scheme \<Rightarrow> 't \<Rightarrow> 'n Action \<Rightarrow> bool \<Rightarrow> exn + 'n ActionViewModel option" where
  "makeActionViewModel Y t action new_type =
     (case atype action of
        kAbsoluteMoveAndResize \<Rightarrow>
          rbind (as_absolute Y t action) (\<lambda>a. Inr (Some (AbsoluteVM (makeAbsoluteViewModel a new_type))))
      | kRelativeMoveAndResize \<Rightarrow>
          rbind (as_relative Y t action) (\<lambda>a. Inr (Some (RelativeVM (makeRelativeViewModel a new_type))))
      | kInvalid \<Rightarrow> Inr None)"

section \<open>RuleViewModel\<close>

text \<open>A \<open>FilterKeyViewModel\<close> is its key; its command is the rule's view model.\<close>

(* @ winui3/ViewModels/Settings/RuleViewModel.h:75-82 RuleViewModel *)
record 'n RuleViewModel =
  rv_deleting_keys :: "winrt_enum list"
  rv_name :: wstr
  rv_action :: "'n ActionViewModel option"
  rv_filters :: "StringFilterViewModel list"
  rv_triggers :: TriggersViewModel
  rv_unused_keys :: "winrt_enum list"

datatype rule_event =
    OfRule vm_event | OfAction vm_event | OfTriggers vm_event | OfFilter winrt_enum vm_event

(* @ winui3/ViewModels/Settings/RuleViewModel.cc:196-199 RuleViewModel::notifyHasPendingChangesPropertyChanged *)
definition notifyHasPendingChanges :: "rule_event list" where
  "notifyHasPendingChanges = [OfRule (PropertyChanged PHasPendingChanges), OfRule Callback]"

text \<open>A child's callback is \<open>onChildHasPendingChangesUpdated\<close>; the rule's view model is alive while its
  children are used.\<close>

(* @ winui3/ViewModels/Settings/RuleViewModel.cc:230-233 RuleViewModel::onChildHasPendingChangesUpdated *)
definition bubble :: "(vm_event \<Rightarrow> rule_event) \<Rightarrow> vm_event list \<Rightarrow> rule_event list" where
  "bubble f evs = concat (List.map (\<lambda>e. if e = Callback then notifyHasPendingChanges else [f e]) evs)"

(* @ winui3/ViewModels/Settings/RuleViewModel.cc:42-52 makeName *)
definition makeName :: "('t, 'n, 'a) editor_api_scheme \<Rightarrow> 'n Rule \<Rightarrow> exn + wstr" where
  "makeName Y r = (if rname r = [] then rule_name_format Y (rindex r) else Inr (rname r))"

text \<open>The loop over the keys: the shown filters and the unused keys.\<close>

(* @ winui3/ViewModels/Settings/RuleViewModel.cc:114-128 RuleViewModel::RuleViewModel *)
fun split_filters :: "'n Filter \<Rightarrow> winrt_enum list \<Rightarrow> exn + StringFilterViewModel list \<times> winrt_enum list" where
  "split_filters f [] = Inr ([], [])"
| "split_filters f (key # keys) =
     rbind (hasFilterForKey f key) (\<lambda>has.
       if has then
         rbind (makeStringFilterViewModel f key False) (\<lambda>vm.
         rbind (split_filters f keys) (\<lambda>(vms, unused). Inr (vm # vms, unused)))
       else rbind (split_filters f keys) (\<lambda>(vms, unused). Inr (vms, key # unused)))"

(* @ winui3/ViewModels/Settings/RuleViewModel.cc:96-131 RuleViewModel::RuleViewModel *)
definition makeRuleViewModel :: "('t, 'n, 'a) editor_api_scheme \<Rightarrow> 't \<Rightarrow> 'n Rule \<Rightarrow> exn + 'n RuleViewModel" where
  "makeRuleViewModel Y t r =
     rbind (makeName Y r) (\<lambda>name.
     rbind (makeActionViewModel Y t (raction r) False) (\<lambda>action.
     rbind (split_filters (rfilter r) kAllFilterKey) (\<lambda>(vms, unused).
     Inr \<lparr>rv_deleting_keys = [], rv_name = name, rv_action = action, rv_filters = vms,
          rv_triggers = makeTriggersViewModel Y r, rv_unused_keys = unused\<rparr>)))"

text \<open>The getter \<open>ActionType\<close>.\<close>

(* @ winui3/ViewModels/Settings/RuleViewModel.h:35-41 RuleViewModel::ActionType *)
definition rv_action_type :: "'n RuleViewModel \<Rightarrow> winrt_enum" where
  "rv_action_type v = (case rv_action v of None \<Rightarrow> 0 | Some a \<Rightarrow> action_vm_type a)"

(* @ winui3/ViewModels/Settings/RuleViewModel.cc:133-145 RuleViewModel::ActionType *)
definition rv_ActionType ::
  "('t, 'n, 'a) editor_api_scheme \<Rightarrow> 't \<Rightarrow> 'n Rule \<Rightarrow> 'n RuleViewModel \<Rightarrow> winrt_enum \<Rightarrow>
   exn + 't \<times> 'n Rule \<times> 'n RuleViewModel \<times> rule_event list" where
  "rv_ActionType Y t r v val =
     rbind (toSettingsActionType val) (\<lambda>settings_value.
       if atype (raction r) = settings_value then Inr (t, r, v, [])
       else
         rbind (setType Y t (raction r) settings_value) (\<lambda>(t', a).
         rbind (makeActionViewModel Y t' a True) (\<lambda>vm.
         Inr (t', r\<lparr>raction := a\<rparr>, v\<lparr>rv_action := vm\<rparr>,
              [OfRule (PropertyChanged PAction), OfRule (PropertyChanged PActionType)] @ notifyHasPendingChanges))))"

(* @ winui3/ViewModels/Settings/RuleViewModel.cc:147-162 RuleViewModel::HasPendingChanges *)
definition rv_HasPendingChanges :: "'n RuleViewModel \<Rightarrow> bool" where
  "rv_HasPendingChanges v \<longleftrightarrow>
     (if rv_deleting_keys v \<noteq> [] then True
      else if (case rv_action v of None \<Rightarrow> False | Some a \<Rightarrow> action_pending a) then True
      else if list_ex sf_pending (rv_filters v) then True
      else tr_pending (rv_triggers v))"

(* @ winui3/ViewModels/Settings/RuleViewModel.cc:169-171 RuleViewModel::applyChanges *)
fun clear_keys :: "('t, 'n, 'a) ryml_scheme \<Rightarrow> winrt_enum list \<Rightarrow> 't \<Rightarrow> 'n Filter \<Rightarrow> exn + 't \<times> 'n Filter" where
  "clear_keys Y [] t f = Inr (t, f)"
| "clear_keys Y (key # keys) t f =
     rbind (clearSettingsStringFilterValue Y t f key) (\<lambda>(t', f'). clear_keys Y keys t' f')"

(* @ winui3/ViewModels/Settings/RuleViewModel.cc:181-185 RuleViewModel::applyChanges *)
fun apply_filters ::
  "('t, 'n, 'a) ryml_scheme \<Rightarrow> StringFilterViewModel list \<Rightarrow> 't \<Rightarrow> 'n Filter \<Rightarrow>
   exn + bool \<times> 't \<times> 'n Filter \<times> StringFilterViewModel list \<times> rule_event list" where
  "apply_filters Y [] t f = Inr (False, t, f, [], [])"
| "apply_filters Y (vm # vms) t f =
     rbind (sf_applyChanges Y t f vm) (\<lambda>(c1, t1, f1, vm', evs1).
     rbind (apply_filters Y vms t1 f1) (\<lambda>(c2, t2, f2, vms', evs2).
     Inr (c1 \<or> c2, t2, f2, vm' # vms', bubble (OfFilter (sf_key vm)) evs1 @ evs2)))"

(* @ winui3/ViewModels/Settings/RuleViewModel.cc:177-180 RuleViewModel::applyChanges *)
definition apply_action ::
  "('t, 'n, 'a) ryml_scheme \<Rightarrow> 'n ActionViewModel option \<Rightarrow> 't \<Rightarrow>
   exn + bool \<times> 't \<times> 'n ActionViewModel option \<times> rule_event list" where
  "apply_action Y action t =
     (case action of
        None \<Rightarrow> Inr (False, t, None, [])
      | Some a \<Rightarrow> rbind (action_applyChanges Y t a) (\<lambda>(ch, t', a', evs). Inr (ch, t', Some a', bubble OfAction evs)))"

(* @ winui3/ViewModels/Settings/RuleViewModel.cc:164-194 RuleViewModel::applyChanges *)
definition rv_applyChanges ::
  "('t, 'n, 'a) editor_api_scheme \<Rightarrow> 't \<Rightarrow> 'n Rule \<Rightarrow> 'n RuleViewModel \<Rightarrow>
   (exn + bool \<times> 't \<times> 'n Rule \<times> 'n RuleViewModel \<times> rule_event list) option" where
  "rv_applyChanges Y t r v =
     (case rbind (clear_keys Y (rv_deleting_keys v) t (rfilter r)) (\<lambda>(t1, f1).
           rbind (apply_action Y (rv_action v) t1) (\<lambda>(c2, t2, action, evs2).
           rbind (apply_filters Y (rv_filters v) t2 f1) (\<lambda>(c3, t3, f3, filters, evs3).
           Inr (rv_deleting_keys v \<noteq> [] \<or> c2 \<or> c3, t3, r\<lparr>rfilter := f3\<rparr>,
                v\<lparr>rv_deleting_keys := [], rv_action := action, rv_filters := filters\<rparr>, evs2 @ evs3)))) of
        Inl e \<Rightarrow> Some (Inl e)
      | Inr (changed, t3, r3, v3, evs) \<Rightarrow>
          (case tr_applyChanges Y t3 r3 (rv_triggers v3) of
             None \<Rightarrow> None
           | Some (Inl e) \<Rightarrow> Some (Inl e)
           | Some (Inr (c4, t4, r4, triggers, evs4)) \<Rightarrow>
               Some (Inr (changed \<or> c4, t4, r4, v3\<lparr>rv_triggers := triggers\<rparr>,
                 evs @ bubble OfTriggers evs4 @ (if changed \<or> c4 then notifyHasPendingChanges else [])))))"

(* @ winui3/ViewModels/Settings/RuleViewModel.cc:201-228 RuleViewModel::onAddFilterRequested *)
definition onAddFilterRequested ::
  "winrt_enum \<Rightarrow> 'n Rule \<Rightarrow> 'n RuleViewModel \<Rightarrow> exn + 'n RuleViewModel \<times> rule_event list" where
  "onAddFilterRequested key r v =
     (if key \<notin> set (rv_unused_keys v) then Inl (HrError E_INVALIDARG)
      else
        rbind (makeStringFilterViewModel (rfilter r) key True) (\<lambda>vm.
        Inr (v\<lparr>rv_unused_keys := remove1 key (rv_unused_keys v), rv_filters := rv_filters v @ [vm]\<rparr>,
             notifyHasPendingChanges)))"

(* @ winui3/ViewModels/Settings/RuleViewModel.cc:244-257 RuleViewModel::onDeleteRequested *)
fun insertion_index :: "winrt_enum list \<Rightarrow> winrt_enum \<Rightarrow> winrt_enum list \<Rightarrow> nat option" where
  "insertion_index unused key [] = None"
| "insertion_index unused key (k # ks) =
     (if k = key then Some 0
      else map_option (\<lambda>i. if k \<in> set unused then Suc i else i) (insertion_index unused key ks))"

(* @ winui3/ViewModels/Settings/RuleViewModel.cc:235-267 RuleViewModel::onDeleteRequested *)
definition onDeleteRequested ::
  "winrt_enum \<Rightarrow> 'n RuleViewModel \<Rightarrow> exn + 'n RuleViewModel \<times> rule_event list" where
  "onDeleteRequested key v =
     (if \<not> list_ex (\<lambda>vm. sf_key vm = key) (rv_filters v) then Inl (HrError E_INVALIDARG)
      else
        let before = takeWhile (\<lambda>vm. sf_key vm \<noteq> key) (rv_filters v);
            after = tl (dropWhile (\<lambda>vm. sf_key vm \<noteq> key) (rv_filters v))
        in case insertion_index (rv_unused_keys v) key kAllFilterKey of
             None \<Rightarrow> Inl (HrError E_INVALIDARG)
           | Some i \<Rightarrow>
               Inr (v\<lparr>rv_filters := before @ after, rv_deleting_keys := rv_deleting_keys v @ [key],
                      rv_unused_keys := take i (rv_unused_keys v) @ [key] @ drop i (rv_unused_keys v)\<rparr>,
                    notifyHasPendingChanges))"

text \<open>The command of a shown filter.\<close>

(* @ winui3/ViewModels/Settings/StringFilterViewModel.cc:135-137 StringFilterViewModel::onDelete *)
definition sf_onDelete :: "StringFilterViewModel \<Rightarrow> 'n RuleViewModel \<Rightarrow> exn + 'n RuleViewModel \<times> rule_event list" where
  "sf_onDelete vm v = onDeleteRequested (sf_key vm) v"

section \<open>RulesViewModel\<close>

text \<open>The selected item by its place among the items; the events of an item with its place.\<close>

(* @ winui3/ViewModels/Settings/RulesViewModel.h:30-32 RulesViewModel *)
record 'n RulesViewModel =
  rs_items :: "'n RuleViewModel list"
  rs_selected :: "nat option"

(* @ winui3/ViewModels/Settings/RulesViewModel.cc:26-37 makeRuleViewModels *)
fun makeRuleViewModels :: "('t, 'n, 'a) editor_api_scheme \<Rightarrow> 't \<Rightarrow> 'n Rule list \<Rightarrow> exn + 'n RuleViewModel list" where
  "makeRuleViewModels Y t [] = Inr []"
| "makeRuleViewModels Y t (r # rs) =
     rbind (makeRuleViewModel Y t r) (\<lambda>v. rbind (makeRuleViewModels Y t rs) (\<lambda>vs. Inr (v # vs)))"

(* @ winui3/ViewModels/Settings/RulesViewModel.cc:39-42 RulesViewModel::RulesViewModel *)
definition makeRulesViewModel :: "('t, 'n, 'a) editor_api_scheme \<Rightarrow> 't \<Rightarrow> 'n Rule list \<Rightarrow> exn + 'n RulesViewModel" where
  "makeRulesViewModel Y t rs =
     rbind (makeRuleViewModels Y t rs) (\<lambda>vs.
       Inr \<lparr>rs_items = vs, rs_selected = (if 0 < length vs then Some 0 else None)\<rparr>)"

(* @ winui3/ViewModels/Settings/RulesViewModel.cc:44-46 RulesViewModel::SelectedItem *)
definition rs_SelectedItem :: "nat option \<Rightarrow> 'n RulesViewModel \<Rightarrow> 'n RulesViewModel \<times> vm_event list" where
  "rs_SelectedItem val v =
     (let (_, s, evs) = setProperty (=) (rs_selected v) val PSelectedItem in (v\<lparr>rs_selected := s\<rparr>, evs))"

(* @ winui3/ViewModels/Settings/RulesViewModel.cc:48-55 RulesViewModel::HasPendingChanges *)
definition rs_HasPendingChanges :: "'n RulesViewModel \<Rightarrow> bool" where
  "rs_HasPendingChanges v = list_ex rv_HasPendingChanges (rs_items v)"

text \<open>Each item edits the rule at its place.\<close>

(* @ winui3/ViewModels/Settings/RulesViewModel.cc:57-65 RulesViewModel::applyChanges *)
fun rs_apply_items ::
  "('t, 'n, 'a) editor_api_scheme \<Rightarrow> 't \<Rightarrow> 'n Rule list \<Rightarrow> 'n RuleViewModel list \<Rightarrow>
   (exn + bool \<times> 't \<times> 'n Rule list \<times> 'n RuleViewModel list \<times> (nat \<times> rule_event) list) option" where
  "rs_apply_items Y t (r # rs) (v # vs) =
     (case rv_applyChanges Y t r v of
        None \<Rightarrow> None
      | Some (Inl e) \<Rightarrow> Some (Inl e)
      | Some (Inr (c1, t1, r1, v1, evs1)) \<Rightarrow>
          (case rs_apply_items Y t1 rs vs of
             None \<Rightarrow> None
           | Some (Inl e) \<Rightarrow> Some (Inl e)
           | Some (Inr (c2, t2, rs2, vs2, evs2)) \<Rightarrow>
               Some (Inr (c1 \<or> c2, t2, r1 # rs2, v1 # vs2,
                 List.map (Pair 0) evs1 @ List.map (\<lambda>(i, e). (Suc i, e)) evs2))))"
| "rs_apply_items Y t rs [] = Some (Inr (False, t, rs, [], []))"
| "rs_apply_items Y t [] (v # vs) = None"

(* @ winui3/ViewModels/Settings/RulesViewModel.cc:57-65 RulesViewModel::applyChanges *)
definition rs_applyChanges ::
  "('t, 'n, 'a) editor_api_scheme \<Rightarrow> 't \<Rightarrow> 'n Rule list \<Rightarrow> 'n RulesViewModel \<Rightarrow>
   (exn + bool \<times> 't \<times> 'n Rule list \<times> 'n RulesViewModel \<times> (nat \<times> rule_event) list) option" where
  "rs_applyChanges Y t rs v =
     map_option (\<lambda>res. rbind res (\<lambda>(ch, t', rs', vs', evs). Inr (ch, t', rs', v\<lparr>rs_items := vs'\<rparr>, evs)))
       (rs_apply_items Y t rs (rs_items v))"

end
