(* ===== verification/RuleEditor_Properties.thy ===== *)
theory RuleEditor_Properties
  imports RuleEditor Settings_Properties
begin

text \<open>
  The properties of the rule editor: the keys it offers, and that applying its changes makes the rule
  what the editor shows.
\<close>

section \<open>Applying once\<close>

lemma set_pending_simps [simp]:
  "set_pending p False = (False, if p then [PropertyChanged PHasPendingChanges] else [])"
  "set_pending p True = (True, if p then [] else [PropertyChanged PHasPendingChanges, Callback])"
  by (simp_all add: set_pending_def setProperty_def)

lemma set_shown_cases:
  "set_shown eq p old pending new =
     (if eq old new then (False, old, pending, [])
      else (True, new, True, PropertyChanged p # (if pending then [] else [PropertyChanged PHasPendingChanges, Callback])))"
  by (simp add: set_shown_def setProperty_def)

text \<open>Each part answers whether it was pending, is not pending afterwards, and does nothing otherwise.\<close>

lemma sf_apply_cases:
  assumes "sf_applyChanges Y t f v = Inr (c, t', f', v', evs)"
  shows "c = sf_pending v" "v' = v\<lparr>sf_pending := False\<rparr>"
    "\<not> sf_pending v \<Longrightarrow> t' = t \<and> f' = f \<and> evs = []"
    "sf_pending v \<Longrightarrow> setSettingsStringFilterValue Y t f (sf_key v) (sf_match v) (sf_text v) = Inr (t', f')"
  using assms by (cases v; auto simp: sf_applyChanges_def res_simps split: if_splits)+

lemma av_one_keeps:
  assumes "av_apply_one setter i (t, v) = Inr (t', v')"
  shows "av_pending v' = av_pending v" "av_vals v' = av_vals v" "av_dirty v' = (av_dirty v)[i := False]"
proof -
  have "d = d[i := False]" if "\<not> d ! i" for d using that by (metis (full_types) list_update_id)
  then show "av_pending v' = av_pending v" "av_vals v' = av_vals v" "av_dirty v' = (av_dirty v)[i := False]"
    using assms by (auto simp: av_apply_one_def res_simps split: if_splits)
qed

lemma av_apply_cases:
  assumes "av_applyChanges Y t v = Inr (c, t', v', evs)"
  shows "c = av_pending v" "\<not> av_pending v'" "\<not> av_pending v \<Longrightarrow> t' = t \<and> v' = v \<and> evs = []" "av_vals v' = av_vals v"
  using assms by (auto simp: av_applyChanges_def res_simps av_one_keeps split: if_splits)

lemma rvm_id_keeps:
  assumes "rvm_apply_id Y (t, v) = Inr (t', v')"
  shows "rvm_pending v' = rvm_pending v" "rvm_vals v' = rvm_vals v" "rvm_id v' = rvm_id v" "\<not> rvm_id_dirty v'"
    "rvm_dirty v' = rvm_dirty v"
  using assms by (auto simp: rvm_apply_id_def res_simps split: if_splits)

lemma rvm_one_keeps:
  assumes "rvm_apply_one setter i (t, v) = Inr (t', v')"
  shows "rvm_pending v' = rvm_pending v" "rvm_vals v' = rvm_vals v" "rvm_id v' = rvm_id v"
    "rvm_id_dirty v' = rvm_id_dirty v" "rvm_dirty v' = (rvm_dirty v)[i := False]"
proof -
  have "d = d[i := False]" if "\<not> d ! i" for d using that by (metis (full_types) list_update_id)
  then show "rvm_pending v' = rvm_pending v" "rvm_vals v' = rvm_vals v" "rvm_id v' = rvm_id v"
    "rvm_id_dirty v' = rvm_id_dirty v" "rvm_dirty v' = (rvm_dirty v)[i := False]"
    using assms by (auto simp: rvm_apply_one_def res_simps split: if_splits)
qed

lemma rvm_apply_cases:
  assumes "rvm_applyChanges Y t v = Inr (c, t', v', evs)"
  shows "c = rvm_pending v" "\<not> rvm_pending v'" "\<not> rvm_pending v \<Longrightarrow> t' = t \<and> v' = v \<and> evs = []"
    "rvm_vals v' = rvm_vals v" "rvm_id v' = rvm_id v"
  using assms by (auto simp: rvm_applyChanges_def res_simps rvm_one_keeps rvm_id_keeps split: if_splits)

definition action_is_pending :: "'n ActionViewModel option \<Rightarrow> bool" where
  "action_is_pending a \<longleftrightarrow> (case a of None \<Rightarrow> False | Some a \<Rightarrow> action_pending a)"

lemma apply_action_cases:
  assumes "apply_action Y a t = Inr (c, t', a', evs)"
  shows "c = action_is_pending a" "\<not> action_is_pending a'" "\<not> action_is_pending a \<Longrightarrow> t' = t \<and> a' = a \<and> evs = []"
proof -
  have "c = action_is_pending a \<and> \<not> action_is_pending a' \<and> (\<not> action_is_pending a \<longrightarrow> t' = t \<and> a' = a \<and> evs = [])"
  proof (cases a)
    case None
    then show ?thesis using assms by (auto simp: apply_action_def action_is_pending_def)
  next
    case (Some m)
    show ?thesis
    proof (cases m)
      case (AbsoluteVM u)
      have "\<exists>p. av_applyChanges Y t u = Inr p"
        using assms Some AbsoluteVM by (cases "av_applyChanges Y t u") (auto simp: apply_action_def)
      then obtain c1 t1 u1 e1 where u: "av_applyChanges Y t u = Inr (c1, t1, u1, e1)" by (metis prod_cases4)
      then show ?thesis
        using assms Some AbsoluteVM av_apply_cases [OF u] by (auto simp: apply_action_def action_is_pending_def bubble_def)
    next
      case (RelativeVM u)
      have "\<exists>p. rvm_applyChanges Y t u = Inr p"
        using assms Some RelativeVM by (cases "rvm_applyChanges Y t u") (auto simp: apply_action_def)
      then obtain c1 t1 u1 e1 where u: "rvm_applyChanges Y t u = Inr (c1, t1, u1, e1)" by (metis prod_cases4)
      then show ?thesis
        using assms Some RelativeVM rvm_apply_cases [OF u] by (auto simp: apply_action_def action_is_pending_def bubble_def)
    qed
  qed
  then show "c = action_is_pending a" "\<not> action_is_pending a'" "\<not> action_is_pending a \<Longrightarrow> t' = t \<and> a' = a \<and> evs = []"
    by blast+
qed

lemma apply_filters_cases:
  assumes "apply_filters Y vms t f = Inr (c, t', f', vms', evs)"
  shows "c = list_ex sf_pending vms \<and> vms' = List.map (\<lambda>v. v\<lparr>sf_pending := False\<rparr>) vms \<and>
    (\<not> list_ex sf_pending vms \<longrightarrow> t' = t \<and> f' = f \<and> evs = [])"
  using assms
proof (induction vms arbitrary: t f c t' f' vms' evs)
  case (Cons v vms)
  have "\<exists>p. sf_applyChanges Y t f v = Inr p"
    using Cons.prems by (cases "sf_applyChanges Y t f v") auto
  then obtain c1 t1 f1 v1 e1 where s1: "sf_applyChanges Y t f v = Inr (c1, t1, f1, v1, e1)" by (metis prod_cases5)
  have "\<exists>p. apply_filters Y vms t1 f1 = Inr p"
    using Cons.prems s1 by (cases "apply_filters Y vms t1 f1") auto
  then obtain c2 t2 f2 vs2 e2 where s2: "apply_filters Y vms t1 f1 = Inr (c2, t2, f2, vs2, e2)" by (metis prod_cases5)
  have r: "c = (c1 \<or> c2)" "t' = t2" "f' = f2" "vms' = v1 # vs2" "evs = bubble (OfFilter (sf_key v)) e1 @ e2"
    using Cons.prems by (simp_all add: s1 s2)
  show ?case
    using sf_apply_cases [OF s1] Cons.IH [OF s2] r by (auto simp: bubble_def)
qed simp

lemma tr_apply_cases:
  assumes "tr_applyChanges Y t r v = Some (Inr (c, t', r', v', evs))"
  shows "c = tr_pending v" "v' = v\<lparr>tr_pending := False\<rparr>"
    "\<not> tr_pending v \<Longrightarrow> t' = t \<and> r' = r \<and> evs = []"
    "tr_pending v \<Longrightarrow> setTriggerFlags Y t r (shown_triggers Y v) = Some (Inr (Some t', r'))"
  using assms by (cases v; auto simp: tr_applyChanges_def split: if_splits option.splits sum.splits)+

lemma rv_apply_parts:
  assumes "rv_applyChanges Y t r v = Some (Inr (c, t', r', v', evs))"
  obtains t1 f1 c2 t2 a2 evs2 c3 t3 f3 vms3 evs3 c4 r4 tr4 evs4 where
    "clear_keys Y (rv_deleting_keys v) t (rfilter r) = Inr (t1, f1)"
    "apply_action Y (rv_action v) t1 = Inr (c2, t2, a2, evs2)"
    "apply_filters Y (rv_filters v) t2 f1 = Inr (c3, t3, f3, vms3, evs3)"
    "tr_applyChanges Y t3 (r\<lparr>rfilter := f3\<rparr>) (rv_triggers v) = Some (Inr (c4, t', r', tr4, evs4))"
    "c = (rv_deleting_keys v \<noteq> [] \<or> c2 \<or> c3 \<or> c4)"
    "v' = v\<lparr>rv_deleting_keys := [], rv_action := a2, rv_filters := vms3, rv_triggers := tr4\<rparr>"
    "evs = (evs2 @ evs3) @ bubble OfTriggers evs4 @ (if c then notifyHasPendingChanges else [])"
proof -
  have "\<exists>p. clear_keys Y (rv_deleting_keys v) t (rfilter r) = Inr p"
    using assms by (cases "clear_keys Y (rv_deleting_keys v) t (rfilter r)") (auto simp: rv_applyChanges_def)
  then obtain t1 f1 where s1: "clear_keys Y (rv_deleting_keys v) t (rfilter r) = Inr (t1, f1)" by (metis prod.collapse)
  have "\<exists>p. apply_action Y (rv_action v) t1 = Inr p"
    using assms s1 by (cases "apply_action Y (rv_action v) t1") (auto simp: rv_applyChanges_def)
  then obtain c2 t2 a2 evs2 where s2: "apply_action Y (rv_action v) t1 = Inr (c2, t2, a2, evs2)" by (metis prod_cases4)
  have "\<exists>p. apply_filters Y (rv_filters v) t2 f1 = Inr p"
    using assms s1 s2 by (cases "apply_filters Y (rv_filters v) t2 f1") (auto simp: rv_applyChanges_def)
  then obtain c3 t3 f3 vms3 evs3 where s3: "apply_filters Y (rv_filters v) t2 f1 = Inr (c3, t3, f3, vms3, evs3)"
    by (metis prod_cases5)
  have "\<exists>p. tr_applyChanges Y t3 (r\<lparr>rfilter := f3\<rparr>) (rv_triggers v) = Some (Inr p)"
    using assms s1 s2 s3
    by (cases "tr_applyChanges Y t3 (r\<lparr>rfilter := f3\<rparr>) (rv_triggers v)")
      (auto simp: rv_applyChanges_def split: sum.splits)
  then obtain c4 t4 r4 tr4 evs4 where s4:
    "tr_applyChanges Y t3 (r\<lparr>rfilter := f3\<rparr>) (rv_triggers v) = Some (Inr (c4, t4, r4, tr4, evs4))"
    by (metis prod_cases5)
  have e: "t' = t4" "r' = r4" "c = (rv_deleting_keys v \<noteq> [] \<or> c2 \<or> c3 \<or> c4)"
    "v' = v\<lparr>rv_deleting_keys := [], rv_action := a2, rv_filters := vms3, rv_triggers := tr4\<rparr>"
    "evs = (evs2 @ evs3) @ bubble OfTriggers evs4 @ (if c then notifyHasPendingChanges else [])"
    using assms by (auto simp: rv_applyChanges_def s1 s2 s3 s4)
  show thesis by (rule that [OF s1 s2 s3 _ e(3-5)]) (simp add: s4 e)
qed

lemma rv_pending_iff:
  "rv_HasPendingChanges u \<longleftrightarrow> rv_deleting_keys u \<noteq> [] \<or> action_is_pending (rv_action u) \<or>
     list_ex sf_pending (rv_filters u) \<or> tr_pending (rv_triggers u)"
  by (auto simp: rv_HasPendingChanges_def action_is_pending_def)

lemma rv_apply_idle:
  assumes "\<not> rv_HasPendingChanges u"
  shows "rv_applyChanges Y t r u = Some (Inr (False, t, r, u, []))"
proof -
  have n: "rv_deleting_keys u = []" "\<not> action_is_pending (rv_action u)" "\<not> list_ex sf_pending (rv_filters u)"
    "\<not> tr_pending (rv_triggers u)" using assms by (simp_all add: rv_pending_iff)
  have "apply_filters Y vms t f = Inr (False, t, f, vms, [])" if "\<not> list_ex sf_pending vms" for vms f
    using that by (induction vms) (simp_all add: sf_applyChanges_def bubble_def)
  moreover have "apply_action Y a t = Inr (False, t, a, [])" if "\<not> action_is_pending a" for a
  proof (cases a)
    case (Some m)
    then show ?thesis
      using that by (cases m) (simp_all add: apply_action_def action_is_pending_def av_applyChanges_def rvm_applyChanges_def bubble_def)
  qed (simp add: apply_action_def)
  ultimately show ?thesis
    using n by (cases u) (simp add: rv_applyChanges_def tr_applyChanges_def bubble_def)
qed

lemma rv_apply_pending:
  assumes "rv_applyChanges Y t r v = Some (Inr (changed, t', r', v', evs))"
  shows "changed = rv_HasPendingChanges v" "\<not> rv_HasPendingChanges v'"
    "changed \<Longrightarrow> \<exists>es. evs = es @ [OfRule (PropertyChanged PHasPendingChanges), OfRule Callback]"
proof -
  obtain t1 f1 c2 t2 a2 evs2 c3 t3 f3 vms3 evs3 c4 r4 tr4 evs4 where p:
    "clear_keys Y (rv_deleting_keys v) t (rfilter r) = Inr (t1, f1)"
    "apply_action Y (rv_action v) t1 = Inr (c2, t2, a2, evs2)"
    "apply_filters Y (rv_filters v) t2 f1 = Inr (c3, t3, f3, vms3, evs3)"
    "tr_applyChanges Y t3 (r\<lparr>rfilter := f3\<rparr>) (rv_triggers v) = Some (Inr (c4, t', r', tr4, evs4))"
    and e: "changed = (rv_deleting_keys v \<noteq> [] \<or> c2 \<or> c3 \<or> c4)"
    "v' = v\<lparr>rv_deleting_keys := [], rv_action := a2, rv_filters := vms3, rv_triggers := tr4\<rparr>"
    "evs = (evs2 @ evs3) @ bubble OfTriggers evs4 @ (if changed then notifyHasPendingChanges else [])"
    by (rule rv_apply_parts [OF assms]) metis
  note A = apply_action_cases [OF p(2)] and F = apply_filters_cases [OF p(3)] and T = tr_apply_cases [OF p(4)]
  have ch: "changed \<longleftrightarrow> rv_HasPendingChanges v" using e(1) A(1) F T(1) by (simp add: rv_pending_iff)
  have none: "\<not> list_ex sf_pending (List.map (\<lambda>v. v\<lparr>sf_pending := False\<rparr>) vs)" for vs
    by (induction vs) simp_all
  have fin: "\<not> rv_HasPendingChanges v'" using e(2) A(2) F T(2) none by (simp add: rv_pending_iff)
  show "changed = rv_HasPendingChanges v" "\<not> rv_HasPendingChanges v'" by (rule ch, rule fin)
  show "changed \<Longrightarrow> \<exists>es. evs = es @ [OfRule (PropertyChanged PHasPendingChanges), OfRule Callback]"
    using e(3) by (simp add: notifyHasPendingChanges_def)
qed

section \<open>The interface of a settings view model\<close>

text \<open>
  \<open>ISettingsViewModel\<close>: every editor object has pending changes or not, and applies them to what it edits
  (\<open>'e\<close>); \<open>None\<close> is a call that does not end.
\<close>

locale settings_view_model =
  fixes apply_changes :: "'e \<Rightarrow> 'm \<Rightarrow> (exn + bool \<times> 'e \<times> 'm \<times> 'v list) option"
    and pending :: "'m \<Rightarrow> bool"
  assumes answers_pending: "apply_changes e m = Some (Inr (c, e', m', evs)) \<Longrightarrow> c = pending m"
    and none_pending: "apply_changes e m = Some (Inr (c, e', m', evs)) \<Longrightarrow> \<not> pending m'"
    and idle: "\<not> pending m \<Longrightarrow> apply_changes e m = Some (Inr (False, e, m, []))"
begin

lemma unchanged:
  assumes "apply_changes e m = Some (Inr (False, e', m', evs))"
  shows "e' = e \<and> m' = m \<and> evs = []"
  using answers_pending [OF assms] idle [of m e] assms by simp

lemma apply_twice:
  assumes "apply_changes e m = Some (Inr (c, e', m', evs))"
  shows "apply_changes e' m' = Some (Inr (False, e', m', []))"
  by (rule idle [OF none_pending [OF assms]])

end

text \<open>The results of the view models in the shape of the interface.\<close>

definition one_target :: "exn + bool \<times> 't \<times> 'm \<times> 'v list \<Rightarrow> (exn + bool \<times> 't \<times> 'm \<times> 'v list) option" where
  "one_target res = Some res"

definition two_targets ::
  "(exn + bool \<times> 't \<times> 'r \<times> 'm \<times> 'v list) option \<Rightarrow> (exn + bool \<times> ('t \<times> 'r) \<times> 'm \<times> 'v list) option" where
  "two_targets res = map_option (\<lambda>x. rbind x (\<lambda>(c, t, r, m, evs). Inr (c, (t, r), m, evs))) res"

lemma two_targets_iff:
  "two_targets res = Some (Inr (c, (t, r), m, evs)) \<longleftrightarrow> res = Some (Inr (c, t, r, m, evs))"
  by (auto simp: two_targets_def res_simps)

lemma two_targets_Some: "two_targets (Some (Inr (c, t, r, m, evs))) = Some (Inr (c, (t, r), m, evs))"
  by (simp add: two_targets_def)

lemma sf_apply_pending: "sf_applyChanges Y t f v = Inr (c, t', f', v', evs) \<Longrightarrow> c = sf_pending v \<and> \<not> sf_pending v'"
  using sf_apply_cases(1,2) [of Y t f v c t' f' v' evs] by auto

lemma tr_apply_pending: "tr_applyChanges Y t r v = Some (Inr (c, t', r', v', evs)) \<Longrightarrow> c = tr_pending v \<and> \<not> tr_pending v'"
  using tr_apply_cases(1,2) [of Y t r v c t' r' v' evs] by auto

lemma sf_apply_idle: "\<not> sf_pending v \<Longrightarrow> sf_applyChanges Y t f v = Inr (False, t, f, v, [])"
  by (simp add: sf_applyChanges_def)

lemma tr_apply_idle: "\<not> tr_pending v \<Longrightarrow> tr_applyChanges Y t r v = Some (Inr (False, t, r, v, []))"
  by (simp add: tr_applyChanges_def)

interpretation filter_vm: settings_view_model "\<lambda>(t, f) v. two_targets (Some (sf_applyChanges Y t f v))" sf_pending for Y
  by unfold_locales
    (auto simp: two_targets_iff two_targets_Some sf_apply_idle dest: sf_apply_pending)

interpretation absolute_vm: settings_view_model "\<lambda>t v. one_target (av_applyChanges Y t v)" av_pending for Y
  by unfold_locales (auto simp: one_target_def dest: av_apply_cases(1,2), simp add: av_applyChanges_def)

interpretation relative_vm: settings_view_model "\<lambda>t v. one_target (rvm_applyChanges Y t v)" rvm_pending for Y
  by unfold_locales (auto simp: one_target_def dest: rvm_apply_cases(1,2), simp add: rvm_applyChanges_def)

interpretation triggers_vm: settings_view_model "\<lambda>(t, r) v. two_targets (tr_applyChanges Y t r v)" tr_pending for Y
  by unfold_locales
    (auto simp: two_targets_iff two_targets_Some tr_apply_idle dest: tr_apply_pending)

interpretation rule_vm: settings_view_model "\<lambda>(t, r) v. two_targets (rv_applyChanges Y t r v)" rv_HasPendingChanges for Y
  by unfold_locales
    (auto simp: two_targets_iff rv_apply_idle two_targets_Some dest: rv_apply_pending)

lemma rv_apply_facts:
  assumes "rv_applyChanges Y t r v = Some (Inr (changed, t', r', v', evs))"
  shows "(changed \<longleftrightarrow> rv_HasPendingChanges v) \<and> \<not> rv_HasPendingChanges v' \<and>
    (changed \<longrightarrow> (\<exists>es. evs = es @ [OfRule (PropertyChanged PHasPendingChanges), OfRule Callback])) \<and>
    (\<not> changed \<longrightarrow> t' = t \<and> r' = r \<and> v' = v \<and> evs = []) \<and>
    rv_applyChanges Y t' r' v' = Some (Inr (False, t', r', v', []))"
  using rule_vm.answers_pending [of Y "(t, r)" v changed "(t', r')" v' evs] rule_vm.none_pending [of Y "(t, r)" v changed "(t', r')" v' evs]
    rule_vm.unchanged [of Y "(t, r)" v "(t', r')" v' evs] rule_vm.apply_twice [of Y "(t, r)" v changed "(t', r')" v' evs]
    rv_apply_pending(3) [OF assms] assms
  by (auto simp: two_targets_iff two_targets_Some)

text \<open>C8: Applying the changes of a rule.  It answers whether there were pending changes, leaves none, and
  notifies exactly when there were; applying again answers false, writes nothing and notifies nothing.\<close>

theorem apply_once:
  assumes "rv_applyChanges Y t r v = Some (Inr (changed, t', r', v', evs))"
  shows "(changed \<longleftrightarrow> rv_HasPendingChanges v) \<and> \<not> rv_HasPendingChanges v' \<and>
    (changed \<longrightarrow> (\<exists>es. evs = es @ [OfRule (PropertyChanged PHasPendingChanges), OfRule Callback])) \<and>
    (\<not> changed \<longrightarrow> t' = t \<and> r' = r \<and> v' = v \<and> evs = []) \<and>
    rv_applyChanges Y t' r' v' = Some (Inr (False, t', r', v', []))"
  by (rule rv_apply_facts [OF assms])

section \<open>The states of an editor\<close>

text \<open>An editor is opened on a rule read from a document; the user's operations follow in any order.\<close>

inductive editor_reach ::
  "('t, 'n, 'a) editor_api_scheme \<Rightarrow> 't \<Rightarrow> 'n Rule \<Rightarrow> 'n RuleViewModel \<Rightarrow> bool" for Y where
  opened: "makeRule Y t n i = Inr r \<Longrightarrow> makeRuleViewModel Y t r = Inr v \<Longrightarrow> editor_reach Y t r v"
| retyped: "editor_reach Y t r v \<Longrightarrow> rv_ActionType Y t r v a = Inr (t', r', v', evs) \<Longrightarrow> editor_reach Y t' r' v'"
| added: "editor_reach Y t r v \<Longrightarrow> onAddFilterRequested key r v = Inr (v', evs) \<Longrightarrow> editor_reach Y t r v'"
| deleted: "editor_reach Y t r v \<Longrightarrow> onDeleteRequested key v = Inr (v', evs) \<Longrightarrow> editor_reach Y t r v'"
| matched: "editor_reach Y t r v \<Longrightarrow> i < length (rv_filters v) \<Longrightarrow> sf_ValueMatchType m (rv_filters v ! i) = (vm, evs) \<Longrightarrow>
    editor_reach Y t r (v\<lparr>rv_filters := (rv_filters v)[i := vm]\<rparr>)"
| typed: "editor_reach Y t r v \<Longrightarrow> i < length (rv_filters v) \<Longrightarrow> sf_Value s (rv_filters v ! i) = (vm, evs) \<Longrightarrow>
    editor_reach Y t r (v\<lparr>rv_filters := (rv_filters v)[i := vm]\<rparr>)"
| triggered: "editor_reach Y t r v \<Longrightarrow> edit \<in> {tr_ApplicationStarted, tr_WindowActivated, tr_WindowShown} \<Longrightarrow>
    edit b (rv_triggers v) = (tr, evs) \<Longrightarrow> editor_reach Y t r (v\<lparr>rv_triggers := tr\<rparr>)"
| absolute: "editor_reach Y t r v \<Longrightarrow> rv_action v = Some (AbsoluteVM a) \<Longrightarrow> edit \<in> {av_X, av_Y, av_Width, av_Height} \<Longrightarrow>
    edit x a = Inr (a', evs) \<Longrightarrow> editor_reach Y t r (v\<lparr>rv_action := Some (AbsoluteVM a')\<rparr>)"
| relative: "editor_reach Y t r v \<Longrightarrow> rv_action v = Some (RelativeVM m) \<Longrightarrow> edit \<in> {rvm_X, rvm_Y, rvm_Width, rvm_Height} \<Longrightarrow>
    edit x m = Inr (m', evs) \<Longrightarrow> editor_reach Y t r (v\<lparr>rv_action := Some (RelativeVM m')\<rparr>)"
| monitor: "editor_reach Y t r v \<Longrightarrow> rv_action v = Some (RelativeVM m) \<Longrightarrow> rvm_Id d m = Inr (m', evs) \<Longrightarrow>
    editor_reach Y t r (v\<lparr>rv_action := Some (RelativeVM m')\<rparr>)"
| applied: "editor_reach Y t r v \<Longrightarrow> rv_applyChanges Y t r v = Some (Inr (ch, t', r', v', evs)) \<Longrightarrow> editor_reach Y t' r' v'"

section \<open>The filters of the rule and of the editor\<close>

definition shown_as :: "'n Filter \<Rightarrow> StringFilterViewModel \<Rightarrow> bool" where
  "shown_as f vm \<longleftrightarrow> toWinRTStringFilterValue f (sf_key vm) = Inr (sf_match vm, sf_text vm)"

lemma toSettings_toWinRT: "toSettingsStringMatchType c = Inr m \<Longrightarrow> toWinRTStringCompareType m = c"
  by (auto simp: toSettingsStringMatchType_def split: if_splits)

lemma filter_value_update [simp]:
  "filter_value (f\<lparr>process_image_name := x\<rparr>) k = (if k = 0 then Inr x else filter_value f k)"
  "filter_value (f\<lparr>window_class := x\<rparr>) k = (if k = 1 then Inr x else filter_value f k)"
  "filter_value (f\<lparr>window_title := x\<rparr>) k = (if k = 2 then Inr x else filter_value f k)"
  by (auto simp: filter_value_def)

lemma setFilter_cases:
  assumes "setSettingsStringFilterValue Y t f key type s = Inr (t', f')"
  shows "\<exists>m. toWinRTStringCompareType m = type \<and> filter_value f' key = Inr (m, s) \<and> toSettingsStringMatchType type = Inr m \<and>
    (\<forall>k. k \<noteq> key \<longrightarrow> filter_value f' k = filter_value f k) \<and> key \<in> set kAllFilterKey"
proof -
  obtain m where m: "toSettingsStringMatchType type = Inr m"
    using assms by (auto simp: setSettingsStringFilterValue_def toSettingsStringAndMatch_def res_simps)
  have "filter_value f' key = Inr (m, s) \<and> (\<forall>k. k \<noteq> key \<longrightarrow> filter_value f' k = filter_value f k) \<and> key \<in> set kAllFilterKey"
    using assms m
    by (auto simp: setSettingsStringFilterValue_def toSettingsStringAndMatch_def res_simps setProcessImageName_def
        setWindowClass_def setWindowTitle_def kAllFilterKey_def split: if_splits)
  then show ?thesis using toSettings_toWinRT [OF m] m by blast
qed

lemma clear_keys_cases:
  assumes "clear_keys Y ks t f = Inr (t', f')"
  shows "filter_value f' k = (if k \<in> set ks then Inr (kContains, []) else filter_value f k)"
  using assms
proof (induction ks arbitrary: t f)
  case (Cons key ks)
  obtain t1 f1 where s: "setSettingsStringFilterValue Y t f key 0 [] = Inr (t1, f1)" "clear_keys Y ks t1 f1 = Inr (t', f')"
    using Cons.prems by (auto simp: clearSettingsStringFilterValue_def res_simps)
  obtain m where m: "filter_value f1 key = Inr (m, [])" "toSettingsStringMatchType 0 = Inr m"
    "\<forall>k. k \<noteq> key \<longrightarrow> filter_value f1 k = filter_value f k"
    using setFilter_cases [OF s(1)] by blast
  then have "m = kContains" by (simp add: toSettingsStringMatchType_def)
  then show ?case using Cons.IH [OF s(2)] m by (cases "k = key") auto
qed simp

lemma apply_filters_shown:
  assumes "apply_filters Y vms t f = Inr (c, t', f', vms', evs)" "distinct (List.map sf_key vms)"
  shows "(\<forall>vm\<in>set vms. sf_pending vm \<longrightarrow> shown_as f' vm) \<and>
    (\<forall>k. (\<forall>vm\<in>set vms. sf_pending vm \<longrightarrow> sf_key vm \<noteq> k) \<longrightarrow> filter_value f' k = filter_value f k)"
  using assms
proof (induction vms arbitrary: t f c t' f' vms' evs)
  case (Cons v vms)
  have "\<exists>p. sf_applyChanges Y t f v = Inr p"
    using Cons.prems by (cases "sf_applyChanges Y t f v") auto
  then obtain c1 t1 f1 v1 e1 where s1: "sf_applyChanges Y t f v = Inr (c1, t1, f1, v1, e1)" by (metis prod_cases5)
  have "\<exists>p. apply_filters Y vms t1 f1 = Inr p"
    using Cons.prems s1 by (cases "apply_filters Y vms t1 f1") auto
  then obtain c2 t2 f2 vs2 e2 where s2: "apply_filters Y vms t1 f1 = Inr (c2, t2, f2, vs2, e2)" by (metis prod_cases5)
  have f': "f' = f2" using Cons.prems(1) by (simp add: s1 s2)
  have d: "distinct (List.map sf_key vms)" "\<forall>vm\<in>set vms. sf_key vm \<noteq> sf_key v" using Cons.prems(2) by (auto simp: image_iff)
  note ih = Cons.IH [OF s2 d(1)]
  show ?case
  proof (cases "sf_pending v")
    case True
    obtain m where m: "toWinRTStringCompareType m = sf_match v" "filter_value f1 (sf_key v) = Inr (m, sf_text v)"
      "\<forall>k. k \<noteq> sf_key v \<longrightarrow> filter_value f1 k = filter_value f k"
      using setFilter_cases [OF sf_apply_cases(4) [OF s1 True]] by blast
    have "filter_value f2 (sf_key v) = filter_value f1 (sf_key v)" using ih d(2) by blast
    then have "shown_as f2 v" using m(1,2) by (simp add: shown_as_def toWinRTStringFilterValue_def)
    then show ?thesis using ih m(3) True f' by auto
  next
    case False
    then have "f1 = f" using sf_apply_cases(3) [OF s1] by simp
    then show ?thesis using ih False f' by auto
  qed
qed simp

definition filters_inv :: "'n Filter \<Rightarrow> 'n RuleViewModel \<Rightarrow> bool" where
  "filters_inv f v \<longleftrightarrow>
     distinct (List.map sf_key (rv_filters v)) \<and> sf_key ` set (rv_filters v) \<subseteq> set kAllFilterKey \<and>
     rv_unused_keys v = List.filter (\<lambda>k. k \<notin> sf_key ` set (rv_filters v)) kAllFilterKey \<and>
     (\<forall>vm\<in>set (rv_filters v). \<not> sf_pending vm \<longrightarrow> shown_as f vm \<and> sf_key vm \<notin> set (rv_deleting_keys v)) \<and>
     (\<forall>k\<in>set (rv_unused_keys v). k \<in> set (rv_deleting_keys v) \<or> filter_value f k = Inr (kContains, []))"

lemma split_filters_cases:
  assumes "split_filters f keys = Inr (vms, unused)" "distinct keys"
  shows "distinct (List.map sf_key vms) \<and> sf_key ` set vms \<subseteq> set keys \<and>
    unused = List.filter (\<lambda>k. k \<notin> sf_key ` set vms) keys \<and>
    (\<forall>vm\<in>set vms. \<not> sf_pending vm \<and> shown_as f vm) \<and> (\<forall>k\<in>set unused. filter_value f k = Inr (kContains, []))"
  using assms
proof (induction keys arbitrary: vms unused)
  case (Cons key keys)
  obtain val where v: "filter_value f key = Inr val"
    using Cons.prems(1) by (cases "filter_value f key") (simp_all add: hasFilterForKey_def)
  have "\<exists>p. split_filters f keys = Inr p"
    using Cons.prems(1) v
    by (cases "split_filters f keys")
      (auto simp: hasFilterForKey_def makeStringFilterViewModel_def toWinRTStringFilterValue_def split: if_splits)
  then obtain vms1 unused1 where s: "split_filters f keys = Inr (vms1, unused1)" by (metis prod.collapse)
  have d: "key \<notin> set keys" "distinct keys" using Cons.prems(2) by simp_all
  note ih = Cons.IH [OF s d(2)]
  then have k: "key \<notin> sf_key ` set vms1" using d(1) by blast
  show ?case
  proof (cases "hasFilterValue val")
    case True
    let ?vm = "\<lparr>sf_key = key, sf_match = toWinRTStringCompareType (fst val), sf_text = snd val, sf_pending = False\<rparr>"
    have e: "vms = ?vm # vms1" "unused = unused1"
      using Cons.prems(1) v s True
      by (simp_all add: hasFilterForKey_def makeStringFilterViewModel_def toWinRTStringFilterValue_def)
    have "shown_as f ?vm" using v by (simp add: shown_as_def toWinRTStringFilterValue_def)
    moreover have "List.filter (\<lambda>k. k \<notin> sf_key ` set vms1) keys = List.filter (\<lambda>k. k \<notin> insert key (sf_key ` set vms1)) keys"
      using d(1) by (intro filter_cong) auto
    ultimately show ?thesis using ih k e by auto
  next
    case False
    then have "val = (kContains, [])" by (cases val) (simp add: hasFilterValue_def)
    moreover have "vms = vms1" "unused = key # unused1"
      using Cons.prems(1) v s False by (simp_all add: hasFilterForKey_def)
    ultimately show ?thesis using ih k v by auto
  qed
qed simp

lemma kAll_distinct: "distinct kAllFilterKey" by (simp add: kAllFilterKey_def)

lemma makeRuleViewModel_filters:
  assumes "makeRuleViewModel Y t r = Inr v"
  shows "filters_inv (rfilter r) v"
proof -
  obtain vms unused where s: "split_filters (rfilter r) kAllFilterKey = Inr (vms, unused)"
    "rv_filters v = vms" "rv_unused_keys v = unused" "rv_deleting_keys v = []"
    using assms by (auto simp: makeRuleViewModel_def res_simps)
  then show ?thesis using split_filters_cases [OF s(1) kAll_distinct] by (simp add: filters_inv_def)
qed

lemma add_filters:
  assumes "onAddFilterRequested key r v = Inr (v', evs)" "filters_inv f v"
  shows "filters_inv f v'"
proof -
  have v': "key \<in> set (rv_unused_keys v)"
    "v' = v\<lparr>rv_unused_keys := remove1 key (rv_unused_keys v),
       rv_filters := rv_filters v @ [\<lparr>sf_key = key, sf_match = 0, sf_text = [], sf_pending = True\<rparr>]\<rparr>"
    using assms(1) by (auto simp: onAddFilterRequested_def makeStringFilterViewModel_def split: if_splits)
  let ?S = "sf_key ` set (rv_filters v)"
  have u: "rv_unused_keys v = List.filter (\<lambda>k. k \<notin> ?S) kAllFilterKey" using assms(2) by (simp add: filters_inv_def)
  have "remove1 key (rv_unused_keys v) = List.filter (\<lambda>k. k \<noteq> key) (rv_unused_keys v)"
    using kAll_distinct u by (simp add: distinct_remove1_removeAll removeAll_filter_not_eq eq_commute)
  then have "remove1 key (rv_unused_keys v) = List.filter (\<lambda>k. k \<notin> insert key ?S) kAllFilterKey"
    unfolding u by (simp add: conj_commute)
  moreover have "set (remove1 key (rv_unused_keys v)) \<subseteq> set (rv_unused_keys v)" by (rule set_remove1_subset)
  moreover have "key \<in> set kAllFilterKey" "key \<notin> ?S" using v'(1) u by auto
  ultimately show ?thesis using assms(2) by (auto simp: filters_inv_def v'(2))
qed

lemma insert_unused:
  assumes "key \<in> set kAllFilterKey" "key \<in> S" "u = List.filter (\<lambda>k. k \<notin> S) kAllFilterKey"
  obtains i where "insertion_index u key kAllFilterKey = Some i"
    "take i u @ [key] @ drop i u = List.filter (\<lambda>k. k \<notin> S - {key}) kAllFilterKey"
proof -
  have "\<exists>i. insertion_index u key kAllFilterKey = Some i \<and>
      take i u @ [key] @ drop i u = List.filter (\<lambda>k. k \<notin> S - {key}) kAllFilterKey"
    using assms
    by (cases "0 \<in> S"; cases "1 \<in> S"; cases "2 \<in> S") (auto simp: kAllFilterKey_def)
  then show thesis using that by blast
qed

lemma remove_key:
  assumes "distinct (List.map sf_key xs)"
  shows "distinct (List.map sf_key (takeWhile (\<lambda>vm. sf_key vm \<noteq> key) xs @ tl (dropWhile (\<lambda>vm. sf_key vm \<noteq> key) xs))) \<and>
    set (takeWhile (\<lambda>vm. sf_key vm \<noteq> key) xs @ tl (dropWhile (\<lambda>vm. sf_key vm \<noteq> key) xs)) = {vm \<in> set xs. sf_key vm \<noteq> key}"
  using assms by (induction xs) (auto simp: image_iff)

lemma remove_is_filter:
  "distinct (List.map sf_key xs) \<Longrightarrow>
    takeWhile (\<lambda>vm. sf_key vm \<noteq> key) xs @ tl (dropWhile (\<lambda>vm. sf_key vm \<noteq> key) xs) = List.filter (\<lambda>vm. sf_key vm \<noteq> key) xs"
  by (induction xs) (auto simp: image_iff intro!: filter_True [symmetric])

lemma delete_filters:
  assumes "onDeleteRequested key v = Inr (v', evs)" "filters_inv f v"
  shows "filters_inv f v'"
proof -
  let ?xs = "rv_filters v" and ?S = "sf_key ` set (rv_filters v)"
  let ?ys = "takeWhile (\<lambda>vm. sf_key vm \<noteq> key) ?xs @ tl (dropWhile (\<lambda>vm. sf_key vm \<noteq> key) ?xs)"
  have in_S: "key \<in> ?S"
    using assms(1) by (auto simp: onDeleteRequested_def list_ex_iff split: if_splits)
  have inv: "distinct (List.map sf_key ?xs)" "?S \<subseteq> set kAllFilterKey"
    "rv_unused_keys v = List.filter (\<lambda>k. k \<notin> ?S) kAllFilterKey" using assms(2) by (simp_all add: filters_inv_def)
  obtain i where i: "insertion_index (rv_unused_keys v) key kAllFilterKey = Some i"
    "take i (rv_unused_keys v) @ [key] @ drop i (rv_unused_keys v) = List.filter (\<lambda>k. k \<notin> ?S - {key}) kAllFilterKey"
    using insert_unused [OF _ in_S inv(3)] inv(2) in_S by blast
  have v': "v' = v\<lparr>rv_filters := ?ys, rv_deleting_keys := rv_deleting_keys v @ [key],
      rv_unused_keys := List.filter (\<lambda>k. k \<notin> ?S - {key}) kAllFilterKey\<rparr>"
    using assms(1) i by (auto simp: onDeleteRequested_def Let_def split: if_splits)
  note ys = remove_key [OF inv(1), of key]
  then have "sf_key ` set ?ys = ?S - {key}" by auto
  then show ?thesis using assms(2) ys unfolding filters_inv_def v' by auto
qed

lemma edit_filters:
  assumes "filters_inv f v" "i < length (rv_filters v)" "sf_key vm = sf_key (rv_filters v ! i)"
    "vm = rv_filters v ! i \<or> sf_pending vm"
  shows "filters_inv f (v\<lparr>rv_filters := (rv_filters v)[i := vm]\<rparr>)"
proof -
  have m: "List.map sf_key ((rv_filters v)[i := vm]) = List.map sf_key (rv_filters v)"
    using assms(3) by (simp add: map_update list_update_same_conv assms(2))
  then have k: "sf_key ` set ((rv_filters v)[i := vm]) = sf_key ` set (rv_filters v)"
    by (metis list.set_map)
  have "x \<in> set (rv_filters v) \<or> sf_pending x" if "x \<in> set ((rv_filters v)[i := vm])" for x
    using that assms(2,4) set_update_subset_insert [of "rv_filters v" i vm] by (metis insertE nth_mem subsetD)
  then show ?thesis using assms(1) m k by (auto simp: filters_inv_def)
qed

section \<open>The action of the rule and of the editor\<close>

definition av_ok :: "'n AbsoluteMoveAndResizeViewModel \<Rightarrow> bool" where
  "av_ok a \<longleftrightarrow> length (av_vals a) = 4 \<and> length (av_dirty a) = 4 \<and> abs_valid (av_action a) \<and>
     (\<forall>i<4. abs_set_pre i (av_vals a ! i) \<and>
        (av_dirty a ! i \<or> i4_at (abs_bounds (av_action a)) i = av_vals a ! i) \<and> (av_dirty a ! i \<longrightarrow> av_pending a))"

definition rvm_ok :: "'n RelativeMoveAndResizeViewModel \<Rightarrow> bool" where
  "rvm_ok m \<longleftrightarrow> length (rvm_vals m) = 4 \<and> length (rvm_dirty m) = 4 \<and>
     (\<forall>i<4. f32_finite (rvm_vals m ! i) \<and>
        (rvm_dirty m ! i \<or> f32_eq (f4_at (rel_bounds (rvm_action m)) i) (rvm_vals m ! i)) \<and>
        (rvm_dirty m ! i \<longrightarrow> rvm_pending m)) \<and>
     (rvm_id_dirty m \<or> rel_id (rvm_action m) = rvm_id m) \<and> (rvm_id_dirty m \<longrightarrow> rvm_pending m)"

lemma makeAbsoluteViewModel_ok: "abs_valid a \<Longrightarrow> av_ok (makeAbsoluteViewModel a p)"
  by (simp add: av_ok_def makeAbsoluteViewModel_def all_less_4 abs_valid_def nth_replicate)

lemma makeRelativeViewModel_ok: "rel_valid r \<Longrightarrow> rvm_ok (makeRelativeViewModel r p)"
  by (simp add: rvm_ok_def makeRelativeViewModel_def all_less_4 rel_valid_def f32_eq_finite nth_replicate)

lemma av_set_ok:
  assumes "av_set i p lo hi x a = Inr (a', evs)" "av_ok a" "i < 4"
    "\<not> (x <s lo \<or> hi <s x) \<Longrightarrow> abs_set_pre i x"
  shows "av_ok a'"
proof -
  have pre: "abs_set_pre i x" using assms(1,4) by (auto simp: av_set_def split: if_splits)
  then have "a' = a \<or> a' = a\<lparr>av_vals := (av_vals a)[i := x], av_dirty := (av_dirty a)[i := True], av_pending := True\<rparr>"
    using assms(1) by (auto simp: av_set_def set_shown_cases split: if_splits)
  then show ?thesis using assms(2,3) pre by (elim disjE) (simp, fastforce simp: av_ok_def nth_list_update)
qed

lemma av_edit_ok:
  assumes "edit \<in> {av_X, av_Y, av_Width, av_Height}" "edit x a = Inr (a', evs)" "av_ok a"
  shows "av_ok a'"
proof -
  have pre: "\<not> (x <s kAbsoluteCoordinateMin \<or> kAbsoluteCoordinateMax <s x) \<Longrightarrow> abs_set_pre 0 x \<and> abs_set_pre 1 x"
    "\<not> (x <s kAbsoluteLengthMin \<or> kAbsoluteLengthMax <s x) \<Longrightarrow> abs_set_pre 2 x \<and> abs_set_pre 3 x"
    by (simp_all add: abs_set_pre_def word_sless_alt word_sle_eq not_less)
  show ?thesis
    using assms(1,2) av_set_ok [OF _ assms(3)] pre
    by (auto simp: av_X_def av_Y_def av_Width_def av_Height_def)
qed

lemma rvm_set_ok:
  assumes "rvm_set i p x m = Inr (m', evs)" "rvm_ok m" "i < 4"
  shows "rvm_ok m'"
proof -
  have fin: "f32_finite x" using assms(1) by (auto simp: rvm_set_def split: if_splits)
  have "m' = m \<or> m' = m\<lparr>rvm_vals := (rvm_vals m)[i := x], rvm_dirty := (rvm_dirty m)[i := True], rvm_pending := True\<rparr>"
    using assms(1) by (auto simp: rvm_set_def set_shown_cases split: if_splits)
  then show ?thesis using assms(2,3) fin by (elim disjE) (simp, fastforce simp: rvm_ok_def nth_list_update)
qed

lemma rvm_edit_ok:
  assumes "edit \<in> {rvm_X, rvm_Y, rvm_Width, rvm_Height}" "edit x m = Inr (m', evs)" "rvm_ok m"
  shows "rvm_ok m'"
  using assms(1,2) rvm_set_ok [OF _ assms(3)] by (auto simp: rvm_X_def rvm_Y_def rvm_Width_def rvm_Height_def)

lemma rvm_Id_ok:
  assumes "rvm_Id d m = Inr (m', evs)" "rvm_ok m"
  shows "rvm_ok m'"
proof -
  have "m' = m \<or> m' = m\<lparr>rvm_id := d, rvm_id_dirty := True, rvm_pending := True\<rparr>"
    using assms(1) by (auto simp: rvm_Id_def set_shown_cases split: if_splits)
  then show ?thesis using assms(2) by (auto simp: rvm_ok_def)
qed

text \<open>A setter of the rule's action changes its own lane only.\<close>

lemma abs_set_lanes:
  assumes "abs_set Y i key t a x = Inr (t', a')" "i < 4" "j < 4"
  shows "i4_at (abs_bounds a') j = (if j = i then x else i4_at (abs_bounds a) j)"
  using assms by (auto simp: abs_set_def res_simps i4_at_def setAt_lanes nth_list_update split: if_splits)

lemma rel_set_lanes:
  assumes "rel_set Y i key t a x = Inr (t', a')" "i < 4" "j < 4" "f32_finite x"
  shows "if j = i then f32_eq (f4_at (rel_bounds a') j) x else f4_at (rel_bounds a') j = f4_at (rel_bounds a) j"
    "rel_id a' = rel_id a"
  using assms by (auto simp: rel_set_def res_simps f4_at_def setAt_lanes nth_list_update f32_eq_finite split: if_splits)

lemma av_one_sync:
  assumes "av_apply_one (abs_set Y i key) i (t, v) = Inr (t', v')" "i < 4" "av_ok v"
  shows "av_ok v' \<and> \<not> av_dirty v' ! i"
proof (cases "av_dirty v ! i")
  case True
  obtain t1 a where s: "abs_set Y i key t (av_action v) (av_vals v ! i) = Inr (t1, a)"
    "v' = v\<lparr>av_dirty := (av_dirty v)[i := False], av_action := a\<rparr>"
    using assms(1) True by (auto simp: av_apply_one_def res_simps)
  have "abs_valid a" using abs_set_valid(1) [OF s(1)] assms(2,3) by (simp add: av_ok_def)
  then show ?thesis
    using assms(2,3) abs_set_lanes [OF s(1) assms(2)] by (auto simp: av_ok_def s(2) nth_list_update)
next
  case False
  then show ?thesis using assms by (auto simp: av_apply_one_def)
qed

lemma av_apply_sync:
  assumes "av_applyChanges Y t v = Inr (c, t', v', evs)" "av_ok v"
  shows "av_ok v' \<and> (\<forall>i<4. i4_at (abs_bounds (av_action v')) i = av_vals v' ! i)"
proof (cases "av_pending v")
  case False
  then show ?thesis using assms by (auto simp: av_applyChanges_def av_ok_def)
next
  case True
  obtain t1 v1 t2 v2 t3 v3 v4 where s: "av_apply_one (abs_set Y 0 kPosX) 0 (t, v) = Inr (t1, v1)"
    "av_apply_one (abs_set Y 1 kPosY) 1 (t1, v1) = Inr (t2, v2)" "av_apply_one (abs_set Y 2 kWidth) 2 (t2, v2) = Inr (t3, v3)"
    "av_apply_one (abs_set Y 3 kHeight) 3 (t3, v3) = Inr (t', v4)" "v' = v4\<lparr>av_pending := False\<rparr>"
    using assms(1) True
    by (auto simp: av_applyChanges_def res_simps abs_setX_def abs_setY_def abs_setWidth_def abs_setHeight_def)
  have "av_ok v1" using av_one_sync [OF s(1)] assms(2) by simp
  then have "av_ok v2" using av_one_sync [OF s(2)] by simp
  then have "av_ok v3" using av_one_sync [OF s(3)] by simp
  then have ok: "av_ok v4" using av_one_sync [OF s(4)] by simp
  have len: "length (av_dirty v) = 4" using assms(2) by (simp add: av_ok_def)
  have "av_dirty v4 = (av_dirty v)[0 := False, 1 := False, 2 := False, 3 := False]"
    using s(1-4) [THEN av_one_keeps(3)] by simp
  then have "\<forall>i<4. \<not> av_dirty v4 ! i" using len by (simp add: all_less_4 nth_list_update)
  then show ?thesis using ok by (simp add: av_ok_def s(5))
qed

lemma rvm_one_sync:
  assumes "rvm_apply_one (rel_set Y i key) i (t, v) = Inr (t', v')" "i < 4" "rvm_ok v"
  shows "rvm_ok v'"
proof (cases "rvm_dirty v ! i")
  case True
  obtain t1 a where s: "rel_set Y i key t (rvm_action v) (rvm_vals v ! i) = Inr (t1, a)"
    "v' = v\<lparr>rvm_dirty := (rvm_dirty v)[i := False], rvm_action := a\<rparr>"
    using assms(1) True by (auto simp: rvm_apply_one_def res_simps)
  have fin: "f32_finite (rvm_vals v ! i)" using assms(2,3) by (simp add: rvm_ok_def)
  show ?thesis
    using assms(2,3) rel_set_lanes [OF s(1) assms(2) _ fin] by (auto simp: rvm_ok_def s(2) nth_list_update)
next
  case False
  then show ?thesis using assms by (auto simp: rvm_apply_one_def)
qed

lemma rvm_id_sync:
  assumes "rvm_apply_id Y (t, v) = Inr (t', v')" "rvm_ok v"
  shows "rvm_ok v'"
  using assms by (auto simp: rvm_apply_id_def rvm_ok_def rel_setId_def res_simps Let_def split: if_splits)

lemma rvm_apply_sync:
  assumes "rvm_applyChanges Y t v = Inr (c, t', v', evs)" "rvm_ok v"
  shows "rvm_ok v' \<and> (\<forall>i<4. f32_eq (f4_at (rel_bounds (rvm_action v')) i) (rvm_vals v' ! i)) \<and> rel_id (rvm_action v') = rvm_id v'"
proof (cases "rvm_pending v")
  case False
  then show ?thesis using assms by (auto simp: rvm_applyChanges_def rvm_ok_def)
next
  case True
  obtain t0 v0 t1 v1 t2 v2 t3 v3 v4 where s: "rvm_apply_id Y (t, v) = Inr (t0, v0)"
    "rvm_apply_one (rel_set Y 0 kPosX) 0 (t0, v0) = Inr (t1, v1)"
    "rvm_apply_one (rel_set Y 1 kPosY) 1 (t1, v1) = Inr (t2, v2)" "rvm_apply_one (rel_set Y 2 kWidth) 2 (t2, v2) = Inr (t3, v3)"
    "rvm_apply_one (rel_set Y 3 kHeight) 3 (t3, v3) = Inr (t', v4)" "v' = v4\<lparr>rvm_pending := False\<rparr>"
    using assms(1) True
    by (auto simp: rvm_applyChanges_def res_simps rel_setX_def rel_setY_def rel_setWidth_def rel_setHeight_def)
  have "rvm_ok v0" by (rule rvm_id_sync [OF s(1) assms(2)])
  then have "rvm_ok v1" using rvm_one_sync [OF s(2)] by simp
  then have "rvm_ok v2" using rvm_one_sync [OF s(3)] by simp
  then have "rvm_ok v3" using rvm_one_sync [OF s(4)] by simp
  then have ok: "rvm_ok v4" using rvm_one_sync [OF s(5)] by simp
  have len: "length (rvm_dirty v) = 4" using assms(2) by (simp add: rvm_ok_def)
  have "rvm_dirty v4 = (rvm_dirty v)[0 := False, 1 := False, 2 := False, 3 := False]" "\<not> rvm_id_dirty v4"
    using s(2-5) [THEN rvm_one_keeps(5)] s(2-5) [THEN rvm_one_keeps(4)] rvm_id_keeps [OF s(1)] by simp_all
  then have "\<forall>i<4. \<not> rvm_dirty v4 ! i" "\<not> rvm_id_dirty v4" using len by (simp_all add: all_less_4 nth_list_update)
  then show ?thesis using ok by (simp add: rvm_ok_def s(6))
qed

section \<open>The triggers of the rule and of the editor\<close>

text \<open>The documented behaviour of \<open>magic_enum\<close>'s flag functions on the enumeration of the triggers.\<close>

definition flags_law :: "('t, 'n, 'a) editor_api_scheme \<Rightarrow> bool" where
  "flags_law Y \<longleftrightarrow>
     (\<forall>v f. trigger_flags v \<longrightarrow> f \<in> {1, 2, 4} \<longrightarrow> flags_test Y v f \<longleftrightarrow> v AND f \<noteq> 0) \<and>
     (\<forall>v. trigger_flags v \<longrightarrow> v \<noteq> 0 \<longrightarrow> flags_cast Y v = Some v) \<and> flags_cast Y 0 \<in> {None, Some 0}"

lemma trigger_flags_cases:
  assumes "trigger_flags v"
  shows "v = 0 \<or> v = 1 \<or> v = 2 \<or> v = 3 \<or> v = 4 \<or> v = 5 \<or> v = 6 \<or> v = 7"
proof -
  have "unat v = take_bit 3 (unat v)" using assms unfolding trigger_flags_def by (metis unsigned_take_bit_eq)
  then have "unat v < 2 ^ 3" by (metis take_bit_nat_less_exp)
  then have "unat v \<in> {0, 1, 2, 3, 4, 5, 6, 7}" by auto
  moreover have "v = word_of_nat (unat v)" by simp
  ultimately show ?thesis by fastforce
qed

lemma flags_bits:
  "trigger_flags 0" "trigger_flags 1" "trigger_flags 2" "trigger_flags 3" "trigger_flags 4" "trigger_flags 5"
  "trigger_flags 6" "trigger_flags 7"
  by (simp_all add: trigger_flags_def)

lemma shown_triggers_flags:
  assumes "flags_law Y"
  shows "trigger_flags (shown_triggers Y v)"
    and "flags_test Y (shown_triggers Y v) kApplicationStart = tr_started v"
    and "flags_test Y (shown_triggers Y v) kWindowFocus = tr_activated v"
    and "flags_test Y (shown_triggers Y v) kWindowShow = tr_shown v"
proof -
  have z: "flags_cast Y 0 = None \<or> flags_cast Y 0 = Some 0" using assms by (simp add: flags_law_def)
  have c: "flags_cast Y v = Some v" if "trigger_flags v" "v \<noteq> 0" for v using assms that by (simp add: flags_law_def)
  have t: "flags_test Y v f \<longleftrightarrow> v AND f \<noteq> 0" if "trigger_flags v" "f \<in> {1, 2, 4}" for v f
    using assms that unfolding flags_law_def by blast
  let ?raw = "(if tr_started v then 1 else 0) OR (if tr_activated v then 2 else 0) OR (if tr_shown v then 4 else 0) :: 32 word"
  have r: "trigger_flags ?raw" by (simp add: flags_bits)
  have s: "shown_triggers Y v = ?raw"
    using z c [OF r] by (auto simp: shown_triggers_def trigger_defs kTriggerNone_def Let_def)
  show "trigger_flags (shown_triggers Y v)" unfolding s by (rule r)
  show "flags_test Y (shown_triggers Y v) kApplicationStart = tr_started v"
    "flags_test Y (shown_triggers Y v) kWindowFocus = tr_activated v"
    "flags_test Y (shown_triggers Y v) kWindowShow = tr_shown v"
    unfolding s trigger_defs t [OF r, of 1, simplified] t [OF r, of 2, simplified] t [OF r, of 4, simplified] by simp_all
qed

lemma shown_triggers_of_bits:
  assumes "flags_law Y" "trigger_flags v" "tr_started s = flags_test Y v kApplicationStart"
    "tr_activated s = flags_test Y v kWindowFocus" "tr_shown s = flags_test Y v kWindowShow"
  shows "shown_triggers Y s = v"
proof -
  have z: "flags_cast Y 0 = None \<or> flags_cast Y 0 = Some 0" using assms(1) by (simp add: flags_law_def)
  have c: "flags_cast Y v = Some v" if "v \<noteq> 0" using assms(1,2) that by (simp add: flags_law_def)
  have t: "flags_test Y v f \<longleftrightarrow> v AND f \<noteq> 0" if "f \<in> {1, 2, 4}" for f
    using assms(1,2) that unfolding flags_law_def by blast
  have raw: "(if v AND 1 \<noteq> 0 then 1 else 0) OR (if v AND 2 \<noteq> 0 then 2 else 0) OR (if v AND 4 \<noteq> 0 then 4 else 0) = v"
    using trigger_flags_cases [OF assms(2)] by (elim disjE) simp_all
  show ?thesis
    unfolding shown_triggers_def Let_def assms(3-5)
    using t [of 1] t [of 2] t [of 4] raw z c
    by (cases "v = 0") (auto simp: trigger_defs kTriggerNone_def)
qed

definition triggers_inv :: "('t, 'n, 'a) editor_api_scheme \<Rightarrow> 'n Rule \<Rightarrow> TriggersViewModel \<Rightarrow> bool" where
  "triggers_inv Y r v \<longleftrightarrow> trigger_flags (rtriggers r) \<and>
     (\<not> tr_pending v \<longrightarrow> tr_started v = flags_test Y (rtriggers r) kApplicationStart \<and>
        tr_activated v = flags_test Y (rtriggers r) kWindowFocus \<and> tr_shown v = flags_test Y (rtriggers r) kWindowShow)"

lemma setTriggerFlags_cases:
  assumes "setTriggerFlags Y t r f = Some (Inr (t', r'))"
  shows "r' = r\<lparr>rtriggers := f\<rparr>"
  using assms by (cases r) (auto simp: setTriggerFlags_def res_simps split: if_splits option.splits)

lemma triggers_apply:
  assumes "tr_applyChanges Y t r v = Some (Inr (c, t', r', v', evs))" "triggers_inv Y r v" "flags_law Y"
  shows "triggers_inv Y r' v' \<and> r' = r\<lparr>rtriggers := shown_triggers Y v\<rparr>"
proof (cases "tr_pending v")
  case True
  have "r' = r\<lparr>rtriggers := shown_triggers Y v\<rparr>"
    by (rule setTriggerFlags_cases [OF tr_apply_cases(4) [OF assms(1) True]])
  then show ?thesis
    using shown_triggers_flags [OF assms(3), of v] tr_apply_cases(2) [OF assms(1)] by (simp add: triggers_inv_def)
next
  case False
  have "shown_triggers Y v = rtriggers r"
    using assms(2) False by (intro shown_triggers_of_bits [OF assms(3)]) (simp_all add: triggers_inv_def)
  then show ?thesis
    using tr_apply_cases(2,3) [OF assms(1)] False assms(2) by (cases v; cases r) (simp add: triggers_inv_def)
qed

lemma triggers_edit:
  assumes "edit \<in> {tr_ApplicationStarted, tr_WindowActivated, tr_WindowShown}" "edit b v = (v', evs)" "triggers_inv Y r v"
  shows "triggers_inv Y r v'"
proof -
  have "v' = v \<or> tr_pending v'"
    using assms(1,2)
    by (auto simp: tr_ApplicationStarted_def tr_WindowActivated_def tr_WindowShown_def set_shown_cases split: if_splits)
  then show ?thesis using assms(3) by (auto simp: triggers_inv_def)
qed

section \<open>The invariant of the editor\<close>

definition action_inv :: "ActionType \<Rightarrow> 'n ActionViewModel option \<Rightarrow> bool" where
  "action_inv ty a \<longleftrightarrow>
     (case a of None \<Rightarrow> ty = kInvalid
      | Some (AbsoluteVM v) \<Rightarrow> ty = kAbsoluteMoveAndResize \<and> av_ok v
      | Some (RelativeVM v) \<Rightarrow> ty = kRelativeMoveAndResize \<and> rvm_ok v)"

lemma makeActionViewModel_inv:
  assumes "makeActionViewModel Y t a b = Inr vm"
  shows "action_inv (atype a) vm"
proof (cases "atype a")
  case kAbsoluteMoveAndResize
  then obtain x where x: "makeAbsolute Y t (anode a) = Inr x" "vm = Some (AbsoluteVM (makeAbsoluteViewModel x b))"
    using assms by (auto simp: makeActionViewModel_def as_absolute_def res_simps)
  show ?thesis
    using makeAbsoluteViewModel_ok [OF makeAbsolute_valid(1) [OF x(1)]] kAbsoluteMoveAndResize
    by (simp add: action_inv_def x(2))
next
  case kRelativeMoveAndResize
  then obtain x where x: "makeRelative Y t (anode a) = Inr x" "vm = Some (RelativeVM (makeRelativeViewModel x b))"
    using assms by (auto simp: makeActionViewModel_def as_relative_def res_simps)
  show ?thesis
    using makeRelativeViewModel_ok [OF makeRelative_valid(1) [OF x(1)]] kRelativeMoveAndResize
    by (simp add: action_inv_def x(2))
next
  case kInvalid
  then show ?thesis using assms by (simp add: makeActionViewModel_def action_inv_def)
qed

text \<open>What an action's view model shows, and that the action it holds has these values.\<close>

fun shown_action :: "'n ActionViewModel option \<Rightarrow> winrt_enum \<times> 32 word list \<times> f32 list \<times> 32 word" where
  "shown_action None = (0, [], [], 0)"
| "shown_action (Some (AbsoluteVM v)) = (1, av_vals v, [], 0)"
| "shown_action (Some (RelativeVM v)) = (2, [], rvm_vals v, rvm_id v)"

fun action_as_shown :: "'n ActionViewModel option \<Rightarrow> bool" where
  "action_as_shown None \<longleftrightarrow> True"
| "action_as_shown (Some (AbsoluteVM v)) \<longleftrightarrow> abs_valid (av_action v) \<and>
     (\<forall>i<4. i4_at (abs_bounds (av_action v)) i = av_vals v ! i)"
| "action_as_shown (Some (RelativeVM v)) \<longleftrightarrow> rel_id (rvm_action v) = rvm_id v \<and>
     (\<forall>i<4. f32_eq (f4_at (rel_bounds (rvm_action v)) i) (rvm_vals v ! i))"

lemma apply_action_inv:
  assumes "apply_action Y a t = Inr (c, t', a', evs)" "action_inv ty a"
  shows "action_inv ty a' \<and> shown_action a' = shown_action a \<and> action_as_shown a'"
proof (cases a)
  case None
  then show ?thesis using assms by (auto simp: apply_action_def)
next
  case (Some m)
  show ?thesis
  proof (cases m)
    case (AbsoluteVM u)
    have "\<exists>p. av_applyChanges Y t u = Inr p"
      using assms Some AbsoluteVM by (cases "av_applyChanges Y t u") (auto simp: apply_action_def)
    then obtain c1 t1 u1 e1 where u: "av_applyChanges Y t u = Inr (c1, t1, u1, e1)" by (metis prod_cases4)
    have "av_ok u" "a' = Some (AbsoluteVM u1)" using assms Some AbsoluteVM u by (auto simp: apply_action_def action_inv_def)
    then show ?thesis
      using av_apply_sync [OF u] av_apply_cases(4) [OF u] assms(2) Some AbsoluteVM by (simp add: action_inv_def av_ok_def)
  next
    case (RelativeVM u)
    have "\<exists>p. rvm_applyChanges Y t u = Inr p"
      using assms Some RelativeVM by (cases "rvm_applyChanges Y t u") (auto simp: apply_action_def)
    then obtain c1 t1 u1 e1 where u: "rvm_applyChanges Y t u = Inr (c1, t1, u1, e1)" by (metis prod_cases4)
    have "rvm_ok u" "a' = Some (RelativeVM u1)" using assms Some RelativeVM u by (auto simp: apply_action_def action_inv_def)
    then show ?thesis
      using rvm_apply_sync [OF u] rvm_apply_cases(4,5) [OF u] assms(2) Some RelativeVM by (simp add: action_inv_def)
  qed
qed

definition editor_inv :: "('t, 'n, 'a) editor_api_scheme \<Rightarrow> 'n Rule \<Rightarrow> 'n RuleViewModel \<Rightarrow> bool" where
  "editor_inv Y r v \<longleftrightarrow> filters_inv (rfilter r) v \<and> triggers_inv Y r (rv_triggers v) \<and>
     action_inv (atype (raction r)) (rv_action v)"

lemma filters_inv_cong:
  assumes "filters_inv f v" "rv_filters v' = rv_filters v" "rv_unused_keys v' = rv_unused_keys v"
    "rv_deleting_keys v' = rv_deleting_keys v"
  shows "filters_inv f v'"
  using assms by (simp add: filters_inv_def)

lemma filters_apply:
  assumes "clear_keys Y (rv_deleting_keys v) t f = Inr (t1, f1)"
    "apply_filters Y (rv_filters v) t2 f1 = Inr (c3, t3, f3, vms3, evs3)" "filters_inv f v"
  shows "(\<forall>vm\<in>set (rv_filters v). shown_as f3 vm) \<and> (\<forall>k\<in>set (rv_unused_keys v). filter_value f3 k = Inr (kContains, []))"
proof -
  have d: "distinct (List.map sf_key (rv_filters v))" using assms(3) by (simp add: filters_inv_def)
  note S = apply_filters_shown [OF assms(2) d] and C = clear_keys_cases [OF assms(1)]
  have one: "vm = vm'" if "vm \<in> set (rv_filters v)" "vm' \<in> set (rv_filters v)" "sf_key vm = sf_key vm'" for vm vm'
    using d that by (simp add: distinct_map inj_on_def)
  have "shown_as f3 vm" if m: "vm \<in> set (rv_filters v)" for vm
  proof (cases "sf_pending vm")
    case True
    then show ?thesis using S m by blast
  next
    case False
    have "filter_value f3 (sf_key vm) = filter_value f1 (sf_key vm)" using S one m False by metis
    moreover have "filter_value f1 (sf_key vm) = filter_value f (sf_key vm)" "shown_as f vm"
      using C assms(3) m False by (simp_all add: filters_inv_def)
    ultimately show ?thesis by (simp add: shown_as_def toWinRTStringFilterValue_def)
  qed
  moreover have "filter_value f3 k = Inr (kContains, [])" if k: "k \<in> set (rv_unused_keys v)" for k
  proof -
    have "k \<notin> sf_key ` set (rv_filters v)" using assms(3) k by (simp add: filters_inv_def)
    then have "filter_value f3 k = filter_value f1 k" using S by (metis imageI)
    moreover have "k \<in> set (rv_deleting_keys v) \<or> filter_value f k = Inr (kContains, [])"
      using assms(3) k unfolding filters_inv_def by blast
    ultimately show ?thesis using C by (auto split: if_splits)
  qed
  ultimately show ?thesis by blast
qed

lemma apply_editor:
  assumes "rv_applyChanges Y t r v = Some (Inr (c, t', r', v', evs))" "editor_inv Y r v" "flags_law Y"
  shows "editor_inv Y r' v' \<and>
    (\<forall>vm\<in>set (rv_filters v). shown_as (rfilter r') vm) \<and>
    (\<forall>k\<in>set (rv_unused_keys v). filter_value (rfilter r') k = Inr (kContains, [])) \<and>
    rtriggers r' = shown_triggers Y (rv_triggers v) \<and> action_as_shown (rv_action v') \<and>
    shown_action (rv_action v') = shown_action (rv_action v) \<and> raction r' = raction r \<and>
    rv_filters v' = List.map (\<lambda>vm. vm\<lparr>sf_pending := False\<rparr>) (rv_filters v) \<and>
    rv_unused_keys v' = rv_unused_keys v \<and> rv_triggers v' = (rv_triggers v)\<lparr>tr_pending := False\<rparr>"
proof -
  obtain t1 f1 c2 t2 a2 evs2 c3 t3 f3 vms3 evs3 c4 tr4 evs4 where p:
    "clear_keys Y (rv_deleting_keys v) t (rfilter r) = Inr (t1, f1)"
    "apply_action Y (rv_action v) t1 = Inr (c2, t2, a2, evs2)"
    "apply_filters Y (rv_filters v) t2 f1 = Inr (c3, t3, f3, vms3, evs3)"
    "tr_applyChanges Y t3 (r\<lparr>rfilter := f3\<rparr>) (rv_triggers v) = Some (Inr (c4, t', r', tr4, evs4))"
    and v': "v' = v\<lparr>rv_deleting_keys := [], rv_action := a2, rv_filters := vms3, rv_triggers := tr4\<rparr>"
    by (rule rv_apply_parts [OF assms(1)]) metis
  have inv: "filters_inv (rfilter r) v" "triggers_inv Y (r\<lparr>rfilter := f3\<rparr>) (rv_triggers v)"
    "action_inv (atype (raction r)) (rv_action v)"
    using assms(2) by (simp_all add: editor_inv_def triggers_inv_def)
  note T = triggers_apply [OF p(4) inv(2) assms(3)]
  have r': "rfilter r' = f3" "raction r' = raction r" "rtriggers r' = shown_triggers Y (rv_triggers v)" using T by simp_all
  note A = apply_action_inv [OF p(2) inv(3)] and F = filters_apply [OF p(1,3) inv(1)]
  have vms3: "vms3 = List.map (\<lambda>vm. vm\<lparr>sf_pending := False\<rparr>) (rv_filters v)" using apply_filters_cases [OF p(3)] by simp
  have k: "List.map sf_key vms3 = List.map sf_key (rv_filters v)" by (simp add: vms3 comp_def)
  then have ks: "sf_key ` set vms3 = sf_key ` set (rv_filters v)" by (metis list.set_map)
  have "\<forall>vm\<in>set vms3. shown_as f3 vm" using F by (auto simp: vms3 shown_as_def)
  then have "filters_inv f3 v'" using inv(1) F k ks by (simp add: filters_inv_def v')
  moreover have "triggers_inv Y r' (rv_triggers v')" unfolding v' using conjunct1 [OF T] by simp
  ultimately have "editor_inv Y r' v'" using A r' by (simp add: editor_inv_def v')
  then show ?thesis
    using A F r' tr_apply_cases(2) [OF p(4)] by (simp add: v' vms3)
qed

lemma makeRule_parts:
  assumes "makeRule Y t n i = Inr r"
  shows "trigger_flags (rtriggers r)"
  using assms ReadTriggerFlags_range by (auto simp: makeRule_def res_simps)

lemma makeRuleViewModel_inv:
  assumes "makeRuleViewModel Y t r = Inr v" "trigger_flags (rtriggers r)"
  shows "editor_inv Y r v"
proof -
  obtain name a vms unused where s: "makeActionViewModel Y t (raction r) False = Inr a"
    "v = \<lparr>rv_deleting_keys = [], rv_name = name, rv_action = a, rv_filters = vms,
       rv_triggers = makeTriggersViewModel Y r, rv_unused_keys = unused\<rparr>"
    using assms(1) by (auto simp: makeRuleViewModel_def res_simps)
  then show ?thesis
    using makeRuleViewModel_filters [OF assms(1)] makeActionViewModel_inv [OF s(1)] assms(2)
    by (simp add: editor_inv_def triggers_inv_def makeTriggersViewModel_def)
qed

lemma retype_inv:
  assumes "rv_ActionType Y t r v a = Inr (t', r', v', evs)" "editor_inv Y r v"
  shows "editor_inv Y r' v'"
proof -
  have "r' = r \<and> v' = v \<or>
    (\<exists>a' vm t2. r' = r\<lparr>raction := a'\<rparr> \<and> v' = v\<lparr>rv_action := vm\<rparr> \<and> makeActionViewModel Y t2 a' True = Inr vm)"
    using assms(1) by (auto simp: rv_ActionType_def res_simps split: if_splits)
  then show ?thesis
  proof
    assume "r' = r \<and> v' = v" then show ?thesis using assms(2) by simp
  next
    assume "\<exists>a' vm t2. r' = r\<lparr>raction := a'\<rparr> \<and> v' = v\<lparr>rv_action := vm\<rparr> \<and> makeActionViewModel Y t2 a' True = Inr vm"
    then obtain a' vm t2 where e: "r' = r\<lparr>raction := a'\<rparr>" "v' = v\<lparr>rv_action := vm\<rparr>"
      "makeActionViewModel Y t2 a' True = Inr vm" by blast
    show ?thesis
      using makeActionViewModel_inv [OF e(3)] assms(2) by (simp add: editor_inv_def e filters_inv_def triggers_inv_def)
  qed
qed

lemma sf_edit_keeps:
  assumes "sf_ValueMatchType m vm = (vm', evs) \<or> sf_Value s vm = (vm', evs)"
  shows "sf_key vm' = sf_key vm" "vm' = vm \<or> sf_pending vm'"
  using assms by (auto simp: sf_ValueMatchType_def sf_Value_def set_shown_cases split: if_splits)

lemma editor_reach_inv:
  assumes "editor_reach Y t r v" "flags_law Y"
  shows "editor_inv Y r v"
  using assms(1)
proof (induction rule: editor_reach.induct)
  case (opened t n i r v)
  show ?case by (rule makeRuleViewModel_inv [OF opened(2) makeRule_parts [OF opened(1)]])
next
  case (retyped t r v a t' r' v' evs)
  show ?case by (rule retype_inv [OF retyped(2,3)])
next
  case (added t r v key v' evs)
  have "rv_triggers v' = rv_triggers v \<and> rv_action v' = rv_action v"
    using added(2) by (auto simp: onAddFilterRequested_def res_simps split: if_splits)
  then show ?case using add_filters [OF added(2)] added(3) by (simp add: editor_inv_def)
next
  case (deleted t r v key v' evs)
  have "rv_triggers v' = rv_triggers v \<and> rv_action v' = rv_action v"
    using deleted(2) by (auto simp: onDeleteRequested_def Let_def split: if_splits option.splits)
  then show ?case using delete_filters [OF deleted(2)] deleted(3) by (simp add: editor_inv_def)
next
  case (matched t r v i m vm evs)
  then show ?case using edit_filters [OF _ matched(2)] sf_edit_keeps [of m "rv_filters v ! i" vm evs] by (simp add: editor_inv_def)
next
  case (typed t r v i s vm evs)
  then show ?case using edit_filters [OF _ typed(2)] sf_edit_keeps [of _ "rv_filters v ! i" vm evs s] by (simp add: editor_inv_def)
next
  case (triggered t r v edit b tr evs)
  then show ?case using triggers_edit [OF triggered(2,3), of Y r] by (simp add: editor_inv_def filters_inv_def)
next
  case (absolute t r v a edit x a' evs)
  then show ?case using av_edit_ok [OF absolute(3,4)] by (simp add: editor_inv_def action_inv_def filters_inv_def)
next
  case (relative t r v m edit x m' evs)
  then show ?case using rvm_edit_ok [OF relative(3,4)] by (simp add: editor_inv_def action_inv_def filters_inv_def)
next
  case (monitor t r v m d m' evs)
  then show ?case using rvm_Id_ok [OF monitor(3)] by (simp add: editor_inv_def action_inv_def filters_inv_def)
next
  case (applied t r v ch t' r' v' evs)
  then show ?case using apply_editor [OF applied(2) _ assms(2)] by blast
qed

section \<open>What the editor guarantees\<close>

text \<open>C7: In every state of the editor each of the three keys is either shown once or offered as unused, in
  the order of the keys; a key that is not shown can be added, as the last filter, empty and pending, and a
  shown key can be deleted, which takes its filter away, leaves the others in their order and offers the
  key again; neither request fails.\<close>

theorem editor_keys:
  assumes "editor_reach Y t r v" "flags_law Y" "key \<in> set kAllFilterKey"
  shows "distinct (List.map sf_key (rv_filters v)) \<and>
    rv_unused_keys v = List.filter (\<lambda>k. k \<notin> sf_key ` set (rv_filters v)) kAllFilterKey \<and>
    (key \<notin> sf_key ` set (rv_filters v) \<longrightarrow> (\<exists>v' evs. onAddFilterRequested key r v = Inr (v', evs) \<and>
       rv_filters v' = rv_filters v @ [\<lparr>sf_key = key, sf_match = 0, sf_text = [], sf_pending = True\<rparr>] \<and>
       rv_unused_keys v' = List.filter (\<lambda>k. k \<noteq> key) (rv_unused_keys v))) \<and>
    (key \<in> sf_key ` set (rv_filters v) \<longrightarrow> (\<exists>v' evs. onDeleteRequested key v = Inr (v', evs) \<and>
       rv_filters v' = List.filter (\<lambda>vm. sf_key vm \<noteq> key) (rv_filters v) \<and>
       rv_unused_keys v' = List.filter (\<lambda>k. k = key \<or> k \<in> set (rv_unused_keys v)) kAllFilterKey))"
proof -
  let ?S = "sf_key ` set (rv_filters v)"
  have f: "filters_inv (rfilter r) v" using editor_reach_inv [OF assms(1,2)] by (simp add: editor_inv_def)
  then have d: "distinct (List.map sf_key (rv_filters v))" and u: "rv_unused_keys v = List.filter (\<lambda>k. k \<notin> ?S) kAllFilterKey"
    by (simp_all add: filters_inv_def)
  have add: "\<exists>v' evs. onAddFilterRequested key r v = Inr (v', evs) \<and>
       rv_filters v' = rv_filters v @ [\<lparr>sf_key = key, sf_match = 0, sf_text = [], sf_pending = True\<rparr>] \<and>
       rv_unused_keys v' = List.filter (\<lambda>k. k \<noteq> key) (rv_unused_keys v)" if "key \<notin> ?S"
  proof -
    have "distinct (rv_unused_keys v)" using u kAll_distinct by simp
    then have "remove1 key (rv_unused_keys v) = List.filter (\<lambda>k. k \<noteq> key) (rv_unused_keys v)"
      by (simp add: distinct_remove1_removeAll removeAll_filter_not_eq eq_commute)
    moreover have "key \<in> set (rv_unused_keys v)" using that u assms(3) by simp
    ultimately show ?thesis by (simp add: onAddFilterRequested_def makeStringFilterViewModel_def)
  qed
  have delete: "\<exists>v' evs. onDeleteRequested key v = Inr (v', evs) \<and>
       rv_filters v' = List.filter (\<lambda>vm. sf_key vm \<noteq> key) (rv_filters v) \<and>
       rv_unused_keys v' = List.filter (\<lambda>k. k = key \<or> k \<in> set (rv_unused_keys v)) kAllFilterKey" if m: "key \<in> ?S"
  proof -
    obtain i where i: "insertion_index (rv_unused_keys v) key kAllFilterKey = Some i"
      "take i (rv_unused_keys v) @ [key] @ drop i (rv_unused_keys v) = List.filter (\<lambda>k. k \<notin> ?S - {key}) kAllFilterKey"
      using insert_unused [OF assms(3) m u] by blast
    moreover have "List.filter (\<lambda>k. k \<notin> ?S - {key}) kAllFilterKey =
        List.filter (\<lambda>k. k = key \<or> k \<in> set (rv_unused_keys v)) kAllFilterKey"
      unfolding u by (intro filter_cong) auto
    moreover have "list_ex (\<lambda>vm. sf_key vm = key) (rv_filters v)" using m by (auto simp: list_ex_iff)
    ultimately show ?thesis using remove_is_filter [OF d, of key] by (simp add: onDeleteRequested_def Let_def)
  qed
  show ?thesis using d u add delete by blast
qed


section \<open>An editor\<close>

text \<open>A rule that moves every window; a title is asked for, the trigger and the position are set.\<close>

definition demo_editor :: "(ytree, ypath) editor_api" where
  "demo_editor = ryml.extend (demo_yaml (\<lambda>_. []))
     (editor_api.fields (\<lambda>v f. v AND f \<noteq> 0) Some (\<lambda>i. Inr (widen ''rule'')))"

lemma demo_editor_flags: "flags_law demo_editor"
  by (simp add: flags_law_def demo_editor_def ryml.defs editor_api.defs)

lemma demo_editor_sel:
  "y_invalid demo_editor = yt_invalid"
  "y_is_map demo_editor = (\<lambda>t p. map_of t p = Some YMap)"
  "y_is_seq demo_editor = (\<lambda>t p. map_of t p = Some YSeq)"
  "y_is_container demo_editor = (\<lambda>t p. map_of t p = Some YMap \<or> map_of t p = Some YSeq)"
  "y_has_val demo_editor = yt_has_val"
  "y_val demo_editor = yt_val"
  "y_has_child demo_editor = (\<lambda>t p k. map_of t (p @ [Key k]) \<noteq> None)"
  "y_at demo_editor = (\<lambda>t p k. p @ [Key k])"
  "y_children demo_editor = yt_children"
  "y_write_str demo_editor = (\<lambda>t p s. Inr (yt_write t p (YScalar s)))"
  "y_write_long demo_editor = (\<lambda>t p w. Inr (yt_write t p (YLong w)))"
  "y_append_keyval demo_editor = (\<lambda>t p k. Inr (yt_write t (p @ [Key k]) (YScalar []), p @ [Key k]))"
  "enum_cast_ci demo_editor = (\<lambda>ns s. find_name ns s 0)"
  "enum_bitset_test demo_editor = (\<lambda>v f. v AND f \<noteq> 0)"
  "flags_test demo_editor = (\<lambda>v f. v AND f \<noteq> 0)"
  "flags_cast demo_editor = Some"
  "rule_name_format demo_editor = (\<lambda>i. Inr (widen ''rule''))"
  "y_is_seed demo_editor = (\<lambda>t p. map_of t p = None)"
  "y_read_long demo_editor = (\<lambda>t p. case map_of t p of Some (YLong w) \<Rightarrow> Some w | _ \<Rightarrow> None)"
  "y_is_keyval demo_editor = (\<lambda>t p. yt_has_val t p \<and> yt_children t p = [])"
  by (simp_all add: demo_editor_def ryml.defs editor_api.defs demo_sel)

definition editor_tree :: ytree where
  "editor_tree = [([], YMap), ([Key ''rules''], YSeq), ([Key ''rules'', Idx 1], YMap),
     ([Key ''rules'', Idx 1, Key ''where''], YMap), ([Key ''rules'', Idx 1, Key ''then''], YMap),
     ([Key ''rules'', Idx 1, Key ''then'', Key ''type''], YScalar ''absolute_move_and_resize'')]"

definition editor_rule :: "ypath Rule" where
  "editor_rule = \<lparr>rnode = [Key ''rules'', Idx 1], rname = [],
     rfilter = \<lparr>fnode = [Key ''rules'', Idx 1, Key ''where''], process_image_name = (kContains, []),
       window_class = (kContains, []), window_title = (kContains, [])\<rparr>,
     rindex = 1, rtriggers = 0,
     raction = \<lparr>anode = [Key ''rules'', Idx 1, Key ''then''], atype = kAbsoluteMoveAndResize\<rparr>\<rparr>"

lemmas demo_editor_simps = demo_editor_sel key_simps editor_tree_def

lemma demo_editor_rule: "makeRule demo_editor editor_tree [Key ''rules'', Idx 1] 1 = Inr editor_rule"
proof -
  let ?Y = demo_editor and ?n = "[Key ''rules'', Idx 1]"
  have "checkRuleNode ?Y editor_tree ?n = Inr ()" by (simp add: checkRuleNode_def demo_editor_simps)
  moreover have "ReadStringFromNode ?Y editor_tree (?n @ [Key ''name'']) KeyName = Inr []"
    by (simp add: ReadStringFromNode_def demo_editor_simps yt_invalid_def)
  moreover have "makeFilter ?Y editor_tree (?n @ [Key ''where'']) = Inr (rfilter editor_rule)"
    by (simp add: makeFilter_def checkFilterNode_def ReadStringAndMatchTypeFromNode_def demo_editor_simps yt_invalid_def editor_rule_def)
  moreover have "ReadTriggerFlagsFromNode ?Y editor_tree ?n = Inr 0"
    by (simp add: ReadTriggerFlagsFromNode_def demo_editor_simps kTriggerNone_def)
  moreover have "makeAction ?Y editor_tree (?n @ [Key ''then'']) = Inr (raction editor_rule)"
    by (simp add: makeAction_def checkActionNode_def ReadActionTypeFromNode_def demo_editor_simps yt_has_val_def yt_val_def
        yt_text_def yt_children_def yt_child_def Let_def toActionType_def action_names_def action_values_def lower_def editor_rule_def)
  ultimately show ?thesis by (simp add: makeRule_def demo_editor_sel key_simps editor_rule_def)
qed

definition editor_action :: "ypath AbsoluteMoveAndResize" where
  "editor_action = \<lparr>abs_node = [Key ''rules'', Idx 1, Key ''then''], abs_bounds = i4_make 0 0 640 400\<rparr>"

definition editor_opened :: "ypath RuleViewModel" where
  "editor_opened = \<lparr>rv_deleting_keys = [], rv_name = widen ''rule'',
     rv_action = Some (AbsoluteVM (makeAbsoluteViewModel editor_action False)), rv_filters = [],
     rv_triggers = \<lparr>tr_pending = False, tr_started = False, tr_activated = False, tr_shown = False\<rparr>,
     rv_unused_keys = [0, 1, 2]\<rparr>"

lemma demo_editor_opened: "makeRuleViewModel demo_editor editor_tree editor_rule = Inr editor_opened"
proof -
  have a: "makeAbsolute demo_editor editor_tree [Key ''rules'', Idx 1, Key ''then''] = Inr editor_action"
    by (simp add: makeAbsolute_def ReadLongFromNodeOrDefault_def demo_editor_simps yt_invalid_def editor_action_def)
  show ?thesis
    using a by (simp add: makeRuleViewModel_def makeName_def makeActionViewModel_def as_absolute_def editor_rule_def
        kAllFilterKey_def hasFilterForKey_def filter_value_def hasFilterValue_def makeTriggersViewModel_def
        demo_editor_sel editor_opened_def)
qed

text \<open>After adding a title filter, setting it to match exactly, switching a trigger on and off, and setting a
  coordinate.\<close>

definition editor_edited :: "ypath RuleViewModel" where
  "editor_edited = editor_opened\<lparr>
     rv_action := Some (AbsoluteVM \<lparr>av_action = editor_action, av_vals = [5, 0, 640, 400],
       av_dirty = [True, False, False, False], av_pending = True\<rparr>),
     rv_filters := [\<lparr>sf_key = 2, sf_match = 1, sf_text = [], sf_pending = True\<rparr>],
     rv_triggers := \<lparr>tr_pending = True, tr_started = False, tr_activated = False, tr_shown = False\<rparr>,
     rv_unused_keys := [0, 1]\<rparr>"

lemma demo_editor_reach: "editor_reach demo_editor editor_tree editor_rule editor_edited"
proof -
  let ?v1 = "editor_opened\<lparr>rv_unused_keys := [0, 1],
    rv_filters := [\<lparr>sf_key = 2, sf_match = 0, sf_text = [], sf_pending = True\<rparr>]\<rparr>"
  let ?v2 = "?v1\<lparr>rv_filters := [\<lparr>sf_key = 2, sf_match = 1, sf_text = [], sf_pending = True\<rparr>]\<rparr>"
  let ?v3 = "?v2\<lparr>rv_triggers := \<lparr>tr_pending = True, tr_started = False, tr_activated = False, tr_shown = True\<rparr>\<rparr>"
  have "editor_reach demo_editor editor_tree editor_rule editor_opened"
    by (rule editor_reach.opened [OF demo_editor_rule demo_editor_opened])
  moreover have "onAddFilterRequested 2 editor_rule editor_opened = Inr (?v1, notifyHasPendingChanges)"
    by (simp add: onAddFilterRequested_def makeStringFilterViewModel_def editor_opened_def)
  ultimately have "editor_reach demo_editor editor_tree editor_rule ?v1" by (rule editor_reach.added)
  from editor_reach.matched [OF this, of 0 1] have "editor_reach demo_editor editor_tree editor_rule ?v2"
    by (simp add: sf_ValueMatchType_def set_shown_cases)
  from editor_reach.triggered [OF this, of tr_WindowShown True] have "editor_reach demo_editor editor_tree editor_rule ?v3"
    by (simp add: tr_WindowShown_def set_shown_cases editor_opened_def)
  from editor_reach.triggered [OF this, of tr_WindowShown False]
  have "editor_reach demo_editor editor_tree editor_rule
      (?v3\<lparr>rv_triggers := \<lparr>tr_pending = True, tr_started = False, tr_activated = False, tr_shown = False\<rparr>\<rparr>)"
    by (simp add: tr_WindowShown_def set_shown_cases)
  moreover have "replicate 4 False = [False, False, False, False]" by (simp add: numeral_eq_Suc)
  then have "av_X 5 (makeAbsoluteViewModel editor_action False) =
      Inr (\<lparr>av_action = editor_action, av_vals = [5, 0, 640, 400], av_dirty = [True, False, False, False], av_pending = True\<rparr>,
        [PropertyChanged PX, PropertyChanged PHasPendingChanges, Callback])"
    by (simp add: av_X_def av_set_def set_shown_cases makeAbsoluteViewModel_def editor_action_def limit_defs i4_at_def
        i4_make_def)
  ultimately show ?thesis
    using editor_reach.absolute [of demo_editor editor_tree editor_rule _ "makeAbsoluteViewModel editor_action False" av_X 5]
    by (fastforce simp: editor_opened_def editor_edited_def)
qed

lemma demo_editor_apply:
  "\<exists>t' r' v' evs. rv_applyChanges demo_editor editor_tree editor_rule editor_edited = Some (Inr (True, t', r', v', evs))"
proof -
  let ?Y = demo_editor and ?t1 = "editor_tree @ [([Key ''rules'', Idx 1, Key ''then'', Key ''x''], YLong 5)]"
  have x: "abs_set ?Y 0 kPosX editor_tree editor_action 5 = Inr (?t1, editor_action\<lparr>abs_bounds := i4_setAt (i4_make 0 0 640 400) 0 5\<rparr>)"
    by (simp add: abs_set_def WriteLongToNode_def demo_editor_simps editor_action_def yt_write_def i4_at_def i4_make_def)
  have "\<exists>a evs. apply_action ?Y (rv_action editor_edited) editor_tree = Inr (True, ?t1, a, evs)"
    using x by (simp add: editor_edited_def apply_action_def av_applyChanges_def av_apply_one_def abs_setX_def)
  then obtain a evs where A: "apply_action ?Y (rv_action editor_edited) editor_tree = Inr (True, ?t1, a, evs)" by blast
  have "\<exists>t2 f vms evs2. apply_filters ?Y (rv_filters editor_edited) ?t1 (rfilter editor_rule) = Inr (True, t2, f, vms, evs2)"
    by (simp add: editor_edited_def sf_applyChanges_def setSettingsStringFilterValue_def toSettingsStringAndMatch_def
        toSettingsStringMatchType_def setWindowTitle_def writeFilterStringMatchType_def WriteStringAndMatchTypeToNode_def
        editor_rule_def demo_editor_simps yt_write_def)
  then obtain t2 f vms evs2 where F: "apply_filters ?Y (rv_filters editor_edited) ?t1 (rfilter editor_rule) = Inr (True, t2, f, vms, evs2)"
    by blast
  have "tr_applyChanges ?Y t2 (editor_rule\<lparr>rfilter := f\<rparr>) (rv_triggers editor_edited) =
      Some (Inr (True, t2, editor_rule\<lparr>rfilter := f\<rparr>, (rv_triggers editor_edited)\<lparr>tr_pending := False\<rparr>,
        [PropertyChanged PHasPendingChanges]))"
    by (simp add: tr_applyChanges_def setTriggerFlags_def shown_triggers_def kTriggerNone_def demo_editor_sel
        editor_edited_def editor_rule_def)
  moreover have "rv_deleting_keys editor_edited = []" by (simp add: editor_edited_def editor_opened_def)
  ultimately show ?thesis using A F by (simp add: rv_applyChanges_def)
qed

lemma apply_once_witness:
  "\<exists>t r v v' evs. editor_reach demo_editor t r v \<and> evs = [] \<and> \<not> rv_HasPendingChanges v' \<and>
     rv_applyChanges demo_editor t r v' = Some (Inr (False, t, r, v', evs))"
proof -
  obtain t' r' v' evs where A: "rv_applyChanges demo_editor editor_tree editor_rule editor_edited = Some (Inr (True, t', r', v', evs))"
    using demo_editor_apply by blast
  show ?thesis using apply_once [OF A] editor_reach.applied [OF demo_editor_reach A] by blast
qed

lemma editor_keys_witness:
  "\<exists>v evs. onDeleteRequested 2 editor_edited = Inr (v, evs) \<and> rv_filters v = [] \<and> rv_unused_keys v = [0, 1, 2] \<and>
     (\<exists>v1 evs1. onAddFilterRequested 0 editor_rule editor_edited = Inr (v1, evs1))"
  using editor_keys [OF demo_editor_reach demo_editor_flags, of 2] editor_keys [OF demo_editor_reach demo_editor_flags, of 0]
  by (simp add: kAllFilterKey_def editor_edited_def) blast


section \<open>The type Invalid\<close>

text \<open>Choosing the type Invalid changes the rule and its document at once, and leaves nothing to apply when
  nothing else is pending.\<close>

lemma invalid_type_is_not_pending:
  assumes "rv_ActionType Y t r v 0 = Inr (t', r', v', evs)" "atype (raction r) \<noteq> kInvalid"
    "rv_deleting_keys v = []" "\<not> list_ex sf_pending (rv_filters v)" "\<not> tr_pending (rv_triggers v)"
  shows "setType Y t (raction r) kInvalid = Inr (t', raction r') \<and> atype (raction r') = kInvalid \<and>
    \<not> rv_HasPendingChanges v' \<and> rv_applyChanges Y t' r' v' = Some (Inr (False, t', r', v', []))"
proof -
  have "\<exists>a. setType Y t (raction r) kInvalid = Inr (t', a) \<and> atype a = kInvalid \<and> r' = r\<lparr>raction := a\<rparr> \<and> v' = v\<lparr>rv_action := None\<rparr>"
    using assms(1,2)
    by (auto simp: rv_ActionType_def toSettingsActionType_def makeActionViewModel_def setType_def Let_def res_simps)
  then obtain a where a: "setType Y t (raction r) kInvalid = Inr (t', a)" "atype a = kInvalid" "r' = r\<lparr>raction := a\<rparr>"
    "v' = v\<lparr>rv_action := None\<rparr>" by blast
  have "\<not> rv_HasPendingChanges v'" using assms(3-5) by (simp add: a(4) rv_HasPendingChanges_def)
  then show ?thesis using rv_apply_idle a(1-3) by simp
qed

end
