(* ===== verification/SettingsPage.thy ===== *)
theory SettingsPage
  imports RuleEditor_Properties
begin

text \<open>
  \<open>winui3/Views\<close>, \<open>winui3/Controls\<close>, \<open>winui3/Helpers\<close>, \<open>winui3/Converters\<close> and \<open>winui3/main.cc\<close>: what
  the pages do with the view models, which element a key gives the focus to, and how the process
  starts.  The elements on the screen, boxed values and the activation of another instance are answers
  of the library.
\<close>

section \<open>Helpers/KeyboardModifiers\<close>

text \<open>\<open>GetKeyStateForCurrentThread\<close> of the modifier keys.\<close>

record key_states =
  ks_shift :: "32 word"
  ks_control :: "32 word"
  ks_menu :: "32 word"
  ks_left_windows :: "32 word"
  ks_right_windows :: "32 word"

type_synonym packed_states = "32 word"

(* @ winui3/Helpers/KeyboardModifiers.h:6-17 ReadModifierKeyStatesForCurrentThread *)
definition ReadModifierKeyStates :: "key_states \<Rightarrow> packed_states" where
  "ReadModifierKeyStates k =
     0 OR ks_shift k OR push_bit 8 (ks_control k) OR push_bit 16 (ks_menu k)
       OR push_bit 24 (ks_left_windows k OR ks_right_windows k)"

(* @ winui3/Helpers/KeyboardModifiers.h:25-27 KeyboardModifiers::isNoModifierPressed *)
definition isNoModifierPressed :: "packed_states \<Rightarrow> bool" where "isNoModifierPressed p \<longleftrightarrow> p AND 0x01010101 = 0"
(* @ winui3/Helpers/KeyboardModifiers.h:29-31 KeyboardModifiers::areNonShiftModifiersReleased *)
definition areNonShiftModifiersReleased :: "packed_states \<Rightarrow> bool" where
  "areNonShiftModifiersReleased p \<longleftrightarrow> p AND 0x01010100 = 0"
(* @ winui3/Helpers/KeyboardModifiers.h:33-35 KeyboardModifiers::isShiftPressed *)
definition isShiftPressed :: "packed_states \<Rightarrow> bool" where "isShiftPressed p \<longleftrightarrow> p AND 0x00000001 = 1"
(* @ winui3/Helpers/KeyboardModifiers.h:37-39 KeyboardModifiers::isShiftOnlyPressed *)
definition isShiftOnlyPressed :: "packed_states \<Rightarrow> bool" where "isShiftOnlyPressed p \<longleftrightarrow> p AND 0x01010101 = 1"
(* @ winui3/Helpers/KeyboardModifiers.h:41-43 KeyboardModifiers::isCtrlOnlyPressed *)
definition isCtrlOnlyPressed :: "packed_states \<Rightarrow> bool" where "isCtrlOnlyPressed p \<longleftrightarrow> p AND 0x01010101 = push_bit 8 1"
(* @ winui3/Helpers/KeyboardModifiers.h:45-47 KeyboardModifiers::isAltOnlyPressed *)
definition isAltOnlyPressed :: "packed_states \<Rightarrow> bool" where "isAltOnlyPressed p \<longleftrightarrow> p AND 0x01010101 = push_bit 16 1"
(* @ winui3/Helpers/KeyboardModifiers.h:49-51 KeyboardModifiers::isWinOnlyPressed *)
definition isWinOnlyPressed :: "packed_states \<Rightarrow> bool" where "isWinOnlyPressed p \<longleftrightarrow> p AND 0x01010101 = push_bit 24 1"

lemmas modifier_defs = isNoModifierPressed_def areNonShiftModifiersReleased_def isShiftPressed_def isShiftOnlyPressed_def
  isCtrlOnlyPressed_def isAltOnlyPressed_def isWinOnlyPressed_def

text \<open>A key state is a set of the flags \<open>Down\<close> (1) and \<open>Locked\<close> (2).\<close>

definition key_states_law :: "key_states \<Rightarrow> bool" where
  "key_states_law k \<longleftrightarrow> {ks_shift k, ks_control k, ks_menu k, ks_left_windows k, ks_right_windows k} \<subseteq> {0, 1, 2, 3}"

abbreviation key_down :: "32 word \<Rightarrow> bool" where "key_down x \<equiv> x AND 1 = 1"

lemma packed_low_bits:
  fixes s c m w :: "32 word"
  assumes "s \<in> {0, 1, 2, 3}" "c \<in> {0, 1, 2, 3}" "m \<in> {0, 1, 2, 3}" "w \<in> {0, 1, 2, 3}"
  shows "(s OR push_bit 8 c OR push_bit 16 m OR push_bit 24 w) AND 0x01010101 =
    (s AND 1) OR push_bit 8 (c AND 1) OR push_bit 16 (m AND 1) OR push_bit 24 (w AND 1)"
proof -
  have one: "x AND 0x01010101 = x AND 1" "push_bit 8 x AND 0x01010101 = push_bit 8 (x AND 1)"
    "push_bit 16 x AND 0x01010101 = push_bit 16 (x AND 1)" "push_bit 24 x AND 0x01010101 = push_bit 24 (x AND 1)"
    if "x \<in> {0, 1, 2, 3}" for x :: "32 word"
    using that by (elim insertE emptyE; simp)+
  show ?thesis
    unfolding bit.conj_disj_distrib2 one(1) [OF assms(1)] one(2) [OF assms(2)] one(3) [OF assms(3)] one(4) [OF assms(4)] ..
qed

lemma modifiers_read:
  assumes "key_states_law k"
  shows "isNoModifierPressed (ReadModifierKeyStates k) \<longleftrightarrow>
      \<not> key_down (ks_shift k) \<and> \<not> key_down (ks_control k) \<and> \<not> key_down (ks_menu k) \<and>
      \<not> key_down (ks_left_windows k) \<and> \<not> key_down (ks_right_windows k)"
    and "isShiftOnlyPressed (ReadModifierKeyStates k) \<longleftrightarrow>
      key_down (ks_shift k) \<and> \<not> key_down (ks_control k) \<and> \<not> key_down (ks_menu k) \<and>
      \<not> key_down (ks_left_windows k) \<and> \<not> key_down (ks_right_windows k)"
    and "isAltOnlyPressed (ReadModifierKeyStates k) \<longleftrightarrow>
      \<not> key_down (ks_shift k) \<and> \<not> key_down (ks_control k) \<and> key_down (ks_menu k) \<and>
      \<not> key_down (ks_left_windows k) \<and> \<not> key_down (ks_right_windows k)"
proof -
  let ?w = "ks_left_windows k OR ks_right_windows k"
  have r: "ks_shift k \<in> {0, 1, 2, 3}" "ks_control k \<in> {0, 1, 2, 3}" "ks_menu k \<in> {0, 1, 2, 3}"
    "ks_left_windows k \<in> {0, 1, 2, 3}" "ks_right_windows k \<in> {0, 1, 2, 3}"
    using assms by (simp_all add: key_states_law_def)
  have w: "?w \<in> {0, 1, 2, 3}" using r(4,5) by (elim insertE emptyE) simp_all
  have wd: "key_down ?w \<longleftrightarrow> key_down (ks_left_windows k) \<or> key_down (ks_right_windows k)"
    using r(4,5) by (elim insertE emptyE) simp_all
  have low: "x AND 1 = 0 \<or> x AND 1 = 1" if "x \<in> {0, 1, 2, 3}" for x :: "32 word"
    using that by (elim insertE emptyE) simp_all
  note bits = low [OF r(1)] low [OF r(2)] low [OF r(3)] low [OF w]
  have e: "ReadModifierKeyStates k AND 0x01010101 =
      (ks_shift k AND 1) OR push_bit 8 (ks_control k AND 1) OR push_bit 16 (ks_menu k AND 1) OR push_bit 24 (?w AND 1)"
    unfolding ReadModifierKeyStates_def or.left_neutral by (rule packed_low_bits [OF r(1-3) w])
  show "isNoModifierPressed (ReadModifierKeyStates k) \<longleftrightarrow>
      \<not> key_down (ks_shift k) \<and> \<not> key_down (ks_control k) \<and> \<not> key_down (ks_menu k) \<and>
      \<not> key_down (ks_left_windows k) \<and> \<not> key_down (ks_right_windows k)"
    "isShiftOnlyPressed (ReadModifierKeyStates k) \<longleftrightarrow>
      key_down (ks_shift k) \<and> \<not> key_down (ks_control k) \<and> \<not> key_down (ks_menu k) \<and>
      \<not> key_down (ks_left_windows k) \<and> \<not> key_down (ks_right_windows k)"
    "isAltOnlyPressed (ReadModifierKeyStates k) \<longleftrightarrow>
      \<not> key_down (ks_shift k) \<and> \<not> key_down (ks_control k) \<and> key_down (ks_menu k) \<and>
      \<not> key_down (ks_left_windows k) \<and> \<not> key_down (ks_right_windows k)"
    unfolding modifier_defs e using bits wd by (elim disjE; simp)+
qed

section \<open>Converters\<close>

text \<open>A bound value: \<open>None\<close> when it is no \<open>IPropertyValue\<close>, else the answer of its getter.\<close>

definition E_NOTIMPL :: hresult where "E_NOTIMPL = 0x80004001"

(* @ winui3/Converters/EnumToInt32Converter.cc:16-32 EnumToInt32Converter::Convert *)
definition EnumToInt32_Convert :: "(exn + 32 word) option \<Rightarrow> exn + 32 word" where
  "EnumToInt32_Convert value = (case value of None \<Rightarrow> Inr (- 1) | Some get \<Rightarrow> rbind get Inr)"

(* @ winui3/Converters/EnumToInt32Converter.cc:34-46 EnumToInt32Converter::ConvertBack *)
definition EnumToInt32_ConvertBack :: "exn + 32 word \<Rightarrow> exn + 32 word" where
  "EnumToInt32_ConvertBack value =
     rbind value (\<lambda>raw_value. if raw_value <s 0 then Inl (HrError E_INVALIDARG) else Inr raw_value)"

text \<open>The arithmetic wraps; overflow is undefined in C++ and needs the extreme values.\<close>

(* @ winui3/Converters/EnumToSelectedIndexConverter.cc:16-32 EnumToSelectedIndexConverter::Convert *)
definition EnumToSelectedIndex_Convert :: "(exn + 32 word) option \<Rightarrow> exn + 32 word" where
  "EnumToSelectedIndex_Convert value =
     (case value of None \<Rightarrow> Inr (- 1) | Some get \<Rightarrow> rbind get (\<lambda>raw_value. Inr (raw_value - 1)))"

(* @ winui3/Converters/EnumToSelectedIndexConverter.cc:34-46 EnumToSelectedIndexConverter::ConvertBack *)
definition EnumToSelectedIndex_ConvertBack :: "exn + 32 word \<Rightarrow> exn + 32 word" where
  "EnumToSelectedIndex_ConvertBack value =
     rbind value (\<lambda>index. let raw_value = index + 1 in
       if raw_value <s 0 then Inl (HrError E_INVALIDARG) else Inr raw_value)"

(* @ winui3/Converters/FilterKeyToLocalizedStringConverter.cc:28-55 FilterKeyToLocalizedStringConverter::Convert *)
definition FilterKeyToLocalizedString_Convert :: "(wstr \<Rightarrow> exn + wstr) \<Rightarrow> exn + winrt_enum \<Rightarrow> exn + wstr" where
  "FilterKeyToLocalizedString_Convert get_string value =
     rbind value (\<lambda>key.
       if key = 0 then get_string (widen ''Process Name'')
       else if key = 1 then get_string (widen ''Window Class'')
       else if key = 2 then get_string (widen ''Window Title'')
       else Inr [])"

(* @ winui3/Converters/FilterKeyToLocalizedStringConverter.cc:57-64 FilterKeyToLocalizedStringConverter::ConvertBack *)
definition FilterKeyToLocalizedString_ConvertBack :: "'v \<Rightarrow> exn + winrt_enum" where
  "FilterKeyToLocalizedString_ConvertBack value = Inl (HrError E_NOTIMPL)"

(* @ winui3/Converters/ZeroToCollapsedConverter.cc:16-35 ZeroToCollapsedConverter::Convert *)
definition ZeroToCollapsed_Convert :: "(exn + 32 word) option \<Rightarrow> exn + bool" where
  "ZeroToCollapsed_Convert value =
     rbind (case value of Some get \<Rightarrow> get | None \<Rightarrow> Inr 0) (\<lambda>size. let visible = 0 < size in Inr visible)"

(* @ winui3/Converters/ZeroToCollapsedConverter.cc:37-44 ZeroToCollapsedConverter::ConvertBack *)
definition ZeroToCollapsed_ConvertBack :: "'v \<Rightarrow> exn + 32 word" where
  "ZeroToCollapsed_ConvertBack value = Inl (HrError E_NOTIMPL)"

text \<open>The types of an action and their place in the list of the editor: no type is no selection.\<close>

lemma selected_index_round_trip:
  assumes "v \<in> {0, 1, 2}"
  shows "\<exists>i. EnumToSelectedIndex_Convert (Some (Inr v)) = Inr i \<and> EnumToSelectedIndex_ConvertBack (Inr i) = Inr v \<and>
    sint i = sint v - 1"
  using assms
  by (auto simp: EnumToSelectedIndex_Convert_def EnumToSelectedIndex_ConvertBack_def Let_def word_sless_alt)

section \<open>Controls/RuleEditorControl\<close>

text \<open>
  The rows of the filters view by their index, \<open>None\<close> where \<open>TryGetElement\<close> finds none; a row is the list
  of its children, each with its tab index if it is a framework element.  A handler answers with the
  element it asks to take the focus, whose answer it passes to \<open>Handled\<close>; \<open>None\<close> leaves the key alone.
\<close>

type_synonym filters_view = "int \<Rightarrow> int option list option"

datatype virtual_key = VkTab | VkEscape | VkLeft | VkRight | VkOther

datatype focus_target = AppLaunchCheckBox | FilterRow int | FilterChild int nat | AddFilterButton

(* @ winui3/Controls/RuleEditorControl.xaml.cc:42-55 FindDirectChildByTabIndex *)
fun FindDirectChildByTabIndex :: "int option list \<Rightarrow> int \<Rightarrow> nat option" where
  "FindDirectChildByTabIndex [] tabindex = None"
| "FindDirectChildByTabIndex (child # children) tabindex =
     (if child = Some tabindex then Some 0 else map_option Suc (FindDirectChildByTabIndex children tabindex))"

definition focus_child :: "filters_view \<Rightarrow> int \<Rightarrow> int \<Rightarrow> focus_target option" where
  "focus_child V row tabindex =
     (case V row of None \<Rightarrow> None
      | Some children \<Rightarrow> map_option (FilterChild row) (FindDirectChildByTabIndex children tabindex))"

(* @ winui3/Controls/RuleEditorControl.xaml.cc:57-69 RuleEditorControl::TriggersViewKeyDown *)
definition TriggersViewKeyDown :: "filters_view \<Rightarrow> virtual_key \<Rightarrow> packed_states \<Rightarrow> focus_target option" where
  "TriggersViewKeyDown V key states =
     (if key = VkTab \<and> isNoModifierPressed states then focus_child V 0 1 else None)"

text \<open>\<open>index\<close> is the row of the sender, \<open>at_origin\<close> whether it is the source of the event.\<close>

(* @ winui3/Controls/RuleEditorControl.xaml.cc:71-100 RuleEditorControl::FilterRootKeyDown *)
definition FilterRootKeyDown ::
  "filters_view \<Rightarrow> virtual_key \<Rightarrow> packed_states \<Rightarrow> int \<Rightarrow> bool \<Rightarrow> focus_target option" where
  "FilterRootKeyDown V key states index at_origin =
     (if key = VkEscape \<and> isNoModifierPressed states then
        (if V index \<noteq> None then Some (FilterRow index) else None)
      else if key = VkTab \<and> isShiftOnlyPressed states \<and> at_origin then
        (if index = 0 then Some AppLaunchCheckBox
         else if V (index - 1) \<noteq> None then Some (FilterRow (index - 1)) else None)
      else None)"

text \<open>\<open>tabindex\<close> is the sender's, \<open>index\<close> the row it is in.\<close>

(* @ winui3/Controls/RuleEditorControl.xaml.cc:102-138 RuleEditorControl::FilterValueKeyDown *)
definition FilterValueKeyDown ::
  "filters_view \<Rightarrow> virtual_key \<Rightarrow> packed_states \<Rightarrow> int \<Rightarrow> int \<Rightarrow> focus_target option" where
  "FilterValueKeyDown V key states tabindex index =
     (if key = VkTab then
        if tabindex = 1 \<and> isShiftOnlyPressed states then
          (if V (index - 1) \<noteq> None then focus_child V (index - 1) 2 else Some AppLaunchCheckBox)
        else if tabindex = 2 \<and> isNoModifierPressed states then
          (if V (index + 1) \<noteq> None then focus_child V (index + 1) 1 else Some AddFilterButton)
        else None
      else None)"

text \<open>A view of \<open>n\<close> rows, each with an element of tab index 1 and one of tab index 2.\<close>

definition rows_law :: "filters_view \<Rightarrow> int \<Rightarrow> bool" where
  "rows_law V n \<longleftrightarrow> (\<forall>i. V i = None \<longleftrightarrow> i < 0 \<or> n \<le> i) \<and> (\<forall>i cs. V i = Some cs \<longrightarrow> {Some 1, Some 2} \<subseteq> set cs)"

fun at_tab :: "filters_view \<Rightarrow> int \<Rightarrow> int \<Rightarrow> focus_target option \<Rightarrow> bool" where
  "at_tab V row tabindex (Some (FilterChild i c)) \<longleftrightarrow>
     i = row \<and> (\<exists>cs. V i = Some cs \<and> c < length cs \<and> cs ! c = Some tabindex)"
| "at_tab V row tabindex _ \<longleftrightarrow> False"

lemma find_child:
  "Some tabindex \<in> set cs \<Longrightarrow> \<exists>c. FindDirectChildByTabIndex cs tabindex = Some c \<and> c < length cs \<and> cs ! c = Some tabindex"
  by (induction cs) (auto simp: less_Suc_eq_0_disj)

lemma focus_child_at:
  assumes "rows_law V n" "0 \<le> row" "row < n" "tabindex \<in> {1, 2}"
  shows "at_tab V row tabindex (focus_child V row tabindex)"
proof -
  obtain cs where cs: "V row = Some cs" using assms(1-3) by (force simp: rows_law_def)
  then have "Some tabindex \<in> set cs" using assms(1,4) by (auto simp: rows_law_def)
  then show ?thesis using find_child [of tabindex cs] cs by (auto simp: focus_child_def)
qed

text \<open>Tab and Shift+Tab walk through the two elements of each row forth and back, from the triggers to the
  button that adds a filter.\<close>

lemma tab_walk:
  assumes "rows_law V n" "isNoModifierPressed p" "isShiftOnlyPressed q"
  shows "0 < n \<Longrightarrow> at_tab V 0 1 (TriggersViewKeyDown V VkTab p) \<and> FilterValueKeyDown V VkTab q 1 0 = Some AppLaunchCheckBox"
    and "0 \<le> i \<Longrightarrow> i + 1 < n \<Longrightarrow> at_tab V (i + 1) 1 (FilterValueKeyDown V VkTab p 2 i) \<and>
      at_tab V i 2 (FilterValueKeyDown V VkTab q 1 (i + 1))"
    and "0 < n \<Longrightarrow> FilterValueKeyDown V VkTab p 2 (n - 1) = Some AddFilterButton"
proof -
  have V: "V i = None \<longleftrightarrow> i < 0 \<or> n \<le> i" for i using assms(1) by (simp add: rows_law_def)
  have q: "\<not> isNoModifierPressed q" using assms(3) by (simp add: modifier_defs)
  show "0 < n \<Longrightarrow> at_tab V 0 1 (TriggersViewKeyDown V VkTab p) \<and> FilterValueKeyDown V VkTab q 1 0 = Some AppLaunchCheckBox"
    using focus_child_at [OF assms(1), of 0 1] V [of "- 1"] assms(2,3)
    by (simp add: TriggersViewKeyDown_def FilterValueKeyDown_def)
  show "0 \<le> i \<Longrightarrow> i + 1 < n \<Longrightarrow> at_tab V (i + 1) 1 (FilterValueKeyDown V VkTab p 2 i) \<and>
      at_tab V i 2 (FilterValueKeyDown V VkTab q 1 (i + 1))"
    using focus_child_at [OF assms(1), of "i + 1" 1] focus_child_at [OF assms(1), of i 2] V [of "i + 1"] V [of i] assms(2,3) q
    by (simp add: FilterValueKeyDown_def)
  show "0 < n \<Longrightarrow> FilterValueKeyDown V VkTab p 2 (n - 1) = Some AddFilterButton"
    using V [of n] assms(2) by (simp add: FilterValueKeyDown_def)
qed

section \<open>Views/SettingsWindow\<close>

datatype navigation = NavigateBack | NavigateForward

(* @ winui3/Views/SettingsWindow.xaml.cc:134-141 SettingsWindow::tryGoBack *)
definition tryGoBack :: "bool \<Rightarrow> navigation option" where
  "tryGoBack can_go_back = (if can_go_back then Some NavigateBack else None)"

(* @ winui3/Views/SettingsWindow.xaml.cc:143-150 SettingsWindow::tryGoForward *)
definition tryGoForward :: "bool \<Rightarrow> navigation option" where
  "tryGoForward can_go_forward = (if can_go_forward then Some NavigateForward else None)"

text \<open>The event is handled when there is a navigation.\<close>

(* @ winui3/Views/SettingsWindow.xaml.cc:152-168 SettingsWindow::RootGridKeyDown *)
definition RootGridKeyDown :: "packed_states \<Rightarrow> virtual_key \<Rightarrow> bool \<Rightarrow> bool \<Rightarrow> navigation option" where
  "RootGridKeyDown states key can_go_back can_go_forward =
     (if \<not> isAltOnlyPressed states then None
      else if key = VkLeft then tryGoBack can_go_back
      else if key = VkRight then tryGoForward can_go_forward
      else None)"

(* @ winui3/Views/SettingsWindow.xaml.cc:170-181 SettingsWindow::RootGridPointerPressed *)
definition RootGridPointerPressed :: "bool \<Rightarrow> bool \<Rightarrow> bool \<Rightarrow> bool \<Rightarrow> navigation option" where
  "RootGridPointerPressed xbutton1 xbutton2 can_go_back can_go_forward =
     (if xbutton1 then tryGoBack can_go_back else if xbutton2 then tryGoForward can_go_forward else None)"

text \<open>The place of the menu item that is selected.\<close>

(* @ winui3/Views/SettingsWindow.xaml.cc:199-208 SettingsWindow::RootFrameNavigated *)
fun RootFrameNavigated :: "wstr list \<Rightarrow> wstr \<Rightarrow> nat option" where
  "RootFrameNavigated [] page = None"
| "RootFrameNavigated (tag # tags) page =
     (if page = tag then Some 0 else map_option Suc (RootFrameNavigated tags page))"

definition smax :: "32 word \<Rightarrow> 32 word \<Rightarrow> 32 word" where "smax a b = (if a <s b then b else a)"

text \<open>Where the constructor moves the window, for the sizes of the display and the origin of its work area.\<close>

(* @ winui3/Views/SettingsWindow.xaml.cc:62-69 SettingsWindow::SettingsWindow *)
definition settings_window_position :: "32 word \<Rightarrow> 32 word \<Rightarrow> 32 word \<Rightarrow> 32 word \<Rightarrow> 32 word \<times> 32 word" where
  "settings_window_position area_width area_height work_x work_y =
     (smax work_x (signed_drop_bit 1 area_width - 400), smax work_y (signed_drop_bit 1 area_height - 360))"

text \<open>The display's own origin is left out: on a display to the left of the primary one the window is moved
  off the display it was placed on.\<close>

lemma settings_window_leaves_display:
  "settings_window_position 1920 1080 (- 1920) 0 = (560, 180)"
  by (simp add: settings_window_position_def smax_def word_sless_alt)

section \<open>Views/RuleEditorPage\<close>

text \<open>\<open>None\<close>: the document has no root, and the page reads through null.\<close>

(* @ winui3/Views/RuleEditorPage.xaml.cc:29-33 RuleEditorPage::RuleEditorPage *)
definition makeRuleEditorPage ::
  "('t, 'n, 'a) editor_api_scheme \<Rightarrow> ('t, 'n, 'l) UserSettingsStore \<Rightarrow> (exn + 'n RulesViewModel) option" where
  "makeRuleEditorPage Y st =
     (case doc_root (document st) of
        None \<Rightarrow> None
      | Some us \<Rightarrow> Some (makeRulesViewModel Y (doc_tree (document st)) (urules us)))"

text \<open>What \<open>save\<close> answered, if it was called, is dropped by the handler.  \<open>None\<close>: a loop that does not end, or
  an exception in the \<open>noexcept\<close> call.\<close>

(* @ winui3/Views/RuleEditorPage.xaml.cc:39-42 RuleEditorPage::SaveClick *)
definition SaveClick ::
  "('w, 'b) file_api_scheme \<Rightarrow> ('t, 'n, 'a) editor_api_scheme \<Rightarrow> exn + path \<Rightarrow>
   ('t, 'n, 'l) UserSettingsStore \<Rightarrow> 'n RulesViewModel \<Rightarrow> 'w \<Rightarrow>
   (exn + hresult option \<times> ('t, 'n, 'l) UserSettingsStore \<times> 'n RulesViewModel \<times> 'w) option" where
  "SaveClick A Y local_folder st v w =
     (case doc_root (document st) of
        None \<Rightarrow> None
      | Some us \<Rightarrow>
          (case rs_applyChanges Y (doc_tree (document st)) (urules us) v of
             None \<Rightarrow> None
           | Some (Inl e) \<Rightarrow> Some (Inl e)
           | Some (Inr (changed, t', rs', v', evs)) \<Rightarrow>
               let st' = st\<lparr>document := \<lparr>doc_tree = t', doc_root = Some (us\<lparr>urules := rs'\<rparr>)\<rparr>\<rparr> in
               if changed then
                 (case save A Y local_folder st' w of
                    None \<Rightarrow> None
                  | Some (hr, w') \<Rightarrow> Some (Inr (Some hr, st', v', w')))
               else Some (Inr (None, st', v', w))))"

lemma rs_apply_facts:
  assumes "rs_apply_items Y t rs vs = Some (Inr (c, t', rs', vs', evs))"
  shows "c = list_ex rv_HasPendingChanges vs \<and> \<not> list_ex rv_HasPendingChanges vs' \<and>
    (\<not> c \<longrightarrow> t' = t \<and> rs' = rs \<and> vs' = vs \<and> evs = []) \<and> length vs' = length vs \<and> length rs' = length rs"
  using assms
proof (induction Y t rs vs arbitrary: c t' rs' vs' evs rule: rs_apply_items.induct)
  case (1 Y t r rs v vs)
  have "\<exists>p. rv_applyChanges Y t r v = Some (Inr p)"
    using "1.prems" by (auto split: option.splits sum.splits)
  then obtain c1 t1 r1 v1 e1 where s1: "rv_applyChanges Y t r v = Some (Inr (c1, t1, r1, v1, e1))" by (metis prod_cases5)
  have "\<exists>p. rs_apply_items Y t1 rs vs = Some (Inr p)"
    using "1.prems" s1 by (auto split: option.splits sum.splits)
  then obtain c2 t2 rs2 vs2 e2 where s2: "rs_apply_items Y t1 rs vs = Some (Inr (c2, t2, rs2, vs2, e2))" by (metis prod_cases5)
  show ?case
    using "1.IH" [OF s1 refl refl refl refl refl s2] rv_apply_facts [OF s1] "1.prems" by (auto simp: s1 s2)
qed simp_all

lemma rs_apply_idle:
  assumes "\<not> list_ex rv_HasPendingChanges vs" "length vs \<le> length rs"
  shows "rs_apply_items Y t rs vs = Some (Inr (False, t, rs, vs, []))"
  using assms
  by (induction Y t rs vs rule: rs_apply_items.induct) (auto simp: rv_apply_idle)

lemma rs_apply_ended: "rs_apply_items Y t rs vs = Some (Inr p) \<Longrightarrow> length vs \<le> length rs"
  by (induction Y t rs vs arbitrary: p rule: rs_apply_items.induct) (auto split: option.splits sum.splits)

text \<open>What the editors make of a document: each writes, in turn, to the tree that the one before it left, and
  to the rule at its place; the rules that have no editor are as they were.\<close>

definition edited ::
  "('t, 'n, 'a) editor_api_scheme \<Rightarrow> 't \<Rightarrow> 'n Rule list \<Rightarrow> 'n RuleViewModel list \<Rightarrow> 't \<Rightarrow> 'n Rule list \<Rightarrow> 'n RuleViewModel list \<Rightarrow> bool" where
  "edited Y t rs vs t' rs' vs' \<longleftrightarrow>
     (\<exists>ts. ts 0 = t \<and> ts (length vs) = t' \<and>
        (\<forall>i < length vs. \<exists>c evs. rv_applyChanges Y (ts i) (rs ! i) (vs ! i) = Some (Inr (c, ts (Suc i), rs' ! i, vs' ! i, evs)))) \<and>
     length rs' = length rs \<and> length vs' = length vs \<and> drop (length vs) rs' = drop (length vs) rs"

lemma edited_Cons:
  assumes "rv_applyChanges Y t r v = Some (Inr (c, t1, r1, v1, evs))" "edited Y t1 rs vs t' rs' vs'"
  shows "edited Y t (r # rs) (v # vs) t' (r1 # rs') (v1 # vs')"
proof -
  obtain ts where ts: "ts 0 = t1" "ts (length vs) = t'"
    "\<forall>i < length vs. \<exists>c evs. rv_applyChanges Y (ts i) (rs ! i) (vs ! i) = Some (Inr (c, ts (Suc i), rs' ! i, vs' ! i, evs))"
    using assms(2) unfolding edited_def by blast
  let ?ts = "case_nat t ts"
  have "\<exists>c evs. rv_applyChanges Y (?ts i) ((r # rs) ! i) ((v # vs) ! i)
      = Some (Inr (c, ?ts (Suc i), (r1 # rs') ! i, (v1 # vs') ! i, evs))" if "i < length (v # vs)" for i
    using that assms(1) ts(1,3) by (cases i) auto
  then show ?thesis using ts(2) assms(2) unfolding edited_def by (intro conjI exI [of _ ?ts]) simp_all
qed

lemma rs_apply_edited:
  assumes "rs_apply_items Y t rs vs = Some (Inr (c, t', rs', vs', evs))"
  shows "edited Y t rs vs t' rs' vs'"
  using assms
proof (induction Y t rs vs arbitrary: c t' rs' vs' evs rule: rs_apply_items.induct)
  case (1 Y t r rs v vs)
  have "\<exists>p. rv_applyChanges Y t r v = Some (Inr p)"
    using "1.prems" by (auto split: option.splits sum.splits)
  then obtain c1 t1 r1 v1 e1 where s1: "rv_applyChanges Y t r v = Some (Inr (c1, t1, r1, v1, e1))" by (metis prod_cases5)
  have "\<exists>p. rs_apply_items Y t1 rs vs = Some (Inr p)"
    using "1.prems" s1 by (auto split: option.splits sum.splits)
  then obtain c2 t2 rs2 vs2 e2 where s2: "rs_apply_items Y t1 rs vs = Some (Inr (c2, t2, rs2, vs2, e2))" by (metis prod_cases5)
  show ?case
    using edited_Cons [OF s1 "1.IH" [OF s1 refl refl refl refl refl s2]] "1.prems" by (simp add: s1 s2)
next
  case (2 Y t rs)
  then show ?case by (auto simp: edited_def)
qed simp

text \<open>C9: The save button.  A click that ends leaves in the store the document the editors made (each
  writes, in turn, what it has pending to the rule at its place), and calls the store's \<open>save\<close>, with that
  document, exactly when changes were pending; the world is changed by that save alone.  It leaves none
  pending, so that a second click changes and saves nothing, whatever the first save answered.\<close>

theorem save_click:
  assumes "SaveClick A Y local_folder st v w = Some (Inr (saved, st', v', w'))"
  shows "(\<exists>us t' rs'. doc_root (document st) = Some us \<and>
      edited Y (doc_tree (document st)) (urules us) (rs_items v) t' rs' (rs_items v') \<and>
      st' = st\<lparr>document := \<lparr>doc_tree = t', doc_root = Some (us\<lparr>urules := rs'\<rparr>)\<rparr>\<rparr>) \<and>
    (saved = None \<longleftrightarrow> \<not> rs_HasPendingChanges v) \<and> \<not> rs_HasPendingChanges v' \<and>
    (saved = None \<longrightarrow> st' = st \<and> v' = v \<and> w' = w) \<and>
    (\<forall>hr. saved = Some hr \<longrightarrow> save A Y local_folder st' w = Some (hr, w')) \<and>
    SaveClick A Y local_folder st' v' w'' = Some (Inr (None, st', v', w''))"
proof -
  obtain us where us: "doc_root (document st) = Some us" using assms by (cases "doc_root (document st)") (simp_all add: SaveClick_def)
  have "\<exists>p. rs_applyChanges Y (doc_tree (document st)) (urules us) v = Some (Inr p)"
    using assms us by (auto simp: SaveClick_def split: option.splits sum.splits)
  then obtain c t' rs' v1 evs where a: "rs_applyChanges Y (doc_tree (document st)) (urules us) v = Some (Inr (c, t', rs', v1, evs))"
    by (metis prod_cases5)
  then obtain vs' e where i: "rs_apply_items Y (doc_tree (document st)) (urules us) (rs_items v) = Some (Inr (c, t', rs', vs', e))"
    "v1 = v\<lparr>rs_items := vs'\<rparr>"
    by (auto simp: rs_applyChanges_def res_simps)
  note F = rs_apply_facts [OF i(1)] and E = rs_apply_edited [OF i(1)]
  let ?st = "st\<lparr>document := \<lparr>doc_tree = t', doc_root = Some (us\<lparr>urules := rs'\<rparr>)\<rparr>\<rparr>"
  have r: "st' = ?st" "v' = v1" "c \<Longrightarrow> \<exists>hr. saved = Some hr \<and> save A Y local_folder ?st w = Some (hr, w')"
    "\<not> c \<Longrightarrow> saved = None \<and> w' = w"
    using assms us a by (auto simp: SaveClick_def Let_def split: if_splits option.splits)
  have same: "\<not> c \<Longrightarrow> st' = st \<and> v' = v"
  proof -
    assume "\<not> c"
    then have "t' = doc_tree (document st)" "rs' = urules us" "vs' = rs_items v" using F by simp_all
    then show ?thesis using us by (cases st; cases "document st") (auto simp: r(1,2) i(2))
  qed
  have none: "\<not> rs_HasPendingChanges v'" and iff: "c \<longleftrightarrow> rs_HasPendingChanges v"
    using F by (simp_all add: r(2) i(2) rs_HasPendingChanges_def)
  have again: "SaveClick A Y local_folder st' v' w'' = Some (Inr (None, st', v', w''))"
  proof -
    have "rs_apply_items Y (doc_tree (document st')) rs' vs' = Some (Inr (False, doc_tree (document st'), rs', vs', []))"
      using rs_apply_ended [OF i(1)] F by (intro rs_apply_idle) simp_all
    then show ?thesis by (simp add: SaveClick_def r(1,2) i(2) rs_applyChanges_def)
  qed
  have doc: "\<exists>us t' rs'. doc_root (document st) = Some us \<and>
      edited Y (doc_tree (document st)) (urules us) (rs_items v) t' rs' (rs_items v') \<and>
      st' = st\<lparr>document := \<lparr>doc_tree = t', doc_root = Some (us\<lparr>urules := rs'\<rparr>)\<rparr>\<rparr>"
    using us E by (auto simp: r(1,2) i(2))
  show ?thesis using r same none iff again by (intro conjI doc; cases c) auto
qed

definition editor_store :: "(ytree, ypath, nat) UserSettingsStore" where
  "editor_store = \<lparr>store_listeners = [1], document = \<lparr>doc_tree = editor_tree,
     doc_root = Some \<lparr>unode = [], urules = [editor_rule]\<rparr>\<rparr>, store_logger = None\<rparr>"

lemma save_click_witness:
  "\<exists>hr st' v' w'. SaveClick demo_files demo_editor (Inr []) editor_store \<lparr>rs_items = [editor_edited], rs_selected = Some 0\<rparr> empty_fs
       = Some (Inr (Some hr, st', v', w')) \<and>
     SaveClick demo_files demo_editor (Inr []) st' v' w' = Some (Inr (None, st', v', w'))"
proof -
  let ?v = "\<lparr>rs_items = [editor_edited], rs_selected = Some 0\<rparr> :: ypath RulesViewModel"
  obtain t' r' v' evs where A: "rv_applyChanges demo_editor editor_tree editor_rule editor_edited = Some (Inr (True, t', r', v', evs))"
    using demo_editor_apply by blast
  have emit: "y_emit demo_editor = (\<lambda>t. Inr (''# '' @ nat_dec (length t)))"
    by (simp add: demo_editor_def ryml.defs editor_api.defs demo_sel)
  let ?st = "editor_store\<lparr>document := \<lparr>doc_tree = t', doc_root = Some \<lparr>unode = [], urules = [r']\<rparr>\<rparr>\<rparr>"
  obtain hr w' where s: "save demo_files demo_editor (Inr []) ?st empty_fs = Some (hr, w')"
    by (cases "WriteFileAtomic demo_files doc_fileName (''# '' @ nat_dec (length t')) empty_fs")
      (simp add: save_def doc_str_def emit ResolveSettingsPath_def)
  have "SaveClick demo_files demo_editor (Inr []) editor_store ?v empty_fs = Some (Inr (Some hr, ?st, ?v\<lparr>rs_items := [v']\<rparr>, w'))"
    using A s by (simp add: SaveClick_def rs_applyChanges_def editor_store_def)
  from save_click [OF this] this show ?thesis by blast
qed

section \<open>main\<close>

datatype mitigation_policy = ProcessDynamicCodePolicy | ProcessStrictHandleCheckPolicy | ProcessSystemCallDisablePolicy
  | ProcessFontDisablePolicy | ProcessImageLoadPolicy

record 'w main_api =
  set_policy :: "mitigation_policy \<Rightarrow> dword \<Rightarrow> 'w \<Rightarrow> bool \<times> 'w"
  init_apartment :: "'w \<Rightarrow> 'w"
  instance_is_current :: "'w \<Rightarrow> bool \<times> 'w"
  event_create :: "'w \<Rightarrow> hresult \<times> 'w"
  redirect_async :: "'w \<Rightarrow> 'w"
  co_wait :: "dword \<Rightarrow> 'w \<Rightarrow> hresult \<times> 'w"
  redirect_hr :: "'w \<Rightarrow> hresult"
  run_application :: "'w \<Rightarrow> 'w"

(* @ app/win32/process_mitigation.cc:4-73 ConfigureProcessMitigations *)
definition ConfigureProcessMitigations :: "('w, 'a) main_api_scheme \<Rightarrow> 'w \<Rightarrow> bool \<times> 'w" where
  "ConfigureProcessMitigations A w =
     (let (rc, w) = set_policy A ProcessDynamicCodePolicy 0x1 w in
      if \<not> rc then (rc, w)
      else let (rc, w) = set_policy A ProcessStrictHandleCheckPolicy 0x3 w in
      if \<not> rc then (rc, w)
      else let (rc, w) = set_policy A ProcessSystemCallDisablePolicy 0x4 w in
      if \<not> rc then (rc, w)
      else let (rc, w) = set_policy A ProcessFontDisablePolicy 0x1 w in
      if \<not> rc then (rc, w)
      else set_policy A ProcessImageLoadPolicy 0x3 w)"

definition EXIT_SUCCESS :: int where "EXIT_SUCCESS = 0"
definition EXIT_FAILURE :: int where "EXIT_FAILURE = 1"
definition RPC_S_CALLPENDING :: hresult where "RPC_S_CALLPENDING = 0x80010115"

(* @ winui3/main.cc:9-12 kRedirectActivationTimeout *)
definition kRedirectActivationTimeout :: dword where "kRedirectActivationTimeout = 20000"

text \<open>The result of the redirection is read after the wait.\<close>

(* @ winui3/main.cc:42-73 RedirectActivation *)
definition RedirectActivation :: "('w, 'a) main_api_scheme \<Rightarrow> dword \<Rightarrow> 'w \<Rightarrow> int \<times> 'w" where
  "RedirectActivation A timeout w =
     (let (hr, w1) = event_create A w in
      if FAILED hr then (EXIT_FAILURE, w1)
      else
        let (hr, w2) = co_wait A timeout (redirect_async A w1) in
        if hr = RPC_S_CALLPENDING then (EXIT_FAILURE, w2)
        else if FAILED hr then (EXIT_FAILURE, w2)
        else if FAILED (redirect_hr A w2) then (EXIT_FAILURE, w2)
        else (EXIT_SUCCESS, w2))"

(* @ winui3/main.cc:85-111 wWinMain *)
definition wWinMain :: "('w, 'a) main_api_scheme \<Rightarrow> 'w \<Rightarrow> int \<times> 'w" where
  "wWinMain A w =
     (let (status, w1) = ConfigureProcessMitigations A w in
      if \<not> status then (EXIT_FAILURE, w1)
      else
        let (is_current, w2) = instance_is_current A (init_apartment A w1) in
        if \<not> is_current then RedirectActivation A kRedirectActivationTimeout w2
        else (EXIT_SUCCESS, run_application A w2))"

text \<open>A world that counts what was done: the policies set, and whether the application runs.\<close>

definition log_main :: "(mitigation_policy \<times> dword \<Rightarrow> bool) \<Rightarrow> bool \<Rightarrow> hresult \<Rightarrow> ((mitigation_policy \<times> dword) list \<times> bool) main_api" where
  "log_main ok current hr = \<lparr>
     set_policy = (\<lambda>p v (done, runs). if ok (p, v) then (True, done @ [(p, v)], runs) else (False, done, runs)),
     init_apartment = (\<lambda>w. w), instance_is_current = (\<lambda>w. (current, w)), event_create = (\<lambda>w. (S_OK, w)),
     redirect_async = (\<lambda>w. w), co_wait = (\<lambda>_ w. (S_OK, w)), redirect_hr = (\<lambda>_. hr),
     run_application = (\<lambda>(done, runs). (done, True))\<rparr>"

text \<open>The application runs only with all five policies in force and as the first instance; a second instance
  succeeds exactly when its activation was redirected.\<close>

lemma application_runs_hardened:
  assumes "wWinMain (log_main ok current hr) ([], False) = (rc, done', runs)"
  shows "runs \<longleftrightarrow> rc = EXIT_SUCCESS \<and> current"
    and "runs \<longrightarrow> done' = [(ProcessDynamicCodePolicy, 1), (ProcessStrictHandleCheckPolicy, 3), (ProcessSystemCallDisablePolicy, 4),
      (ProcessFontDisablePolicy, 1), (ProcessImageLoadPolicy, 3)]"
    and "rc = EXIT_FAILURE \<longleftrightarrow> (\<exists>x\<in>{(ProcessDynamicCodePolicy, 1), (ProcessStrictHandleCheckPolicy, 3),
      (ProcessSystemCallDisablePolicy, 4), (ProcessFontDisablePolicy, 1), (ProcessImageLoadPolicy, 3)}. \<not> ok x) \<or>
      \<not> current \<and> FAILED hr"
  using assms
  by (auto simp: wWinMain_def ConfigureProcessMitigations_def log_main_def RedirectActivation_def EXIT_FAILURE_def
      EXIT_SUCCESS_def RPC_S_CALLPENDING_def Let_def split: if_splits)

end
