(* ===== verification/Navigation.thy ===== *)
theory Navigation
  imports SettingsPage
begin

text \<open>
  The pages of the settings window (\<open>winui3/Views/SettingsWindow\<close>): the frame that shows a page and the
  menu whose items carry page names.  Each follows the other, by \<open>SelectionChanged\<close> and by
  \<open>Navigated\<close>, so an event of one causes an event of the other; the lemmas show where that ends.  The
  frame is a parameter.  Also the template selector and the coroutine that hands an activation over.
\<close>

section \<open>The frame\<close>

record 'w frame_api =
  fr_page :: "'w \<Rightarrow> wstr"
  fr_navigate :: "wstr \<Rightarrow> 'w \<Rightarrow> bool \<times> 'w"
  fr_can_back :: "'w \<Rightarrow> bool"
  fr_can_forward :: "'w \<Rightarrow> bool"
  fr_back :: "'w \<Rightarrow> 'w"
  fr_forward :: "'w \<Rightarrow> 'w"

(* @ winui3/Views/SettingsWindow.xaml.cc:121-132 SettingsWindow::navigateTo *)
definition navigateTo :: "('w, 'a) frame_api_scheme \<Rightarrow> wstr \<Rightarrow> 'w \<Rightarrow> bool \<times> 'w" where
  "navigateTo A page_type w = (if fr_page A w = page_type then (False, w) else fr_navigate A page_type w)"

fun go :: "('w, 'a) frame_api_scheme \<Rightarrow> navigation option \<Rightarrow> 'w \<Rightarrow> 'w" where
  "go A None w = w"
| "go A (Some NavigateBack) w = fr_back A w"
| "go A (Some NavigateForward) w = fr_forward A w"

(* @ winui3/Views/SettingsWindow.xaml.cc:183-188 SettingsWindow::NavigationViewBackRequested *)
definition NavigationViewBackRequested :: "('w, 'a) frame_api_scheme \<Rightarrow> 'w \<Rightarrow> 'w" where
  "NavigationViewBackRequested A w = go A (tryGoBack (fr_can_back A w)) w"

text \<open>The item is given by its place among the menu items, whose tags are \<open>tags\<close>.\<close>

(* @ winui3/Views/SettingsWindow.xaml.cc:190-197 SettingsWindow::NavigationViewSelectionChanged *)
definition NavigationViewSelectionChanged ::
  "('w, 'a) frame_api_scheme \<Rightarrow> wstr list \<Rightarrow> nat \<Rightarrow> 'w \<Rightarrow> 'w" where
  "NavigationViewSelectionChanged A tags i w = snd (navigateTo A (tags ! i) w)"

text \<open>The menu of \<open>SettingsWindow.xaml\<close>.\<close>

definition settings_tags :: "wstr list" where
  "settings_tags = [widen ''Mntone.RoxyGlance.Views.RuleEditorPage'', widen ''Mntone.RoxyGlance.Views.LogsPage'']"

definition frame_law :: "('w, 'a) frame_api_scheme \<Rightarrow> bool" where
  "frame_law A \<longleftrightarrow> (\<forall>p w w'. fr_navigate A p w = (True, w') \<longrightarrow> fr_page A w' = p)"

lemma navigated_some: "RootFrameNavigated tags page = Some i \<Longrightarrow> i < length tags \<and> tags ! i = page"
  by (induction tags arbitrary: i) (auto split: if_splits)

lemma navigated_selects: "distinct tags \<Longrightarrow> i < length tags \<Longrightarrow> RootFrameNavigated tags (tags ! i) = Some i"
proof (induction tags arbitrary: i)
  case (Cons tag tags)
  then show ?case by (cases i) auto
qed simp

text \<open>Selecting the item of the page shown, which \<open>Navigated\<close> does, does not navigate again.\<close>

lemma navigation_echo_ends:
  "RootFrameNavigated tags (fr_page A w) = Some i \<Longrightarrow> NavigationViewSelectionChanged A tags i w = w"
  using navigated_some [of tags "fr_page A w" i]
  by (simp add: NavigationViewSelectionChanged_def navigateTo_def)

text \<open>Selecting an item shows its page, after which the menu selects that very item and nothing more
  happens.\<close>

lemma selection_shows_page:
  assumes "frame_law A" "i < length settings_tags" "navigateTo A (settings_tags ! i) w = (True, w')"
  shows "fr_page A w' = settings_tags ! i"
    and "RootFrameNavigated settings_tags (fr_page A w') = Some i"
    and "NavigationViewSelectionChanged A settings_tags i w' = w'"
proof -
  have d: "distinct settings_tags" by (simp add: settings_tags_def)
  show p: "fr_page A w' = settings_tags ! i"
    using assms(1,3) by (auto simp: navigateTo_def frame_law_def split: if_splits)
  show n: "RootFrameNavigated settings_tags (fr_page A w') = Some i"
    unfolding p by (rule navigated_selects [OF d assms(2)])
  show "NavigationViewSelectionChanged A settings_tags i w' = w'" by (rule navigation_echo_ends [OF n])
qed

section \<open>Converters/TypeNameTemplateSelector\<close>

text \<open>The item by its class name; \<open>lookup\<close> is the resource dictionary, which throws for a name it has not.\<close>

(* @ winui3/Converters/TypeNameTemplateSelector.cc:16-32 TypeNameTemplateSelector::SelectTemplateCore *)
definition SelectTemplateCore :: "'d \<Rightarrow> (wstr \<Rightarrow> exn + 'd) \<Rightarrow> wstr option \<Rightarrow> exn + 'd" where
  "SelectTemplateCore empty_template lookup item =
     (case item of None \<Rightarrow> Inr empty_template | Some item_typename \<Rightarrow> lookup item_typename)"

section \<open>main.cc\<close>

text \<open>How the redirection ended, as \<open>RedirectActivation\<close> reads it once the event is set: only a
  \<open>winrt::hresult_error\<close> keeps its code.\<close>

(* @ winui3/main.cc:27-40 RedirectActivationAsync *)
definition RedirectActivationAsync :: "exn + unit \<Rightarrow> hresult" where
  "RedirectActivationAsync outcome =
     (case outcome of Inr _ \<Rightarrow> S_OK | Inl (HrError hr) \<Rightarrow> hr | Inl _ \<Rightarrow> E_FAIL)"

text \<open>A failed redirection is never reported as a success.\<close>

lemma redirect_failure_reported:
  "(\<And>hr. outcome = Inl (HrError hr) \<Longrightarrow> FAILED hr) \<Longrightarrow>
     FAILED (RedirectActivationAsync outcome) \<longleftrightarrow> outcome \<noteq> Inr ()"
  by (cases outcome) (auto simp: RedirectActivationAsync_def split: exn.splits)

end
