(* ===== verification/Shell.thy ===== *)
theory Shell
  imports Compiler
begin

text \<open>
  \<open>winui3/ViewModels/Logging\<close> and \<open>winui3/ViewModels/Shell\<close>: the views of the entry ring and of the
  monitor cache.  Both are told of a change on the thread that made it and carry it out later on the
  thread of the user interface, in the order of its dispatcher queue; \<open>enqueued\<close> is the answer of
  \<open>TryEnqueue\<close>.  A call and a dispatched item are each one step; the data races between them are not
  modelled.
\<close>

definition E_BOUNDS :: hresult where "E_BOUNDS = 0x8000000B"

section \<open>ViewModels/Logging\<close>

text \<open>
  A entry is known by its number in the order of the logger's pushes.  A queued change carries a pointer
  to the pushed element, which \<open>boost::circular_buffer\<close> keeps valid until it drops the element.
\<close>

type_synonym log_ref = nat

record queued_change =
  qc_type :: CollectionChangeType
  qc_index :: nat
  qc_item :: log_ref

(* @ winui3/ViewModels/Logging/LogsViewModel.h:27-30 LogsViewModel *)
record LogsViewModel =
  lv_logger :: Logger
  lv_pushed :: nat
  lv_view :: "wstr list"
  lv_queue :: "queued_change list"

(* @ winui3/ViewModels/Logging/LogViewModel.h:12-14 LogViewModel::LogViewModel *)
definition makeLogViewModel :: "Log \<Rightarrow> wstr" where "makeLogViewModel entry = log_content entry"

(* @ winui3/ViewModels/Logging/LogsViewModel.cc:21-33 makeLogViewModels *)
definition makeLogViewModels :: "Logger \<Rightarrow> wstr list" where
  "makeLogViewModels logger = List.map makeLogViewModel (logs logger)"

text \<open>\<open>pushed\<close> logs went through the logger before.\<close>

(* @ winui3/ViewModels/Logging/LogsViewModel.cc:35-40 LogsViewModel::LogsViewModel *)
definition makeLogsViewModel :: "nat \<Rightarrow> Logger \<Rightarrow> LogsViewModel" where
  "makeLogsViewModel pushed logger =
     \<lparr>lv_logger = logger, lv_pushed = pushed, lv_view = makeLogViewModels logger, lv_queue = []\<rparr>"

text \<open>\<open>None\<close>: the element was dropped, and reading it is undefined.\<close>

definition log_deref :: "LogsViewModel \<Rightarrow> log_ref \<Rightarrow> Log option" where
  "log_deref s n =
     (let age = lv_pushed s - Suc n in
      if n < lv_pushed s \<and> age < length (logs (lv_logger s)) then Some (logs (lv_logger s) ! age) else None)"

text \<open>\<open>magic_enum::enum_flags_test\<close> of the two flags.\<close>

fun change_adds :: "CollectionChangeType \<Rightarrow> bool" where
  "change_adds ChangeReset = False"
| "change_adds ChangeAdded = True"
| "change_adds ChangeRemoved = False"
| "change_adds ChangeUpdated = True"

fun change_removes :: "CollectionChangeType \<Rightarrow> bool" where
  "change_removes ChangeReset = False"
| "change_removes ChangeAdded = False"
| "change_removes ChangeRemoved = True"
| "change_removes ChangeUpdated = True"

text \<open>The logger pushes a entry and calls the view's \<open>onCollectionChanged\<close>.\<close>

(* @ winui3/ViewModels/Logging/LogsViewModel.cc:46-56 LogsViewModel::onCollectionChanged *)
definition logs_onCollectionChanged :: "bool \<Rightarrow> Log \<Rightarrow> LogsViewModel \<Rightarrow> LogsViewModel" where
  "logs_onCollectionChanged enqueued entry s =
     (let (lg, change) = addLog entry (lv_logger s);
          queued = \<lparr>qc_type = change_type change, qc_index = change_index change, qc_item = lv_pushed s\<rparr>
      in s\<lparr>lv_logger := lg, lv_pushed := Suc (lv_pushed s),
           lv_queue := (if enqueued then lv_queue s @ [queued] else lv_queue s)\<rparr>)"

text \<open>The queued closure; \<open>InsertAt\<close> past the end and \<open>RemoveAtEnd\<close> of nothing throw, \<open>None\<close> is undefined.\<close>

(* @ winui3/ViewModels/Logging/LogsViewModel.cc:57-66 LogsViewModel::onCollectionChanged *)
definition logs_change :: "LogsViewModel \<Rightarrow> queued_change \<Rightarrow> (exn + wstr list) option" where
  "logs_change s change =
     (let view = lv_view s;
          added = (if change_adds (qc_type change) then
                     case log_deref s (qc_item change) of
                       None \<Rightarrow> None
                     | Some entry \<Rightarrow>
                         if length view < qc_index change then Some (Inl (HrError E_BOUNDS))
                         else Some (Inr (take (qc_index change) view @ [makeLogViewModel entry] @ drop (qc_index change) view))
                   else Some (Inr view))
      in map_option (\<lambda>res. rbind res (\<lambda>view'.
           if change_removes (qc_type change) then
             (if view' = [] then Inl (HrError E_BOUNDS) else Inr (butlast view'))
           else Inr view')) added)"

(* @ winui3/ViewModels/Logging/LogsViewModel.cc:56-67 LogsViewModel::onCollectionChanged *)
definition logs_dispatch :: "LogsViewModel \<Rightarrow> (exn + LogsViewModel) option" where
  "logs_dispatch s =
     (case lv_queue s of
        [] \<Rightarrow> Some (Inr s)
      | change # rest \<Rightarrow>
          map_option (\<lambda>res. rbind res (\<lambda>view. Inr (s\<lparr>lv_view := view, lv_queue := rest\<rparr>))) (logs_change s change))"

section \<open>The view follows the logger\<close>

datatype logs_event = LogPushed Log | ChangeDispatched

fun logs_run :: "logs_event list \<Rightarrow> LogsViewModel \<Rightarrow> (exn + LogsViewModel) option" where
  "logs_run [] s = Some (Inr s)"
| "logs_run (LogPushed entry # es) s = logs_run es (logs_onCollectionChanged True entry s)"
| "logs_run (ChangeDispatched # es) s =
     (case logs_dispatch s of Some (Inr s') \<Rightarrow> logs_run es s' | r \<Rightarrow> r)"

text \<open>The number of changes that wait when one is dispatched stays within the ring.\<close>

fun backlog_within :: "nat \<Rightarrow> nat \<Rightarrow> logs_event list \<Rightarrow> bool" where
  "backlog_within cap q [] \<longleftrightarrow> True"
| "backlog_within cap q (LogPushed entry # es) \<longleftrightarrow> backlog_within cap (Suc q) es"
| "backlog_within cap q (ChangeDispatched # es) \<longleftrightarrow> q \<le> cap \<and> backlog_within cap (q - 1) es"

fun backlog :: "nat \<Rightarrow> logs_event list \<Rightarrow> nat" where
  "backlog q [] = q"
| "backlog q (LogPushed entry # es) = backlog (Suc q) es"
| "backlog q (ChangeDispatched # es) = backlog (q - 1) es"

definition pushed_logs :: "logs_event list \<Rightarrow> Log list" where
  "pushed_logs es = concat (List.map (\<lambda>e. case e of LogPushed l \<Rightarrow> [l] | ChangeDispatched \<Rightarrow> []) es)"

text \<open>The history, newest first: the view shows it without the waiting changes.\<close>

definition logs_inv :: "Log list \<Rightarrow> LogsViewModel \<Rightarrow> bool" where
  "logs_inv hist s \<longleftrightarrow>
     (let lg = lv_logger s; q = length (lv_queue s); cap = log_capacity lg in
      0 < cap \<and> logs lg = take cap hist \<and> q \<le> length hist \<and> q \<le> lv_pushed s \<and>
      lv_view s = List.map makeLogViewModel (take cap (drop q hist)) \<and>
      (\<forall>i<q. lv_queue s ! i = \<lparr>qc_type = (if cap \<le> length hist - (q - i) then ChangeUpdated else ChangeAdded),
         qc_index = 0, qc_item = lv_pushed s - (q - i)\<rparr>))"

lemma makeLogsViewModel_inv:
  assumes "logger_wf lg"
  shows "logs_inv (logs lg) (makeLogsViewModel n lg)"
  using assms by (simp add: logs_inv_def makeLogsViewModel_def makeLogViewModels_def logger_wf_def)

lemma logs_push_inv:
  assumes "logs_inv hist s"
  shows "logs_inv (entry # hist) (logs_onCollectionChanged True entry s)"
proof -
  let ?lg = "lv_logger s" and ?q = "length (lv_queue s)"
  let ?cap = "log_capacity ?lg"
  have cap: "0 < ?cap" and lg: "logs ?lg = take ?cap hist" and q: "?q \<le> length hist" "?q \<le> lv_pushed s"
    and view: "lv_view s = List.map makeLogViewModel (take ?cap (drop ?q hist))"
    and queue: "\<forall>i<?q. lv_queue s ! i = \<lparr>qc_type = (if ?cap \<le> length hist - (?q - i) then ChangeUpdated else ChangeAdded),
      qc_index = 0, qc_item = lv_pushed s - (?q - i)\<rparr>"
    using assms by (simp_all add: logs_inv_def Let_def)
  let ?c = "\<lparr>qc_type = (if ?cap \<le> length hist then ChangeUpdated else ChangeAdded), qc_index = 0, qc_item = lv_pushed s\<rparr>"
  have full: "length (logs ?lg) = ?cap \<longleftrightarrow> ?cap \<le> length hist" using lg by (auto simp: min_def)
  have s': "logs_onCollectionChanged True entry s = s\<lparr>lv_logger := ?lg\<lparr>logs := take ?cap (entry # hist)\<rparr>,
      lv_pushed := Suc (lv_pushed s), lv_queue := lv_queue s @ [?c]\<rparr>"
    using cap lg full by (cases ?cap) (auto simp: logs_onCollectionChanged_def addLog_def push_front_def Let_def)
  have at: "(lv_queue s @ [?c]) ! i = \<lparr>qc_type = (if ?cap \<le> Suc (length hist) - (Suc ?q - i) then ChangeUpdated else ChangeAdded),
      qc_index = 0, qc_item = Suc (lv_pushed s) - (Suc ?q - i)\<rparr>" if "i < Suc ?q" for i
  proof (cases "i < ?q")
    case True
    have "Suc (length hist) - (Suc ?q - i) = length hist - (?q - i)" "Suc (lv_pushed s) - (Suc ?q - i) = lv_pushed s - (?q - i)"
      using True by (simp_all add: Suc_diff_le)
    then show ?thesis using queue True by (simp add: nth_append)
  next
    case False
    then have "i = ?q" using that by simp
    then show ?thesis by simp
  qed
  show ?thesis
    using cap q view at by (auto simp: logs_inv_def Let_def s')
qed

lemma take_drop_Suc:
  assumes "0 < q" "q \<le> length hist" "0 < cap"
  shows "take cap (drop (q - 1) hist) =
    hist ! (q - 1) # (if cap \<le> length hist - q then butlast (take cap (drop q hist)) else take cap (drop q hist))"
proof -
  obtain n where n: "q = Suc n" using assms(1) by (cases q) auto
  have d: "drop n hist = hist ! n # drop q hist" using assms(2) n by (simp add: Cons_nth_drop_Suc)
  obtain c where c: "cap = Suc c" using assms(3) by (cases cap) auto
  show ?thesis
    by (auto simp: n c d [unfolded n] butlast_take min_def)
qed

lemma logs_dispatch_inv:
  assumes "logs_inv hist s" "length (lv_queue s) \<le> log_capacity (lv_logger s)"
  shows "\<exists>s'. logs_dispatch s = Some (Inr s') \<and> logs_inv hist s' \<and> length (lv_queue s') = length (lv_queue s) - 1 \<and>
    lv_logger s' = lv_logger s"
proof (cases "lv_queue s")
  case Nil
  then show ?thesis using assms(1) by (simp add: logs_dispatch_def)
next
  case (Cons c rest)
  let ?lg = "lv_logger s" and ?q = "length (lv_queue s)"
  let ?cap = "log_capacity ?lg"
  have cap: "0 < ?cap" and lg: "logs ?lg = take ?cap hist" and q: "?q \<le> length hist" "?q \<le> lv_pushed s" "0 < ?q"
    and view: "lv_view s = List.map makeLogViewModel (take ?cap (drop ?q hist))"
    and queue: "\<forall>i<?q. lv_queue s ! i = \<lparr>qc_type = (if ?cap \<le> length hist - (?q - i) then ChangeUpdated else ChangeAdded),
      qc_index = 0, qc_item = lv_pushed s - (?q - i)\<rparr>"
    using assms(1) Cons by (simp_all add: logs_inv_def Let_def)
  have c: "c = \<lparr>qc_type = (if ?cap \<le> length hist - ?q then ChangeUpdated else ChangeAdded), qc_index = 0,
      qc_item = lv_pushed s - ?q\<rparr>"
    using queue q(3) Cons by (metis diff_zero nth_Cons_0)
  have age: "lv_pushed s - Suc (lv_pushed s - ?q) = ?q - 1" "lv_pushed s - ?q < lv_pushed s" using q by linarith+
  have "?q - 1 < ?cap" "?q - 1 < length hist" using q assms(2) by linarith+
  then have "?q - 1 < length (take ?cap hist)" by simp
  then have deref: "log_deref s (lv_pushed s - ?q) = Some (hist ! (?q - 1))"
    using age lg by (simp add: log_deref_def Let_def)
  let ?v = "List.map makeLogViewModel (take ?cap (drop (?q - 1) hist))"
  have "logs_change s c = Some (Inr ?v)"
    unfolding take_drop_Suc [OF q(3,1) cap] using deref view cap q
    by (auto simp: logs_change_def Let_def c map_butlast)
  then have "logs_dispatch s = Some (Inr (s\<lparr>lv_view := ?v, lv_queue := rest\<rparr>))" by (simp add: logs_dispatch_def Cons)
  moreover have "logs_inv hist (s\<lparr>lv_view := ?v, lv_queue := rest\<rparr>)"
  proof -
    have r: "rest ! i = lv_queue s ! Suc i" "length rest = ?q - 1" for i using Cons by simp_all
    have "rest ! i = \<lparr>qc_type = (if ?cap \<le> length hist - (length rest - i) then ChangeUpdated else ChangeAdded),
        qc_index = 0, qc_item = lv_pushed s - (length rest - i)\<rparr>" if "i < length rest" for i
      using queue [rule_format, of "Suc i"] that r by simp
    then show ?thesis using cap lg q r(2) by (auto simp: logs_inv_def Let_def)
  qed
  ultimately show ?thesis using Cons by simp
qed

lemma logs_run_inv:
  assumes "logs_inv hist s" "backlog_within (log_capacity (lv_logger s)) (length (lv_queue s)) es"
  shows "\<exists>s'. logs_run es s = Some (Inr s') \<and> logs_inv (rev (pushed_logs es) @ hist) s' \<and>
    length (lv_queue s') = backlog (length (lv_queue s)) es \<and> log_capacity (lv_logger s') = log_capacity (lv_logger s)"
  using assms
proof (induction es arbitrary: s hist)
  case (Cons e es)
  show ?case
  proof (cases e)
    case (LogPushed entry)
    let ?s = "logs_onCollectionChanged True entry s"
    have "length (lv_queue ?s) = Suc (length (lv_queue s))" "log_capacity (lv_logger ?s) = log_capacity (lv_logger s)"
      by (simp_all add: logs_onCollectionChanged_def addLog_def Let_def)
    then show ?thesis
      using Cons.IH [OF logs_push_inv [OF Cons.prems(1), of entry]] Cons.prems(2) LogPushed by (simp add: pushed_logs_def)
  next
    case ChangeDispatched
    have w: "length (lv_queue s) \<le> log_capacity (lv_logger s)" using Cons.prems(2) ChangeDispatched by simp
    obtain s' where s': "logs_dispatch s = Some (Inr s')" "logs_inv hist s'" "length (lv_queue s') = length (lv_queue s) - 1"
      "lv_logger s' = lv_logger s"
      using logs_dispatch_inv [OF Cons.prems(1) w] by blast
    then show ?thesis
      using Cons.IH [OF s'(2)] Cons.prems(2) ChangeDispatched by (simp add: pushed_logs_def)
  qed
qed (simp add: pushed_logs_def)

text \<open>C10: The view of the entry mirrors the logger.  However logs are pushed and queued changes dispatched, as long
  as no more changes wait than the ring has room for when one is dispatched, every dispatch succeeds and
  the view shows the newest logs without those whose changes still wait; with none waiting it shows the
  contents of the logger, in its order.\<close>

theorem logs_view_mirrors:
  assumes "logger_wf lg" "backlog_within (log_capacity lg) 0 es"
  shows "\<exists>s. logs_run es (makeLogsViewModel n lg) = Some (Inr s) \<and> length (lv_queue s) = backlog 0 es \<and>
    lv_view s = List.map log_content (take (log_capacity lg) (drop (backlog 0 es) (rev (pushed_logs es) @ logs lg))) \<and>
    (backlog 0 es = 0 \<longrightarrow> lv_view s = List.map log_content (logs (lv_logger s)))"
proof -
  obtain s where s: "logs_run es (makeLogsViewModel n lg) = Some (Inr s)" "logs_inv (rev (pushed_logs es) @ logs lg) s"
    "length (lv_queue s) = backlog 0 es" "log_capacity (lv_logger s) = log_capacity lg"
    using logs_run_inv [OF makeLogsViewModel_inv [OF assms(1)], of n es] assms(2) by (auto simp: makeLogsViewModel_def)
  have m: "makeLogViewModel = log_content" by (simp add: fun_eq_iff makeLogViewModel_def)
  show ?thesis using s by (intro exI [of _ s]) (auto simp: logs_inv_def Let_def m)
qed

lemma logs_view_mirrors_witness:
  "\<exists>s. logs_run [LogPushed \<lparr>datetime = 1, log_content = [65], log_hresult = 0, log_level = LevelInfo, log_group = GroupUnknown\<rparr>,
      LogPushed \<lparr>datetime = 2, log_content = [66], log_hresult = 0, log_level = LevelInfo, log_group = GroupUnknown\<rparr>,
      ChangeDispatched] (makeLogsViewModel 0 (makeLogger False)) = Some (Inr s) \<and> lv_view s = [[65]]"
  using logs_view_mirrors [OF makeLogger_wf, of False
      "[LogPushed \<lparr>datetime = 1, log_content = [65], log_hresult = 0, log_level = LevelInfo, log_group = GroupUnknown\<rparr>,
        LogPushed \<lparr>datetime = 2, log_content = [66], log_hresult = 0, log_level = LevelInfo, log_group = GroupUnknown\<rparr>,
        ChangeDispatched]" 0]
  by (auto simp: makeLogger_def kLogSize_def pushed_logs_def)

text \<open>With more changes waiting than the ring has room for, the next dispatch reads a dropped element.\<close>

lemma logs_backlog_dangles:
  assumes "logger_wf lg" "log_capacity lg < length ls"
  shows "logs_run (List.map LogPushed ls @ [ChangeDispatched]) (makeLogsViewModel n lg) = None"
proof -
  have p: "pushed_logs (List.map LogPushed ls) = ls" by (induction ls) (simp_all add: pushed_logs_def)
  have w: "backlog_within cap q (List.map LogPushed ls) \<and> backlog q (List.map LogPushed ls) = q + length ls" for cap q
    by (induction ls arbitrary: q) auto
  have app: "logs_run (es @ [ChangeDispatched]) s = logs_run [ChangeDispatched] s'" if "logs_run es s = Some (Inr s')" for es s s'
    using that
  proof (induction es s rule: logs_run.induct)
    case (3 es s)
    then show ?case by (auto split: option.splits sum.splits)
  qed simp_all
  obtain s where s: "logs_run (List.map LogPushed ls) (makeLogsViewModel n lg) = Some (Inr s)" "logs_inv (rev ls @ logs lg) s"
    "length (lv_queue s) = length ls" "log_capacity (lv_logger s) = log_capacity lg"
    using logs_run_inv [OF makeLogsViewModel_inv [OF assms(1)], of n "List.map LogPushed ls"] w p
    by (auto simp: makeLogsViewModel_def)
  have q: "0 < length ls" by (rule le_less_trans [OF _ assms(2)]) simp
  then obtain c rest where c: "lv_queue s = c # rest" using s(3) by (cases "lv_queue s") auto
  have "c = \<lparr>qc_type = (if log_capacity lg \<le> length (logs lg) then ChangeUpdated else ChangeAdded), qc_index = 0,
      qc_item = lv_pushed s - length ls\<rparr>" and pl: "length ls \<le> lv_pushed s"
      and lg: "logs (lv_logger s) = take (log_capacity lg) (rev ls @ logs lg)"
    using s(2-4) c q by (auto simp: logs_inv_def Let_def)
  moreover have "log_deref s (lv_pushed s - length ls) = None"
    using pl q assms(2) lg by (auto simp: log_deref_def Let_def)
  ultimately have "logs_dispatch s = None" by (auto simp: logs_dispatch_def c logs_change_def Let_def)
  then show ?thesis using app [OF s(1)] by simp
qed

section \<open>ViewModels/Shell\<close>

text \<open>The resources the names are made from: a plain text, or a format that may be wrong.\<close>

record shell_text =
  shell_main :: "exn + wstr"
  shell_main_format :: "wstr \<Rightarrow> exn + wstr"
  shell_display_format :: "int \<Rightarrow> exn + wstr"
  shell_display_name_format :: "int \<Rightarrow> wstr \<Rightarrow> exn + wstr"

(* @ winui3/ViewModels/Shell/MonitorViewModel.h:30-35 MonitorViewModel *)
record MonitorViewModel =
  mv_primary :: bool
  mv_id :: int
  mv_name :: wstr
  mv_display :: f32x4
  mv_work :: f32x4

(* @ winui3/ViewModels/Shell/MonitorViewModel.cc:20-27 makeName *)
definition monitor_name :: "shell_text \<Rightarrow> MonitorState \<Rightarrow> exn + wstr" where
  "monitor_name T state =
     (if mon_friendly_name state = [] then shell_display_format T (mon_id state)
      else shell_display_name_format T (mon_id state) (mon_friendly_name state))"

text \<open>A rectangle is its four lanes.\<close>

(* @ winui3/ViewModels/Shell/MonitorViewModel.cc:29-42 MonitorViewModel::MonitorViewModel *)
definition makeMonitorViewModelAs :: "MonitorState \<Rightarrow> int \<Rightarrow> wstr \<Rightarrow> MonitorViewModel" where
  "makeMonitorViewModelAs state n name =
     \<lparr>mv_primary = mon_primary state, mv_id = n, mv_name = name, mv_display = mon_display_area state,
      mv_work = mon_work_area state\<rparr>"

(* @ winui3/ViewModels/Shell/MonitorViewModel.cc:44-46 MonitorViewModel::MonitorViewModel *)
definition makeMonitorViewModel :: "shell_text \<Rightarrow> MonitorState \<Rightarrow> exn + MonitorViewModel" where
  "makeMonitorViewModel T state =
     rbind (monitor_name T state) (\<lambda>name. Inr (makeMonitorViewModelAs state (mon_id state) name))"

(* @ winui3/ViewModels/Shell/MonitorsViewModel.cc:54-61 makeMonitorViewModels *)
fun monitor_items_loop ::
  "shell_text \<Rightarrow> MonitorState list \<Rightarrow> MonitorState option \<Rightarrow> exn + MonitorViewModel list \<times> MonitorState option" where
  "monitor_items_loop T [] primary = Inr ([], primary)"
| "monitor_items_loop T (state # states) primary =
     rbind (makeMonitorViewModel T state) (\<lambda>v.
     rbind (monitor_items_loop T states (if mon_primary state then Some state else primary)) (\<lambda>(vs, p).
     Inr (v # vs, p)))"

text \<open>The ids of the monitors are distinct, so their order is the only one \<open>std::ranges::sort\<close> can give.
  \<open>None\<close> is the null view of an empty storage.\<close>

(* @ winui3/ViewModels/Shell/MonitorsViewModel.cc:35-73 makeMonitorViewModels *)
definition makeMonitorViewModels :: "shell_text \<Rightarrow> MonitorStates \<Rightarrow> exn + MonitorViewModel list option" where
  "makeMonitorViewModels T storage =
     (if storage = [] then Inr None
      else
        let states_by_id = sort_key mon_id (List.map snd storage) in
        rbind (monitor_items_loop T states_by_id None) (\<lambda>(monitors, primary_state).
          case primary_state of
            None \<Rightarrow> Inl (HrError E_INVALIDARG)
          | Some primary \<Rightarrow>
              rbind (if mon_friendly_name primary = [] then shell_main T
                     else shell_main_format T (mon_friendly_name primary)) (\<lambda>name.
                Inr (Some (makeMonitorViewModelAs primary 0 name # monitors)))))"

(* @ winui3/ViewModels/Shell/MonitorsViewModel.h:27-31 MonitorsViewModel *)
record MonitorsViewModel =
  ms_items :: "MonitorViewModel list option"
  ms_queue :: "MonitorViewModel list option list"

(* @ winui3/ViewModels/Shell/MonitorsViewModel.cc:75-81 MonitorsViewModel::MonitorsViewModel *)
definition makeMonitorsViewModel :: "shell_text \<Rightarrow> MonitorStates \<Rightarrow> exn + MonitorsViewModel" where
  "makeMonitorsViewModel T storage =
     rbind (makeMonitorViewModels T storage) (\<lambda>items. Inr \<lparr>ms_items = items, ms_queue = []\<rparr>)"

text \<open>The callback of the cache; it is \<open>noexcept\<close>, so an exception ends the process (\<open>None\<close>).\<close>

(* @ winui3/ViewModels/Shell/MonitorsViewModel.cc:87-98 MonitorsViewModel::onMonitorChanged *)
definition onMonitorChanged :: "shell_text \<Rightarrow> bool \<Rightarrow> MonitorStates \<Rightarrow> MonitorsViewModel \<Rightarrow> MonitorsViewModel option" where
  "onMonitorChanged T enqueued storage v =
     (case makeMonitorViewModels T storage of
        Inl e \<Rightarrow> None
      | Inr items \<Rightarrow> Some (if enqueued then v\<lparr>ms_queue := ms_queue v @ [items]\<rparr> else v))"

text \<open>The queued closure, and whether it notifies of \<open>Items\<close>.\<close>

(* @ winui3/ViewModels/Shell/MonitorsViewModel.cc:94-97 MonitorsViewModel::onMonitorChanged *)
definition monitors_dispatch :: "MonitorsViewModel \<Rightarrow> MonitorsViewModel \<times> bool" where
  "monitors_dispatch v =
     (case ms_queue v of
        [] \<Rightarrow> (v, False)
      | items # rest \<Rightarrow> (v\<lparr>ms_items := items, ms_queue := rest\<rparr>, True))"

section \<open>What the list of monitors offers\<close>

lemma monitor_items_loop_cases:
  assumes "monitor_items_loop T states primary = Inr (vs, p)"
  shows "List.map mv_id vs = List.map mon_id states \<and> List.map mv_primary vs = List.map mon_primary states \<and>
    List.map mv_display vs = List.map mon_display_area states \<and> List.map mv_work vs = List.map mon_work_area states \<and>
    (p = primary \<and> (\<forall>s\<in>set states. \<not> mon_primary s) \<or> (\<exists>s\<in>set states. p = Some s \<and> mon_primary s))"
  using assms
proof (induction states arbitrary: primary vs)
  case (Cons s states)
  obtain name vs' where s: "monitor_items_loop T states (if mon_primary s then Some s else primary) = Inr (vs', p)"
    "vs = makeMonitorViewModelAs s (mon_id s) name # vs'"
    using Cons.prems by (auto simp: makeMonitorViewModel_def res_simps)
  show ?case using Cons.IH [OF s(1)] by (auto simp: s(2) makeMonitorViewModelAs_def split: if_splits)
qed simp

text \<open>C13: The list of monitors a rule can choose from.  When it is built from a cache whose monitors have
  distinct ids it begins with an entry of id 0, which shows a primary monitor and which the rule compiler
  resolves to the primary monitor; after it come all monitors once, in the order of their ids, and each
  nonzero id is resolved by the compiler to the very monitor whose areas the entry shows.\<close>

theorem monitor_items:
  assumes "makeMonitorViewModels T storage = Inr (Some items)" "distinct (List.map (mon_id \<circ> snd) storage)"
  shows "\<exists>first rest. items = first # rest \<and> mv_id first = 0 \<and> mv_primary first \<and>
    resolveMonitorId A w storage (mv_id first) = GetPrimaryHMonitor A w \<and>
    (\<exists>s\<in>set (List.map snd storage). mon_primary s \<and> mv_work first = mon_work_area s) \<and>
    length rest = length storage \<and> sorted_wrt (<) (List.map mv_id rest) \<and>
    (\<forall>v\<in>set rest. \<exists>s\<in>set (List.map snd storage). mv_id v = mon_id s \<and> mv_display v = mon_display_area s \<and>
       mv_work v = mon_work_area s \<and> (mv_id v \<noteq> 0 \<longrightarrow> resolveMonitorId A w storage (mv_id v) = mon_handle s))"
proof -
  let ?by_id = "sort_key mon_id (List.map snd storage)"
  obtain rest primary name where r: "monitor_items_loop T ?by_id None = Inr (rest, Some primary)"
    "items = makeMonitorViewModelAs primary 0 name # rest"
    using assms(1) by (auto simp: makeMonitorViewModels_def res_simps Let_def split: if_splits option.splits)
  note L = monitor_items_loop_cases [OF r(1)]
  have p: "primary \<in> set (List.map snd storage)" "mon_primary primary" using L by auto
  have len: "length rest = length storage" using L by (metis length_map length_sort)
  have "distinct (List.map mon_id ?by_id)" using assms(2) by (simp add: distinct_map comp_def inj_on_def) metis
  then have sorted: "sorted_wrt (<) (List.map mv_id rest)" using L by (simp add: strict_sorted_iff)
  have each: "\<exists>s\<in>set (List.map snd storage). mv_id v = mon_id s \<and> mv_display v = mon_display_area s \<and>
       mv_work v = mon_work_area s \<and> (mv_id v \<noteq> 0 \<longrightarrow> resolveMonitorId A w storage (mv_id v) = mon_handle s)"
    if "v \<in> set rest" for v
  proof -
    obtain i where i: "i < length rest" "v = rest ! i" using \<open>v \<in> set rest\<close> by (metis in_set_conv_nth)
    have n: "length ?by_id = length rest" using len by simp
    let ?s = "?by_id ! i"
    have "?s \<in> set ?by_id" by (rule nth_mem) (simp only: n i(1))
    then have m: "?s \<in> set (List.map snd storage)" by (simp only: set_sort)
    have v: "mv_id v = mon_id ?s" "mv_display v = mon_display_area ?s" "mv_work v = mon_work_area ?s"
      using L i n by (metis nth_map)+
    obtain k where k: "(k, ?s) \<in> set storage" using m by auto
    have "findById storage (mon_id ?s) = Some ?s" using findById_iff [OF assms(2)] k by blast
    then show ?thesis using v by (intro bexI [OF _ m]) (simp add: resolveMonitorId_def)
  qed
  show ?thesis
    using r(2) p len sorted each
    by (auto simp: makeMonitorViewModelAs_def resolveMonitorId_def intro!: bexI [of _ primary])
qed

text \<open>A cache without a primary monitor ends the process when it changes.\<close>

lemma no_primary_ends_process:
  assumes "storage \<noteq> []" "\<forall>s\<in>set (List.map snd storage). \<not> mon_primary s"
  shows "onMonitorChanged T enqueued storage v = None"
proof -
  have "\<exists>e. makeMonitorViewModels T storage = Inl e"
  proof (cases "monitor_items_loop T (sort_key mon_id (List.map snd storage)) None")
    case (Inr x)
    then show ?thesis
      using monitor_items_loop_cases [of T "sort_key mon_id (List.map snd storage)" None "fst x" "snd x"] assms
      by (cases x) (auto simp: makeMonitorViewModels_def Let_def)
  qed (simp add: makeMonitorViewModels_def Let_def assms(1))
  then show ?thesis by (auto simp: onMonitorChanged_def)
qed

text \<open>Two monitors: the second in the cache is the primary one.\<close>

definition demo_monitor_state :: "int \<Rightarrow> bool \<Rightarrow> MonitorState" where
  "demo_monitor_state n primary = \<lparr>mon_display_area = f4_make 0 0 0 0, mon_work_area = f4_make 0 0 0 0,
     mon_friendly_name = [], mon_handle = nat n, mon_id = n, mon_primary = primary\<rparr>"

definition demo_shell_text :: shell_text where
  "demo_shell_text = \<lparr>shell_main = Inr [77], shell_main_format = Inr, shell_display_format = (\<lambda>n. Inr [of_int n]),
     shell_display_name_format = (\<lambda>n s. Inr s)\<rparr>"

lemma monitor_items_witness:
  "\<exists>items first rest. makeMonitorViewModels demo_shell_text [(2, demo_monitor_state 2 False), (1, demo_monitor_state 1 True)] = Inr (Some items) \<and>
     items = first # rest \<and> mv_id first = 0 \<and> mv_primary first \<and> length rest = 2"
proof -
  let ?s = "[(2, demo_monitor_state 2 False), (1, demo_monitor_state 1 True)] :: MonitorStates"
  have "\<exists>items. makeMonitorViewModels demo_shell_text ?s = Inr (Some items)"
    by (simp add: makeMonitorViewModels_def makeMonitorViewModel_def monitor_name_def demo_shell_text_def
        demo_monitor_state_def)
  then obtain items where m: "makeMonitorViewModels demo_shell_text ?s = Inr (Some items)" by blast
  have d: "distinct (List.map (mon_id \<circ> snd) ?s)" by (simp add: demo_monitor_state_def)
  note M = monitor_items [OF m d, where A = "undefined :: (unit, unit) win_api_scheme" and w = "()"]
  obtain first rest where r: "items = first # rest" "mv_id first = 0" "mv_primary first" "length rest = length ?s"
    using M by (elim exE conjE)
  have "length rest = 2" using r(4) by simp
  then show ?thesis using m r(1-3) by blast
qed

section \<open>App.xaml: the settings window\<close>

text \<open>
  A window is known by a number.  \<open>ua_handlers\<close> are the registrations with the windows' \<open>Closed\<close> event, each
  with its token, and \<open>ua_page\<close> is the page a window's frame shows; \<open>nav_ok\<close> is the answer of
  \<open>Frame::Navigate\<close>.  The items of the dispatcher queue run one at a time until \<open>Exit\<close>.
\<close>

datatype app_request = ExitRequested | ShowSettingsRequested

(* @ winui3/App.xaml.h:25-30 App *)
record ui_app =
  ua_listening :: bool
  ua_window :: "nat option"
  ua_token :: nat
  ua_handlers :: "(nat \<times> nat) list"
  ua_open :: "nat list"
  ua_page :: "nat \<Rightarrow> wstr"
  ua_queue :: "app_request list"
  ua_exited :: bool

(* @ winui3/App.xaml.cc:26-31 App::App *)
definition makeApp :: "hresult \<Rightarrow> exn + ui_app" where
  "makeApp initialized =
     rbind (check_hresult initialized) (\<lambda>_.
       Inr \<lparr>ua_listening = True, ua_window = None, ua_token = 0, ua_handlers = [], ua_open = [], ua_page = (\<lambda>_. []),
            ua_queue = [], ua_exited = False\<rparr>)"

(* @ winui3/Views/SettingsWindow.xaml.cc:121-132 SettingsWindow::navigateTo *)
definition navigateTo :: "(wstr \<Rightarrow> bool) \<Rightarrow> nat \<Rightarrow> wstr \<Rightarrow> ui_app \<Rightarrow> bool \<times> ui_app" where
  "navigateTo nav_ok window page_type a =
     (if ua_page a window = page_type then (False, a)
      else if nav_ok page_type then (True, a\<lparr>ua_page := (ua_page a)(window := page_type)\<rparr>)
      else (False, a))"

text \<open>\<open>window\<close> and \<open>token\<close> are those of a new window and of its registration, should one be made.\<close>

(* @ winui3/App.xaml.cc:80-103 App::showSettingsWindow *)
definition showSettingsWindow :: "(wstr \<Rightarrow> bool) \<Rightarrow> nat \<Rightarrow> nat \<Rightarrow> wstr \<Rightarrow> ui_app \<Rightarrow> ui_app" where
  "showSettingsWindow nav_ok window token page_type a =
     (case ua_window a of
        None \<Rightarrow>
          snd (navigateTo nav_ok window page_type
            (a\<lparr>ua_open := ua_open a @ [window], ua_token := token, ua_handlers := ua_handlers a @ [(window, token)],
               ua_window := Some window\<rparr>))
      | Some w \<Rightarrow> snd (navigateTo nav_ok w page_type a))"

text \<open>The closure registered with the \<open>Closed\<close> event; without a settings window it calls through null.\<close>

(* @ winui3/App.xaml.cc:84-96 App::showSettingsWindow *)
definition settings_window_closed :: "ui_app \<Rightarrow> ui_app option" where
  "settings_window_closed a =
     (let token = ua_token a; a' = a\<lparr>ua_token := 0, ua_window := None\<rparr> in
      case ua_window a of
        None \<Rightarrow> None
      | Some window \<Rightarrow> Some (a'\<lparr>ua_handlers := removeAll (window, token) (ua_handlers a')\<rparr>))"

text \<open>A window closes: the handlers registered with it at this time run.\<close>

fun run_closed :: "(nat \<times> nat) list \<Rightarrow> ui_app \<Rightarrow> ui_app option" where
  "run_closed [] a = Some a"
| "run_closed (h # hs) a = Option.bind (settings_window_closed a) (run_closed hs)"

definition close_window :: "nat \<Rightarrow> ui_app \<Rightarrow> ui_app option" where
  "close_window w a =
     run_closed (List.filter (\<lambda>h. fst h = w) (ua_handlers a)) (a\<lparr>ua_open := removeAll w (ua_open a)\<rparr>)"

(* @ winui3/App.xaml.cc:56-78 App::exitApp *)
definition exitApp :: "ui_app \<Rightarrow> ui_app option" where
  "exitApp a =
     (let a1 = a\<lparr>ua_listening := False\<rparr> in
      map_option (\<lambda>a. a\<lparr>ua_exited := True\<rparr>)
        (case ua_window a1 of
           None \<Rightarrow> Some a1
         | Some window \<Rightarrow>
             let token = ua_token a1;
                 a2 = (if token \<noteq> 0
                       then a1\<lparr>ua_token := 0, ua_handlers := removeAll (window, token) (ua_handlers a1)\<rparr>
                       else a1)
             in close_window window (a2\<lparr>ua_window := None\<rparr>)))"

(* @ winui3/App.xaml.cc:105-109 App::onAppExitRequested *)
definition onAppExitRequested :: "bool \<Rightarrow> ui_app \<Rightarrow> ui_app" where
  "onAppExitRequested enqueued a = (if enqueued then a\<lparr>ua_queue := ua_queue a @ [ExitRequested]\<rparr> else a)"

(* @ winui3/App.xaml.cc:111-115 App::onShowSettingsRequested *)
definition onShowSettingsRequested :: "bool \<Rightarrow> ui_app \<Rightarrow> ui_app" where
  "onShowSettingsRequested enqueued a = (if enqueued then a\<lparr>ua_queue := ua_queue a @ [ShowSettingsRequested]\<rparr> else a)"

definition kRuleEditorPage :: wstr where "kRuleEditorPage = widen ''Mntone.RoxyGlance.Views.RuleEditorPage''"

(* @ winui3/App.xaml.cc:105-115 App::onShowSettingsRequested *)
definition app_dispatch :: "(wstr \<Rightarrow> bool) \<Rightarrow> nat \<Rightarrow> nat \<Rightarrow> ui_app \<Rightarrow> ui_app option" where
  "app_dispatch nav_ok window token a =
     (case ua_queue a of
        [] \<Rightarrow> Some a
      | ExitRequested # rest \<Rightarrow> exitApp (a\<lparr>ua_queue := rest\<rparr>)
      | ShowSettingsRequested # rest \<Rightarrow>
          Some (showSettingsWindow nav_ok window token kRuleEditorPage (a\<lparr>ua_queue := rest\<rparr>)))"

section \<open>The life of the settings window\<close>

text \<open>A new window has a new number, and the token of a registration is not zero.\<close>

inductive app_reach :: "ui_app \<Rightarrow> bool" where
  constructed: "makeApp hr = Inr a \<Longrightarrow> app_reach a"
| exit_asked: "app_reach a \<Longrightarrow> app_reach (onAppExitRequested enqueued a)"
| show_asked: "app_reach a \<Longrightarrow> app_reach (onShowSettingsRequested enqueued a)"
| dispatched: "app_reach a \<Longrightarrow> \<not> ua_exited a \<Longrightarrow> window \<notin> set (ua_open a) \<Longrightarrow> token \<noteq> 0 \<Longrightarrow>
    app_dispatch nav_ok window token a = Some a' \<Longrightarrow> app_reach a'"
| window_closed: "app_reach a \<Longrightarrow> \<not> ua_exited a \<Longrightarrow> w \<in> set (ua_open a) \<Longrightarrow> close_window w a = Some a' \<Longrightarrow> app_reach a'"

definition app_inv :: "ui_app \<Rightarrow> bool" where
  "app_inv a \<longleftrightarrow>
     (case ua_window a of
        None \<Rightarrow> ua_token a = 0 \<and> ua_handlers a = [] \<and> ua_open a = []
      | Some w \<Rightarrow> ua_token a \<noteq> 0 \<and> ua_handlers a = [(w, ua_token a)] \<and> ua_open a = [w] \<and> \<not> ua_exited a) \<and>
     ua_listening a = (\<not> ua_exited a)"

lemma app_inv_queue [simp]: "app_inv (a\<lparr>ua_queue := q\<rparr>) = app_inv a"
  by (cases "ua_window a") (simp_all add: app_inv_def)

lemma navigateTo_keeps:
  "ua_window (snd (navigateTo nav_ok w p a)) = ua_window a" "ua_token (snd (navigateTo nav_ok w p a)) = ua_token a"
  "ua_handlers (snd (navigateTo nav_ok w p a)) = ua_handlers a" "ua_open (snd (navigateTo nav_ok w p a)) = ua_open a"
  "ua_listening (snd (navigateTo nav_ok w p a)) = ua_listening a" "ua_exited (snd (navigateTo nav_ok w p a)) = ua_exited a"
  by (simp_all add: navigateTo_def)

lemma show_inv:
  "app_inv a \<Longrightarrow> \<not> ua_exited a \<Longrightarrow> token \<noteq> 0 \<Longrightarrow> app_inv (showSettingsWindow nav_ok window token p a)"
  by (auto simp: app_inv_def showSettingsWindow_def navigateTo_keeps split: option.splits)

lemma exit_inv:
  assumes "app_inv a"
  shows "\<exists>a'. exitApp a = Some a' \<and> app_inv a' \<and> ua_exited a' \<and> ua_window a' = None"
  using assms by (cases "ua_window a") (auto simp: app_inv_def exitApp_def close_window_def Let_def)

lemma close_inv:
  assumes "app_inv a" "w \<in> set (ua_open a)"
  shows "\<exists>a'. close_window w a = Some a' \<and> app_inv a' \<and> ua_window a' = None"
  using assms
  by (cases "ua_window a") (auto simp: app_inv_def close_window_def settings_window_closed_def Let_def)

lemma app_reach_inv: "app_reach a \<Longrightarrow> app_inv a"
proof (induction rule: app_reach.induct)
  case (constructed hr a)
  then show ?case by (auto simp: makeApp_def app_inv_def res_simps)
next
  case (dispatched a window token nav_ok a')
  show ?case
  proof (cases "ua_queue a")
    case Nil
    then show ?thesis using dispatched by (simp add: app_dispatch_def)
  next
    case (Cons r rest)
    have i: "app_inv (a\<lparr>ua_queue := rest\<rparr>)" using dispatched by simp
    show ?thesis
      using dispatched Cons exit_inv [OF i] show_inv [OF i, of token nav_ok window kRuleEditorPage]
      by (cases r) (auto simp: app_dispatch_def)
  qed
next
  case (window_closed a w a')
  then show ?case using close_inv [of a w] by auto
qed (simp_all add: onAppExitRequested_def onShowSettingsRequested_def)

text \<open>C11: The life of the settings window.  In every state of the application there is at most one open
  settings window, and it is the one the application holds; the application holds one exactly when it holds
  the token of its only registration with that window's \<open>Closed\<close> event.  Showing the window again keeps it,
  closing it releases it, neither ever calls through a null window, and after an exit no window, no
  registration and no listener is left.\<close>

theorem settings_window_life:
  assumes "app_reach a"
  shows "length (ua_open a) \<le> 1 \<and> ua_window a = (case ua_open a of [] \<Rightarrow> None | w # _ \<Rightarrow> Some w) \<and>
    (ua_window a \<noteq> None \<longleftrightarrow> ua_token a \<noteq> 0) \<and> ua_handlers a = List.map (\<lambda>w. (w, ua_token a)) (ua_open a) \<and>
    (\<forall>w\<in>set (ua_open a). ua_open (showSettingsWindow nav_ok window token page a) = [w] \<and>
       (\<exists>a'. close_window w a = Some a' \<and> ua_window a' = None \<and> ua_open a' = [] \<and> ua_handlers a' = [])) \<and>
    (\<exists>a'. exitApp a = Some a' \<and> ua_window a' = None \<and> ua_token a' = 0 \<and> ua_handlers a' = [] \<and> ua_open a' = [] \<and>
       \<not> ua_listening a')"
proof -
  have inv: "app_inv a" by (rule app_reach_inv [OF assms])
  obtain a' where e: "exitApp a = Some a'" "app_inv a'" "ua_exited a'" "ua_window a' = None" using exit_inv [OF inv] by blast
  have c: "\<exists>a'. close_window w a = Some a' \<and> ua_window a' = None \<and> ua_open a' = [] \<and> ua_handlers a' = []"
    if "w \<in> set (ua_open a)" for w
    using close_inv [OF inv that] by (auto simp: app_inv_def)
  show ?thesis
    using inv e c
    by (cases "ua_window a") (auto simp: app_inv_def showSettingsWindow_def navigateTo_keeps)
qed

lemma demo_app_shown:
  "\<exists>a. app_reach a \<and> ua_open a = [7]"
proof -
  let ?a = "\<lparr>ua_listening = True, ua_window = None, ua_token = 0, ua_handlers = [], ua_open = [], ua_page = (\<lambda>_. []),
    ua_queue = [], ua_exited = False\<rparr>"
  have "makeApp S_OK = Inr ?a" by (simp add: makeApp_def)
  then have "app_reach (onShowSettingsRequested True ?a)" by (intro app_reach.show_asked app_reach.constructed)
  then have "app_reach (showSettingsWindow (\<lambda>_. True) 7 1 kRuleEditorPage ?a)"
    by (rule app_reach.dispatched [where window = 7 and token = 1 and nav_ok = "\<lambda>_. True"])
      (simp_all add: onShowSettingsRequested_def app_dispatch_def)
  moreover have "ua_open (showSettingsWindow (\<lambda>_. True) 7 1 kRuleEditorPage ?a) = [7]"
    by (simp add: showSettingsWindow_def navigateTo_keeps)
  ultimately show ?thesis by blast
qed

lemma settings_window_life_witness:
  "\<exists>a a'. app_reach a \<and> ua_open a = [7] \<and> ua_token a \<noteq> 0 \<and> exitApp a = Some a' \<and> ua_open a' = [] \<and> ua_token a' = 0"
proof -
  obtain a where a: "app_reach a" "ua_open a = [7]" using demo_app_shown by blast
  note L = settings_window_life [OF a(1), where nav_ok = "\<lambda>_. True" and window = 8 and token = 2 and page = "[]"]
  have "ua_token a \<noteq> 0" using L a(2) by auto
  moreover obtain a' where "exitApp a = Some a'" "ua_open a' = []" "ua_token a' = 0" using L by blast
  ultimately show ?thesis using a by blast
qed

end
