(* ===== verification/Resources.thy ===== *)
theory Resources
  imports Shell
begin

text \<open>
  \<open>FormatResourceString\<close> of \<open>win32/string\<close>: a string resource as the format of \<open>std::vformat\<close>, and the
  names made with it: those of the monitors (the \<open>shell_text\<close> of \<open>Shell\<close> from the program's resource
  numbers) and those of the rules without a name.  Replacement fields, argument numbers and doubled
  braces are modelled; a field with a format specification is formatted by the argument \<open>spec\<close> (no
  resource has one).
\<close>

section \<open>std::vformat\<close>

datatype fmt_arg = FmtInt int | FmtStr wstr

fun fmt_show :: "fmt_arg \<Rightarrow> wstr" where
  "fmt_show (FmtInt i) = widen (int_dec i)"
| "fmt_show (FmtStr s) = s"

text \<open>The fields are numbered by their order or by explicit numbers, not both.\<close>

datatype fmt_mode = Unnumbered | Automatic nat | Manual

fun next_field :: "fmt_mode \<Rightarrow> (nat \<times> fmt_mode) option" where
  "next_field Unnumbered = Some (0, Automatic 1)"
| "next_field (Automatic n) = Some (n, Automatic (Suc n))"
| "next_field Manual = None"

fun numbered_field :: "nat \<Rightarrow> fmt_mode \<Rightarrow> (nat \<times> fmt_mode) option" where
  "numbered_field n (Automatic _) = None"
| "numbered_field n _ = Some (n, Manual)"

definition wnum :: "wstr \<Rightarrow> nat" where
  "wnum ds = foldl (\<lambda>a d. 10 * a + (unat d - 48)) 0 ds"

text \<open>The field between the braces: its argument, the mode after it and its specification; \<open>None\<close> is a
  \<open>std::format_error\<close>.\<close>

definition parse_field :: "wstr \<Rightarrow> fmt_mode \<Rightarrow> (nat \<times> fmt_mode \<times> wstr option) option" where
  "parse_field field m =
     (let ds = takeWhile wdigit field; rest = dropWhile wdigit field;
          arg = (if ds = [] then next_field m
                 else if 1 < length ds \<and> hd ds = 48 then None else numbered_field (wnum ds) m)
      in case arg of None \<Rightarrow> None
         | Some (i, m') \<Rightarrow> if rest = [] then Some (i, m', None)
             else if hd rest = 58 then Some (i, m', Some (tl rest)) else None)"

definition show_field :: "(fmt_arg \<Rightarrow> wstr \<Rightarrow> wstr option) \<Rightarrow> fmt_arg list \<Rightarrow> nat \<Rightarrow> wstr option \<Rightarrow> wstr option" where
  "show_field spec as i sp =
     (if i < length as then (case sp of None \<Rightarrow> Some (fmt_show (as ! i)) | Some p \<Rightarrow> spec (as ! i) p) else None)"

function vformat_from ::
  "(fmt_arg \<Rightarrow> wstr \<Rightarrow> wstr option) \<Rightarrow> fmt_arg list \<Rightarrow> fmt_mode \<Rightarrow> wstr \<Rightarrow> wstr option" where
  "vformat_from spec as m [] = Some []"
| "vformat_from spec as m (c # r) =
     (if c = 125 then
        (if r \<noteq> [] \<and> hd r = 125 then map_option ((#) 125) (vformat_from spec as m (tl r)) else None)
      else if c \<noteq> 123 then map_option ((#) c) (vformat_from spec as m r)
      else if r \<noteq> [] \<and> hd r = 123 then map_option ((#) 123) (vformat_from spec as m (tl r))
      else
        let field = takeWhile (\<lambda>d. d \<noteq> 125) r; rest = dropWhile (\<lambda>d. d \<noteq> 125) r in
        if rest = [] then None
        else case parse_field field m of None \<Rightarrow> None
          | Some (i, m', sp) \<Rightarrow>
              (case show_field spec as i sp of None \<Rightarrow> None
               | Some s \<Rightarrow> map_option ((@) s) (vformat_from spec as m' (tl rest))))"
  by pat_completeness auto
termination
proof (relation "measure (\<lambda>(spec, as, m, fmt). length fmt)")
  fix spec :: "fmt_arg \<Rightarrow> wstr \<Rightarrow> wstr option" and as :: "fmt_arg list" and m m' :: fmt_mode
    and c :: "16 word" and r field rest :: wstr
  assume "rest = dropWhile (\<lambda>d. d \<noteq> 125) r" "rest \<noteq> []"
  then have "length (tl rest) \<le> length r" using length_dropWhile_le [of "\<lambda>d. d \<noteq> 125" r] by simp
  then show "((spec, as, m', tl rest), spec, as, m, c # r) \<in> measure (\<lambda>(spec, as, m, fmt). length fmt)"
    by simp
qed auto

definition std_vformat :: "(fmt_arg \<Rightarrow> wstr \<Rightarrow> wstr option) \<Rightarrow> wstr \<Rightarrow> fmt_arg list \<Rightarrow> wstr option" where
  "std_vformat spec fmt as = vformat_from spec as Unnumbered fmt"

section \<open>Formatted resources\<close>

(* @ app/win32/string.cc:134-142 load_resource_string *)
definition load_resource_string :: "'a text_api_scheme \<Rightarrow> dword \<Rightarrow> exn + wstr" where
  "load_resource_string A resource_id =
     (let (len, s, err) = load_string A resource_id in
      if len \<le> 0 then Inl (throw_hresult (LastErrorAsHResult A err)) else Inr (take (nat len) s))"

(* @ app/win32/string.cc:149-160 FormatResourceStringImpl *)
definition FormatResourceString ::
  "'a text_api_scheme \<Rightarrow> (fmt_arg \<Rightarrow> wstr \<Rightarrow> wstr option) \<Rightarrow> dword \<Rightarrow> fmt_arg list \<Rightarrow> exn + wstr" where
  "FormatResourceString A spec fmt_id as =
     rbind (load_resource_string A fmt_id) (\<lambda>fmt.
       case std_vformat spec fmt as of None \<Rightarrow> Inl (HrError E_INVALIDARG) | Some s \<Rightarrow> Inr s)"

(* @ winui3/Resources/ShellResource.h:16-22 kStringBase *)
definition kShellMain :: dword where "kShellMain = 0"
definition kShellMainFormat :: dword where "kShellMainFormat = 1"
definition kShellDisplayFormat :: dword where "kShellDisplayFormat = 2"
definition kShellDisplayNameFormat :: dword where "kShellDisplayNameFormat = 3"

(* @ winui3/Resources/SettingsResource.h:15-20 kSettingsRuleFormat *)
definition kSettingsRuleFormat :: dword where "kSettingsRuleFormat = 18"

(* @ winui3/ViewModels/Shell/MonitorViewModel.cc:20-27 makeName *)
definition resource_shell_text ::
  "'a text_api_scheme \<Rightarrow> (fmt_arg \<Rightarrow> wstr \<Rightarrow> wstr option) \<Rightarrow> shell_text" where
  "resource_shell_text A spec =
     \<lparr>shell_main = (case LoadResourceString A kShellMain of Inl hr \<Rightarrow> Inl (throw_hresult hr) | Inr t \<Rightarrow> Inr t),
      shell_main_format = (\<lambda>name. FormatResourceString A spec kShellMainFormat [FmtStr name]),
      shell_display_format = (\<lambda>i. FormatResourceString A spec kShellDisplayFormat [FmtInt i]),
      shell_display_name_format =
        (\<lambda>i name. FormatResourceString A spec kShellDisplayNameFormat [FmtInt i, FmtStr name])\<rparr>"

text \<open>The name of a rule that has none, which \<open>RuleEditor\<close> takes as \<open>rule_name_format\<close>.\<close>

(* @ winui3/ViewModels/Settings/RuleViewModel.cc:45-48 makeName *)
definition resource_rule_name ::
  "'a text_api_scheme \<Rightarrow> (fmt_arg \<Rightarrow> wstr \<Rightarrow> wstr option) \<Rightarrow> 32 word \<Rightarrow> exn + wstr" where
  "resource_rule_name A spec i = FormatResourceString A spec kSettingsRuleFormat [FmtInt (uint i)]"

section \<open>What a format gives\<close>

definition plain :: "wstr \<Rightarrow> bool" where "plain s \<longleftrightarrow> 123 \<notin> set s \<and> 125 \<notin> set s"

abbreviation hole :: wstr where "hole \<equiv> [123, 125]"

lemma vformat_plain:
  "plain s \<Longrightarrow> vformat_from spec as m (s @ r) = map_option ((@) s) (vformat_from spec as m r)"
  by (induction s; cases "vformat_from spec as m r"; auto simp: plain_def)

lemma vformat_only_plain: "plain s \<Longrightarrow> vformat_from spec as m s = Some s"
  using vformat_plain [of s spec as m "[]"] by simp

lemma vformat_hole:
  "vformat_from spec as m (hole @ r) = (case next_field m of None \<Rightarrow> None
     | Some (i, m') \<Rightarrow> if i < length as then map_option ((@) (fmt_show (as ! i))) (vformat_from spec as m' r)
         else None)"
  by (auto simp: parse_field_def show_field_def Let_def split: option.splits prod.splits)

lemma vformat_hole_at_end:
  "vformat_from spec as m hole = (case next_field m of None \<Rightarrow> None
     | Some (i, m') \<Rightarrow> if i < length as then Some (fmt_show (as ! i)) else None)"
  using vformat_hole [of spec as m "[]"] by (auto split: option.splits prod.splits)

lemmas vformat_simps = vformat_plain vformat_only_plain vformat_hole vformat_hole_at_end

declare vformat_from.simps [simp del]

lemma format_one:
  "plain p \<Longrightarrow> plain q \<Longrightarrow> std_vformat spec (p @ hole @ q) [a] = Some (p @ fmt_show a @ q)"
  by (simp add: std_vformat_def vformat_plain vformat_hole vformat_only_plain del: append.simps)

lemma format_two:
  "plain p \<Longrightarrow> plain q \<Longrightarrow> plain r \<Longrightarrow>
     std_vformat spec (p @ hole @ q @ hole @ r) [a, b] = Some (p @ fmt_show a @ q @ fmt_show b @ r)"
  by (simp add: std_vformat_def vformat_plain vformat_hole vformat_only_plain del: append.simps)

lemma format_missing_argument:
  "plain p \<Longrightarrow> plain q \<Longrightarrow> std_vformat spec (p @ hole @ q @ hole @ r) [a] = None"
  by (simp add: std_vformat_def vformat_plain vformat_hole del: append.simps)

text \<open>Decimal numbers are read back, so they differ when the numbers do.\<close>

definition dec_value :: "string \<Rightarrow> nat" where
  "dec_value s = foldl (\<lambda>a c. 10 * a + (of_char c - 48)) 0 s"

lemma dec_value_nat_dec: "dec_value (nat_dec n) = n"
proof (induction n rule: nat_dec.induct)
  case (1 n)
  show ?case
  proof (cases "n < 10")
    case True
    then show ?thesis by (subst nat_dec.simps) (simp add: dec_value_def)
  next
    case False
    have "of_char (char_of (48 + n mod 10) :: char) - 48 = n mod 10"
      using pos_mod_bound [of 10 "int n"] by simp
    then show ?thesis using False 1 by (subst nat_dec.simps) (simp add: dec_value_def)
  qed
qed

lemma nat_dec_digits: "c \<in> set (nat_dec n) \<Longrightarrow> 48 \<le> (of_char c :: nat) \<and> (of_char c :: nat) < 58"
proof (induction n rule: nat_dec.induct)
  case (1 n)
  then show ?case by (subst (asm) (2) nat_dec.simps) (auto split: if_splits)
qed

lemma int_dec_inj: "int_dec i = int_dec j \<Longrightarrow> i = j"
proof -
  assume e: "int_dec i = int_dec j"
  have minus: "CHR ''-'' \<notin> set (nat_dec n)" for n using nat_dec_digits [of "CHR ''-''" n] by auto
  have "i < 0 \<longleftrightarrow> j < 0" using e minus by (auto simp: int_dec_def split: if_splits) (metis list.set_intros(1))+
  then have "nat_dec (nat \<bar>i\<bar>) = nat_dec (nat \<bar>j\<bar>)" using e by (auto simp: int_dec_def split: if_splits)
  then have "nat \<bar>i\<bar> = nat \<bar>j\<bar>" by (metis dec_value_nat_dec)
  then show "i = j" using \<open>i < 0 \<longleftrightarrow> j < 0\<close> by auto
qed

lemma widen_inj: "widen s = widen t \<Longrightarrow> s = t"
proof -
  have "inj (\<lambda>c :: char. of_nat (of_char c) :: 16 word)"
  proof (rule injI)
    fix c d :: char assume e: "(of_nat (of_char c) :: 16 word) = of_nat (of_char d)"
    have "unat (of_nat (of_char x) :: 16 word) = of_char x" for x :: char
    proof -
      have "(of_char x :: nat) < 65536" using nat_of_char_less_256 [of x] by linarith
      then show ?thesis by (simp add: unat_of_nat)
    qed
    then have "(of_char c :: nat) = of_char d" using e by metis
    then show "c = d" by simp
  qed
  then show "widen s = widen t \<Longrightarrow> s = t" by (simp add: widen_def inj_map_eq_map)
qed

section \<open>The names of the monitors\<close>

text \<open>The resources have the form every translation has: one field in the first, two in the second.\<close>

definition name_texts ::
  "'a text_api_scheme \<Rightarrow> wstr \<times> wstr \<Rightarrow> wstr \<times> wstr \<times> wstr \<Rightarrow> bool" where
  "name_texts A = (\<lambda>(p, q) (p', q', r').
     plain p \<and> plain q \<and> plain p' \<and> plain q' \<and> plain r' \<and>
     load_resource_string A kShellDisplayFormat = Inr (p @ hole @ q) \<and>
     load_resource_string A kShellDisplayNameFormat = Inr (p' @ hole @ q' @ hole @ r'))"

lemma monitor_name_eq:
  assumes "name_texts A (p, q) (p', q', r')"
  shows "monitor_name (resource_shell_text A spec) s = Inr
    (if mon_friendly_name s = [] then p @ widen (int_dec (mon_id s)) @ q
     else p' @ widen (int_dec (mon_id s)) @ q' @ mon_friendly_name s @ r')"
  using assms
  by (simp add: name_texts_def monitor_name_def resource_shell_text_def FormatResourceString_def
      format_one format_two del: append.simps)

text \<open>With the program's resources the name of a monitor is always formed: the text of the translation
  with the monitor's number in it and, where it has a friendly name, that name letter by letter, braces
  included.  Two monitors without a friendly name have the same name only when they have the same number.\<close>

lemma monitor_names:
  assumes "name_texts A (p, q) (p', q', r')"
  shows "monitor_name (resource_shell_text A spec) s = Inr
      (if mon_friendly_name s = [] then p @ widen (int_dec (mon_id s)) @ q
       else p' @ widen (int_dec (mon_id s)) @ q' @ mon_friendly_name s @ r')
    \<and> (mon_friendly_name s = [] \<and> mon_friendly_name t = [] \<and>
         monitor_name (resource_shell_text A spec) s = monitor_name (resource_shell_text A spec) t
       \<longrightarrow> mon_id s = mon_id t)"
  using monitor_name_eq [OF assms, of spec s] monitor_name_eq [OF assms, of spec t]
  by (auto dest!: widen_inj int_dec_inj)

definition english :: text_api where
  "english = \<lparr>hr_of = (\<lambda>e. 0x80070000 OR e), mb_to_wc = (\<lambda>s n. (0, [], 0)), wc_to_mb = (\<lambda>s n. (0, [], 0)),
     str_alloc = (\<lambda>_. AllocOk), load_string = (\<lambda>i.
       let s = widen (if i = kShellDisplayFormat then ''Display {}''
                      else if i = kShellDisplayNameFormat then ''Display {}: {}''
                      else if i = kSettingsRuleFormat then ''Rule {}'' else [])
       in (int (length s), s, 0))\<rparr>"

lemma english_texts: "name_texts english (widen ''Display '', []) (widen ''Display '', widen '': '', [])"
  by (simp add: name_texts_def plain_def english_def load_resource_string_def kShellDisplayFormat_def
      kShellDisplayNameFormat_def Let_def)

lemma monitor_names_witness:
  "monitor_name (resource_shell_text english (\<lambda>a s. None))
     \<lparr>mon_display_area = M128 0 0 0 0, mon_work_area = M128 0 0 0 0, mon_friendly_name = widen ''{x}'',
      mon_handle = 7, mon_id = 2, mon_primary = False\<rparr> = Inr (widen ''Display 2: {x}'')"
  using monitor_names [OF english_texts]
  by (simp add: int_dec_def nat_dec.simps)

text \<open>A format with more fields than arguments is an invalid argument, a missing resource the last error.\<close>

lemma format_errors:
  "load_resource_string A i = Inr (p @ hole @ q @ hole @ r) \<Longrightarrow> plain p \<Longrightarrow> plain q \<Longrightarrow>
     FormatResourceString A spec i [a] = Inl (HrError E_INVALIDARG)"
  "load_string A i = (0, s, e) \<Longrightarrow>
     FormatResourceString A spec i as = Inl (throw_hresult (LastErrorAsHResult A e))"
  by (simp_all add: FormatResourceString_def format_missing_argument load_resource_string_def del: append.simps)

end
