(* ===== verification/Callbacks.thy ===== *)
theory Callbacks
  imports Registry
begin

text \<open>
  The callback host of the monitor cache under several threads: \<open>win32/SRWLock.h\<close>, the locking of
  \<open>utility/CallbackHost\<close> and the life of \<open>MonitorsViewModel\<close>, which registers itself in its constructor
  and unregisters in its destructor while another thread rebuilds the cache and invokes the callbacks.
  An execution is a list of actions, each the next step of one thread; \<open>host_act\<close> is \<open>None\<close> where that
  thread cannot make it, so every interleaving is a list.  The bodies of the operations are those of
  \<open>Registry\<close>.  A list of monitors is identified with the storage it was made of.
\<close>

section \<open>SRWLock\<close>

text \<open>The debug build also stores the owner, \<open>None\<close> being the thread id 0.\<close>

(* @ app/win32/SRWLock.h:44-49 SRWLock *)
record 't SRWLock =
  srw_locked :: bool
  srw_owner :: "'t option"

(* @ app/win32/SRWLock.h:19-25 SRWLock::SRWLock *)
definition makeSRWLock :: "'t SRWLock" where "makeSRWLock = \<lparr>srw_locked = False, srw_owner = None\<rparr>"

text \<open>\<open>AcquireSRWLockExclusive\<close> blocks while the lock is held, whoever holds it.\<close>

(* @ app/win32/SRWLock.h:27-33 SRWLock::lock *)
definition srw_lock :: "'t \<Rightarrow> 't SRWLock \<Rightarrow> 't SRWLock option" where
  "srw_lock t l = (if srw_locked l then None else Some (l\<lparr>srw_locked := True, srw_owner := Some t\<rparr>))"

text \<open>\<open>None\<close> is the failed assertion.\<close>

(* @ app/win32/SRWLock.h:35-42 SRWLock::unlock *)
definition srw_unlock :: "'t \<Rightarrow> 't SRWLock \<Rightarrow> 't SRWLock option" where
  "srw_unlock t l = (if srw_owner l = Some t then Some (l\<lparr>srw_owner := None, srw_locked := False\<rparr>) else None)"

section \<open>Threads at the callback host\<close>

datatype callback_fn = OnMonitorChanged

datatype view_life = Unborn | Constructing | Alive | Dying | Dead

text \<open>Where a thread is: outside the host; before the lock of \<open>addCallback\<close>, in it, after its body; the
  same for \<open>removeCallback\<close>, and then at the end of the destructor; before the lock of \<open>invoke\<close>, at the
  head of its loop, in the call of a callback, and in a call that such a callback makes to the host.\<close>

datatype 'c host_pc = Idle
  | AddWait 'c | AddIn 'c | AddOut 'c
  | RemWait 'c | RemIn 'c | RemOut 'c | RemDone 'c
  | InvWait | InvAt nat | InvCall nat 'c | InvReenter

text \<open>\<open>h_queue\<close> is the dispatcher queue, oldest first.  \<open>h_missed\<close> is a history variable: the view's last
  storage change came while it was being constructed, or could not be queued.\<close>

record ('t, 'c, 'd) host_state =
  h_lock :: "'t SRWLock"
  h_callbacks :: "(callback_fn \<times> 'c) list"
  h_pc :: "'t \<Rightarrow> 'c host_pc"
  h_life :: "'c \<Rightarrow> view_life"
  h_storage :: 'd
  h_items :: "'c \<Rightarrow> 'd"
  h_queue :: "('c \<times> 'd) list"
  h_missed :: "'c \<Rightarrow> bool"

definition host_start :: "'d \<Rightarrow> ('t, 'c, 'd) host_state" where
  "host_start d = \<lparr>h_lock = makeSRWLock, h_callbacks = [], h_pc = (\<lambda>_. Idle), h_life = (\<lambda>_. Unborn),
     h_storage = d, h_items = (\<lambda>_. d), h_queue = [], h_missed = (\<lambda>_. False)\<rparr>"

datatype ('t, 'c, 'd) host_action =
    ConstructView 't 'c | DestroyView 't 'c | FreeView 't
  | Refresh 't 'd | LockHost 't | HostBody 't | CallNext 't | CallReturn 't bool | Reenter 't
  | UnlockHost 't | Dispatch

abbreviation goto :: "'t \<Rightarrow> 'c host_pc \<Rightarrow> ('t, 'c, 'd) host_state \<Rightarrow> ('t, 'c, 'd) host_state" where
  "goto t p s \<equiv> s\<lparr>h_pc := (h_pc s)(t := p)\<rparr>"

text \<open>The constructor reads the storage and goes on to register the view.\<close>

(* @ winui3/ViewModels/Shell/MonitorsViewModel.cc:75-81 MonitorsViewModel::MonitorsViewModel *)
definition act_construct :: "'t \<Rightarrow> 'c \<Rightarrow> ('t, 'c, 'd) host_state \<Rightarrow> ('t, 'c, 'd) host_state option" where
  "act_construct t c s =
     (if h_pc s t = Idle \<and> h_life s c = Unborn
      then Some (goto t (AddWait c) (s\<lparr>h_life := (h_life s)(c := Constructing),
        h_items := (h_items s)(c := h_storage s), h_missed := (h_missed s)(c := False)\<rparr>))
      else None)"

text \<open>The destructor unregisters the view; its members are destroyed when the body has ended.\<close>

(* @ winui3/ViewModels/Shell/MonitorsViewModel.cc:83-85 MonitorsViewModel::~MonitorsViewModel *)
definition act_destroy :: "'t \<Rightarrow> 'c \<Rightarrow> ('t, 'c, 'd) host_state \<Rightarrow> ('t, 'c, 'd) host_state option" where
  "act_destroy t c s =
     (if h_pc s t = Idle \<and> h_life s c = Alive
      then Some (goto t (RemWait c) (s\<lparr>h_life := (h_life s)(c := Dying)\<rparr>)) else None)"

definition act_free :: "'t \<Rightarrow> ('t, 'c, 'd) host_state \<Rightarrow> ('t, 'c, 'd) host_state option" where
  "act_free t s = (case h_pc s t of
     RemDone c \<Rightarrow> Some (goto t Idle (s\<lparr>h_life := (h_life s)(c := Dead)\<rparr>)) | _ \<Rightarrow> None)"

text \<open>\<open>initialize\<close> replaces the storage without a lock and then invokes the callbacks.\<close>

(* @ app/monitor/MonitorStateCache.cc:104-107 StateCache::initialize *)
definition act_refresh :: "'t \<Rightarrow> 'd \<Rightarrow> ('t, 'c, 'd) host_state \<Rightarrow> ('t, 'c, 'd) host_state option" where
  "act_refresh t d s =
     (if h_pc s t = Idle \<and> h_storage s \<noteq> d
      then Some (goto t InvWait (s\<lparr>h_storage := d,
        h_missed := (\<lambda>c. h_missed s c \<or> h_life s c = Constructing)\<rparr>))
      else None)"

fun locked_pc :: "'c host_pc \<Rightarrow> 'c host_pc option" where
  "locked_pc (AddWait c) = Some (AddIn c)"
| "locked_pc (RemWait c) = Some (RemIn c)"
| "locked_pc InvWait = Some (InvAt 0)"
| "locked_pc InvReenter = Some InvReenter"
| "locked_pc _ = None"

(* @ app/utility/CallbackHost.cc:10-18 std::lock_guard *)
definition act_lock :: "'t \<Rightarrow> ('t, 'c, 'd) host_state \<Rightarrow> ('t, 'c, 'd) host_state option" where
  "act_lock t s = (case (locked_pc (h_pc s t), srw_lock t (h_lock s)) of
     (Some p, Some l) \<Rightarrow> Some (goto t p (s\<lparr>h_lock := l\<rparr>)) | _ \<Rightarrow> None)"

(* @ app/utility/CallbackHost.cc:11-28 CallbackHostBase *)
definition act_body :: "'t \<Rightarrow> ('t, 'c, 'd) host_state \<Rightarrow> ('t, 'c, 'd) host_state option" where
  "act_body t s = (case h_pc s t of
     AddIn c \<Rightarrow> Some (goto t (AddOut c)
       (s\<lparr>h_callbacks := snd (addCallback OnMonitorChanged c (h_callbacks s))\<rparr>))
   | RemIn c \<Rightarrow> Some (goto t (RemOut c)
       (s\<lparr>h_callbacks := snd (removeCallback OnMonitorChanged c (h_callbacks s))\<rparr>))
   | _ \<Rightarrow> None)"

text \<open>One turn of the loop of \<open>invoke\<close>: the call of the next callback.\<close>

(* @ app/utility/CallbackHost.h:64-71 CallbackHost::invoke *)
definition act_call :: "'t \<Rightarrow> ('t, 'c, 'd) host_state \<Rightarrow> ('t, 'c, 'd) host_state option" where
  "act_call t s = (case h_pc s t of
     InvAt i \<Rightarrow> if i < length (h_callbacks s)
       then Some (goto t (InvCall i (snd (h_callbacks s ! i))) s) else None
   | _ \<Rightarrow> None)"

text \<open>The callback makes the list from the cache it is given and queues it, which may fail.\<close>

(* @ winui3/ViewModels/Shell/MonitorsViewModel.cc:87-98 MonitorsViewModel::onMonitorChanged *)
definition act_return :: "'t \<Rightarrow> bool \<Rightarrow> ('t, 'c, 'd) host_state \<Rightarrow> ('t, 'c, 'd) host_state option" where
  "act_return t enqueued s = (case h_pc s t of
     InvCall i c \<Rightarrow> Some (goto t (InvAt (Suc i)) (s\<lparr>
       h_queue := (if enqueued then h_queue s @ [(c, h_storage s)] else h_queue s),
       h_missed := (h_missed s)(c := \<not> enqueued)\<rparr>))
   | _ \<Rightarrow> None)"

text \<open>What the documentation of the host forbids: a callback that calls the host.\<close>

definition act_reenter :: "'t \<Rightarrow> ('t, 'c, 'd) host_state \<Rightarrow> ('t, 'c, 'd) host_state option" where
  "act_reenter t s = (case h_pc s t of InvCall i c \<Rightarrow> Some (goto t InvReenter s) | _ \<Rightarrow> None)"

fun unlocked_pc :: "nat \<Rightarrow> 'c host_pc \<Rightarrow> 'c host_pc option" where
  "unlocked_pc n (AddOut c) = Some Idle"
| "unlocked_pc n (RemOut c) = Some (RemDone c)"
| "unlocked_pc n (InvAt i) = (if i < n then None else Some Idle)"
| "unlocked_pc n _ = None"

fun constructed :: "'c host_pc \<Rightarrow> ('c \<Rightarrow> view_life) \<Rightarrow> 'c \<Rightarrow> view_life" where
  "constructed (AddOut c) f = f(c := Alive)"
| "constructed _ f = f"

text \<open>The end of the scope of the lock guard, and with it of the constructor of a view.\<close>

definition act_unlock :: "'t \<Rightarrow> ('t, 'c, 'd) host_state \<Rightarrow> ('t, 'c, 'd) host_state option" where
  "act_unlock t s = (case (unlocked_pc (length (h_callbacks s)) (h_pc s t), srw_unlock t (h_lock s)) of
     (Some p, Some l) \<Rightarrow>
       Some (goto t p (s\<lparr>h_lock := l, h_life := constructed (h_pc s t) (h_life s)\<rparr>))
   | _ \<Rightarrow> None)"

text \<open>The dispatcher runs the oldest closure, whose weak reference yields the view while it lives.\<close>

(* @ winui3/ViewModels/Shell/MonitorsViewModel.cc:94-97 MonitorsViewModel::onMonitorChanged *)
definition act_dispatch :: "('t, 'c, 'd) host_state \<Rightarrow> ('t, 'c, 'd) host_state option" where
  "act_dispatch s = (case h_queue s of [] \<Rightarrow> None
   | (c, d) # q \<Rightarrow> Some (s\<lparr>h_queue := q,
       h_items := (if h_life s c \<in> {Constructing, Alive} then (h_items s)(c := d) else h_items s)\<rparr>))"

fun host_act :: "('t, 'c, 'd) host_action \<Rightarrow> ('t, 'c, 'd) host_state \<Rightarrow> ('t, 'c, 'd) host_state option" where
  "host_act (ConstructView t c) s = act_construct t c s"
| "host_act (DestroyView t c) s = act_destroy t c s"
| "host_act (FreeView t) s = act_free t s"
| "host_act (Refresh t d) s = act_refresh t d s"
| "host_act (LockHost t) s = act_lock t s"
| "host_act (HostBody t) s = act_body t s"
| "host_act (CallNext t) s = act_call t s"
| "host_act (CallReturn t b) s = act_return t b s"
| "host_act (Reenter t) s = act_reenter t s"
| "host_act (UnlockHost t) s = act_unlock t s"
| "host_act Dispatch s = act_dispatch s"

fun host_run :: "('t, 'c, 'd) host_action list \<Rightarrow> ('t, 'c, 'd) host_state \<Rightarrow> ('t, 'c, 'd) host_state option" where
  "host_run [] s = Some s"
| "host_run (a # as) s = (case host_act a s of None \<Rightarrow> None | Some s' \<Rightarrow> host_run as s')"

section \<open>The invariants\<close>

fun holds_lock :: "'c host_pc \<Rightarrow> bool" where
  "holds_lock (AddIn c) = True" | "holds_lock (AddOut c) = True"
| "holds_lock (RemIn c) = True" | "holds_lock (RemOut c) = True"
| "holds_lock (InvAt i) = True" | "holds_lock (InvCall i c) = True" | "holds_lock InvReenter = True"
| "holds_lock _ = False"

fun adds_view :: "'c host_pc \<Rightarrow> 'c \<Rightarrow> bool" where
  "adds_view (AddWait c) c' = (c = c')" | "adds_view (AddIn c) c' = (c = c')"
| "adds_view (AddOut c) c' = (c = c')" | "adds_view _ c' = False"

fun removes_view :: "'c host_pc \<Rightarrow> 'c \<Rightarrow> bool" where
  "removes_view (RemWait c) c' = (c = c')" | "removes_view (RemIn c) c' = (c = c')"
| "removes_view (RemOut c) c' = (c = c')" | "removes_view (RemDone c) c' = (c = c')"
| "removes_view _ c' = False"

text \<open>A thread that will still call the callback of a registered view.\<close>

fun will_call :: "(callback_fn \<times> 'c) list \<Rightarrow> 'c \<Rightarrow> 'c host_pc \<Rightarrow> bool" where
  "will_call cbs c InvWait = True"
| "will_call cbs c (InvAt i) = ((OnMonitorChanged, c) \<in> set (drop i cbs))"
| "will_call cbs c (InvCall i c') = ((OnMonitorChanged, c) \<in> set (drop i cbs))"
| "will_call cbs c InvReenter = True"
| "will_call cbs c _ = False"

text \<open>What the view shows once the dispatcher has run every closure in the queue.\<close>

definition shown_next :: "('t, 'c, 'd) host_state \<Rightarrow> 'c \<Rightarrow> 'd" where
  "shown_next s c = fold (\<lambda>(c', d) x. if c' = c then d else x) (h_queue s) (h_items s c)"

abbreviation registered :: "('t, 'c, 'd) host_state \<Rightarrow> 'c \<Rightarrow> bool" where
  "registered s c \<equiv> (OnMonitorChanged, c) \<in> set (h_callbacks s)"

definition lock_inv :: "('t, 'c, 'd) host_state \<Rightarrow> bool" where
  "lock_inv s \<longleftrightarrow> (\<forall>t. holds_lock (h_pc s t) \<longleftrightarrow> srw_locked (h_lock s) \<and> srw_owner (h_lock s) = Some t)
     \<and> (srw_locked (h_lock s) \<longleftrightarrow> srw_owner (h_lock s) \<noteq> None)"

definition life_inv :: "('t, 'c, 'd) host_state \<Rightarrow> bool" where
  "life_inv s \<longleftrightarrow> (\<forall>t c. (adds_view (h_pc s t) c \<longrightarrow> h_life s c = Constructing)
       \<and> (removes_view (h_pc s t) c \<longrightarrow> h_life s c = Dying))
     \<and> (\<forall>t t' c. removes_view (h_pc s t) c \<longrightarrow> removes_view (h_pc s t') c \<longrightarrow> t = t')
     \<and> (\<forall>t t' c. adds_view (h_pc s t) c \<longrightarrow> adds_view (h_pc s t') c \<longrightarrow> t = t')"

definition reg_inv :: "('t, 'c, 'd) host_state \<Rightarrow> bool" where
  "reg_inv s \<longleftrightarrow> (\<forall>c. registered s c \<longrightarrow> h_life s c \<in> {Alive, Dying} \<or> (\<exists>t. h_pc s t = AddOut c))
     \<and> (\<forall>t c. h_pc s t \<in> {RemOut c, RemDone c} \<longrightarrow> \<not> registered s c)
     \<and> (\<forall>t i c. h_pc s t = InvCall i c \<longrightarrow>
          i < length (h_callbacks s) \<and> h_callbacks s ! i = (OnMonitorChanged, c))"

definition view_inv :: "('t, 'c, 'd) host_state \<Rightarrow> bool" where
  "view_inv s \<longleftrightarrow> (\<forall>c d. (c, d) \<in> set (h_queue s) \<longrightarrow> h_life s c \<notin> {Unborn, Constructing})
     \<and> (\<forall>c. h_life s c = Constructing \<longrightarrow> \<not> h_missed s c \<longrightarrow> h_items s c = h_storage s)
     \<and> (\<forall>c. h_life s c = Alive \<longrightarrow> registered s c \<longrightarrow> \<not> h_missed s c \<longrightarrow>
          shown_next s c = h_storage s \<or> (\<exists>t. will_call (h_callbacks s) c (h_pc s t)))"

lemmas act_defs = act_construct_def act_destroy_def act_free_def act_refresh_def act_lock_def
  act_body_def act_call_def act_return_def act_reenter_def act_unlock_def act_dispatch_def

lemma constructed_eq: "constructed p f = (case p of AddOut c \<Rightarrow> f(c := Alive) | _ \<Rightarrow> f)"
  by (cases p) simp_all

lemma registered_add:
  "(f, c') \<in> set (snd (addCallback g c cbs)) \<Longrightarrow> (f, c') \<in> set cbs \<or> (f, c') = (g, c)"
  by (auto simp: addCallback_def stable_emplace_back_def Let_def split: if_splits)

lemma registered_remove:
  "(f, c') \<in> set (snd (removeCallback g c cbs)) \<longleftrightarrow> (f, c') \<in> set cbs \<and> (f, c') \<noteq> (g, c)"
  by (auto simp: removeCallback_def Let_def length_removeAll_eq_iff)

text \<open>An action of a thread moves that thread and no other.\<close>

fun actor :: "('t, 'c, 'd) host_action \<Rightarrow> 't option" where
  "actor (ConstructView t c) = Some t" | "actor (DestroyView t c) = Some t" | "actor (FreeView t) = Some t"
| "actor (Refresh t d) = Some t" | "actor (LockHost t) = Some t" | "actor (HostBody t) = Some t"
| "actor (CallNext t) = Some t" | "actor (CallReturn t b) = Some t" | "actor (Reenter t) = Some t"
| "actor (UnlockHost t) = Some t" | "actor Dispatch = None"

lemma act_moves: "host_act a s = Some s' \<Longrightarrow> actor a \<noteq> Some t \<Longrightarrow> h_pc s' t = h_pc s t"
  by (cases a) (auto simp: act_defs split: host_pc.splits if_splits list.splits option.splits)

text \<open>Only locking and unlocking change the lock, or whether a thread is inside it.\<close>

lemma act_keeps_lock:
  assumes "host_act a s = Some s'" "\<And>t. a \<noteq> LockHost t" "\<And>t. a \<noteq> UnlockHost t"
  shows "h_lock s' = h_lock s \<and> holds_lock (h_pc s' t) = holds_lock (h_pc s t)"
  using assms
  by (cases a) (auto simp: act_defs split: host_pc.splits if_splits list.splits)

lemma lock_step:
  assumes "lock_inv s" "host_act a s = Some s'"
  shows "lock_inv s'"
proof (cases "\<exists>t. a = LockHost t \<or> a = UnlockHost t")
  case False
  then have "h_lock s' = h_lock s" "\<And>t. holds_lock (h_pc s' t) = holds_lock (h_pc s t)"
    using act_keeps_lock [OF assms(2)] by auto
  then show ?thesis using assms(1) by (simp add: lock_inv_def)
next
  case True
  then obtain t where "a = LockHost t \<or> a = UnlockHost t" by blast
  then show ?thesis
  proof
    assume "a = LockHost t"
    then obtain p l where *: "locked_pc (h_pc s t) = Some p" "srw_lock t (h_lock s) = Some l"
      "s' = goto t p (s\<lparr>h_lock := l\<rparr>)"
      using assms(2) by (auto simp: act_lock_def split: option.splits prod.splits)
    have "holds_lock p" using *(1) by (cases "h_pc s t") auto
    then show ?thesis using assms(1) * by (auto simp: lock_inv_def srw_lock_def split: if_splits)
  next
    assume "a = UnlockHost t"
    then obtain p l where *: "unlocked_pc (length (h_callbacks s)) (h_pc s t) = Some p"
      "srw_unlock t (h_lock s) = Some l" "h_pc s' = (h_pc s)(t := p)" "h_lock s' = l"
      using assms(2) by (auto simp: act_unlock_def split: option.splits prod.splits)
    have "\<not> holds_lock p" "holds_lock (h_pc s t)"
      using *(1) by (cases "h_pc s t"; auto split: if_splits)+
    then show ?thesis using assms(1) * by (auto simp: lock_inv_def srw_unlock_def split: if_splits)
  qed
qed

text \<open>One thread moves from \<open>p\<close> to \<open>q\<close>; another view's life changes only at the hands of its thread.\<close>

lemma life_move:
  assumes I: "life_inv s" and pc: "h_pc s' = (h_pc s)(t := q)" "h_pc s t = p"
    and add: "\<And>c. adds_view q c \<Longrightarrow> h_life s' c = Constructing \<and> (adds_view p c \<or> h_life s c \<noteq> Constructing)"
    and rem: "\<And>c. removes_view q c \<Longrightarrow> h_life s' c = Dying \<and> (removes_view p c \<or> h_life s c \<noteq> Dying)"
    and chg: "\<And>c. h_life s' c \<noteq> h_life s c \<Longrightarrow>
      (h_life s c = Constructing \<longrightarrow> adds_view p c) \<and> (h_life s c = Dying \<longrightarrow> removes_view p c)"
  shows "life_inv s'"
proof -
  have other: "adds_view (h_pc s u) c \<Longrightarrow> u \<noteq> t \<Longrightarrow> h_life s' c = Constructing \<and> \<not> adds_view q c"
    "removes_view (h_pc s u) c \<Longrightarrow> u \<noteq> t \<Longrightarrow> h_life s' c = Dying \<and> \<not> removes_view q c" for u c
    using I pc(2) add [of c] rem [of c] chg [of c] unfolding life_inv_def by metis+
  show ?thesis
    unfolding life_inv_def pc(1)
    using I other add rem by (auto simp: life_inv_def)
qed

lemma life_step:
  assumes I: "life_inv s" and a: "host_act a s = Some s'"
  shows "life_inv s'"
proof -
  have L: "adds_view (h_pc s t) c \<Longrightarrow> h_life s c = Constructing"
    "removes_view (h_pc s t) c \<Longrightarrow> h_life s c = Dying" for t c
    using I by (auto simp: life_inv_def)
  show ?thesis
  proof (cases a)
    case (ConstructView t c)
    then show ?thesis using a
      by (intro life_move [OF I, of s' t "AddWait c"])
        (auto simp: act_construct_def split: if_splits)
  next
    case (DestroyView t c)
    then show ?thesis using a
      by (intro life_move [OF I, of s' t "RemWait c"])
        (auto simp: act_destroy_def split: if_splits)
  next
    case (FreeView t)
    then show ?thesis using a L(2) [of t]
      by (intro life_move [OF I, of s' t Idle])
        (auto simp: act_free_def split: host_pc.splits if_splits)
  next
    case (Refresh t d)
    then show ?thesis using a
      by (intro life_move [OF I, of s' t InvWait]) (auto simp: act_refresh_def split: if_splits)
  next
    case (LockHost t)
    then obtain p l where *: "locked_pc (h_pc s t) = Some p" "s' = goto t p (s\<lparr>h_lock := l\<rparr>)"
      using a by (auto simp: act_lock_def split: option.splits prod.splits)
    moreover have "adds_view p = adds_view (h_pc s t)" "removes_view p = removes_view (h_pc s t)"
      using *(1) by (cases "h_pc s t"; auto simp: fun_eq_iff)+
    ultimately show ?thesis using L [of t] by (intro life_move [OF I, of s' t p]) auto
  next
    case (HostBody t)
    then show ?thesis using a L [of t]
      by (intro life_move [OF I, of s' t "h_pc s' t"]) (auto simp: act_body_def split: host_pc.splits)
  next
    case (CallNext t)
    then show ?thesis using a
      by (intro life_move [OF I, of s' t "h_pc s' t"]) (auto simp: act_call_def split: host_pc.splits if_splits)
  next
    case (CallReturn t b)
    then show ?thesis using a
      by (intro life_move [OF I, of s' t "h_pc s' t"]) (auto simp: act_return_def split: host_pc.splits)
  next
    case (Reenter t)
    then show ?thesis using a
      by (intro life_move [OF I, of s' t "h_pc s' t"]) (auto simp: act_reenter_def split: host_pc.splits)
  next
    case (UnlockHost t)
    then obtain p where *: "unlocked_pc (length (h_callbacks s)) (h_pc s t) = Some p"
      "h_pc s' = (h_pc s)(t := p)" "h_life s' = constructed (h_pc s t) (h_life s)"
      using a by (auto simp: act_unlock_def split: option.splits prod.splits)
    moreover have "\<not> adds_view p c" "removes_view p = removes_view (h_pc s t)" for c
      using *(1) by (cases "h_pc s t"; auto simp: fun_eq_iff split: if_splits)+
    moreover have "h_life s' c \<noteq> h_life s c \<Longrightarrow> adds_view (h_pc s t) c"
      "removes_view (h_pc s t) c \<Longrightarrow> h_life s' c = h_life s c" for c
      using *(3) by (cases "h_pc s t"; auto split: if_splits)+
    ultimately show ?thesis using L [of t] by (intro life_move [OF I, of s' t p]) auto
  next
    case Dispatch
    then show ?thesis using a I by (auto simp: act_dispatch_def life_inv_def split: list.splits)
  qed
qed

lemma one_holder: "lock_inv s \<Longrightarrow> holds_lock (h_pc s t) \<Longrightarrow> holds_lock (h_pc s u) \<Longrightarrow> t = u"
  by (simp add: lock_inv_def)

lemma one_function: "p = (OnMonitorChanged, snd p)"
  by (cases p; cases "fst p") auto

lemma lifeD:
  "life_inv s \<Longrightarrow> adds_view (h_pc s t) c \<Longrightarrow> h_life s c = Constructing"
  "life_inv s \<Longrightarrow> removes_view (h_pc s t) c \<Longrightarrow> h_life s c = Dying"
  by (simp_all add: life_inv_def)

lemma regD:
  "reg_inv s \<Longrightarrow> registered s c \<Longrightarrow> h_life s c \<in> {Alive, Dying} \<or> (\<exists>t. h_pc s t = AddOut c)"
  "reg_inv s \<Longrightarrow> h_pc s t = RemOut c \<Longrightarrow> \<not> registered s c"
  "reg_inv s \<Longrightarrow> h_pc s t = RemDone c \<Longrightarrow> \<not> registered s c"
  "reg_inv s \<Longrightarrow> h_pc s t = InvCall i c \<Longrightarrow>
     i < length (h_callbacks s) \<and> h_callbacks s ! i = (OnMonitorChanged, c)"
  by (simp_all add: reg_inv_def)

lemma registered_life:
  assumes "reg_inv s" "life_inv s" "registered s c"
  shows "h_life s c \<in> {Constructing, Alive, Dying}"
  using regD(1) [OF assms(1,3)]
proof
  assume "\<exists>t. h_pc s t = AddOut c"
  then obtain t where "h_pc s t = AddOut c" ..
  then show ?thesis using lifeD(1) [OF assms(2), of t c] by simp
qed simp

lemma reg_move:
  assumes I: "reg_inv s" and pc: "h_pc s' = (h_pc s)(t := q)" and cb: "h_callbacks s' = h_callbacks s"
    and life: "\<And>c. registered s c \<Longrightarrow> h_life s c \<in> {Alive, Dying} \<Longrightarrow> h_life s' c \<in> {Alive, Dying}"
    and out: "\<And>c. h_pc s t = AddOut c \<Longrightarrow> q = AddOut c \<or> h_life s' c = Alive"
    and rem: "\<And>c. q \<in> {RemOut c, RemDone c} \<Longrightarrow> \<not> registered s c"
    and call: "\<And>i c. q = InvCall i c \<Longrightarrow>
      i < length (h_callbacks s) \<and> h_callbacks s ! i = (OnMonitorChanged, c)"
  shows "reg_inv s'"
  unfolding reg_inv_def cb
proof (intro conjI allI impI)
  fix c assume r: "registered s c"
  show "h_life s' c \<in> {Alive, Dying} \<or> (\<exists>t. h_pc s' t = AddOut c)"
  proof (cases "h_life s c \<in> {Alive, Dying}")
    case False
    then obtain u where "h_pc s u = AddOut c" using I r by (auto simp: reg_inv_def)
    then show ?thesis using out [of c] pc by (cases "u = t") auto
  qed (use life r in blast)
next
  fix u c assume "h_pc s' u \<in> {RemOut c, RemDone c}"
  then show "\<not> registered s c" using I rem [of c] pc by (cases "u = t") (auto simp: reg_inv_def)
next
  fix u i c assume "h_pc s' u = InvCall i c"
  then show "i < length (h_callbacks s)" "h_callbacks s ! i = (OnMonitorChanged, c)"
    using I call [of i c] pc by (cases "u = t"; auto simp: reg_inv_def)+
qed

lemma reg_body:
  assumes I: "reg_inv s" and K: "lock_inv s" and L: "life_inv s" and a: "act_body t s = Some s'"
  shows "reg_inv s'"
proof -
  have hold: "holds_lock (h_pc s t)" using a by (cases "h_pc s t") (auto simp: act_body_def)
  then have idle: "h_pc s u \<noteq> InvCall i c" "h_pc s u \<noteq> AddOut c \<or> u = t" for u i c
    using one_holder [OF K, of t u] a by (auto simp: act_body_def)
  consider (add) c where "h_pc s t = AddIn c"
      "s' = goto t (AddOut c) (s\<lparr>h_callbacks := snd (addCallback OnMonitorChanged c (h_callbacks s))\<rparr>)"
    | (rem) c where "h_pc s t = RemIn c"
      "s' = goto t (RemOut c) (s\<lparr>h_callbacks := snd (removeCallback OnMonitorChanged c (h_callbacks s))\<rparr>)"
    using a by (auto simp: act_body_def split: host_pc.splits)
  then show ?thesis
  proof cases
    case add
    have c: "h_life s c = Constructing" using lifeD(1) [OF L, of t c] add(1) by simp
    have other: "h_pc s u \<noteq> RemOut c" "h_pc s u \<noteq> RemDone c" for u
      using lifeD(2) [OF L, of u c] c by auto
    have reg: "registered s' c' \<Longrightarrow> registered s c' \<or> c' = c" for c'
      using registered_add [of OnMonitorChanged c' OnMonitorChanged c "h_callbacks s"] add(2) by auto
    have pc: "h_pc s' = (h_pc s)(t := AddOut c)" "h_life s' = h_life s" using add(2) by simp_all
    show ?thesis
      unfolding reg_inv_def
    proof (intro conjI allI impI)
      fix c' assume "registered s' c'"
      then show "h_life s' c' \<in> {Alive, Dying} \<or> (\<exists>u. h_pc s' u = AddOut c')"
        using reg [of c'] regD(1) [OF I, of c'] idle(2) [of _ c'] add(1) pc by (cases "c' = c") fastforce+
    next
      fix u c' assume "h_pc s' u \<in> {RemOut c', RemDone c'}"
      then have "h_pc s u \<in> {RemOut c', RemDone c'}" by (auto simp: pc split: if_splits)
      then show "\<not> registered s' c'"
        using reg [of c'] regD(2,3) [OF I, of u c'] other [of u] by auto
    qed (use idle(1) pc in \<open>auto split: if_splits\<close>)
  next
    case rem
    have reg: "registered s' c' \<longleftrightarrow> registered s c' \<and> c' \<noteq> c" for c'
      using rem(2) by (simp add: registered_remove)
    have pc: "h_pc s' = (h_pc s)(t := RemOut c)" "h_life s' = h_life s" using rem(2) by simp_all
    show ?thesis
      unfolding reg_inv_def
    proof (intro conjI allI impI)
      fix c' assume "registered s' c'"
      then show "h_life s' c' \<in> {Alive, Dying} \<or> (\<exists>u. h_pc s' u = AddOut c')"
        using reg regD(1) [OF I, of c'] idle(2) rem(1) pc by fastforce
    next
      fix u c' assume "h_pc s' u \<in> {RemOut c', RemDone c'}"
      then show "\<not> registered s' c'"
        using reg [of c'] regD(2,3) [OF I, of u c'] by (auto simp: pc split: if_splits)
    qed (use idle(1) pc in \<open>auto split: if_splits\<close>)
  qed
qed

lemma reg_step:
  assumes I: "reg_inv s" and K: "lock_inv s" and L: "life_inv s" and a: "host_act a s = Some s'"
  shows "reg_inv s'"
proof -
  have R: "registered s c \<Longrightarrow> h_life s c \<noteq> Unborn" "h_pc s t = RemDone c \<Longrightarrow> \<not> registered s c"
    "h_pc s t = RemOut c \<Longrightarrow> \<not> registered s c" for t c
    using registered_life [OF I L] regD(2,3) [OF I] by force+
  show ?thesis
  proof (cases a)
    case (ConstructView t c)
    then show ?thesis using a R(1)
      by (intro reg_move [OF I, of s' t "AddWait c"]) (auto simp: act_construct_def split: if_splits)
  next
    case (DestroyView t c)
    then show ?thesis using a
      by (intro reg_move [OF I, of s' t "RemWait c"]) (auto simp: act_destroy_def split: if_splits)
  next
    case (FreeView t)
    then show ?thesis using a R(2)
      by (intro reg_move [OF I, of s' t Idle]) (auto simp: act_free_def split: host_pc.splits if_splits)
  next
    case (Refresh t d)
    then show ?thesis using a
      by (intro reg_move [OF I, of s' t InvWait]) (auto simp: act_refresh_def split: if_splits)
  next
    case (LockHost t)
    then obtain p l where *: "locked_pc (h_pc s t) = Some p" "s' = goto t p (s\<lparr>h_lock := l\<rparr>)"
      using a by (auto simp: act_lock_def split: option.splits prod.splits)
    moreover have "p \<noteq> InvCall i c" "p \<noteq> RemOut c" "p \<noteq> RemDone c" "h_pc s t \<noteq> AddOut c" for i c
      using *(1) by (cases "h_pc s t"; auto)+
    ultimately show ?thesis by (intro reg_move [OF I, of s' t p]) auto
  next
    case (HostBody t)
    then show ?thesis using a reg_body [OF I K L] by simp
  next
    case (CallNext t)
    then obtain i where "i < length (h_callbacks s)" "h_pc s t = InvAt i"
      "s' = goto t (InvCall i (snd (h_callbacks s ! i))) s"
      using a by (auto simp: act_call_def split: host_pc.splits if_splits)
    then show ?thesis
      by (intro reg_move [OF I, of s' t "InvCall i (snd (h_callbacks s ! i))"]) (auto intro: one_function)
  next
    case (CallReturn t b)
    then show ?thesis using a
      by (intro reg_move [OF I, of s' t "h_pc s' t"]) (auto simp: act_return_def split: host_pc.splits)
  next
    case (Reenter t)
    then show ?thesis using a
      by (intro reg_move [OF I, of s' t "h_pc s' t"]) (auto simp: act_reenter_def split: host_pc.splits)
  next
    case (UnlockHost t)
    then obtain p where *: "unlocked_pc (length (h_callbacks s)) (h_pc s t) = Some p"
      "h_pc s' = (h_pc s)(t := p)" "h_callbacks s' = h_callbacks s"
      "h_life s' = constructed (h_pc s t) (h_life s)"
      using a by (auto simp: act_unlock_def split: option.splits prod.splits)
    moreover have "p \<noteq> InvCall i c" "p \<noteq> RemOut c" "p = RemDone c \<Longrightarrow> h_pc s t = RemOut c"
      "h_pc s t = AddOut c \<Longrightarrow> h_life s' c = Alive"
      "h_life s c \<in> {Alive, Dying} \<Longrightarrow> h_life s' c \<in> {Alive, Dying}" for i c
      using *(1,4) by (cases "h_pc s t"; auto split: if_splits)+
    ultimately show ?thesis using R(3) by (intro reg_move [OF I, of s' t p]) auto
  next
    case Dispatch
    then show ?thesis using a I by (auto simp: act_dispatch_def reg_inv_def split: list.splits)
  qed
qed

lemma shown_no_queue: "(\<And>d. (c, d) \<notin> set (h_queue s)) \<Longrightarrow> shown_next s c = h_items s c"
proof -
  have "c \<notin> fst ` set q \<Longrightarrow> fold (\<lambda>(c', d) x. if c' = c then d else x) q x = x" for q and x :: 'd
    by (induction q arbitrary: x) auto
  moreover assume "\<And>d. (c, d) \<notin> set (h_queue s)"
  then have "c \<notin> fst ` set (h_queue s)" by auto
  ultimately show ?thesis by (simp add: shown_next_def)
qed

lemma viewD:
  "view_inv s \<Longrightarrow> (c, d) \<in> set (h_queue s) \<Longrightarrow> h_life s c \<noteq> Unborn \<and> h_life s c \<noteq> Constructing"
  "view_inv s \<Longrightarrow> h_life s c = Constructing \<Longrightarrow> \<not> h_missed s c \<Longrightarrow> h_items s c = h_storage s"
  "view_inv s \<Longrightarrow> h_life s c = Alive \<Longrightarrow> registered s c \<Longrightarrow> \<not> h_missed s c \<Longrightarrow>
     shown_next s c = h_storage s \<or> (\<exists>t. will_call (h_callbacks s) c (h_pc s t))"
  by (auto simp: view_inv_def)

text \<open>A move that leaves the views' contents alone.\<close>

lemma view_move:
  assumes V: "view_inv s" and pc: "h_pc s' = (h_pc s)(t := q)"
    and same: "h_queue s' = h_queue s" "h_items s' = h_items s" "h_storage s' = h_storage s"
      "h_missed s' = h_missed s"
    and born: "\<And>c. h_life s c \<noteq> Unborn \<Longrightarrow> h_life s c \<noteq> Constructing \<Longrightarrow>
      h_life s' c \<noteq> Unborn \<and> h_life s' c \<noteq> Constructing"
    and young: "\<And>c. h_life s' c = Constructing \<Longrightarrow> h_life s c = Constructing"
    and other: "\<And>u c. u \<noteq> t \<Longrightarrow> will_call (h_callbacks s) c (h_pc s u) \<Longrightarrow> will_call (h_callbacks s') c (h_pc s u)"
    and key: "\<And>c. h_life s' c = Alive \<Longrightarrow> registered s' c \<Longrightarrow> \<not> h_missed s c \<Longrightarrow>
      shown_next s c = h_storage s \<or>
      h_life s c = Alive \<and> registered s c \<and>
        (will_call (h_callbacks s) c (h_pc s t) \<longrightarrow> will_call (h_callbacks s') c q)"
  shows "view_inv s'"
  unfolding view_inv_def
proof (intro conjI allI impI)
  fix c d assume "(c, d) \<in> set (h_queue s')"
  then show "h_life s' c \<notin> {Unborn, Constructing}"
    using viewD(1) [OF V, of c d] born [of c] same(1) by auto
next
  fix c assume "h_life s' c = Constructing" "\<not> h_missed s' c"
  then show "h_items s' c = h_storage s'" using viewD(2) [OF V, of c] young [of c] same by simp
next
  fix c assume c: "h_life s' c = Alive" "registered s' c" "\<not> h_missed s' c"
  have sn: "shown_next s' c = shown_next s c" by (simp add: shown_next_def same)
  show "shown_next s' c = h_storage s' \<or> (\<exists>u. will_call (h_callbacks s') c (h_pc s' u))"
  proof (cases "shown_next s c = h_storage s")
    case False
    then have k: "h_life s c = Alive" "registered s c"
      "will_call (h_callbacks s) c (h_pc s t) \<Longrightarrow> will_call (h_callbacks s') c q"
      using key [of c] c same(4) by auto
    then obtain u where u: "will_call (h_callbacks s) c (h_pc s u)"
      using viewD(3) [OF V, of c] False c same(4) by auto
    then have "will_call (h_callbacks s') c (h_pc s' u)"
      using k(3) other [of u c] pc by (cases "u = t") auto
    then show ?thesis by blast
  qed (simp add: sn same)
qed

lemma view_return:
  assumes V: "view_inv s" and I: "reg_inv s" and K: "lock_inv s" and a: "act_return t b s = Some s'"
  shows "view_inv s'"
proof -
  obtain i c where c: "h_pc s t = InvCall i c" and s': "s' = goto t (InvAt (Suc i)) (s\<lparr>
      h_queue := (if b then h_queue s @ [(c, h_storage s)] else h_queue s),
      h_missed := (h_missed s)(c := \<not> b)\<rparr>)"
    using a by (auto simp: act_return_def split: host_pc.splits)
  have i: "i < length (h_callbacks s)" "h_callbacks s ! i = (OnMonitorChanged, c)"
    using regD(4) [OF I c] by auto
  then have "registered s c" by (metis nth_mem)
  moreover have "h_pc s u \<noteq> AddOut c" for u using one_holder [OF K, of t u] c by auto
  ultimately have life: "h_life s c \<in> {Alive, Dying}" using regD(1) [OF I] by blast
  have rest: "(OnMonitorChanged, c') \<in> set (drop i (h_callbacks s)) \<Longrightarrow> c' \<noteq> c \<Longrightarrow>
    (OnMonitorChanged, c') \<in> set (drop (Suc i) (h_callbacks s))" for c'
    using i Cons_nth_drop_Suc [of i "h_callbacks s"] by (metis Pair_inject set_ConsD)
  show ?thesis
    unfolding view_inv_def
  proof (intro conjI allI impI)
    fix c' d assume "(c', d) \<in> set (h_queue s')"
    then show "h_life s' c' \<notin> {Unborn, Constructing}"
      using viewD(1) [OF V, of c' d] life by (auto simp: s' split: if_splits)
  next
    fix c' assume "h_life s' c' = Constructing" "\<not> h_missed s' c'"
    then show "h_items s' c' = h_storage s'"
      using viewD(2) [OF V, of c'] life by (auto simp: s' split: if_splits)
  next
    fix c' assume c': "h_life s' c' = Alive" "registered s' c'" "\<not> h_missed s' c'"
    show "shown_next s' c' = h_storage s' \<or> (\<exists>u. will_call (h_callbacks s') c' (h_pc s' u))"
    proof (cases "c' = c")
      case True
      then show ?thesis using c'(3) by (simp add: s' shown_next_def)
    next
      case False
      then have sn: "shown_next s' c' = shown_next s c'" by (simp add: s' shown_next_def)
      have "shown_next s c' = h_storage s \<or> (\<exists>u. will_call (h_callbacks s) c' (h_pc s u))"
        using viewD(3) [OF V, of c'] c' False by (simp add: s')
      moreover have "will_call (h_callbacks s) c' (h_pc s u) \<Longrightarrow> will_call (h_callbacks s') c' (h_pc s' u)" for u
        using rest [of c'] c False by (cases "u = t") (auto simp: s')
      moreover have "h_storage s' = h_storage s" by (simp add: s')
      ultimately show ?thesis unfolding sn by metis
    qed
  qed
qed

lemma view_refresh:
  assumes V: "view_inv s" and a: "act_refresh t d s = Some s'"
  shows "view_inv s'"
proof -
  have s': "s' = goto t InvWait (s\<lparr>h_storage := d,
      h_missed := (\<lambda>c. h_missed s c \<or> h_life s c = Constructing)\<rparr>)"
    using a by (auto simp: act_refresh_def split: if_splits)
  have "will_call (h_callbacks s') c (h_pc s' t)" for c by (simp add: s')
  then show ?thesis using viewD(1) [OF V] unfolding view_inv_def by (auto simp: s')
qed

lemma view_construct:
  assumes V: "view_inv s" and a: "act_construct t c s = Some s'"
  shows "view_inv s'"
proof -
  have u: "h_life s c = Unborn" "h_pc s t = Idle"
    and s': "s' = goto t (AddWait c) (s\<lparr>h_life := (h_life s)(c := Constructing),
        h_items := (h_items s)(c := h_storage s), h_missed := (h_missed s)(c := False)\<rparr>)"
    using a by (auto simp: act_construct_def split: if_splits)
  have W: "will_call (h_callbacks s) c' (h_pc s v) \<Longrightarrow> will_call (h_callbacks s') c' (h_pc s' v)" for c' v
    using u by (cases "v = t") (auto simp: s')
  have sn: "c' \<noteq> c \<Longrightarrow> shown_next s' c' = shown_next s c'" for c' by (simp add: s' shown_next_def)
  show ?thesis
    unfolding view_inv_def
  proof (intro conjI allI impI)
    fix c' d assume "(c', d) \<in> set (h_queue s')"
    then show "h_life s' c' \<notin> {Unborn, Constructing}"
      using viewD(1) [OF V, of c' d] u by (auto simp: s')
  next
    fix c' assume "h_life s' c' = Constructing" "\<not> h_missed s' c'"
    then show "h_items s' c' = h_storage s'"
      using viewD(2) [OF V, of c'] by (auto simp: s' split: if_splits)
  next
    fix c' assume c': "h_life s' c' = Alive" "registered s' c'" "\<not> h_missed s' c'"
    then have "c' \<noteq> c" by (auto simp: s')
    moreover from this c' have "shown_next s c' = h_storage s \<or> (\<exists>v. will_call (h_callbacks s) c' (h_pc s v))"
      using viewD(3) [OF V, of c'] by (simp add: s')
    moreover have "h_storage s' = h_storage s" by (simp add: s')
    ultimately show "shown_next s' c' = h_storage s' \<or> (\<exists>v. will_call (h_callbacks s') c' (h_pc s' v))"
      using sn W by metis
  qed
qed

lemma view_dispatch:
  assumes V: "view_inv s" and a: "act_dispatch s = Some s'"
  shows "view_inv s'"
proof -
  obtain c d q where q: "h_queue s = (c, d) # q" and s': "s' = s\<lparr>h_queue := q,
       h_items := (if h_life s c \<in> {Constructing, Alive} then (h_items s)(c := d) else h_items s)\<rparr>"
    using a by (auto simp: act_dispatch_def split: list.splits)
  have c: "h_life s c \<noteq> Constructing" using viewD(1) [OF V, of c d] q by simp
  have sn: "h_life s c' = Alive \<Longrightarrow> shown_next s' c' = shown_next s c'" for c'
    by (auto simp: s' q shown_next_def)
  have it: "h_life s c' = Constructing \<Longrightarrow> h_items s' c' = h_items s c'" for c'
    using c by (auto simp: s')
  have same: "h_life s' = h_life s" "h_storage s' = h_storage s" "h_missed s' = h_missed s"
    "h_callbacks s' = h_callbacks s" "h_pc s' = h_pc s" "set (h_queue s') \<subseteq> set (h_queue s)"
    by (auto simp: s' q)
  show ?thesis
    unfolding view_inv_def same(1-5)
  proof (intro conjI allI impI)
    fix c' d' assume "(c', d') \<in> set (h_queue s')"
    then show "h_life s c' \<notin> {Unborn, Constructing}" using viewD(1) [OF V, of c' d'] same(6) by auto
  qed (use viewD(2,3) [OF V] it sn in simp_all)
qed

lemma view_step:
  assumes V: "view_inv s" and I: "reg_inv s" and K: "lock_inv s" and L: "life_inv s"
    and a: "host_act a s = Some s'"
  shows "view_inv s'"
proof (cases a)
  case (ConstructView t c)
  then show ?thesis using a view_construct [OF V] by simp
next
  case (DestroyView t c)
  then show ?thesis using a
    by (intro view_move [OF V, of s' t "RemWait c"]) (auto simp: act_destroy_def split: if_splits)
next
  case (FreeView t)
  then show ?thesis using a
    by (intro view_move [OF V, of s' t Idle]) (auto simp: act_free_def split: host_pc.splits if_splits)
next
  case (Refresh t d)
  then show ?thesis using a view_refresh [OF V] by simp
next
  case (LockHost t)
  then obtain p l where *: "locked_pc (h_pc s t) = Some p" "s' = goto t p (s\<lparr>h_lock := l\<rparr>)"
    using a by (auto simp: act_lock_def split: option.splits prod.splits)
  moreover have "registered s c \<Longrightarrow> will_call (h_callbacks s) c (h_pc s t) \<Longrightarrow> will_call (h_callbacks s) c p" for c
    using *(1) by (cases "h_pc s t") auto
  ultimately show ?thesis by (intro view_move [OF V, of s' t p]) auto
next
  case (HostBody t)
  have hold: "holds_lock (h_pc s t)" using HostBody a by (cases "h_pc s t") (auto simp: act_body_def)
  have other: "u \<noteq> t \<Longrightarrow> will_call cbs c (h_pc s u) = (h_pc s u = InvWait)" for u c cbs
    using one_holder [OF K hold, of u] by (cases "h_pc s u") auto
  show ?thesis
  proof (cases "h_pc s t")
    case (AddIn c)
    then have s': "s' = goto t (AddOut c)
        (s\<lparr>h_callbacks := snd (addCallback OnMonitorChanged c (h_callbacks s))\<rparr>)"
      using a HostBody by (simp add: act_body_def)
    have c: "h_life s c = Constructing" using lifeD(1) [OF L, of t c] AddIn by simp
    have "registered s' c' \<Longrightarrow> h_life s c' = Alive \<Longrightarrow> registered s c'" for c'
      using registered_add [of OnMonitorChanged c' OnMonitorChanged c "h_callbacks s"] c by (auto simp: s')
    then show ?thesis using other AddIn c
      by (intro view_move [OF V, of s' t "AddOut c"]) (auto simp: s')
  next
    case (RemIn c)
    then have s': "s' = goto t (RemOut c)
        (s\<lparr>h_callbacks := snd (removeCallback OnMonitorChanged c (h_callbacks s))\<rparr>)"
      using a HostBody by (simp add: act_body_def)
    then show ?thesis using other RemIn
      by (intro view_move [OF V, of s' t "RemOut c"]) (auto simp: registered_remove)
  qed (use a HostBody in \<open>auto simp: act_body_def\<close>)
next
  case (CallNext t)
  then show ?thesis using a
    by (intro view_move [OF V, of s' t "h_pc s' t"]) (auto simp: act_call_def split: host_pc.splits if_splits)
next
  case (CallReturn t b)
  then show ?thesis using a view_return [OF V I K] by simp
next
  case (Reenter t)
  then show ?thesis using a
    by (intro view_move [OF V, of s' t "h_pc s' t"]) (auto simp: act_reenter_def split: host_pc.splits)
next
  case (UnlockHost t)
  then obtain p l where *: "unlocked_pc (length (h_callbacks s)) (h_pc s t) = Some p"
    "s' = goto t p (s\<lparr>h_lock := l, h_life := constructed (h_pc s t) (h_life s)\<rparr>)"
    using a by (auto simp: act_unlock_def split: option.splits prod.splits)
  have idle: "\<not> will_call (h_callbacks s) c (h_pc s t)" for c
    using *(1) by (cases "h_pc s t") (auto split: if_splits)
  have life: "h_life s' c = (if h_pc s t = AddOut c then Alive else h_life s c)" for c
    using *(2) by (cases "h_pc s t") auto
  have young: "h_pc s t = AddOut c \<Longrightarrow> \<not> h_missed s c \<Longrightarrow> shown_next s c = h_storage s" for c
    using lifeD(1) [OF L, of t c] viewD(1,2) [OF V] shown_no_queue [of c s] by force
  show ?thesis
    by (rule view_move [OF V, of s' t p]) (use *(2) idle life young in \<open>auto split: if_splits\<close>)
next
  case Dispatch
  then show ?thesis using a view_dispatch [OF V] by simp
qed

section \<open>What holds in every execution\<close>

definition host_inv :: "('t, 'c, 'd) host_state \<Rightarrow> bool" where
  "host_inv s \<longleftrightarrow> lock_inv s \<and> life_inv s \<and> reg_inv s \<and> view_inv s"

lemma host_inv_start: "host_inv (host_start d)"
  by (simp add: host_inv_def host_start_def lock_inv_def life_inv_def reg_inv_def view_inv_def
      makeSRWLock_def)

lemma host_inv_run: "host_inv s \<Longrightarrow> host_run as s = Some s' \<Longrightarrow> host_inv s'"
proof (induction as arbitrary: s)
  case (Cons a as)
  then obtain s1 where a: "host_act a s = Some s1" "host_run as s1 = Some s'"
    by (auto split: option.splits)
  then have "host_inv s1"
    using Cons.prems(1) lock_step life_step reg_step view_step unfolding host_inv_def by metis
  then show ?case using Cons.IH a(2) by blast
qed simp

lemmas host_inv_reached = host_inv_run [OF host_inv_start]

text \<open>C19: However the threads interleave, a callback in progress is one of a view whose members still
  exist, a view that was destroyed is not registered any more, at most one thread is inside the host's
  lock, and the lock's assertion on its owner holds at every unlock.\<close>

theorem callbacks_reach_live_views:
  assumes "host_run as (host_start d) = Some s"
  shows "(h_pc s t = InvCall i c \<longrightarrow> h_life s c \<in> {Alive, Dying})
    \<and> (h_life s c = Dead \<longrightarrow> \<not> registered s c)
    \<and> (holds_lock (h_pc s t) \<and> holds_lock (h_pc s u) \<longrightarrow> t = u)
    \<and> (holds_lock (h_pc s t) \<longrightarrow> srw_unlock t (h_lock s) \<noteq> None)"
proof -
  have I: "reg_inv s" and K: "lock_inv s" and L: "life_inv s"
    using host_inv_reached [OF assms] by (simp_all add: host_inv_def)
  have "h_life s c \<in> {Alive, Dying}" if p: "h_pc s t = InvCall i c"
  proof -
    have "registered s c" using regD(4) [OF I p] nth_mem by metis
    moreover have "h_pc s v \<noteq> AddOut c" for v using one_holder [OF K, of t v] p by auto
    ultimately show ?thesis using regD(1) [OF I] by blast
  qed
  moreover have "\<not> registered s c" if "h_life s c = Dead"
    using registered_life [OF I L, of c] that by auto
  ultimately show ?thesis
    using one_holder [OF K] K by (auto simp: lock_inv_def srw_unlock_def)
qed

text \<open>A view is built and registered, the cache changes, and while the callback runs the view's
  destruction has begun on the other thread, which waits.\<close>

definition demo_race :: "(nat, nat, nat) host_action list" where
  "demo_race = [ConstructView 0 7, LockHost 0, HostBody 0, UnlockHost 0, Refresh 1 5, LockHost 1,
     DestroyView 0 7, CallNext 1]"

lemmas host_eval = host_start_def makeSRWLock_def act_defs srw_lock_def srw_unlock_def
  addCallback_def removeCallback_def stable_emplace_back_def callback_capacity_def

theorem callbacks_reach_live_views_witness:
  "\<exists>s. host_run demo_race (host_start 4) = Some s \<and> h_pc s 1 = InvCall 0 7 \<and> h_life s 7 \<in> {Alive, Dying}
    \<and> h_pc s 0 = RemWait 7"
proof -
  obtain s where s: "host_run demo_race (host_start 4) = Some s" "h_pc s 1 = InvCall 0 7" "h_pc s 0 = RemWait 7"
    by (simp add: demo_race_def host_eval)
  then show ?thesis using callbacks_reach_live_views [OF s(1), of 1 0 7] by blast
qed

text \<open>C20: Once no thread is in an invocation and the dispatcher queue is empty, every live registered
  view shows the list of the current storage, unless the storage changed while the view was being
  constructed or the dispatcher refused the last list.\<close>

theorem views_settle:
  assumes "host_run as (host_start d) = Some s"
    and "\<forall>t. \<not> will_call (h_callbacks s) c (h_pc s t)" "h_queue s = []"
    and "h_life s c = Alive" "registered s c" "\<not> h_missed s c"
  shows "h_items s c = h_storage s"
proof -
  have "view_inv s" using host_inv_reached [OF assms(1)] by (simp add: host_inv_def)
  then show ?thesis using viewD(3) [of s c] assms by (auto simp: shown_next_def)
qed

definition demo_settled :: "(nat, nat, nat) host_action list" where
  "demo_settled = [ConstructView 0 7, LockHost 0, HostBody 0, UnlockHost 0, Refresh 1 5, LockHost 1,
     CallNext 1, CallReturn 1 True, UnlockHost 1, Dispatch]"

theorem views_settle_witness:
  "\<exists>s. host_run demo_settled (host_start 4) = Some s \<and> h_items s 7 = h_storage s \<and> h_storage s = 5"
proof -
  obtain s where s: "host_run demo_settled (host_start 4) = Some s" "h_pc s = (\<lambda>_. Idle)" "h_queue s = []"
    "h_life s 7 = Alive" "registered s 7" "\<not> h_missed s 7" "h_storage s = 5"
    by (simp add: demo_settled_def host_eval fun_eq_iff)
  then show ?thesis using views_settle [OF s(1), of 7] by auto
qed

text \<open>The exception does occur: a change between the constructor's reading of the storage and its
  registration is never shown.\<close>

lemma change_during_construction_lost:
  "\<exists>s. host_run [ConstructView 0 7, Refresh 1 5, LockHost 1, UnlockHost 1, LockHost 0, HostBody 0, UnlockHost 0]
      (host_start (4 :: nat)) = Some (s :: (nat, nat, nat) host_state) \<and> h_pc s = (\<lambda>_. Idle) \<and> h_queue s = []
      \<and> h_life s 7 = Alive \<and> registered s 7 \<and> h_items s 7 = 4 \<and> h_storage s = 5"
  by (simp add: host_eval fun_eq_iff)

section \<open>Progress\<close>

lemma host_run_append: "host_run (as @ bs) s = Option.bind (host_run as s) (host_run bs)"
  by (induction as arbitrary: s) (auto split: option.splits)

abbreviation lets_go :: "'t \<Rightarrow> ('t, 'c, 'd) host_state \<Rightarrow> bool" where
  "lets_go u s \<equiv> \<exists>as s'. host_run as s = Some s' \<and> \<not> srw_locked (h_lock s') \<and>
     (\<forall>v. v \<noteq> u \<longrightarrow> h_pc s' v = h_pc s v)"

lemma lets_goI:
  "host_run as s = Some s' \<Longrightarrow> \<not> srw_locked (h_lock s') \<Longrightarrow> (\<And>v. v \<noteq> u \<Longrightarrow> h_pc s' v = h_pc s v) \<Longrightarrow> lets_go u s"
  by blast

lemma lets_go_after:
  assumes "host_act a s = Some s1" "lets_go u s1" "\<And>v. v \<noteq> u \<Longrightarrow> h_pc s1 v = h_pc s v"
  shows "lets_go u s"
proof -
  obtain as s' where "host_run as s1 = Some s'" "\<not> srw_locked (h_lock s')" "\<forall>v. v \<noteq> u \<longrightarrow> h_pc s' v = h_pc s1 v"
    using assms(2) by blast
  then have "host_run (a # as) s = Some s'" "\<not> srw_locked (h_lock s')" "\<And>v. v \<noteq> u \<Longrightarrow> h_pc s' v = h_pc s v"
    using assms(1,3) by simp_all
  then show ?thesis by (rule lets_goI)
qed

lemma unlock_lets_go:
  assumes "srw_owner (h_lock s) = Some u" "unlocked_pc (length (h_callbacks s)) (h_pc s u) = Some p"
  shows "lets_go u s"
proof -
  have "host_run [UnlockHost u] s = Some (goto u p (s\<lparr>h_lock := (h_lock s)\<lparr>srw_owner := None, srw_locked := False\<rparr>,
      h_life := constructed (h_pc s u) (h_life s)\<rparr>))"
    using assms by (simp add: act_unlock_def srw_unlock_def)
  then show ?thesis by (rule lets_goI) simp_all
qed

lemma invocation_ends:
  assumes "lock_inv s" "h_pc s u = InvAt i"
  shows "lets_go u s"
  using assms
proof (induction "length (h_callbacks s) - i" arbitrary: s i)
  case 0
  then have "srw_owner (h_lock s) = Some u" by (simp add: lock_inv_def) (metis holds_lock.simps(5))
  then show ?case using 0 by (intro unlock_lets_go) simp_all
next
  case (Suc n)
  let ?c = "snd (h_callbacks s ! i)"
  have "i < length (h_callbacks s)" using Suc.hyps(2) by simp
  then obtain s1 where s1: "host_act (CallNext u) s = Some s1" "h_pc s1 = (h_pc s)(u := InvCall i ?c)"
    "h_callbacks s1 = h_callbacks s"
    using Suc.prems by (simp add: act_call_def)
  obtain s2 where s2: "host_act (CallReturn u True) s1 = Some s2" "h_pc s2 = (h_pc s1)(u := InvAt (Suc i))"
    "h_callbacks s2 = h_callbacks s"
    using s1 by (simp add: act_return_def)
  have "lock_inv s2" using lock_step Suc.prems(1) s1(1) s2(1) by blast
  moreover have "n = length (h_callbacks s2) - Suc i" "h_pc s2 u = InvAt (Suc i)" using Suc s2 by simp_all
  ultimately have "lets_go u s2" using Suc.hyps(1) by blast
  then have "lets_go u s1" using lets_go_after [OF s2(1)] s2(2) by simp
  then show ?case using lets_go_after [OF s1(1)] s1(2) by simp
qed

lemma holder_releases:
  assumes K: "lock_inv s" and h: "holds_lock (h_pc s u)" "h_pc s u \<noteq> InvReenter"
  shows "lets_go u s"
proof -
  have o: "srw_owner (h_lock s) = Some u" using K h(1) by (simp add: lock_inv_def)
  have body: "lets_go u s"
    if e: "\<exists>s1. host_act (HostBody u) s = Some s1 \<and> h_pc s1 = (h_pc s)(u := p) \<and> h_lock s1 = h_lock s"
      and p: "\<And>n. unlocked_pc n p = Some p'" for p p'
  proof -
    obtain s1 where s1: "host_act (HostBody u) s = Some s1" "h_pc s1 = (h_pc s)(u := p)" "h_lock s1 = h_lock s"
      using e by blast
    then have "lets_go u s1" using o p by (intro unlock_lets_go [of s1 u p']) simp_all
    then show ?thesis by (rule lets_go_after [OF s1(1)]) (simp add: s1(2))
  qed
  show ?thesis
  proof (cases "h_pc s u")
    case (AddIn c)
    then show ?thesis by (intro body [of "AddOut c"]) (simp_all add: act_body_def)
  next
    case (AddOut c)
    then show ?thesis using o by (intro unlock_lets_go) simp_all
  next
    case (RemIn c)
    then show ?thesis by (intro body [of "RemOut c"]) (simp_all add: act_body_def)
  next
    case (RemOut c)
    then show ?thesis using o by (intro unlock_lets_go) simp_all
  next
    case (InvAt i)
    then show ?thesis by (rule invocation_ends [OF K])
  next
    case (InvCall i c)
    then obtain s1 where s1: "host_act (CallReturn u True) s = Some s1" "h_pc s1 = (h_pc s)(u := InvAt (Suc i))"
      by (simp add: act_return_def)
    then have "lets_go u s1" using invocation_ends [OF lock_step [OF K s1(1)], of u "Suc i"] by simp
    then show ?thesis by (rule lets_go_after [OF s1(1)]) (simp add: s1(2))
  qed (use h in simp_all)
qed

lemma lock_becomes_free:
  assumes "lock_inv s" "\<And>u. h_pc s u \<noteq> InvReenter" "\<not> holds_lock (h_pc s t)"
  shows "\<exists>as s'. host_run as s = Some s' \<and> \<not> srw_locked (h_lock s') \<and> h_pc s' t = h_pc s t"
proof (cases "srw_locked (h_lock s)")
  case True
  then obtain u where "srw_owner (h_lock s) = Some u" using assms(1) by (auto simp: lock_inv_def)
  then have u: "holds_lock (h_pc s u)" using True assms(1) by (simp add: lock_inv_def)
  then have "t \<noteq> u" using assms(3) by auto
  then show ?thesis using holder_releases [OF assms(1) u assms(2)] by blast
next
  case False
  then have "host_run [] s = Some s \<and> \<not> srw_locked (h_lock s) \<and> h_pc s t = h_pc s t" by simp
  then show ?thesis by blast
qed

text \<open>C21: A destructor that waits for the lock is never in its way for good: as long as no callback calls
  the host, the threads can go on so that the removal returns, and the view is then not registered.\<close>

theorem removal_returns:
  assumes "host_run as (host_start d) = Some s" "h_pc s t = RemWait c" "\<forall>u. h_pc s u \<noteq> InvReenter"
  shows "\<exists>bs s'. host_run bs s = Some s' \<and> h_pc s' t = RemDone c \<and> \<not> registered s' c"
proof -
  have K: "lock_inv s" using host_inv_reached [OF assms(1)] by (simp add: host_inv_def)
  obtain bs s1 where s1: "host_run bs s = Some s1" "\<not> srw_locked (h_lock s1)" "h_pc s1 t = RemWait c"
    using lock_becomes_free [OF K, of t] assms(2,3) by auto
  let ?unlock = "[LockHost t, HostBody t, UnlockHost t]"
  have "\<exists>s2. host_run ?unlock s1 = Some s2 \<and> h_pc s2 t = RemDone c \<and> \<not> registered s2 c"
    using s1(2,3) by (simp add: act_defs srw_lock_def srw_unlock_def registered_remove)
  then obtain s2 where "host_run (bs @ ?unlock) s = Some s2" "h_pc s2 t = RemDone c" "\<not> registered s2 c"
    using s1(1) by (auto simp: host_run_append)
  then show ?thesis by blast
qed

theorem removal_returns_witness:
  "\<exists>s bs s'. host_run demo_race (host_start 4) = Some s \<and> h_pc s 1 = InvCall 0 7
    \<and> host_run bs s = Some s' \<and> h_pc s' 0 = RemDone 7 \<and> \<not> registered s' 7"
proof -
  obtain s where s: "host_run demo_race (host_start 4) = Some s" "h_pc s 1 = InvCall 0 7" "h_pc s 0 = RemWait 7"
    "\<forall>u. h_pc s u \<noteq> InvReenter"
    by (simp add: demo_race_def host_eval)
  then show ?thesis using removal_returns [OF s(1), of 0 7] by blast
qed

text \<open>The documentation's warning: a callback that calls its host waits for ever, and the lock is never
  given to anyone again.\<close>

lemma reentry_deadlocks:
  assumes "lock_inv s" "h_pc s t = InvReenter" "host_run as s = Some s'"
  shows "h_pc s' t = InvReenter \<and> srw_locked (h_lock s')"
  using assms
proof (induction as arbitrary: s)
  case Nil
  then show ?case by (simp add: lock_inv_def) (metis holds_lock.simps(7))
next
  case (Cons a as)
  then obtain s1 where a: "host_act a s = Some s1" "host_run as s1 = Some s'" by (auto split: option.splits)
  have held: "srw_locked (h_lock s)" using Cons.prems by (simp add: lock_inv_def) (metis holds_lock.simps(7))
  have "h_pc s1 t = InvReenter"
  proof (cases "actor a = Some t")
    case True
    then show ?thesis using a(1) Cons.prems(2) held by (cases a) (auto simp: act_defs srw_lock_def split: if_splits)
  qed (use act_moves [OF a(1)] Cons.prems(2) in simp)
  then show ?case using Cons.IH [of s1] lock_step [OF Cons.prems(1) a(1)] a(2) by simp
qed

end
