(* ===== verification/MenuFlyout.thy ===== *)
theory MenuFlyout
  imports Errors
begin

text \<open>
  \<open>winui3/Helpers/MenuFlyoutHelper\<close>: the attached properties that fill a menu flyout from an observable
  vector, and \<open>winrt/weak_delegate.h\<close>, through which the vector's event reaches the flyout.  The
  framework calls the two property callbacks after it has stored the new value, and only when the value
  changed.  Vectors are the contents of a store under their identity; an event registration is a token.
  What a template loads is a parameter.
\<close>

section \<open>weak_delegate\<close>

text \<open>\<open>resolve\<close> is \<open>weak_ref::get\<close> in the state in which the delegate is called.\<close>

(* @ app/winrt/weak_delegate.h:33-53 weak_delegate *)
definition weak_delegate :: "('w \<Rightarrow> 'o option) \<Rightarrow> ('o \<Rightarrow> 'a \<Rightarrow> 'w \<Rightarrow> 'e + 'w) \<Rightarrow> 'a \<Rightarrow> 'w \<Rightarrow> 'e + 'w" where
  "weak_delegate resolve handler arg w =
     (case resolve w of None \<Rightarrow> Inr w | Some strong \<Rightarrow> handler strong arg w)"

text \<open>From a \<open>com_ptr\<close> that may be null: the weak reference of a null pointer resolves to nothing.\<close>

(* @ app/winrt/weak_delegate.h:61-73 weak_delegate *)
definition weak_delegate_of_ptr ::
  "('p \<Rightarrow> 'w \<Rightarrow> 'o option) \<Rightarrow> 'p option \<Rightarrow> ('o \<Rightarrow> 'a \<Rightarrow> 'w \<Rightarrow> 'e + 'w) \<Rightarrow> 'a \<Rightarrow> 'w \<Rightarrow> 'e + 'w" where
  "weak_delegate_of_ptr lookup strong handler =
     weak_delegate (\<lambda>w. case strong of None \<Rightarrow> None | Some p \<Rightarrow> lookup p w) handler"

lemma weak_delegate_dead: "resolve w = None \<Longrightarrow> weak_delegate resolve handler arg w = Inr w"
  by (simp add: weak_delegate_def)

section \<open>The flyout\<close>

datatype inspectable = Boxed wstr | Object nat

datatype source = NoSource | Observable nat | OtherObject

datatype menu_item = LoadedItem nat inspectable | TextItem wstr

text \<open>The properties \<open>ItemsSource\<close>, \<open>ItemTemplate\<close> and \<open>ItemsSourceRevoker\<close>, whose value holds the
  registration and drops it when it is replaced; and the flyout's items.\<close>

(* @ winui3/Helpers/MenuFlyoutHelper.cc:23-54 MenuFlyoutHelper *)
record flyout =
  fl_source :: source
  fl_template :: "nat option"
  fl_revoker :: "nat option"
  fl_items :: "menu_item list"

text \<open>\<open>fw_flyout\<close> is \<open>None\<close> once the flyout is gone; \<open>fw_handlers\<close> are the registrations of
  \<open>VectorChanged\<close>, each with its vector.\<close>

record flyout_world =
  fw_flyout :: "flyout option"
  fw_vectors :: "nat \<Rightarrow> inspectable list"
  fw_handlers :: "(nat \<times> nat) list"
  fw_next :: nat

definition hresult_no_interface :: exn where "hresult_no_interface = HrError 0x80004002"

text \<open>\<open>loads t\<close>: the content of the template is a menu item.\<close>

fun make_items :: "(nat \<Rightarrow> bool) \<Rightarrow> nat option \<Rightarrow> inspectable list \<Rightarrow> exn + menu_item list" where
  "make_items loads temp [] = Inr []"
| "make_items loads (Some t) (x # xs) =
     (if loads t then rbind (make_items loads (Some t) xs) (\<lambda>is. Inr (LoadedItem t x # is))
      else Inl hresult_no_interface)"
| "make_items loads None (x # xs) = (case x of
     Boxed s \<Rightarrow> rbind (make_items loads None xs) (\<lambda>is. Inr (TextItem s # is))
   | Object _ \<Rightarrow> Inl hresult_no_interface)"

(* @ winui3/Helpers/MenuFlyoutHelper.cc:99-120 MenuFlyoutHelper::UpdateItems *)
definition UpdateItems :: "(nat \<Rightarrow> bool) \<Rightarrow> flyout \<Rightarrow> inspectable list \<Rightarrow> nat option \<Rightarrow> exn + flyout" where
  "UpdateItems loads f vec temp =
     rbind (make_items loads temp vec) (\<lambda>new_items. Inr (f\<lparr>fl_items := new_items\<rparr>))"

text \<open>Replacing the value of the revoker property destroys the old one, which removes its registration.\<close>

definition set_revoker :: "nat option \<Rightarrow> flyout \<Rightarrow> (nat \<times> nat) list \<Rightarrow> flyout \<times> (nat \<times> nat) list" where
  "set_revoker r f hs = (f\<lparr>fl_revoker := r\<rparr>,
     case fl_revoker f of None \<Rightarrow> hs | Some tok \<Rightarrow> filter (\<lambda>(k, v). k \<noteq> tok) hs)"

(* @ winui3/Helpers/MenuFlyoutHelper.cc:56-59 ClearItems *)
definition ClearItems :: "flyout \<Rightarrow> flyout_world \<Rightarrow> flyout_world" where
  "ClearItems f w = (let (f', hs) = set_revoker None f (fw_handlers w) in
     w\<lparr>fw_flyout := Some (f'\<lparr>fl_items := []\<rparr>), fw_handlers := hs\<rparr>)"

definition put_flyout :: "flyout_world \<Rightarrow> exn + flyout \<Rightarrow> flyout_world \<times> exn option" where
  "put_flyout w r = (case r of Inl e \<Rightarrow> (w, Some e) | Inr f \<Rightarrow> (w\<lparr>fw_flyout := Some f\<rparr>, None))"

text \<open>The state after the call, and the exception that left it.\<close>

(* @ winui3/Helpers/MenuFlyoutHelper.cc:61-82 MenuFlyoutHelper::OnItemsSourceChanged *)
definition OnItemsSourceChanged ::
  "(nat \<Rightarrow> bool) \<Rightarrow> flyout \<Rightarrow> source \<Rightarrow> flyout_world \<Rightarrow> flyout_world \<times> exn option" where
  "OnItemsSourceChanged loads f new_value w = (case new_value of
     Observable v \<Rightarrow>
       let tok = fw_next w;
           (f', hs) = set_revoker (Some tok) f (fw_handlers w @ [(tok, v)]);
           w' = w\<lparr>fw_flyout := Some f', fw_handlers := hs, fw_next := Suc tok\<rparr>
       in put_flyout w' (UpdateItems loads f' (fw_vectors w v) (fl_template f'))
   | _ \<Rightarrow> (ClearItems f w, None))"

(* @ winui3/Helpers/MenuFlyoutHelper.h:17-20 MenuFlyoutHelper::GetItemsSource *)
definition GetItemsSource :: "flyout \<Rightarrow> exn + nat option" where
  "GetItemsSource f = (case fl_source f of
     NoSource \<Rightarrow> Inr None | Observable v \<Rightarrow> Inr (Some v) | OtherObject \<Rightarrow> Inl hresult_no_interface)"

(* @ winui3/Helpers/MenuFlyoutHelper.cc:84-97 MenuFlyoutHelper::OnItemTemplateChanged *)
definition OnItemTemplateChanged ::
  "(nat \<Rightarrow> bool) \<Rightarrow> flyout \<Rightarrow> nat option \<Rightarrow> flyout_world \<Rightarrow> flyout_world \<times> exn option" where
  "OnItemTemplateChanged loads f new_value w = (case GetItemsSource f of
     Inl e \<Rightarrow> (w, Some e)
   | Inr None \<Rightarrow> (ClearItems f w, None)
   | Inr (Some v) \<Rightarrow> put_flyout w (UpdateItems loads f (fw_vectors w v) new_value))"

(* @ winui3/Helpers/MenuFlyoutHelper.h:21-26 MenuFlyoutHelper::SetItemsSource *)
definition SetItemsSource :: "(nat \<Rightarrow> bool) \<Rightarrow> source \<Rightarrow> flyout_world \<Rightarrow> flyout_world \<times> exn option" where
  "SetItemsSource loads new_value w = (case fw_flyout w of
     None \<Rightarrow> (w, None)
   | Some f \<Rightarrow> if fl_source f = new_value then (w, None)
       else let f' = f\<lparr>fl_source := new_value\<rparr>
            in OnItemsSourceChanged loads f' new_value (w\<lparr>fw_flyout := Some f'\<rparr>))"

(* @ winui3/Helpers/MenuFlyoutHelper.h:31-36 MenuFlyoutHelper::SetItemTemplate *)
definition SetItemTemplate :: "(nat \<Rightarrow> bool) \<Rightarrow> nat option \<Rightarrow> flyout_world \<Rightarrow> flyout_world \<times> exn option" where
  "SetItemTemplate loads new_value w = (case fw_flyout w of
     None \<Rightarrow> (w, None)
   | Some f \<Rightarrow> if fl_template f = new_value then (w, None)
       else let f' = f\<lparr>fl_template := new_value\<rparr>
            in OnItemTemplateChanged loads f' new_value (w\<lparr>fw_flyout := Some f'\<rparr>))"

text \<open>The handler that \<open>OnItemsSourceChanged\<close> registers.\<close>

(* @ winui3/Helpers/MenuFlyoutHelper.cc:72-78 MenuFlyoutHelper::OnItemsSourceChanged *)
definition vector_changed :: "(nat \<Rightarrow> bool) \<Rightarrow> nat \<Rightarrow> flyout_world \<Rightarrow> exn + flyout_world" where
  "vector_changed loads = weak_delegate fw_flyout (\<lambda>f sender w.
     rbind (UpdateItems loads f (fw_vectors w sender) (fl_template f)) (\<lambda>f'. Inr (w\<lparr>fw_flyout := Some f'\<rparr>)))"

text \<open>A change of a vector calls the handlers registered for it.\<close>

fun call_handlers :: "(nat \<Rightarrow> bool) \<Rightarrow> nat \<Rightarrow> (nat \<times> nat) list \<Rightarrow> flyout_world \<Rightarrow> flyout_world \<times> exn option" where
  "call_handlers loads v [] w = (w, None)"
| "call_handlers loads v ((tok, v') # hs) w =
     (if v' = v then case vector_changed loads v w of
        Inl e \<Rightarrow> (w, Some e) | Inr w' \<Rightarrow> call_handlers loads v hs w'
      else call_handlers loads v hs w)"

definition set_vector :: "(nat \<Rightarrow> bool) \<Rightarrow> nat \<Rightarrow> inspectable list \<Rightarrow> flyout_world \<Rightarrow> flyout_world \<times> exn option" where
  "set_vector loads v xs w = (let w' = w\<lparr>fw_vectors := (fw_vectors w)(v := xs)\<rparr>
     in call_handlers loads v (fw_handlers w') w')"

text \<open>The end of the flyout releases its properties and with them the registration.\<close>

definition destroy_flyout :: "flyout_world \<Rightarrow> flyout_world" where
  "destroy_flyout w = (case fw_flyout w of None \<Rightarrow> w
   | Some f \<Rightarrow> w\<lparr>fw_flyout := None, fw_handlers := snd (set_revoker None f (fw_handlers w))\<rparr>)"

datatype flyout_op = SetSource source | SetTemplate "nat option" | ChangeVector nat "inspectable list" | DestroyFlyout

fun flyout_do :: "(nat \<Rightarrow> bool) \<Rightarrow> flyout_op \<Rightarrow> flyout_world \<Rightarrow> flyout_world \<times> exn option" where
  "flyout_do loads (SetSource src) w = SetItemsSource loads src w"
| "flyout_do loads (SetTemplate t) w = SetItemTemplate loads t w"
| "flyout_do loads (ChangeVector v xs) w = set_vector loads v xs w"
| "flyout_do loads DestroyFlyout w = (destroy_flyout w, None)"

text \<open>An exception ends the sequence.\<close>

fun flyout_run :: "(nat \<Rightarrow> bool) \<Rightarrow> flyout_op list \<Rightarrow> flyout_world \<Rightarrow> flyout_world \<times> exn option" where
  "flyout_run loads [] w = (w, None)"
| "flyout_run loads (op # ops) w = (case flyout_do loads op w of
     (w', Some e) \<Rightarrow> (w', Some e) | (w', None) \<Rightarrow> flyout_run loads ops w')"

definition new_flyout :: "(nat \<Rightarrow> inspectable list) \<Rightarrow> flyout_world" where
  "new_flyout vs = \<lparr>fw_flyout = Some \<lparr>fl_source = NoSource, fl_template = None, fl_revoker = None, fl_items = []\<rparr>,
     fw_vectors = vs, fw_handlers = [], fw_next = 0\<rparr>"

section \<open>The flyout follows its source\<close>

definition handlers_ok :: "flyout_world \<Rightarrow> bool" where
  "handlers_ok w \<longleftrightarrow> (case fw_flyout w of None \<Rightarrow> fw_handlers w = []
   | Some f \<Rightarrow> (case fl_source f of
       Observable v \<Rightarrow> \<exists>tok < fw_next w. fl_revoker f = Some tok \<and> fw_handlers w = [(tok, v)]
     | _ \<Rightarrow> fl_revoker f = None \<and> fw_handlers w = []))"

definition mirrors :: "(nat \<Rightarrow> bool) \<Rightarrow> flyout_world \<Rightarrow> bool" where
  "mirrors loads w \<longleftrightarrow> (case fw_flyout w of None \<Rightarrow> True
   | Some f \<Rightarrow> (case fl_source f of
       Observable v \<Rightarrow> make_items loads (fl_template f) (fw_vectors w v) = Inr (fl_items f)
     | _ \<Rightarrow> fl_items f = []))"

lemmas flyout_defs = SetItemsSource_def SetItemTemplate_def OnItemsSourceChanged_def GetItemsSource_def
  OnItemTemplateChanged_def UpdateItems_def ClearItems_def set_revoker_def put_flyout_def Let_def

lemma set_vector_eq:
  assumes "handlers_ok w"
  shows "set_vector loads v xs w = (let w' = w\<lparr>fw_vectors := (fw_vectors w)(v := xs)\<rparr> in
    case fw_flyout w of None \<Rightarrow> (w', None)
    | Some f \<Rightarrow> if fl_source f = Observable v
        then put_flyout w' (UpdateItems loads f xs (fl_template f)) else (w', None))"
  using assms
  by (auto simp: set_vector_def handlers_ok_def vector_changed_def weak_delegate_def flyout_defs rbind_def
      split: option.splits source.splits sum.splits)

lemma handlers_step: "handlers_ok w \<Longrightarrow> handlers_ok (fst (flyout_do loads op w))"
  by (cases op)
    (auto simp: set_vector_eq handlers_ok_def destroy_flyout_def flyout_defs rbind_def
      split: option.splits source.splits sum.splits if_splits)

lemma mirrors_step:
  "handlers_ok w \<Longrightarrow> mirrors loads w \<Longrightarrow> flyout_do loads op w = (w', None) \<Longrightarrow> mirrors loads w'"
  by (cases op)
    (auto simp: set_vector_eq mirrors_def destroy_flyout_def flyout_defs rbind_def
      split: option.splits source.splits sum.splits if_splits)

lemma new_flyout_ok: "handlers_ok (new_flyout vs)" "mirrors loads (new_flyout vs)"
  by (simp_all add: new_flyout_def handlers_ok_def mirrors_def)

lemma flyout_run_ok:
  "handlers_ok w \<Longrightarrow> mirrors loads w \<Longrightarrow> flyout_run loads ops w = (w', None) \<Longrightarrow> handlers_ok w' \<and> mirrors loads w'"
proof (induction ops arbitrary: w)
  case (Cons op ops)
  then obtain w1 where w1: "flyout_do loads op w = (w1, None)" "flyout_run loads ops w1 = (w', None)"
    by (auto split: prod.splits option.splits)
  then have "handlers_ok w1" using handlers_step [OF Cons.prems(1), of loads op] by simp
  then show ?case using Cons.IH mirrors_step [OF Cons.prems(1,2) w1(1)] w1(2) by blast
qed simp

text \<open>C12: After any sequence of changes of the source, of the template and of the vectors without an
  exception, the flyout's items are those of its source's present contents under its present template,
  or none without an observable source; and exactly one registration is left at that source, none
  elsewhere and none after the flyout is gone.\<close>

theorem flyout_follows_source:
  assumes "flyout_run loads ops (new_flyout vs) = (w, None)"
  shows "case fw_flyout w of None \<Rightarrow> fw_handlers w = []
    | Some f \<Rightarrow> (case fl_source f of
        Observable v \<Rightarrow> make_items loads (fl_template f) (fw_vectors w v) = Inr (fl_items f)
          \<and> map snd (fw_handlers w) = [v]
      | _ \<Rightarrow> fl_items f = [] \<and> fw_handlers w = [])"
  using flyout_run_ok [OF new_flyout_ok assms]
  by (auto simp: handlers_ok_def mirrors_def split: option.splits source.splits)

definition demo_flyout :: "flyout_op list" where
  "demo_flyout = [SetTemplate (Some 3), SetSource (Observable 0), ChangeVector 0 [Object 5], SetSource (Observable 1),
     ChangeVector 0 [], SetTemplate None]"

theorem flyout_follows_source_witness:
  "\<exists>w f. flyout_run (\<lambda>_. True) demo_flyout (new_flyout (\<lambda>_. [Boxed [97]])) = (w, None) \<and> fw_flyout w = Some f
    \<and> fl_source f = Observable 1 \<and> fl_items f = [TextItem [97]] \<and> map snd (fw_handlers w) = [1]"
proof -
  obtain w f where w: "flyout_run (\<lambda>_. True) demo_flyout (new_flyout (\<lambda>_. [Boxed [97]])) = (w, None)"
    "fw_flyout w = Some f" "fl_source f = Observable 1" "fl_template f = None" "fw_vectors w 1 = [Boxed [97]]"
    by (simp add: demo_flyout_def new_flyout_def flyout_defs set_vector_def vector_changed_def weak_delegate_def)
  then show ?thesis using flyout_follows_source [OF w(1)] by (simp add: w)
qed

text \<open>An exception leaves the old items, as for a vector with an element that is not a string, shown
  without a template.  A source that is not observable makes every later change of
  the template throw.\<close>

lemma flyout_exceptions:
  "flyout_run loads [SetSource (Observable 0), ChangeVector 0 [Object 5]] (new_flyout (\<lambda>_. [Boxed [97]]))
     = (w, e) \<Longrightarrow> e = Some hresult_no_interface \<and> map_option fl_items (fw_flyout w) = Some [TextItem [97]]"
  "snd (flyout_run loads [SetSource OtherObject, SetTemplate (Some 3)] (new_flyout vs)) = Some hresult_no_interface"
  by (auto simp: new_flyout_def flyout_defs set_vector_def vector_changed_def weak_delegate_def)

end
