(* ===== verification/VecOps.thy ===== *)
theory VecOps
  imports Vec
begin

text \<open>
  \<open>numeric/numeric.h\<close>, the rest of \<open>vec<T, N, Align>\<close>: halves, constructors, unary operators,
  division, shifts, the operators that take a scalar or integers, and the rounding functions.  The
  storage operations they call are a second record, \<open>storage_more\<close>.  As in \<open>Vec\<close>, a function with two
  bodies has the flag \<open>consteval\<close>; a loop that fills a fresh vector starts from an arbitrary storage
  \<open>ret\<close>, because \<open>vec ret;\<close> leaves it uninitialised.  The locale \<open>vec_unary\<close> extends the contract of
  a storage by its unary operations and its unused elements.
\<close>

record 'a elem_more =
  e_zero :: 'a
  e_neg :: "'a \<Rightarrow> 'a"
  e_not :: "'a \<Rightarrow> 'a"

record ('s, 'a) storage_more =
  s_count :: nat
  s_make :: "'a list \<Rightarrow> 's"
  s_xy :: "bool \<Rightarrow> 's \<Rightarrow> 's"
  s_zw :: "bool \<Rightarrow> 's \<Rightarrow> 's"
  s_setXY :: "'s \<Rightarrow> 's \<Rightarrow> 's"
  s_setZW :: "'s \<Rightarrow> 's \<Rightarrow> 's"
  s_concat :: "'s \<Rightarrow> 's \<Rightarrow> 's"
  s_neg :: "'s \<Rightarrow> 's"
  s_not :: "'s \<Rightarrow> 's"

section \<open>Halves and constructors\<close>

(* @ app/numeric/numeric.h:23-28 vec::at *)
definition vec_at where "vec_at S v i = s_at S v i"

(* @ app/numeric/numeric.h:30-31 vec::xy *)
definition vec_halves where "vec_halves consteval M v = (s_xy M consteval v, s_zw M consteval v)"

(* @ app/numeric/numeric.h:33-37 vec::setAt *)
definition vec_setAt where "vec_setAt S v i a = s_setAt S v i a"

(* @ app/numeric/numeric.h:39-46 vec::setXY *)
definition vec_setXY where
  "vec_setXY consteval S M v rhs =
     (if consteval then s_setAt S (s_setAt S v 0 (s_at S rhs 0)) 1 (s_at S rhs 1)
      else s_setXY M v rhs)"

(* @ app/numeric/numeric.h:47-54 vec::setZW *)
definition vec_setZW where
  "vec_setZW consteval S M v rhs =
     (if consteval then s_setAt S (s_setAt S v 2 (s_at S rhs 0)) 3 (s_at S rhs 1)
      else s_setZW M v rhs)"

text \<open>The loop \<open>for (i = 0; i < storage_count; ++i) ret.storage.setAt (i, i < N ? f (i) : 0)\<close>.\<close>

fun vec_fill :: "('s, 'a) storage_ops \<Rightarrow> nat \<Rightarrow> 'a \<Rightarrow> (nat \<Rightarrow> 'a) \<Rightarrow> nat \<Rightarrow> 's \<Rightarrow> 's" where
  "vec_fill S N z f 0 ret = ret"
| "vec_fill S N z f (Suc i) ret = s_setAt S (vec_fill S N z f i ret) i (if i < N then f i else z)"

(* @ app/numeric/numeric.h:56-66 vec::splat *)
definition vec_splat where
  "vec_splat consteval S M EM N ret s =
     (if consteval then vec_fill S N (e_zero EM) (\<lambda>_. s) (s_count M) ret else s_splat S s)"

(* @ app/numeric/numeric.h:67-78 vec::make *)
definition vec_make where "vec_make M xs = s_make M xs"

(* @ app/numeric/numeric.h:79-85 vec::concat *)
definition vec_concat where
  "vec_concat consteval S M xy zw =
     (if consteval then s_make M [s_at S xy 0, s_at S xy 1, s_at S zw 0, s_at S zw 1]
      else s_concat M xy zw)"

section \<open>Unary operators, division and shifts\<close>

(* @ app/numeric/numeric.h:115-125 vec::operator- *)
definition vec_neg where
  "vec_neg consteval S M EM N ret v =
     (if consteval then vec_fill S N (e_zero EM) (\<lambda>i. e_neg EM (s_at S v i)) (s_count M) ret
      else s_neg M v)"

(* @ app/numeric/numeric.h:126-136 vec::operator~ *)
definition vec_not where
  "vec_not consteval S M EM N ret v =
     (if consteval then vec_fill S N (e_zero EM) (\<lambda>i. e_not EM (s_at S v i)) (s_count M) ret
      else s_not M v)"

text \<open>Division is declared for floats only and the shifts for integers only (\<open>requires\<close>), so their
  element operation \<open>e\<close> and storage operation \<open>st\<close> are arguments.\<close>

(* @ app/numeric/numeric.h:229-238 vec::operator/= *)
definition vec_div where
  "vec_div consteval S e st N lhs rhs = (if consteval then vec_loop S e N lhs rhs else st lhs rhs)"

(* @ app/numeric/numeric.h:335-344 vec::operator>>= *)
definition vec_shr where
  "vec_shr consteval S e st N lhs rhs = (if consteval then vec_loop S e N lhs rhs else st lhs rhs)"

(* @ app/numeric/numeric.h:353-362 vec::operator<<= *)
definition vec_shl where
  "vec_shl consteval S e st N lhs rhs = (if consteval then vec_loop S e N lhs rhs else st lhs rhs)"

section \<open>A scalar operand\<close>

text \<open>Each of these splats the scalar with \<open>splat\<close> and applies the operator of two vectors; where the
  scalar stands on the left the source reuses the same operator.\<close>

(* @ app/numeric/numeric.h:149-157 vec::operator+ *)
definition vec_add_scalar where
  "vec_add_scalar consteval S M E EM N ret lhs a =
     vec_add consteval S E N lhs (vec_splat consteval S M EM N ret a)"

(* @ app/numeric/numeric.h:170-175 vec::operator- *)
definition vec_sub_scalar where
  "vec_sub_scalar consteval S M E EM N ret lhs a =
     vec_sub consteval S E N lhs (vec_splat consteval S M EM N ret a)"

(* @ app/numeric/numeric.h:188-196 vec::operator* *)
definition vec_mul_scalar where
  "vec_mul_scalar consteval S M E EM N ret lhs a =
     vec_mul consteval S E N lhs (vec_splat consteval S M EM N ret a)"

(* @ app/numeric/numeric.h:239-245 vec::operator/ *)
definition vec_div_scalar where
  "vec_div_scalar consteval S M EM e st N ret lhs a =
     vec_div consteval S e st N lhs (vec_splat consteval S M EM N ret a)"

(* @ app/numeric/numeric.h:283-291 vec::operator& *)
definition vec_and_scalar where
  "vec_and_scalar consteval S M E EM N ret lhs a =
     vec_and consteval S E N lhs (vec_splat consteval S M EM N ret a)"

(* @ app/numeric/numeric.h:304-312 vec::operator| *)
definition vec_or_scalar where
  "vec_or_scalar consteval S M E EM N ret lhs a =
     vec_or consteval S E N lhs (vec_splat consteval S M EM N ret a)"

(* @ app/numeric/numeric.h:325-333 vec::operator^ *)
definition vec_xor_scalar where
  "vec_xor_scalar consteval S M E EM N ret lhs a =
     vec_xor consteval S E N lhs (vec_splat consteval S M EM N ret a)"

(* @ app/numeric/numeric.h:346-351 vec::operator>> *)
definition vec_shr_scalar where
  "vec_shr_scalar consteval S M EM e st N ret lhs a =
     vec_shr consteval S e st N lhs (vec_splat consteval S M EM N ret a)"

(* @ app/numeric/numeric.h:364-369 vec::operator<< *)
definition vec_shl_scalar where
  "vec_shl_scalar consteval S M EM e st N ret lhs a =
     vec_shl consteval S e st N lhs (vec_splat consteval S M EM N ret a)"

section \<open>Integers with a float vector\<close>

text \<open>\<open>cast\<close> is \<open>static_cast<T>\<close>; the products exist for the SSE storage only.\<close>

fun vec_each :: "('s, 'a) storage_ops \<Rightarrow> (nat \<Rightarrow> 'a \<Rightarrow> 'a) \<Rightarrow> nat \<Rightarrow> 's \<Rightarrow> 's" where
  "vec_each S f 0 v = v"
| "vec_each S f (Suc i) v = (let l = vec_each S f i v in s_setAt S l i (f i (s_at S l i)))"

(* @ app/numeric/numeric.h:198-212 vec::operator*= *)
definition vec_mul_int where "vec_mul_int F v r = f4_mul_int F v r"

(* @ app/numeric/numeric.h:203-227 vec::operator*= *)
definition vec_mul_ints where "vec_mul_ints v r = f4_mul_ints v r"

(* @ app/numeric/numeric.h:247-253 vec::operator/= *)
definition vec_div_int where
  "vec_div_int S e N cast v r = vec_each S (\<lambda>i a. e a (cast r)) N v"

(* @ app/numeric/numeric.h:254-260 vec::operator/= *)
definition vec_div_ints where
  "vec_div_ints S T e N cast v r = vec_each S (\<lambda>i a. e a (cast (s_at T r i))) N v"

section \<open>Rounding and conversion\<close>

text \<open>The two conversion operators exist for the SSE storages only.\<close>

record ('s, 'i) float_storage =
  s_ceil :: "'s \<Rightarrow> 's"
  s_floor :: "'s \<Rightarrow> 's"
  s_rint :: "'s \<Rightarrow> 's"
  s_trunc :: "'s \<Rightarrow> 's"
  s_lceil :: "'s \<Rightarrow> 'i"
  s_lfloor :: "'s \<Rightarrow> 'i"
  s_lrint :: "'s \<Rightarrow> 'i"
  s_lround :: "'s \<Rightarrow> 'i"
  s_ltrunc :: "'s \<Rightarrow> 'i"

(* @ app/numeric/numeric.h:379-383 vec::ceil *)
definition vec_ceil where "vec_ceil R v = s_ceil R v"
(* @ app/numeric/numeric.h:384-388 vec::floor *)
definition vec_floor where "vec_floor R v = s_floor R v"
(* @ app/numeric/numeric.h:389-393 vec::rint *)
definition vec_rint where "vec_rint R v = s_rint R v"
(* @ app/numeric/numeric.h:394-398 vec::trunc *)
definition vec_trunc where "vec_trunc R v = s_trunc R v"
(* @ app/numeric/numeric.h:400-405 vec::operator vec<U, N, Align> *)
definition vec_to_int :: "f32x4 \<Rightarrow> i32x4" where "vec_to_int v = f4_to_i4 v"
(* @ app/numeric/numeric.h:407-412 vec::operator vec<U, N, Align> *)
definition vec_of_int :: "i32x4 \<Rightarrow> f32x4" where "vec_of_int v = i4_to_f4 v"
(* @ app/numeric/numeric.h:420-425 lceil_cast *)
definition lceil_cast where "lceil_cast R v = s_lceil R v"
(* @ app/numeric/numeric.h:426-431 lfloor_cast *)
definition lfloor_cast where "lfloor_cast R v = s_lfloor R v"
(* @ app/numeric/numeric.h:432-437 lrint_cast *)
definition lrint_cast where "lrint_cast R v = s_lrint R v"
(* @ app/numeric/numeric.h:438-443 lround_cast *)
definition lround_cast where "lround_cast R v = s_lround R v"
(* @ app/numeric/numeric.h:444-449 ltrunc_cast *)
definition ltrunc_cast where "ltrunc_cast R v = s_ltrunc R v"

section \<open>The contract with unary operations and unused elements\<close>

locale vec_unary = vec_contract S E N ok elems
  for S :: "('s, 'a) storage_ops" and E :: "'a elem_ops" and N :: nat
    and ok :: "'s \<Rightarrow> bool" and elems :: "'s \<Rightarrow> 'a list" +
  fixes M :: "('s, 'a) storage_more" and EM :: "'a elem_more"
  assumes count: "N \<le> s_count M"
    and pad: "ok s \<Longrightarrow> N \<le> i \<Longrightarrow> i < s_count M \<Longrightarrow>
      ok (s_setAt S s i x) \<and> elems (s_setAt S s i x) = elems s"
    and splat: "ok (s_splat S x) \<and> elems (s_splat S x) = replicate N x"
    and neg: "ok s \<Longrightarrow> ok (s_neg M s) \<and> elems (s_neg M s) = map (e_neg EM) (elems s)"
    and "not": "ok s \<Longrightarrow> ok (s_not M s) \<and> elems (s_not M s) = map (e_not EM) (elems s)"
begin

lemma fill_elems:
  assumes "ok ret" "n \<le> s_count M"
  shows "ok (vec_fill S N z f n ret) \<and>
    elems (vec_fill S N z f n ret) = map f [0..<min n N] @ drop n (elems ret)"
  using assms(2)
proof (induction n)
  case 0
  then show ?case using assms by simp
next
  case (Suc n)
  let ?l = "vec_fill S N z f n ret"
  have l: "ok ?l" "elems ?l = map f [0..<min n N] @ drop n (elems ret)" using Suc by auto
  show ?case
  proof (cases "n < N")
    case True
    then have d: "drop n (elems ret) = elems ret ! n # drop (Suc n) (elems ret)"
      using len [OF assms(1)] by (simp add: Cons_nth_drop_Suc)
    then show ?thesis
      using setAt [OF l(1) True] l(2) True by (simp add: list_update_append min_def)
  next
    case False
    then show ?thesis
      using pad [OF l(1), of n] l(2) Suc.prems len [OF assms(1)] by (simp add: min_def)
  qed
qed

lemma fill_full:
  assumes "ok ret"
  shows "ok (vec_fill S N z f (s_count M) ret)"
    and "elems (vec_fill S N z f (s_count M) ret) = map f [0..<N]"
  using fill_elems [OF assms order_refl, of z f] count len [OF assms] by (simp_all add: min_def)

lemma map_at: "ok v \<Longrightarrow> map (\<lambda>i. g (s_at S v i)) [0..<N] = map g (elems v)"
  using len at by (auto intro!: nth_equalityI)

lemma unary_elems:
  assumes "ok ret" "ok v"
  shows "elems (vec_neg c S M EM N ret v) = map (e_neg EM) (elems v)"
    and "elems (vec_not c S M EM N ret v) = map (e_not EM) (elems v)"
  using fill_full [OF assms(1)] neg [OF assms(2)] "not" [OF assms(2)] map_at [OF assms(2), of "e_neg EM"]
    map_at [OF assms(2), of "e_not EM"]
  by (cases c; simp add: vec_neg_def vec_not_def)+

lemma splat_ok: "ok ret \<Longrightarrow> ok (vec_splat c S M EM N ret a)"
  using fill_full splat by (simp add: vec_splat_def)

lemma splat_elems: "ok ret \<Longrightarrow> elems (vec_splat c S M EM N ret a) = replicate N a"
  using fill_full splat by (simp add: vec_splat_def map_replicate_const)

lemma map2_replicate: "ok v \<Longrightarrow> map2 f (elems v) (replicate N a) = map (\<lambda>x. f x a) (elems v)"
  using len by (simp add: zip_replicate2)

lemma scalar_elems:
  assumes "ok ret" "ok v"
  shows "elems (vec_add_scalar c S M E EM N ret v a) = map (\<lambda>x. e_add E x a) (elems v)"
    and "elems (vec_sub_scalar c S M E EM N ret v a) = map (\<lambda>x. e_sub E x a) (elems v)"
    and "elems (vec_mul_scalar c S M E EM N ret v a) = map (\<lambda>x. e_mul E x a) (elems v)"
    and "elems (vec_and_scalar c S M E EM N ret v a) = map (\<lambda>x. e_and E x a) (elems v)"
    and "elems (vec_or_scalar c S M E EM N ret v a) = map (\<lambda>x. e_or E x a) (elems v)"
    and "elems (vec_xor_scalar c S M E EM N ret v a) = map (\<lambda>x. e_xor E x a) (elems v)"
  using assms splat_ok splat_elems map2_replicate
  by (simp_all add: vec_add_scalar_def vec_sub_scalar_def vec_mul_scalar_def vec_and_scalar_def
      vec_or_scalar_def vec_xor_scalar_def op_elems)

end

section \<open>The storages\<close>

definition i32_more :: "32 word elem_more" where
  "i32_more = \<lparr>e_zero = 0, e_neg = uminus, e_not = NOT\<rparr>"

definition f32_more :: "f32 elem_more" where
  "f32_more = \<lparr>e_zero = 0, e_neg = f32_neg, e_not = NOT\<rparr>"

text \<open>\<open>make\<close> is overloaded on the number of its arguments, which fill the first lanes over zeros.\<close>

fun lane_list :: "'a \<Rightarrow> 'a list \<Rightarrow> 'a \<times> 'a \<times> 'a \<times> 'a" where
  "lane_list z [x] = (x, z, z, z)"
| "lane_list z [x, y] = (x, y, z, z)"
| "lane_list z [x, y, u] = (x, y, u, z)"
| "lane_list z (x # y # u # w # r) = (x, y, u, w)"
| "lane_list z [] = (z, z, z, z)"

(* @ app/numeric/x86/int32x4_x86.h:109-132 make *)
definition i4_make_n :: "32 word list \<Rightarrow> i32x4" where
  "i4_make_n xs = (case lane_list 0 xs of (x, y, u, w) \<Rightarrow> i4_make x y u w)"

(* @ app/numeric/x86/float32x4_x86.h:109-132 make *)
definition f4_make_n :: "f32 list \<Rightarrow> f32x4" where
  "f4_make_n xs = (case lane_list 0 xs of (x, y, u, w) \<Rightarrow> f4_make x y u w)"

definition of_lanes :: "'a list \<Rightarrow> 'a m128" where
  "of_lanes xs = M128 (xs ! 0) (xs ! 1) (xs ! 2) (xs ! 3)"

definition array_more :: "'a elem_more \<Rightarrow> nat \<Rightarrow> ('a list, 'a) storage_more" where
  "array_more EM count = \<lparr>s_count = count, s_make = (\<lambda>xs. xs), s_xy = (\<lambda>_. g_xy), s_zw = (\<lambda>_. g_zw),
     s_setXY = g_setXY, s_setZW = g_setZW, s_concat = g_concat, s_neg = g_map (e_neg EM),
     s_not = g_map (e_not EM)\<rparr>"

definition sse_i32_more :: "simd_features \<Rightarrow> (i32x4, 32 word) storage_more" where
  "sse_i32_more F = \<lparr>s_count = 4, s_make = i4_make_n, s_xy = i4_xy, s_zw = i4_zw,
     s_setXY = i4_setXY F, s_setZW = i4_setZW F, s_concat = i4_concat, s_neg = i4_neg F,
     s_not = i4_not\<rparr>"

definition sse_f32_more :: "simd_features \<Rightarrow> (f32x4, f32) storage_more" where
  "sse_f32_more F = \<lparr>s_count = 4, s_make = f4_make_n, s_xy = f4_xy, s_zw = f4_zw,
     s_setXY = f4_setXY, s_setZW = f4_setZW, s_concat = f4_concat, s_neg = f4_neg,
     s_not = f4_not\<rparr>"

definition sse_rounding :: "simd_features \<Rightarrow> (f32x4, i32x4) float_storage" where
  "sse_rounding F = \<lparr>s_ceil = f4_ceil F, s_floor = f4_floor F, s_rint = f4_rint F, s_trunc = f4_trunc F,
     s_lceil = f4_lceil F, s_lfloor = f4_lfloor F, s_lrint = f4_lrint F, s_lround = f4_lround,
     s_ltrunc = f4_ltrunc\<rparr>"

definition array_rounding :: "(f32 list, 32 word list) float_storage" where
  "array_rounding = \<lparr>s_ceil = g_round ceiling, s_floor = g_round floor, s_rint = g_round rne,
     s_trunc = g_round rtrunc, s_lceil = g_lround ceiling, s_lfloor = g_lround floor,
     s_lrint = g_lround rne, s_lround = g_lround round_away, s_ltrunc = g_lround rtrunc\<rparr>"

lemma array_unary:
  "vec_unary (array_storage E N) E N (\<lambda>s. length s = N) (\<lambda>s. s) (array_more EM N) EM"
  by unfold_locales (simp_all add: array_storage_def array_more_def g_splat_def g_map_def)

interpretation array_ops: vec_unary "array_storage E N" E N "\<lambda>s. length s = N" "\<lambda>s. s"
    "array_more EM N" EM for E N EM
  by (rule array_unary)

lemma storage_lanes_lift1: "storage_lanes N (lift1 f u) = map f (storage_lanes N u)"
  by (simp add: storage_lanes_def take_map)

lemma f4_neg_lanes: "f4_neg v = lift1 f32_neg v"
  by (cases v) (simp add: f4_neg_def mm_set1_def f32_neg_def)

lemma f4_not_lanes: "f4_not v = lift1 (NOT) v"
  by (cases v) (simp add: f4_not_def truth_def bit.xor_cancel_left)

lemma splat_lanes:
  assumes "1 \<le> N" "N \<le> 4"
  shows "storage_lanes N (i4_splat F N x) = replicate N x"
    and "storage_lanes N (f4_splat F N x) = replicate N x"
proof -
  have "N = 1 \<or> N = 2 \<or> N = 3 \<or> N = 4" using assms by auto
  then show "storage_lanes N (i4_splat F N x) = replicate N x"
    and "storage_lanes N (f4_splat F N x) = replicate N x"
    by (auto simp: storage_lanes_def i4_splat_def f4_splat_def mm_set_ss_def mm_set1_def
        mm_setzero_def mm_shuffle_def Let_def numeral_eq_Suc)
qed

lemma sse_unary:
  assumes "1 \<le> N" "N \<le> 4"
  shows "vec_unary (sse_i32_storage F N) i32_elem N (\<lambda>_. True) (storage_lanes N)
      (sse_i32_more F) i32_more"
    and "vec_unary (sse_f32_storage F N) f32_elem N (\<lambda>_. True) (storage_lanes N)
      (sse_f32_more F) f32_more"
  using assms
  by (intro vec_unary.intro vec_unary_axioms.intro sse_contract;
    simp add: sse_i32_storage_def sse_i32_more_def i32_more_def sse_f32_storage_def sse_f32_more_def
        f32_more_def splat_lanes i4_neg_paths i4_not_lanes f4_neg_lanes f4_not_lanes
        storage_lanes_lift1; simp add: storage_lanes_def setAt_lanes)+

interpretation int4_ops: vec_unary "sse_i32_storage F 4" i32_elem 4 "\<lambda>_. True" "storage_lanes 4"
    "sse_i32_more F" i32_more for F
  by (rule sse_unary) simp_all

interpretation float4_ops: vec_unary "sse_f32_storage F 4" f32_elem 4 "\<lambda>_. True" "storage_lanes 4"
    "sse_f32_more F" f32_more for F
  by (rule sse_unary) simp_all

interpretation float2_ops: vec_unary "sse_f32_storage F 2" f32_elem 2 "\<lambda>_. True" "storage_lanes 2"
    "sse_f32_more F" f32_more for F
  by (rule sse_unary) simp_all

section \<open>The two bodies of the program's vectors\<close>

lemma float_div_elems:
  assumes "1 \<le> N" "N \<le> 4"
  shows "storage_lanes N (vec_div c (sse_f32_storage F N) f32_div f4_div N u v)
     = map2 f32_div (storage_lanes N u) (storage_lanes N v)"
proof -
  have "vec_contract (sse_f32_storage F N) f32_elem N (\<lambda>_. True) (storage_lanes N)"
    using assms by (rule sse_contract)
  from vec_contract.loop_full(2) [OF this TrueI TrueI]
  show ?thesis by (simp add: vec_div_def f4_div_def storage_lanes_lift2)
qed

lemma float_ops_elems:
  assumes "1 \<le> N" "N \<le> 4"
  shows "storage_lanes N (vec_add c (sse_f32_storage F N) f32_elem N u v) = map2 f32_add (storage_lanes N u) (storage_lanes N v)"
    and "storage_lanes N (vec_sub c (sse_f32_storage F N) f32_elem N u v) = map2 f32_sub (storage_lanes N u) (storage_lanes N v)"
    and "storage_lanes N (vec_mul c (sse_f32_storage F N) f32_elem N u v) = map2 f32_mul (storage_lanes N u) (storage_lanes N v)"
    and "storage_lanes N (vec_neg c (sse_f32_storage F N) (sse_f32_more F) f32_more N g u) = map f32_neg (storage_lanes N u)"
    and "storage_lanes N (vec_splat c (sse_f32_storage F N) (sse_f32_more F) f32_more N g a) = replicate N a"
    and "storage_lanes N (vec_add_scalar c (sse_f32_storage F N) (sse_f32_more F) f32_elem f32_more N g u a)
       = map (\<lambda>x. f32_add x a) (storage_lanes N u)"
    and "storage_lanes N (vec_sub_scalar c (sse_f32_storage F N) (sse_f32_more F) f32_elem f32_more N g u a)
       = map (\<lambda>x. f32_sub x a) (storage_lanes N u)"
    and "storage_lanes N (vec_mul_scalar c (sse_f32_storage F N) (sse_f32_more F) f32_elem f32_more N g u a)
       = map (\<lambda>x. f32_mul x a) (storage_lanes N u)"
    and "storage_lanes N (vec_div_scalar c (sse_f32_storage F N) (sse_f32_more F) f32_more f32_div f4_div N g u a)
       = map (\<lambda>x. f32_div x a) (storage_lanes N u)"
proof -
  note C = sse_contract(2) [OF assms, of F] and U = sse_unary(2) [OF assms, of F]
  note ops = vec_contract.op_elems [OF C TrueI TrueI] vec_unary.unary_elems [OF U TrueI TrueI]
    vec_unary.scalar_elems [OF U TrueI TrueI] and splat = vec_unary.splat_elems [OF U TrueI]
  show "storage_lanes N (vec_add c (sse_f32_storage F N) f32_elem N u v) = map2 f32_add (storage_lanes N u) (storage_lanes N v)"
    "storage_lanes N (vec_sub c (sse_f32_storage F N) f32_elem N u v) = map2 f32_sub (storage_lanes N u) (storage_lanes N v)"
    "storage_lanes N (vec_mul c (sse_f32_storage F N) f32_elem N u v) = map2 f32_mul (storage_lanes N u) (storage_lanes N v)"
    "storage_lanes N (vec_neg c (sse_f32_storage F N) (sse_f32_more F) f32_more N g u) = map f32_neg (storage_lanes N u)"
    "storage_lanes N (vec_splat c (sse_f32_storage F N) (sse_f32_more F) f32_more N g a) = replicate N a"
    "storage_lanes N (vec_add_scalar c (sse_f32_storage F N) (sse_f32_more F) f32_elem f32_more N g u a)
       = map (\<lambda>x. f32_add x a) (storage_lanes N u)"
    "storage_lanes N (vec_sub_scalar c (sse_f32_storage F N) (sse_f32_more F) f32_elem f32_more N g u a)
       = map (\<lambda>x. f32_sub x a) (storage_lanes N u)"
    "storage_lanes N (vec_mul_scalar c (sse_f32_storage F N) (sse_f32_more F) f32_elem f32_more N g u a)
       = map (\<lambda>x. f32_mul x a) (storage_lanes N u)"
    by (simp_all add: ops splat) (simp_all add: f32_elem_def f32_more_def)
  show "storage_lanes N (vec_div_scalar c (sse_f32_storage F N) (sse_f32_more F) f32_more f32_div f4_div N g u a)
       = map (\<lambda>x. f32_div x a) (storage_lanes N u)"
    using vec_unary.map2_replicate [OF U TrueI] by (simp add: vec_div_scalar_def float_div_elems [OF assms] splat)
qed

lemma int_ops_elems:
  assumes "1 \<le> N" "N \<le> 4"
  shows "storage_lanes N (vec_add c (sse_i32_storage F N) i32_elem N i j) = map2 (+) (storage_lanes N i) (storage_lanes N j)"
    and "storage_lanes N (vec_sub c (sse_i32_storage F N) i32_elem N i j) = map2 (-) (storage_lanes N i) (storage_lanes N j)"
    and "storage_lanes N (vec_mul c (sse_i32_storage F N) i32_elem N i j) = map2 (*) (storage_lanes N i) (storage_lanes N j)"
    and "storage_lanes N (vec_and c (sse_i32_storage F N) i32_elem N i j) = map2 (AND) (storage_lanes N i) (storage_lanes N j)"
    and "storage_lanes N (vec_or c (sse_i32_storage F N) i32_elem N i j) = map2 (OR) (storage_lanes N i) (storage_lanes N j)"
    and "storage_lanes N (vec_xor c (sse_i32_storage F N) i32_elem N i j) = map2 (XOR) (storage_lanes N i) (storage_lanes N j)"
    and "storage_lanes N (vec_neg c (sse_i32_storage F N) (sse_i32_more F) i32_more N h i) = map uminus (storage_lanes N i)"
    and "storage_lanes N (vec_not c (sse_i32_storage F N) (sse_i32_more F) i32_more N h i) = map NOT (storage_lanes N i)"
    and "storage_lanes N (vec_splat c (sse_i32_storage F N) (sse_i32_more F) i32_more N h b) = replicate N b"
proof -
  note C = sse_contract(1) [OF assms, of F] and U = sse_unary(1) [OF assms, of F]
  note ops = vec_contract.op_elems [OF C TrueI TrueI] vec_unary.unary_elems [OF U TrueI TrueI]
    vec_unary.splat_elems [OF U TrueI]
  show "storage_lanes N (vec_add c (sse_i32_storage F N) i32_elem N i j) = map2 (+) (storage_lanes N i) (storage_lanes N j)"
    "storage_lanes N (vec_sub c (sse_i32_storage F N) i32_elem N i j) = map2 (-) (storage_lanes N i) (storage_lanes N j)"
    "storage_lanes N (vec_mul c (sse_i32_storage F N) i32_elem N i j) = map2 (*) (storage_lanes N i) (storage_lanes N j)"
    "storage_lanes N (vec_and c (sse_i32_storage F N) i32_elem N i j) = map2 (AND) (storage_lanes N i) (storage_lanes N j)"
    "storage_lanes N (vec_or c (sse_i32_storage F N) i32_elem N i j) = map2 (OR) (storage_lanes N i) (storage_lanes N j)"
    "storage_lanes N (vec_xor c (sse_i32_storage F N) i32_elem N i j) = map2 (XOR) (storage_lanes N i) (storage_lanes N j)"
    "storage_lanes N (vec_neg c (sse_i32_storage F N) (sse_i32_more F) i32_more N h i) = map uminus (storage_lanes N i)"
    "storage_lanes N (vec_not c (sse_i32_storage F N) (sse_i32_more F) i32_more N h i) = map NOT (storage_lanes N i)"
    "storage_lanes N (vec_splat c (sse_i32_storage F N) (sse_i32_more F) i32_more N h b) = replicate N b"
    by (simp_all add: ops) (simp_all add: i32_elem_def i32_more_def)
qed

text \<open>The operators of two halves.\<close>

lemma halves_lanes:
  "lanes (vec_setXY c (sse_f32_storage F 4) (sse_f32_more F) u v) = take 2 (lanes v) @ drop 2 (lanes u)"
  "lanes (vec_setZW c (sse_f32_storage F 4) (sse_f32_more F) u v) = take 2 (lanes u) @ take 2 (lanes v)"
  "lanes (vec_concat c (sse_f32_storage F 2) (sse_f32_more F) u v) = take 2 (lanes u) @ take 2 (lanes v)"
  "lanes (vec_setXY c (sse_i32_storage F 4) (sse_i32_more F) i j) = take 2 (lanes j) @ drop 2 (lanes i)"
  "lanes (vec_concat c (sse_i32_storage F 2) (sse_i32_more F) i j) = take 2 (lanes i) @ take 2 (lanes j)"
  by (cases u; cases v; cases i; cases j; simp add: vec_setXY_def vec_setZW_def vec_concat_def sse_f32_storage_def
      sse_f32_more_def f4_setXY_def f4_setZW_def f4_concat_def f4_make_n_def f4_make_def f4_at_def
      mm_shuffle_def sse_i32_storage_def sse_i32_more_def i4_make_n_def i4_defs)+


text \<open>On SSE4.1 the two bodies of \<open>setZW\<close> differ for integers.\<close>

lemma int_setZW_differs:
  "vec_setZW True (sse_i32_storage F 4) (sse_i32_more F) (M128 1 2 3 4) (i4_make 5 6 0 0)
     = M128 1 2 5 6
   \<and> (has_sse4_1 F \<longrightarrow>
       vec_setZW False (sse_i32_storage F 4) (sse_i32_more F) (M128 1 2 3 4) (i4_make 5 6 0 0)
     = M128 1 2 0 0)"
  by (simp add: vec_setZW_def sse_i32_storage_def sse_i32_more_def i4_defs)

text \<open>The shifts agree for the counts for which the C++ operator is defined.\<close>

lemma same_int_shift:
  assumes "\<forall>n \<in> set (lanes j). unat n < 32"
  shows "vec_shr True (sse_i32_storage F 4) (\<lambda>a n. signed_drop_bit (unat n) a)
       (\<lambda>i j. of_lanes (i4_shr F 4 i j)) 4 i j
     = vec_shr False (sse_i32_storage F 4) (\<lambda>a n. signed_drop_bit (unat n) a)
       (\<lambda>i j. of_lanes (i4_shr F 4 i j)) 4 i j"
    and "vec_shl True (sse_i32_storage F 4) (\<lambda>a n. push_bit (unat n) a)
       (\<lambda>i j. of_lanes (i4_shl F 4 i j)) 4 i j
     = vec_shl False (sse_i32_storage F 4) (\<lambda>a n. push_bit (unat n) a)
       (\<lambda>i j. of_lanes (i4_shl F 4 i j)) 4 i j"
  using assms
  by (cases i; cases j; simp add: vec_shr_def vec_shl_def sse_i32_storage_def i4_shr_def i4_shl_def
      i4_at_def srav_def sllv_def of_lanes_def numeral_eq_Suc)+

text \<open>A float vector is multiplied by an integer and divided by one lane by lane, after the integer
  was converted to a float.\<close>

lemma mixed_lanes:
  "storage_lanes 4 (vec_mul_int F u k) = map (\<lambda>a. f32_mul a (f32_of_int (sint k))) (lanes u)
   \<and> storage_lanes 4 (vec_div_int (sse_f32_storage F 4) f32_div 4 (\<lambda>k. f32_of_int (sint k)) u k)
     = map (\<lambda>a. f32_div a (f32_of_int (sint k))) (lanes u)"
  by (cases u) (simp add: vec_mul_int_def f4_mul_int_def vec_div_int_def sse_f32_storage_def f4_at_def
      storage_lanes_def mm_set1_def mm_set_ss_def i4_to_f4_def numeral_eq_Suc)

text \<open>The casts to integers of the SSE storage are those of the array storage, except \<open>lround_cast\<close>
  (\<open>lround_below_half\<close>).\<close>

lemma casts_of_both_storages:
  "lanes (lceil_cast (sse_rounding F) v) = lceil_cast array_rounding (lanes v)"
  "lanes (lfloor_cast (sse_rounding F) v) = lfloor_cast array_rounding (lanes v)"
  "lanes (lrint_cast (sse_rounding F) v) = lrint_cast array_rounding (lanes v)"
  "lanes (ltrunc_cast (sse_rounding F) v) = ltrunc_cast array_rounding (lanes v)"
proof -
  have "f4_lceil F v = f4_lceil (feature_tags False False False False) v"
    "f4_lfloor F v = f4_lfloor (feature_tags False False False False) v"
    "f4_lrint F v = f4_lrint (feature_tags False False False False) v"
    by (simp_all only: integer_conversions_agree [of F v "feature_tags False False False False"])
  then show "lanes (lceil_cast (sse_rounding F) v) = lceil_cast array_rounding (lanes v)"
    "lanes (lfloor_cast (sse_rounding F) v) = lfloor_cast array_rounding (lanes v)"
    "lanes (lrint_cast (sse_rounding F) v) = lrint_cast array_rounding (lanes v)"
    "lanes (ltrunc_cast (sse_rounding F) v) = ltrunc_cast array_rounding (lanes v)"
    by (simp_all add: lceil_cast_def lfloor_cast_def lrint_cast_def ltrunc_cast_def sse_rounding_def
        array_rounding_def g_lround_def g_map_def f4_lceil_def f4_lfloor_def f4_lrint_def
        f4_ltrunc_def feature_tags_def)
qed

text \<open>A float vector with unused lanes: \<open>v / v\<close> and \<open>~v\<close> of two elements leave NaNs in the unused
  lanes at run time, and the vector then differs from itself; the compile-time comparison reads the
  two elements only.\<close>

lemma two_element_nan:
  "let v = vec_not False (sse_f32_storage F 2) (sse_f32_more F) f32_more 2 g (f4_make_n [NOT 0x3F800000, NOT 0x40000000])
   in vec_eq True (sse_f32_storage F 2) f32_elem 2 v v
      \<and> \<not> vec_eq False (sse_f32_storage F 2) f32_elem 2 v v"
  by (simp add: Let_def vec_not_def vec_eq_def sse_f32_storage_def sse_f32_more_def f4_make_n_def
      f4_make_def f4_not_lanes f32_elem_def f4_eq_def f4_at_def f32_eq_def f32_nan_def f32_mag_def
      inf_mag_def upt_conv_Cons mm_movemask_all_def)

text \<open>C33: An operator on the program's vectors gives the same elements in a constant expression (\<open>c\<close>) and
  at run time (\<open>\<not> c\<close>), on every instruction set \<open>F\<close>: those of the operation applied element by element.
  For vectors of one to four elements: addition, subtraction, multiplication and division of two float vectors
  and of a float vector and a scalar, and negation; addition, subtraction, multiplication, the bitwise
  operators, negation and complement of integer vectors, which wrap around; and the constructor from a scalar,
  of both.  For four elements: \<open>setXY\<close> and the constructor from two halves, of both, and \<open>setZW\<close> of floats; that of
  integers differs on SSE4.1 (\<open>int_setZW_differs\<close>).\<close>

theorem operators_same_at_compile_and_run_time:
  assumes "1 \<le> N" "N \<le> 4"
  shows "storage_lanes N (vec_add c (sse_f32_storage F N) f32_elem N u v) = map2 f32_add (storage_lanes N u) (storage_lanes N v)
   \<and> storage_lanes N (vec_sub c (sse_f32_storage F N) f32_elem N u v) = map2 f32_sub (storage_lanes N u) (storage_lanes N v)
   \<and> storage_lanes N (vec_mul c (sse_f32_storage F N) f32_elem N u v) = map2 f32_mul (storage_lanes N u) (storage_lanes N v)
   \<and> storage_lanes N (vec_div c (sse_f32_storage F N) f32_div f4_div N u v) = map2 f32_div (storage_lanes N u) (storage_lanes N v)
   \<and> storage_lanes N (vec_neg c (sse_f32_storage F N) (sse_f32_more F) f32_more N g u) = map f32_neg (storage_lanes N u)
   \<and> storage_lanes N (vec_splat c (sse_f32_storage F N) (sse_f32_more F) f32_more N g a) = replicate N a
   \<and> storage_lanes N (vec_add_scalar c (sse_f32_storage F N) (sse_f32_more F) f32_elem f32_more N g u a)
     = map (\<lambda>x. f32_add x a) (storage_lanes N u)
   \<and> storage_lanes N (vec_sub_scalar c (sse_f32_storage F N) (sse_f32_more F) f32_elem f32_more N g u a)
     = map (\<lambda>x. f32_sub x a) (storage_lanes N u)
   \<and> storage_lanes N (vec_mul_scalar c (sse_f32_storage F N) (sse_f32_more F) f32_elem f32_more N g u a)
     = map (\<lambda>x. f32_mul x a) (storage_lanes N u)
   \<and> storage_lanes N (vec_div_scalar c (sse_f32_storage F N) (sse_f32_more F) f32_more f32_div f4_div N g u a)
     = map (\<lambda>x. f32_div x a) (storage_lanes N u)
   \<and> storage_lanes N (vec_add c (sse_i32_storage F N) i32_elem N i j) = map2 (+) (storage_lanes N i) (storage_lanes N j)
   \<and> storage_lanes N (vec_sub c (sse_i32_storage F N) i32_elem N i j) = map2 (-) (storage_lanes N i) (storage_lanes N j)
   \<and> storage_lanes N (vec_mul c (sse_i32_storage F N) i32_elem N i j) = map2 (*) (storage_lanes N i) (storage_lanes N j)
   \<and> storage_lanes N (vec_and c (sse_i32_storage F N) i32_elem N i j) = map2 (AND) (storage_lanes N i) (storage_lanes N j)
   \<and> storage_lanes N (vec_or c (sse_i32_storage F N) i32_elem N i j) = map2 (OR) (storage_lanes N i) (storage_lanes N j)
   \<and> storage_lanes N (vec_xor c (sse_i32_storage F N) i32_elem N i j) = map2 (XOR) (storage_lanes N i) (storage_lanes N j)
   \<and> storage_lanes N (vec_neg c (sse_i32_storage F N) (sse_i32_more F) i32_more N h i) = map uminus (storage_lanes N i)
   \<and> storage_lanes N (vec_not c (sse_i32_storage F N) (sse_i32_more F) i32_more N h i) = map NOT (storage_lanes N i)
   \<and> storage_lanes N (vec_splat c (sse_i32_storage F N) (sse_i32_more F) i32_more N h b) = replicate N b
   \<and> lanes (vec_setXY c (sse_f32_storage F 4) (sse_f32_more F) u v) = take 2 (lanes v) @ drop 2 (lanes u)
   \<and> lanes (vec_setZW c (sse_f32_storage F 4) (sse_f32_more F) u v) = take 2 (lanes u) @ take 2 (lanes v)
   \<and> lanes (vec_concat c (sse_f32_storage F 2) (sse_f32_more F) u v) = take 2 (lanes u) @ take 2 (lanes v)
   \<and> lanes (vec_setXY c (sse_i32_storage F 4) (sse_i32_more F) i j) = take 2 (lanes j) @ drop 2 (lanes i)
   \<and> lanes (vec_concat c (sse_i32_storage F 2) (sse_i32_more F) i j) = take 2 (lanes i) @ take 2 (lanes j)"
  by (intro conjI float_ops_elems [OF assms] float_div_elems [OF assms] int_ops_elems [OF assms] halves_lanes)

lemma operators_same_at_compile_and_run_time_witness:
  "storage_lanes 2 (vec_mul False (sse_i32_storage (feature_tags False False False False) 2) i32_elem 2
     (M128 3 0xFFFFFFFF 0 0) (M128 5 2 7 7)) = [15, 0xFFFFFFFE]"
proof -
  have "storage_lanes 2 (vec_mul False (sse_i32_storage (feature_tags False False False False) 2) i32_elem 2
     (M128 3 0xFFFFFFFF 0 0) (M128 5 2 7 7))
     = map2 (*) (storage_lanes 2 (M128 3 0xFFFFFFFF 0 0)) (storage_lanes 2 (M128 5 2 7 7))"
    using operators_same_at_compile_and_run_time [of 2] by simp
  then show ?thesis by (simp add: storage_lanes_def)
qed

end
