(* ===== verification/Spec2Isabelle.thy ===== *)
theory Spec2Isabelle
  imports Window_Properties Threads_Properties App_Properties Navigation Resources Callbacks MenuFlyout VecOps
begin

text \<open>
  Roxy Glance watches the windows of a Windows desktop and moves and resizes them by rules that the
  user keeps in a YAML file.  This development models the C++ code of \<open>src/src/\<close> that decides what
  happens and proves what it does; the comment before a definition names the lines it translates.

  \<^bold>\<open>The program.\<close>  A settings store reads the file, turns each element of \<open>rules\<close> into a rule
  (\<open>when\<close>: triggers, \<open>where\<close>: a filter, \<open>then\<close>: an action) and publishes the document to its
  listeners.  The rule engine is one: it compiles each rule into a trigger word, a set of
  predicates and an operation.  A worker thread owns an event hook; its procedure keeps the cache of
  window states in step with the events and notifies the engine, which runs on each event the rules whose
  trigger and predicates hold.  An operation computes a rectangle from the monitor cache and the
  window's shadow margin with the vector classes and moves the window.  A second worker thread owns the
  message window and the tray icon; its display-change message rebuilds the monitor cache.  Every
  component logs into one ring.  The application context starts these parts, and the settings window
  shows the log, the monitors and the editor of the rules.

  \<^bold>\<open>Theories, from the bottom.\<close>
  \<^item> \<open>Prelude\<close>: machine types, results that carry an exception, lemmas on lists and words.
    \<open>Hresult\<close>: \<open>win32/hresult.h\<close>.  \<open>WinString\<close>: \<open>win32/string.cc\<close>, UTF-8 and UTF-16 through a
    stack buffer with a fallback.
  \<^item> \<open>Float32\<close>: binary32 on its bits.  \<open>Numeric\<close>: \<open>numeric/common.h\<close> and \<open>numeric/x86/\<close>, the array
    and the SSE storages with every instruction-set path.  \<open>Vec\<close>, \<open>VecOps\<close>: the members of
    \<open>numeric.h\<close> with their compile-time and run-time bodies.
  \<^item> \<open>Errors\<close>, \<open>ParseMessage\<close>: \<open>settings/ParseError\<close>, the constants and the texts of diagnostics.
    \<open>Yaml\<close>: the tree of the YAML library as an interface.  \<open>NodeHelper\<close>, \<open>SettingsAction\<close>,
    \<open>Triggers\<close>, \<open>UserSettings\<close>: \<open>settings/\<close>, from one node to the store.  \<open>ActionTree\<close>: an action and the
    tree it writes to.  \<open>FileIo\<close>:
    \<open>win32/file.cc\<close>.
  \<^item> \<open>Registry\<close>: \<open>utility/ListenerHost\<close> and \<open>CallbackHost\<close>.  \<open>Callbacks\<close>: the
    callback host of the monitor cache under several threads, with \<open>win32/SRWLock.h\<close> and the life of
    \<open>MonitorsViewModel\<close>; an execution is a list of actions, each the next step of one thread, so that
    a list is an interleaving.  \<open>Logging\<close>: \<open>logging/\<close>.
    \<open>ValueCache\<close>: \<open>utility/ValueCache.h\<close>.  \<open>Utility\<close>: \<open>utility/random.h\<close>, \<open>backoff/\<close> and
    \<open>RetryState\<close>.
  \<^item> \<open>Process\<close>: \<open>win32/process.cc\<close>.  \<open>Window\<close>: \<open>win32/window.cc\<close> and \<open>window/\<close>.
    \<open>WindowEvents\<close>: the queue between the desktop and the procedure of the event hook.  \<open>Monitor\<close>:
    \<open>win32/monitor.cc\<close> and \<open>monitor/\<close>.  \<open>Operations\<close>, \<open>Compiler\<close>, \<open>RuleEngine\<close>: \<open>engine/\<close> and
    \<open>compiler/\<close>.
  \<^item> \<open>Threads\<close>: \<open>win32/MessageLoopThreadController\<close>, \<open>WinEventHookController\<close>, \<open>WindowController\<close>
    and \<open>ThreadContext.h\<close>.  \<open>TrayIcon\<close>, \<open>MessageWindow\<close>: \<open>win32/TrayIcon\<close> and \<open>message/\<close>.
    \<open>App\<close>: \<open>context/\<close> and \<open>debug/\<close>, the wiring and the start-up.  \<open>Startup\<close>: the threads that the start-up
    begins and leaves.
  \<^item> \<open>RuleEditor\<close>: \<open>winui3/ViewModels/Settings\<close>, the objects the rule editor is bound to.  \<open>Shell\<close>:
    \<open>winui3/ViewModels/Logging\<close> and \<open>Shell\<close>, which follow the log and the monitor cache through the
    dispatcher queue, and \<open>winui3/App.xaml.cc\<close>.  \<open>SettingsPage\<close>: \<open>winui3/Views\<close>, \<open>Controls\<close>,
    \<open>Converters\<close>, \<open>Helpers/KeyboardModifiers.h\<close>, \<open>main.cc\<close> and \<open>win32/process_mitigation.cc\<close>.
    \<open>Navigation\<close>: the frame and the menu of \<open>Views/SettingsWindow\<close>, the template selector
    and the activation that a second instance hands over.  \<open>MenuFlyout\<close>:
    \<open>Helpers/MenuFlyoutHelper\<close> and \<open>app/winrt/weak_delegate.h\<close>.  \<open>Resources\<close>:
    \<open>FormatResourceString\<close> of \<open>win32/string\<close> and the string resources it is used with.
  \<^item> \<open>Instances\<close>: a concrete codec, YAML tree, file system and desktop.  \<open>Settings_Properties\<close>,
    \<open>Window_Properties\<close>, \<open>Threads_Properties\<close>, \<open>App_Properties\<close>, \<open>RuleEditor_Properties\<close>: the properties
    that need more than one component, and the application of every property with hypotheses to the instances.

  \<^bold>\<open>How the code is read.\<close>  A class is a record of its members, a method a function that returns the
  record updated; an enumeration is a datatype with the source's constructors and a function for
  its codes.  \<open>uint32_t\<close>, \<open>DWORD\<close>, \<open>HRESULT\<close> and \<open>float\<close> are 32-bit words.  A function that may throw
  returns \<open>exn + 'a\<close>; an exception that leaves a \<open>noexcept\<close> function ends the process, which is
  \<open>None\<close>, as is undefined behaviour where the text says so.  Shared state is passed explicitly.

  \<^bold>\<open>Parameters.\<close>  What is not in \<open>src/\<close> is a field of a record of calls: the Win32 functions
  (\<open>text_api\<close>, \<open>file_api\<close>, \<open>win_api\<close>, \<open>mon_api\<close>, \<open>thread_api\<close>, \<open>msg_api\<close>, \<open>main_api\<close>, over a world
  \<open>'w\<close>), the frame of the settings window (\<open>frame_api\<close>), the YAML tree (\<open>ryml\<close>, \<open>editor_api\<close>), the resources (\<open>shell_text\<close>) and the random
  distribution.  A property that relies on what such a call does names the law
  it needs (\<open>hr_law\<close>, \<open>fs_law\<close>, the \<open>yaml_\<close> laws, \<open>enum_monitors_law\<close>, \<open>uniform_law\<close>,
  \<open>stop_clock\<close>, \<open>exit_law\<close>, \<open>thread_law\<close>, \<open>quiet_law\<close>, \<open>flags_law\<close> and others), and its witness runs on a provider proved to obey it.

  \<^bold>\<open>What is shown.\<close>  Settings: triggers, match texts and numbers written are read back, with the
  exact exceptions; an action is loaded as its setters left it; the rules of a document are those of its
  elements that parse, in order; a load ends
  in one of the listed outcomes; a saved file is either the old or the new content; move values stay in
  range.  Numbers: the rounding functions agree on every instruction set, the conversions with each
  other, and both bodies of an operator, at compile time and at run time, apply it element by element.
  Windows: events reach the hook's procedure after the fact and in order; whatever changes on the desktop
  and whatever has been delivered, a cached answer is the system's unless an event about its window is still
  queued or was lost with the window; the getters answer that; the engine
  runs on an event exactly the rules whose filter holds (a refinement of a specification on the
  system's answers); a placed window lies in the work area; the monitor cache is the enumeration
  or, after a failure, what it was.  Registrations and logs stay bounded.  Retries: delays double
  within their limits without wrap-around.  Threads: the reachable states of a controller, and that a
  stop ends within its attempts and never abandons a running thread.  Start-up: either everything runs or
  it fails and no thread it began is left, and the settings are read by a fixed schedule of attempts; the tray has one icon and
  keeps no orphan.  User interface: the rule editor offers each filter key once; applying its changes makes
  the rule what is shown and is done once; a save writes the document the editors made, exactly when
  something changed; the log view
  shows the ring without the changes still queued; the list of monitors offers the ids the compiler
  resolves; there is at most one settings window, released on closing and on exit; a menu flyout shows
  its source.  The monitor cache under threads: in every interleaving a callback reaches only a view that
  is built and whose destructor has not yet removed it; when the threads are done the view shows the
  current storage, unless the display changed while the view was built or the dispatcher refused the
  list; from every reachable state the removal of a registration can be completed, except where a callback
  called its own host, after which the lock is never free again.

  \<^bold>\<open>Interfaces.\<close>  \<open>registry\<close> (both registration lists), \<open>backoff_policy\<close> with its sublocale to
  \<open>retry_state\<close> (the policies and the retry states over them), \<open>value_cache\<close> (the caches of window and
  monitor states), \<open>vec_contract\<close> and \<open>vec_unary\<close>, which extends it (the storages of the vectors), \<open>settings_view_model\<close> (the editor objects'
  pending changes) and the locales of the settings and
  numeric theories state contracts once; each is interpreted on the code's definitions.

  \<^bold>\<open>Bounds and fuel.\<close>  The loop over the children of a trigger sequence has the number of children
  plus one as fuel, which \<open>Triggers\<close> shows to be enough.  The loops that query a process name, the
  displays and a thread's exit terminate by a measure; the walk over sibling windows and other loops whose
  end depends on the system are partial functions whose \<open>None\<close> is a loop that does not end.

  \<^bold>\<open>Not modelled.\<close>  The layout of the pages and the title bar's colours: calls into WinUI with no
  logic of their own.  Property and command holders and destructors that only unregister.  \<open>numeric/neon\<close>: macros of a target that is not built.
  The range checks of floats are those compiled without \<open>_M_FP_FAST\<close>, except in \<open>makeRelative_build\<close>,
  which has the build's switch.  \<open>hook_start\<close> is one step although the source releases the controller's mutex
  between the start of the thread, the wait for it and the new retry factory, so a stop from another thread
  in between is not covered.
  Locks other than that of \<open>Callbacks\<close> are not modelled as such: the operations they guard are single
  steps.  Time stamps are
  parameters.  The third-party containers are modelled by their documented behaviour.
\<close>

end
